(* ===== verification/Prelude.thy ===== *)
theory Prelude
  imports Complex_Main "HOL-Library.AList" "HOL-Library.Char_ord"
    "HOL-Library.List_Lexorder" "HOL-Library.Product_Lexorder"
begin

section \<open>Shared vocabulary: time, dictionaries, strings, step machines\<close>

text \<open>
  This theory holds what the component theories share:
  \<^item> \<open>time\<close>: the value of a Python clock. The code only adds, subtracts and compares
    clock values, so a float is read as the rational number it denotes (rounding of a
    float addition is not modelled).
  \<^item> \<open>dict\<close>: a Python dictionary as an association list in insertion order. Overwriting
    a key keeps its position and a new key goes to the end, as in CPython.
  \<^item> string predicates for the regular expressions and the \<open>str\<close> methods the code uses.
    A \<open>str\<close> is a list of characters with code points below 256.
  \<^item> \<open>sorted_set\<close>: \<open>tuple(sorted(set(xs)))\<close>.
  \<^item> two locales for step machines: an invariant kept by every step, and a preorder every
    step moves along.
\<close>

named_theorems store_simps "rewrite rules of the store operations"
named_theorems inv_intros "preservation of invariants"

type_synonym time = rat

subsection \<open>Dictionaries\<close>

type_synonym ('k, 'v) dict = "('k \<times> 'v) list"

definition dget :: "('k, 'v) dict \<Rightarrow> 'k \<Rightarrow> 'v option" where
  "dget d k = map_of d k"

definition dset :: "('k, 'v) dict \<Rightarrow> 'k \<Rightarrow> 'v \<Rightarrow> ('k, 'v) dict" where
  "dset d k v = AList.update k v d"

definition dpop :: "('k, 'v) dict \<Rightarrow> 'k \<Rightarrow> ('k, 'v) dict" where
  "dpop d k = AList.delete k d"

definition dkeys :: "('k, 'v) dict \<Rightarrow> 'k list" where
  "dkeys d = map fst d"

definition dvalues :: "('k, 'v) dict \<Rightarrow> 'v list" where
  "dvalues d = map snd d"

definition dict_ok :: "('k, 'v) dict \<Rightarrow> bool" where
  "dict_ok d \<longleftrightarrow> distinct (map fst d)"

lemma dget_Nil [simp]: "dget [] k = None"
  by (simp add: dget_def)

lemma dget_Cons [simp]: "dget ((k, v) # d) k' = (if k' = k then Some v else dget d k')"
  by (simp add: dget_def)

lemma dget_dset [simp]: "dget (dset d k v) k' = (if k' = k then Some v else dget d k')"
  by (simp add: dget_def dset_def update_conv')

lemma dget_dpop [simp]: "dget (dpop d k) k' = (if k' = k then None else dget d k')"
  by (simp add: dget_def dpop_def delete_conv')

lemma dict_ok_Nil [simp]: "dict_ok []"
  by (simp add: dict_ok_def)

lemma dict_ok_dset [simp, intro]: "dict_ok d \<Longrightarrow> dict_ok (dset d k v)"
  by (simp add: dict_ok_def dset_def distinct_update)

lemma dict_ok_dpop [simp, intro]: "dict_ok d \<Longrightarrow> dict_ok (dpop d k)"
  by (simp add: dict_ok_def dpop_def distinct_delete)

lemma dict_ok_filter [simp, intro]: "dict_ok d \<Longrightarrow> dict_ok (filter P d)"
  by (induction d) (auto simp: dict_ok_def)

lemma dget_in_dvalues: "dget d k = Some v \<Longrightarrow> v \<in> set (dvalues d)"
  by (force simp: dget_def dvalues_def dest: map_of_SomeD)

lemma in_dvalues_dget: "dict_ok d \<Longrightarrow> v \<in> set (dvalues d) \<Longrightarrow> \<exists>k. dget d k = Some v"
  by (auto simp: dget_def dvalues_def dict_ok_def)

lemma in_dkeys_iff: "k \<in> set (dkeys d) \<longleftrightarrow> dget d k \<noteq> None"
  by (force simp: dget_def dkeys_def map_of_eq_None_iff)

lemma dset_Nil [simp]: "dset [] k v = [(k, v)]"
  by (simp add: dset_def)

lemma dset_Cons [simp]:
  "dset ((k', v') # d) k v = (if k' = k then (k, v) # d else (k', v') # dset d k v)"
  by (simp add: dset_def)

lemma dpop_Nil [simp]: "dpop [] k = []"
  by (simp add: dpop_def)

lemma dpop_Cons [simp]:
  "dpop ((k', v') # d) k = (if k' = k then dpop d k else (k', v') # dpop d k)"
  by (simp add: dpop_def)

subsection \<open>Strings\<close>

definition is_digit :: "char \<Rightarrow> bool" where
  "is_digit c \<longleftrightarrow> CHR ''0'' \<le> c \<and> c \<le> CHR ''9''"

definition is_lower :: "char \<Rightarrow> bool" where
  "is_lower c \<longleftrightarrow> CHR ''a'' \<le> c \<and> c \<le> CHR ''z''"

definition is_upper :: "char \<Rightarrow> bool" where
  "is_upper c \<longleftrightarrow> CHR ''A'' \<le> c \<and> c \<le> CHR ''Z''"

definition is_alnum :: "char \<Rightarrow> bool" where
  "is_alnum c \<longleftrightarrow> is_digit c \<or> is_lower c \<or> is_upper c"

definition is_hex :: "char \<Rightarrow> bool" where
  "is_hex c \<longleftrightarrow> is_digit c \<or> (CHR ''a'' \<le> c \<and> c \<le> CHR ''f'')"

definition is_ascii :: "char \<Rightarrow> bool" where
  "is_ascii c \<longleftrightarrow> c < CHR 0x80"

text \<open>\<open>str.isspace\<close> for code points below 256.\<close>

definition is_space :: "char \<Rightarrow> bool" where
  "is_space c \<longleftrightarrow> (CHR 0x09 \<le> c \<and> c \<le> CHR 0x0D) \<or> (CHR 0x1C \<le> c \<and> c \<le> CHR 0x20)
     \<or> c = CHR 0x85 \<or> c = CHR 0xA0"

definition strip :: "string \<Rightarrow> string" where
  "strip s = rev (dropWhile is_space (rev (dropWhile is_space s)))"

text \<open>\<open>len(s.encode("utf-8"))\<close> for code points below 256.\<close>

definition utf8_len :: "string \<Rightarrow> nat" where
  "utf8_len s = length s + length (filter (\<lambda>c. \<not> is_ascii c) s)"

definition starts_with :: "string \<Rightarrow> string \<Rightarrow> bool" where
  "starts_with p s \<longleftrightarrow> take (length p) s = p"

text \<open>The regular expression \<open>^[0-9a-f]{n}$\<close> under \<open>fullmatch\<close>.\<close>

definition hex_of_length :: "nat \<Rightarrow> string \<Rightarrow> bool" where
  "hex_of_length n s \<longleftrightarrow> length s = n \<and> list_all is_hex s"

lemma is_hex_ascii: "is_hex c \<Longrightarrow> is_ascii c"
  by (auto simp: is_hex_def is_digit_def is_ascii_def less_eq_char_def less_char_def)

lemma list_all_hex_ascii: "list_all is_hex s \<Longrightarrow> list_all is_ascii s"
  by (auto simp: list_all_iff is_hex_ascii)

subsection \<open>Sorted tuples of distinct strings\<close>

definition sorted_set :: "'a::linorder list \<Rightarrow> 'a list" where
  "sorted_set xs = sort (remdups xs)"

lemma set_sorted_set [simp]: "set (sorted_set xs) = set xs"
  by (simp add: sorted_set_def)

lemma sorted_sorted_set [simp]: "sorted (sorted_set xs)"
  by (simp add: sorted_set_def)

lemma distinct_sorted_set [simp]: "distinct (sorted_set xs)"
  by (simp add: sorted_set_def)

lemma sorted_set_cong: "set xs = set ys \<Longrightarrow> sorted_set xs = sorted_set ys"
  by (rule sorted_distinct_set_unique) simp_all

lemma sorted_set_id: "sorted xs \<Longrightarrow> distinct xs \<Longrightarrow> sorted_set xs = xs"
  by (simp add: sorted_set_def sort_key_id_if_sorted distinct_remdups_id)

lemma sorted_set_idem [simp]: "sorted_set (sorted_set xs) = sorted_set xs"
  by (rule sorted_set_id) simp_all

lemma sorted_set_Nil_iff [simp]: "sorted_set xs = [] \<longleftrightarrow> xs = []"
  by (metis set_empty set_sorted_set)

subsection \<open>Operations that may raise\<close>

text \<open>
  An operation on a store returns its value or the exception it raises, and the store as it
  is then: an exception after a mutation leaves the mutation in place, as in Python.
\<close>

type_synonym ('e, 'a, 's) outcome = "('e + 'a) \<times> 's"

definition bind_op :: "('e, 'a, 's) outcome \<Rightarrow> ('a \<Rightarrow> 's \<Rightarrow> ('e, 'b, 's) outcome) \<Rightarrow> ('e, 'b, 's) outcome" where
  "bind_op r f = (case r of (Inl e, s) \<Rightarrow> (Inl e, s) | (Inr x, s) \<Rightarrow> f x s)"

lemma bind_op_simps [simp]:
  "bind_op (Inl e, s) f = (Inl e, s)" "bind_op (Inr x, s) f = f x s"
  by (simp_all add: bind_op_def)

lemma bind_op_Inr:
  "bind_op r f = (Inr y, t) \<Longrightarrow> \<exists>x s. r = (Inr x, s) \<and> f x s = (Inr y, t)"
  by (auto simp: bind_op_def split: prod.splits sum.splits)

text \<open>\<open>clock() if now is None else now\<close>; \<open>clk i\<close> is the \<open>i\<close>-th reading of the clock during
  the operation.\<close>

definition current_time :: "time option \<Rightarrow> (nat \<Rightarrow> time) \<Rightarrow> time" where
  "current_time now clk = (case now of None \<Rightarrow> clk 0 | Some t \<Rightarrow> t)"

subsection \<open>Step machines\<close>

text \<open>
  A component whose operations are the constructors of a datatype is a step function;
  \<open>ok\<close> says which operation may happen in which state (an identifier drawn by
  \<open>uuid4\<close> is new). A run is a list of operations.
\<close>

fun run :: "('s \<Rightarrow> 'op \<Rightarrow> 's) \<Rightarrow> 's \<Rightarrow> 'op list \<Rightarrow> 's" where
  "run step s [] = s"
| "run step s (x # xs) = run step (step s x) xs"

fun run_ok :: "('s \<Rightarrow> 'op \<Rightarrow> 's) \<Rightarrow> ('s \<Rightarrow> 'op \<Rightarrow> bool) \<Rightarrow> 's \<Rightarrow> 'op list \<Rightarrow> bool" where
  "run_ok step ok s [] = True"
| "run_ok step ok s (x # xs) = (ok s x \<and> run_ok step ok (step s x) xs)"

lemma run_append: "run step s (xs @ ys) = run step (run step s xs) ys"
  by (induction xs arbitrary: s) auto

lemma run_ok_append:
  "run_ok step ok s (xs @ ys) \<longleftrightarrow> run_ok step ok s xs \<and> run_ok step ok (run step s xs) ys"
  by (induction xs arbitrary: s) auto

lemma run_ok_True: "run_ok step (\<lambda>s x. True) s xs"
  by (induction xs arbitrary: s) auto

locale invariant_machine =
  fixes step :: "'s \<Rightarrow> 'op \<Rightarrow> 's"
    and ok :: "'s \<Rightarrow> 'op \<Rightarrow> bool"
    and inv :: "'s \<Rightarrow> bool"
  assumes inv_step: "inv s \<Longrightarrow> ok s x \<Longrightarrow> inv (step s x)"
begin

lemma inv_run: "inv s \<Longrightarrow> run_ok step ok s xs \<Longrightarrow> inv (run step s xs)"
  by (induction xs arbitrary: s) (auto intro: inv_step)

end

text \<open>
  When every step moves along a preorder, so does every run: what the preorder says of two
  states holds between a state and everything that can happen after it.
\<close>

locale monotone_machine = invariant_machine step ok inv
  for step :: "'s \<Rightarrow> 'op \<Rightarrow> 's"
    and ok :: "'s \<Rightarrow> 'op \<Rightarrow> bool"
    and inv :: "'s \<Rightarrow> bool" +
  fixes later :: "'s \<Rightarrow> 's \<Rightarrow> bool"
  assumes later_refl: "later s s"
    and later_trans: "later s t \<Longrightarrow> later t u \<Longrightarrow> later s u"
    and later_step: "inv s \<Longrightarrow> ok s x \<Longrightarrow> later s (step s x)"
begin

lemma later_run: "inv s \<Longrightarrow> run_ok step ok s xs \<Longrightarrow> later s (run step s xs)"
proof (induction xs arbitrary: s)
  case Nil
  then show ?case by (simp add: later_refl)
next
  case (Cons x xs)
  then have "later s (step s x)" and "later (step s x) (run step (step s x) xs)"
    by (auto intro: later_step inv_step)
  then show ?case by (auto intro: later_trans)
qed

end

subsection \<open>Fencing\<close>

text \<open>
  A lease carries the generation it was granted with. Where the component accepts only a
  lease of the current generation and generations never decrease, a lease that has been
  superseded is refused from then on, whatever happens in between.
\<close>

locale fencing = monotone_machine step ok inv later
  for step :: "'s \<Rightarrow> 'op \<Rightarrow> 's"
    and ok :: "'s \<Rightarrow> 'op \<Rightarrow> bool"
    and inv :: "'s \<Rightarrow> bool"
    and later :: "'s \<Rightarrow> 's \<Rightarrow> bool" +
  fixes generation :: "'s \<Rightarrow> 'k \<Rightarrow> int"
    and key_of :: "'l \<Rightarrow> 'k"
    and gen_of :: "'l \<Rightarrow> int"
    and accepts :: "'s \<Rightarrow> 'l \<Rightarrow> bool"
  assumes accepts_current: "inv s \<Longrightarrow> accepts s l \<Longrightarrow> gen_of l = generation s (key_of l)"
    and generation_mono: "later s t \<Longrightarrow> generation s k \<le> generation t k"
begin

lemma generation_run:
  "inv s \<Longrightarrow> run_ok step ok s xs \<Longrightarrow> generation s k \<le> generation (run step s xs) k"
  by (blast intro: generation_mono later_run)

lemma fenced:
  assumes "inv s" "run_ok step ok s xs" "gen_of l < generation s (key_of l)"
  shows "\<not> accepts (run step s xs) l"
proof
  assume "accepts (run step s xs) l"
  then have "gen_of l = generation (run step s xs) (key_of l)"
    using assms by (blast intro: accepts_current inv_run)
  then show False using generation_run[OF assms(1,2), of "key_of l"] assms(3) by simp
qed

end

end
