(* ===== verification/Contracts.thy ===== *)
theory Contracts
  imports Prelude
begin

section \<open>Protocol contracts\<close>

text \<open>
  The enumerations of \<open>core/lil_tweak/contracts.py\<close>. A \<open>StrEnum\<close> is a datatype with
  the function from a member to its string value and the partial function back, which is
  what calling the enumeration class on a string does (\<open>None\<close> is Python's \<open>ValueError\<close>).
  Job states are ordered as the class declares them.
\<close>

datatype job_mode = BUILD | DEBUG | REFACTOR | TEST | ARCHITECT | CHAT

fun job_mode_value :: "job_mode \<Rightarrow> string" where
  "job_mode_value BUILD = ''build''"
| "job_mode_value DEBUG = ''debug''"
| "job_mode_value REFACTOR = ''refactor''"
| "job_mode_value TEST = ''test''"
| "job_mode_value ARCHITECT = ''architect''"
| "job_mode_value CHAT = ''chat''"

definition job_mode_of :: "string \<Rightarrow> job_mode option" where
  "job_mode_of s = find (\<lambda>m. job_mode_value m = s) [BUILD, DEBUG, REFACTOR, TEST, ARCHITECT, CHAT]"

datatype job_state = DRAFT | QUEUED | INGESTING | PLANNING | EXECUTING | TESTING | COLLECTING
  | AWAITING_APPROVAL | APPLYING | COMPLETED | REJECTED | CANCELLED | FAILED | TIMED_OUT

fun job_state_value :: "job_state \<Rightarrow> string" where
  "job_state_value DRAFT = ''draft''"
| "job_state_value QUEUED = ''queued''"
| "job_state_value INGESTING = ''ingesting''"
| "job_state_value PLANNING = ''planning''"
| "job_state_value EXECUTING = ''executing''"
| "job_state_value TESTING = ''testing''"
| "job_state_value COLLECTING = ''collecting''"
| "job_state_value AWAITING_APPROVAL = ''awaiting_approval''"
| "job_state_value APPLYING = ''applying''"
| "job_state_value COMPLETED = ''completed''"
| "job_state_value REJECTED = ''rejected''"
| "job_state_value CANCELLED = ''cancelled''"
| "job_state_value FAILED = ''failed''"
| "job_state_value TIMED_OUT = ''timed_out''"

definition job_states :: "job_state list" where
  "job_states = [DRAFT, QUEUED, INGESTING, PLANNING, EXECUTING, TESTING, COLLECTING,
     AWAITING_APPROVAL, APPLYING, COMPLETED, REJECTED, CANCELLED, FAILED, TIMED_OUT]"

definition job_state_of :: "string \<Rightarrow> job_state option" where
  "job_state_of s = find (\<lambda>x. job_state_value x = s) job_states"

fun job_state_rank :: "job_state \<Rightarrow> nat" where
  "job_state_rank DRAFT = 0"
| "job_state_rank QUEUED = 1"
| "job_state_rank INGESTING = 2"
| "job_state_rank PLANNING = 3"
| "job_state_rank EXECUTING = 4"
| "job_state_rank TESTING = 5"
| "job_state_rank COLLECTING = 6"
| "job_state_rank AWAITING_APPROVAL = 7"
| "job_state_rank APPLYING = 8"
| "job_state_rank COMPLETED = 9"
| "job_state_rank REJECTED = 10"
| "job_state_rank CANCELLED = 11"
| "job_state_rank FAILED = 12"
| "job_state_rank TIMED_OUT = 13"

lemma job_state_rank_inj: "job_state_rank s = job_state_rank t \<Longrightarrow> s = t"
  by (cases s; cases t) simp_all

instantiation job_state :: linorder
begin

definition less_eq_job_state :: "job_state \<Rightarrow> job_state \<Rightarrow> bool" where
  "less_eq_job_state s t \<longleftrightarrow> job_state_rank s \<le> job_state_rank t"

definition less_job_state :: "job_state \<Rightarrow> job_state \<Rightarrow> bool" where
  "less_job_state s t \<longleftrightarrow> job_state_rank s < job_state_rank t"

instance
  by standard
    (auto simp: less_eq_job_state_def less_job_state_def intro: job_state_rank_inj)

end

datatype side_effect = READ_LOCAL | WRITE_LOCAL | TEST_LOCAL | COMMIT | PUSH | DEPLOY | PUBLISH
  | EXTERNAL_DELETE | SEND_MESSAGE | SPEND

fun side_effect_value :: "side_effect \<Rightarrow> string" where
  "side_effect_value READ_LOCAL = ''read_local''"
| "side_effect_value WRITE_LOCAL = ''write_local''"
| "side_effect_value TEST_LOCAL = ''test_local''"
| "side_effect_value COMMIT = ''commit''"
| "side_effect_value PUSH = ''push''"
| "side_effect_value DEPLOY = ''deploy''"
| "side_effect_value PUBLISH = ''publish''"
| "side_effect_value EXTERNAL_DELETE = ''external_delete''"
| "side_effect_value SEND_MESSAGE = ''send_message''"
| "side_effect_value SPEND = ''spend''"

definition side_effect_of :: "string \<Rightarrow> side_effect option" where
  "side_effect_of s = find (\<lambda>x. side_effect_value x = s)
     [READ_LOCAL, WRITE_LOCAL, TEST_LOCAL, COMMIT, PUSH, DEPLOY, PUBLISH, EXTERNAL_DELETE,
      SEND_MESSAGE, SPEND]"

definition terminal_states :: "job_state list" where
  "terminal_states = [COMPLETED, REJECTED, CANCELLED, FAILED, TIMED_OUT]"

lemma job_mode_of_value [simp]: "job_mode_of (job_mode_value m) = Some m"
  by (cases m) (simp_all add: job_mode_of_def)

lemma job_state_of_value [simp]: "job_state_of (job_state_value s) = Some s"
  by (cases s) (simp_all add: job_state_of_def job_states_def)

lemma side_effect_of_value [simp]: "side_effect_of (side_effect_value e) = Some e"
  by (cases e) (simp_all add: side_effect_of_def)

lemma job_state_of_Some: "job_state_of v = Some s \<longleftrightarrow> v = job_state_value s"
proof
  assume "job_state_of v = Some s"
  then show "v = job_state_value s" by (auto simp: job_state_of_def find_Some_iff)
qed simp

lemma terminal_rank: "s \<in> set terminal_states \<longleftrightarrow> COMPLETED \<le> s"
  by (cases s) (simp_all add: terminal_states_def less_eq_job_state_def)

end
