(* ===== verification/StatePolicy.thy ===== *)
theory StatePolicy
  imports Contracts
begin

section \<open>Job-state and side-effect policy\<close>

text \<open>
  \<open>core/lil_tweak/state.py\<close>: which side effects need an owner's approval, and
  \<open>transition\<close>, the only function that decides whether a job may move from one state to
  another. Its exceptions are the values of \<open>policy_error\<close>; \<open>PolicyTypeError\<close> is the
  \<open>TypeError\<close> that \<open>hmac.compare_digest\<close> raises on strings that are not ASCII.
\<close>

datatype policy_error = InvalidTransition | ApprovalRequired | PolicyTypeError

definition approval_required_effects :: "side_effect list" where
  "approval_required_effects =
     [COMMIT, PUSH, DEPLOY, PUBLISH, EXTERNAL_DELETE, SEND_MESSAGE, SPEND]"

definition approval_required :: "side_effect \<Rightarrow> bool" where
  "approval_required effect \<longleftrightarrow> effect \<in> set approval_required_effects"

fun forward :: "job_state \<Rightarrow> job_state list" where
  "forward DRAFT = [QUEUED]"
| "forward QUEUED = [INGESTING]"
| "forward INGESTING = [PLANNING]"
| "forward PLANNING = [EXECUTING]"
| "forward EXECUTING = [TESTING, COLLECTING]"
| "forward TESTING = [COLLECTING]"
| "forward COLLECTING = [AWAITING_APPROVAL, COMPLETED]"
| "forward AWAITING_APPROVAL = [APPLYING, REJECTED]"
| "forward APPLYING = [COMPLETED]"
| "forward _ = []"

definition exceptional :: "job_state list" where
  "exceptional = [CANCELLED, FAILED, TIMED_OUT]"

definition hmac_digest_equal :: "string \<Rightarrow> string \<Rightarrow> policy_error + bool" where
  "hmac_digest_equal l r =
     (if list_all is_ascii l \<and> list_all is_ascii r then Inr (l = r) else Inl PolicyTypeError)"

text \<open>A Python \<open>str | None\<close> or \<open>Mapping | None\<close> is true when it is present and non-empty.\<close>

fun truthy :: "'a list option \<Rightarrow> bool" where
  "truthy None = False"
| "truthy (Some xs) = (xs \<noteq> [])"

definition transition :: "job_state \<Rightarrow> job_state \<Rightarrow> string option \<Rightarrow> 'm list option
    \<Rightarrow> string option \<Rightarrow> bool \<Rightarrow> bool \<Rightarrow> policy_error + job_state" where
  "transition current target proposal_digest evidence_manifest approved_digest
     approval_recorded approval_consumed =
     (if current \<in> set terminal_states then Inl InvalidTransition
      else if target \<notin> set (forward current) \<and> target \<notin> set exceptional
        then Inl InvalidTransition
      else if target = AWAITING_APPROVAL \<and> \<not> (truthy proposal_digest \<and> truthy evidence_manifest)
        then Inl ApprovalRequired
      else if target = APPLYING then
        (case (proposal_digest, approved_digest) of
           (Some p, Some a) \<Rightarrow>
             if p = [] \<or> a = [] then Inl ApprovalRequired
             else (case hmac_digest_equal p a of
                 Inl e \<Rightarrow> Inl e
               | Inr equal \<Rightarrow>
                   if equal \<and> approval_recorded \<and> \<not> approval_consumed then Inr target
                   else Inl ApprovalRequired)
         | _ \<Rightarrow> Inl ApprovalRequired)
      else Inr target)"

subsection \<open>What the policy guarantees\<close>

lemma transition_target: "transition s t p m a r c = Inr u \<Longrightarrow> u = t"
  by (auto simp: transition_def split: if_splits option.splits sum.splits prod.splits)

lemma transition_allowed:
  "transition s t p m a r c = Inr u \<Longrightarrow> t \<in> set (forward s) \<or> t \<in> set exceptional"
  by (auto simp: transition_def split: if_splits)

lemma transition_from_terminal [simp]:
  "s \<in> set terminal_states \<Longrightarrow> transition s t p m a r c = Inl InvalidTransition"
  by (simp add: transition_def)

lemma transition_not_terminal:
  "transition s t p m a r c = Inr u \<Longrightarrow> s \<notin> set terminal_states"
  by (auto simp: transition_def split: if_splits)

lemma transition_applying:
  "transition s APPLYING p m a r c = Inr u \<longleftrightarrow>
     u = APPLYING \<and> s = AWAITING_APPROVAL \<and> p = a \<and> truthy p \<and> list_all is_ascii (the p) \<and> r \<and> \<not> c"
  by (cases s) (auto simp: transition_def terminal_states_def exceptional_def hmac_digest_equal_def
      split: option.splits)

lemma transition_exceptional:
  "t \<in> set exceptional \<Longrightarrow> s \<notin> set terminal_states \<Longrightarrow> transition s t p m a r c = Inr t"
  by (auto simp: transition_def exceptional_def)

lemma forward_increases: "t \<in> set (forward s) \<Longrightarrow> s < t"
  by (cases s) (auto simp: less_job_state_def)

lemma exceptional_increases:
  "t \<in> set exceptional \<Longrightarrow> s \<notin> set terminal_states \<Longrightarrow> s < t"
  by (cases s) (auto simp: less_job_state_def exceptional_def terminal_states_def)

lemma transition_increases: "transition s t p m a r c = Inr u \<Longrightarrow> s < u"
  by (metis transition_target transition_allowed transition_not_terminal
      forward_increases exceptional_increases)

lemma transition_awaiting:
  "transition s AWAITING_APPROVAL p m a r c = Inr u \<Longrightarrow> s = COLLECTING \<and> truthy p \<and> truthy m"
  by (cases s) (auto simp: transition_def exceptional_def split: if_splits)

lemma transition_completed:
  "transition s COMPLETED p m a r c = Inr u \<Longrightarrow> s = COLLECTING \<or> s = APPLYING"
  by (cases s) (auto simp: transition_def exceptional_def split: if_splits)

end
