(* ===== verification/JobStore.thy ===== *)
theory JobStore
  imports StatePolicy PyValue
begin

section \<open>The job store\<close>

text \<open>
  \<open>MemoryJobStore\<close> of \<open>core/lil_tweak/store.py\<close>: the store's nine dictionaries as a record
  and one definition per method. The lock makes every method atomic, so a method is a
  function from the store to its result and the store after it. Parameters of the model:
  \<^item> \<open>sha\<close>: \<open>hashlib.sha256(...).hexdigest()\<close> on a byte string, \<open>fr\<close>: \<open>float.__repr__\<close>;
  \<^item> \<open>clk\<close>: the successive readings of the store's clock during the call;
  \<^item> \<open>new_id\<close>: the identifier \<open>uuid.uuid4()\<close> returns.
  The deep copies that the methods return (\<open>_copy_job\<close>) are the values themselves here.
\<close>

subsection \<open>Data\<close>

datatype store_error = IdempotencyConflict | StaleRevision | StaleLease | ApprovalError
  | JobNotFound | PolicyError policy_error | ValueError string | KeyError

record source_spec =
  src_source_id :: string
  src_filename :: string
  src_media_type :: string
  src_size_bytes :: int
  src_object_key :: string
  src_sha256 :: "string option"

record git_source_spec =
  git_repository_url :: string
  git_commit :: string

record job_lease =
  lease_job_id :: string
  lease_owner_id :: string
  lease_worker_id :: string
  lease_generation :: int
  lease_expires_at :: time

record job =
  job_id :: string
  job_owner_id :: string
  job_mode :: job_mode
  job_prompt :: string
  job_state :: job_state
  job_revision :: int
  job_proposal_digest :: "string option"
  job_evidence_manifest :: "pydict option"
  job_evidence_created_at :: "(string, time) dict"
  job_summary :: string
  job_sources :: "source_spec list"
  job_source_digest :: "string option"
  job_approval_proposal :: "pydict option"
  job_approval_consumed :: bool
  job_project_context :: "pydict option"
  job_git_source :: "git_source_spec option"
  job_created_at :: time
  job_updated_at :: time
  job_cancel_requested :: bool
  job_lease_owner :: "string option"
  job_lease_generation :: int
  job_lease_expires_at :: "time option"

record job_event =
  ev_job_id :: string
  ev_sequence :: nat
  ev_kind :: string
  ev_data :: pydict
  ev_created_at :: time

record approval =
  ap_token_hash :: string
  ap_job_id :: string
  ap_owner_id :: string
  ap_revision :: int
  ap_proposal_digest :: string
  ap_source_digest :: string
  ap_action :: string
  ap_target :: string
  ap_policy_version :: string
  ap_resource_profile :: pydict
  ap_expires_at :: time
  ap_consumed :: bool
  ap_consumed_at :: "time option"

record job_store =
  nonces :: "(string \<times> string, time) dict"
  jobs :: "(string, job) dict"
  idempotency :: "(string \<times> string, string \<times> string) dict"
  events :: "(string, job_event list) dict"
  approvals :: "(string, approval) dict"
  approval_index :: "(string \<times> int \<times> string, string) dict"
  decisions :: "(string \<times> string, string \<times> string) dict"
  claims :: "(string, job_lease) dict"
  lease_generations :: "(string, int) dict"

definition empty_store :: job_store where
  "empty_store = \<lparr>nonces = [], jobs = [], idempotency = [], events = [], approvals = [],
     approval_index = [], decisions = [], claims = [], lease_generations = []\<rparr>"

type_synonym 'a store_outcome = "(store_error, 'a, job_store) outcome"

subsection \<open>Audit events\<close>

definition empty_events :: "string list" where
  "empty_events = [''queued'', ''ingesting'', ''planning'', ''executing'', ''testing'',
     ''collecting'', ''awaiting_approval'', ''rejected'', ''failed'', ''timed_out'']"

definition code_events :: "string list" where
  "code_events = [''admission_unavailable'', ''source_intake_failed'', ''galor_unavailable'',
     ''engineering_failed'']"

definition field_is :: "(pyval \<Rightarrow> bool) \<Rightarrow> pydict \<Rightarrow> string \<Rightarrow> bool" where
  "field_is P d k = (case dget d k of None \<Rightarrow> False | Some v \<Rightarrow> P v)"

fun hex64_value :: "pyval \<Rightarrow> bool" where
  "hex64_value (PStr s) = hex_of_length 64 s"
| "hex64_value _ = False"

fun str64_value :: "pyval \<Rightarrow> bool" where
  "str64_value (PStr s) = (length s = 64)"
| "str64_value _ = False"

definition valid_event_data :: "string \<Rightarrow> pydict \<Rightarrow> bool" where
  "valid_event_data kind value =
     (if kind \<in> set empty_events then value = []
      else if kind \<in> set code_events then value = [(''code'', PStr kind)]
      else if kind = ''cancel_requested'' then
        set (dkeys value) = {''revision''} \<and> field_is is_int value ''revision''
      else if kind = ''cancelled'' then
        value = []
        \<or> (set (dkeys value) = {''revision''} \<and> field_is is_int value ''revision'')
        \<or> value = [(''code'', PStr ''cancelled'')]
      else if kind = ''applying'' then value = [(''action'', PStr ''export_patch'')]
      else if kind = ''completed'' then value = [] \<or> value = [(''action'', PStr ''export_patch'')]
      else if kind = ''approval_required'' then
        dget value ''action'' = Some (PStr ''export_patch'')
        \<and> set (dkeys value) = {''action'', ''proposal_digest'', ''source_digest'', ''revision''}
        \<and> field_is is_int value ''revision''
        \<and> field_is hex64_value value ''proposal_digest''
        \<and> field_is hex64_value value ''source_digest''
      else if kind = ''approved'' then
        set (dkeys value) = {''revision'', ''proposal_digest'', ''source_digest'', ''expires_at''}
        \<and> field_is is_int value ''revision''
        \<and> field_is is_number value ''expires_at''
        \<and> field_is str64_value value ''proposal_digest''
        \<and> field_is str64_value value ''source_digest''
      else False)"

definition validated_event_data :: "string \<Rightarrow> pydict option \<Rightarrow> store_error + pydict" where
  "validated_event_data kind data =
     (let value = (case data of None \<Rightarrow> [] | Some d \<Rightarrow> d)
      in if valid_event_data kind value then Inr value else Inl (ValueError ''invalid audit event''))"

definition append_event_locked ::
  "job_store \<Rightarrow> string \<Rightarrow> string \<Rightarrow> pydict \<Rightarrow> time \<Rightarrow> job_event store_outcome" where
  "append_event_locked s jid kind data t =
     (case dget (events s) jid of
        None \<Rightarrow> (Inl KeyError, s)
      | Some evs \<Rightarrow>
          let e = \<lparr>ev_job_id = jid, ev_sequence = length evs + 1, ev_kind = kind, ev_data = data,
                   ev_created_at = t\<rparr>
          in (Inr e, s\<lparr>events := dset (events s) jid (evs @ [e])\<rparr>))"

subsection \<open>Nonces\<close>

definition consume_nonce :: "(nat \<Rightarrow> time) \<Rightarrow> job_store \<Rightarrow> string \<Rightarrow> string \<Rightarrow> bool \<times> job_store" where
  "consume_nonce clk s key_id nonce =
     (if key_id = [] \<or> nonce = [] then (False, s)
      else
        let cutoff = clk 0 - 600;
            kept = filter (\<lambda>(item, consumed_at). cutoff < consumed_at) (nonces s);
            s' = s\<lparr>nonces := kept\<rparr>
        in if dget kept (key_id, nonce) \<noteq> None then (False, s')
           else (True, s'\<lparr>nonces := dset kept (key_id, nonce) (clk 1)\<rparr>))"

subsection \<open>Leases\<close>

definition unclaimable_states :: "job_state list" where
  "unclaimable_states = [AWAITING_APPROVAL, COMPLETED, REJECTED, CANCELLED, FAILED, TIMED_OUT]"

definition unexpired :: "time \<Rightarrow> job_lease option \<Rightarrow> bool" where
  "unexpired now claim = (case claim of None \<Rightarrow> False | Some c \<Rightarrow> now < lease_expires_at c)"

definition generation_of :: "job_store \<Rightarrow> string \<Rightarrow> int" where
  "generation_of s jid = (case dget (lease_generations s) jid of None \<Rightarrow> 0 | Some g \<Rightarrow> g)"

definition claim_job :: "(nat \<Rightarrow> time) \<Rightarrow> job_store \<Rightarrow> string \<Rightarrow> string \<Rightarrow> string \<Rightarrow> int \<Rightarrow> time option
    \<Rightarrow> job_lease option store_outcome" where
  "claim_job clk s jid owner worker lease_seconds now =
     (let t = current_time now clk in
      if worker = [] \<or> lease_seconds \<le> 0 then (Inl (ValueError ''invalid lease''), s)
      else case dget (jobs s) jid of
        None \<Rightarrow> (Inr None, s)
      | Some job \<Rightarrow>
          if job_owner_id job \<noteq> owner \<or> job_state job \<in> set unclaimable_states then (Inr None, s)
          else if unexpired t (dget (claims s) jid) then (Inr None, s)
          else
            let generation = generation_of s jid + 1;
                claimed = \<lparr>lease_job_id = jid, lease_owner_id = owner, lease_worker_id = worker,
                  lease_generation = generation, lease_expires_at = t + of_int lease_seconds\<rparr>
            in (Inr (Some claimed),
                s\<lparr>lease_generations := dset (lease_generations s) jid generation,
                  claims := dset (claims s) jid claimed\<rparr>))"

definition renew_claim :: "(nat \<Rightarrow> time) \<Rightarrow> job_store \<Rightarrow> job_lease \<Rightarrow> int \<Rightarrow> time option
    \<Rightarrow> job_lease store_outcome" where
  "renew_claim clk s lease lease_seconds now =
     (let t = current_time now clk in
      if lease_seconds \<le> 0 then (Inl (ValueError ''invalid lease''), s)
      else case dget (claims s) (lease_job_id lease) of
        None \<Rightarrow> (Inl StaleLease, s)
      | Some current \<Rightarrow>
          if lease_owner_id current \<noteq> lease_owner_id lease
             \<or> lease_worker_id current \<noteq> lease_worker_id lease
             \<or> lease_generation current \<noteq> lease_generation lease
             \<or> lease_expires_at current \<le> t
          then (Inl StaleLease, s)
          else
            let renewed = current\<lparr>lease_expires_at := t + of_int lease_seconds\<rparr>
            in (Inr renewed, s\<lparr>claims := dset (claims s) (lease_job_id lease) renewed\<rparr>))"

definition release_claim :: "job_store \<Rightarrow> job_lease \<Rightarrow> job_store" where
  "release_claim s lease =
     (case dget (claims s) (lease_job_id lease) of
        None \<Rightarrow> s
      | Some current \<Rightarrow>
          if lease_owner_id current = lease_owner_id lease
             \<and> lease_worker_id current = lease_worker_id lease
             \<and> lease_generation current = lease_generation lease
          then s\<lparr>claims := dpop (claims s) (lease_job_id lease)\<rparr>
          else s)"

subsection \<open>Scheduling and recovery\<close>

text \<open>\<open>sorted(self._jobs.values(), key=lambda item: (item.created_at, item.id))\<close>\<close>

definition jobs_in_order :: "job_store \<Rightarrow> job list" where
  "jobs_in_order s = sort_key (\<lambda>j. (job_created_at j, job_id j)) (dvalues (jobs s))"

definition list_schedulable_jobs :: "(nat \<Rightarrow> time) \<Rightarrow> job_store \<Rightarrow> time option \<Rightarrow> int
    \<Rightarrow> store_error + job list" where
  "list_schedulable_jobs clk s now limit =
     (let t = current_time now clk in
      if \<not> (1 \<le> limit \<and> limit \<le> 1000) then Inl (ValueError ''invalid scheduler limit'')
      else Inr (take (nat limit)
        (filter (\<lambda>j. job_state j = QUEUED \<and> \<not> unexpired t (dget (claims s) (job_id j)))
          (jobs_in_order s))))"

definition active_states :: "job_state list" where
  "active_states = [INGESTING, PLANNING, EXECUTING, TESTING, COLLECTING, APPLYING]"

text \<open>The first approval, in insertion order, that is bound to the job's proposal.\<close>

definition approval_for :: "job_store \<Rightarrow> job \<Rightarrow> approval option" where
  "approval_for s job = find (\<lambda>a. ap_job_id a = job_id job \<and> ap_owner_id a = job_owner_id job
     \<and> Some (ap_proposal_digest a) = job_proposal_digest job) (dvalues (approvals s))"

text \<open>The state a job without a live lease is put back to; \<open>None\<close> leaves it alone.\<close>

definition reconcile_target :: "job_store \<Rightarrow> time \<Rightarrow> job \<Rightarrow> job_state option" where
  "reconcile_target s t job =
     (if job_state job = APPLYING then
        (case approval_for s job of
           Some a \<Rightarrow>
             if \<not> ap_consumed a then (if t < ap_expires_at a then None else Some TIMED_OUT)
             else Some COMPLETED
         | None \<Rightarrow> Some TIMED_OUT)
      else Some QUEUED)"

definition reconcile_one :: "time \<Rightarrow> time \<Rightarrow> int \<Rightarrow> job \<Rightarrow> job list \<Rightarrow> job_store
    \<Rightarrow> job list store_outcome" where
  "reconcile_one tick t limit job recovered s =
     (if limit \<le> int (length recovered) \<or> job_state job \<notin> set active_states then (Inr recovered, s)
      else if unexpired t (dget (claims s) (job_id job)) then (Inr recovered, s)
      else case reconcile_target s t job of
        None \<Rightarrow> (Inr recovered, s)
      | Some target \<Rightarrow>
          let updated = job\<lparr>job_state := target, job_revision := job_revision job + 1,
                job_updated_at := t\<rparr>;
              s' = s\<lparr>jobs := dset (jobs s) (job_id job) updated,
                claims := dpop (claims s) (job_id job)\<rparr>;
              event_data = (if target = COMPLETED then [(''action'', PStr ''export_patch'')] else [])
          in bind_op (append_event_locked s' (job_id job) (job_state_value target) event_data tick)
               (\<lambda>_ s''. (Inr (if target = QUEUED then recovered @ [updated] else recovered), s'')))"

fun reconcile_loop :: "(nat \<Rightarrow> time) \<Rightarrow> nat \<Rightarrow> time \<Rightarrow> int \<Rightarrow> job list \<Rightarrow> job list \<Rightarrow> job_store
    \<Rightarrow> job list store_outcome" where
  "reconcile_loop clk i t limit [] recovered s = (Inr recovered, s)"
| "reconcile_loop clk i t limit (job # rest) recovered s =
     bind_op (reconcile_one (clk i) t limit job recovered s)
       (reconcile_loop clk (Suc i) t limit rest)"

definition reconcile_active_jobs :: "(nat \<Rightarrow> time) \<Rightarrow> job_store \<Rightarrow> time option \<Rightarrow> int
    \<Rightarrow> job list store_outcome" where
  "reconcile_active_jobs clk s now limit =
     reconcile_loop clk 1 (current_time now clk) limit (jobs_in_order s) [] s"

subsection \<open>Creating and reading jobs\<close>

definition source_value :: "source_spec \<Rightarrow> pyval" where
  "source_value src = PDict
     [(''id'', PStr (src_source_id src)), (''filename'', PStr (src_filename src)),
      (''media_type'', PStr (src_media_type src)), (''size_bytes'', PInt (src_size_bytes src)),
      (''object_key'', PStr (src_object_key src)),
      (''sha256'', case src_sha256 src of None \<Rightarrow> PNone | Some d \<Rightarrow> PStr d)]"

definition request_value :: "job_mode \<Rightarrow> string \<Rightarrow> source_spec list \<Rightarrow> pydict option
    \<Rightarrow> git_source_spec option \<Rightarrow> pyval" where
  "request_value mode prompt sources project_context git_source = PDict
     [(''mode'', PStr (job_mode_value mode)), (''prompt'', PStr prompt),
      (''sources'', PList (map source_value sources)),
      (''project_context'', case project_context of None \<Rightarrow> PNone | Some d \<Rightarrow> PDict d),
      (''git_source'', case git_source of None \<Rightarrow> PNone
         | Some g \<Rightarrow> PDict [(''repository_url'', PStr (git_repository_url g)),
                            (''commit'', PStr (git_commit g))])]"

definition request_fingerprint :: "(string \<Rightarrow> string) \<Rightarrow> (rat \<Rightarrow> string) \<Rightarrow> job_mode \<Rightarrow> string
    \<Rightarrow> source_spec list \<Rightarrow> pydict option \<Rightarrow> git_source_spec option \<Rightarrow> string" where
  "request_fingerprint sha fr mode prompt sources project_context git_source =
     sha (dumps fr True (request_value mode prompt sources project_context git_source))"

definition new_job :: "string \<Rightarrow> string \<Rightarrow> job_mode \<Rightarrow> string \<Rightarrow> source_spec list \<Rightarrow> pydict option
    \<Rightarrow> git_source_spec option \<Rightarrow> time \<Rightarrow> job" where
  "new_job jid owner mode prompt sources project_context git_source t =
     \<lparr>job_id = jid, job_owner_id = owner, job_mode = mode, job_prompt = prompt,
      job_state = DRAFT, job_revision = 0, job_proposal_digest = None,
      job_evidence_manifest = None, job_evidence_created_at = [], job_summary = [],
      job_sources = sources, job_source_digest = None, job_approval_proposal = None,
      job_approval_consumed = False, job_project_context = project_context,
      job_git_source = git_source, job_created_at = t, job_updated_at = t,
      job_cancel_requested = False, job_lease_owner = None, job_lease_generation = 0,
      job_lease_expires_at = None\<rparr>"

text \<open>\<open>self._jobs[job_id]\<close>, which raises \<open>KeyError\<close> on a missing key.\<close>

definition stored_job :: "job_store \<Rightarrow> string \<Rightarrow> job store_outcome" where
  "stored_job s jid = (case dget (jobs s) jid of None \<Rightarrow> (Inl KeyError, s) | Some j \<Rightarrow> (Inr j, s))"

definition create_job :: "(string \<Rightarrow> string) \<Rightarrow> (rat \<Rightarrow> string) \<Rightarrow> (nat \<Rightarrow> time) \<Rightarrow> string
    \<Rightarrow> job_store \<Rightarrow> string \<Rightarrow> string \<Rightarrow> job_mode \<Rightarrow> string \<Rightarrow> source_spec list \<Rightarrow> pydict option
    \<Rightarrow> git_source_spec option \<Rightarrow> job store_outcome" where
  "create_job sha fr clk new_id s owner key mode prompt sources project_context git_source =
     (if owner = [] \<or> key = [] \<or> strip prompt = []
        then (Inl (ValueError ''owner, idempotency key, and prompt are required''), s)
      else
        let fp = request_fingerprint sha fr mode prompt sources project_context git_source in
        case dget (idempotency s) (owner, key) of
          Some (jid, previous) \<Rightarrow>
            if previous \<noteq> fp then (Inl IdempotencyConflict, s) else stored_job s jid
        | None \<Rightarrow>
            let job = new_job new_id owner mode prompt sources project_context git_source (clk 0)
            in (Inr job,
                s\<lparr>jobs := dset (jobs s) new_id job,
                  idempotency := dset (idempotency s) (owner, key) (new_id, fp),
                  events := dset (events s) new_id []\<rparr>))"

definition get_job :: "job_store \<Rightarrow> string \<Rightarrow> string \<Rightarrow> job option" where
  "get_job s jid owner =
     (case dget (jobs s) jid of
        None \<Rightarrow> None
      | Some j \<Rightarrow> if job_owner_id j \<noteq> owner then None else Some j)"

subsection \<open>Moving a job\<close>

text \<open>The keyword arguments of \<open>update_job\<close> beside the target state.\<close>

record job_fields =
  f_proposal_digest :: "string option"
  f_evidence_manifest :: "pydict option"
  f_approved_digest :: "string option"
  f_approval_consumed :: bool
  f_summary :: "string option"
  f_source_digest :: "string option"
  f_approval_proposal :: "pydict option"
  f_lease :: "job_lease option"

definition no_fields :: job_fields where
  "no_fields = \<lparr>f_proposal_digest = None, f_evidence_manifest = None, f_approved_digest = None,
     f_approval_consumed = False, f_summary = None, f_source_digest = None,
     f_approval_proposal = None, f_lease = None\<rparr>"

definition or_else :: "string option \<Rightarrow> string option \<Rightarrow> string option" where
  "or_else a b = (if truthy a then a else b)"

text \<open>The lease check of \<open>update_job\<close>: a worker must hold the live lease, and a caller without
  a lease must not overtake a worker that does.\<close>

definition lease_allows :: "job_store \<Rightarrow> time \<Rightarrow> string \<Rightarrow> string \<Rightarrow> job_lease option \<Rightarrow> bool" where
  "lease_allows s t jid owner lease =
     (case lease of
        Some l \<Rightarrow>
          (case dget (claims s) jid of
             None \<Rightarrow> False
           | Some current \<Rightarrow>
               lease_job_id l = jid \<and> lease_owner_id l = owner
               \<and> lease_worker_id l = lease_worker_id current
               \<and> lease_generation l = lease_generation current
               \<and> t < lease_expires_at current)
      | None \<Rightarrow> \<not> unexpired t (dget (claims s) jid))"

fun set_defaults :: "(string, time) dict \<Rightarrow> string list \<Rightarrow> time \<Rightarrow> (string, time) dict" where
  "set_defaults d [] t = d"
| "set_defaults d (name # names) t =
     set_defaults (if dget d name = None then dset d name t else d) names t"

definition moved_job :: "job \<Rightarrow> job_state \<Rightarrow> job_fields \<Rightarrow> time \<Rightarrow> job" where
  "moved_job j target f t =
     j\<lparr>job_state := target,
       job_revision := job_revision j + 1,
       job_proposal_digest := or_else (f_proposal_digest f) (job_proposal_digest j),
       job_evidence_manifest :=
         (case f_evidence_manifest f of None \<Rightarrow> job_evidence_manifest j | Some m \<Rightarrow> Some m),
       job_evidence_created_at :=
         (case f_evidence_manifest f of None \<Rightarrow> job_evidence_created_at j
          | Some m \<Rightarrow> set_defaults (job_evidence_created_at j) (dkeys m) t),
       job_updated_at := t,
       job_summary := (case f_summary f of None \<Rightarrow> job_summary j | Some x \<Rightarrow> x),
       job_source_digest := or_else (f_source_digest f) (job_source_digest j),
       job_approval_proposal :=
         (case f_approval_proposal f of None \<Rightarrow> job_approval_proposal j | Some p \<Rightarrow> Some p),
       job_approval_consumed := job_approval_consumed j \<or> f_approval_consumed f\<rparr>"

definition update_job :: "(nat \<Rightarrow> time) \<Rightarrow> job_store \<Rightarrow> string \<Rightarrow> string \<Rightarrow> int \<Rightarrow> job_state
    \<Rightarrow> job_fields \<Rightarrow> job store_outcome" where
  "update_job clk s jid owner expected_revision target f =
     (case dget (jobs s) jid of
        None \<Rightarrow> (Inl JobNotFound, s)
      | Some current \<Rightarrow>
          if job_owner_id current \<noteq> owner then (Inl JobNotFound, s)
          else if job_revision current \<noteq> expected_revision then (Inl StaleRevision, s)
          else if \<not> lease_allows s (clk 0) jid owner (f_lease f) then (Inl StaleLease, s)
          else (case transition (job_state current) target (f_proposal_digest f)
                  (f_evidence_manifest f) (f_approved_digest f) False (f_approval_consumed f) of
              Inl e \<Rightarrow> (Inl (PolicyError e), s)
            | Inr state \<Rightarrow>
                let updated = moved_job current state f (clk 0)
                in (Inr updated, s\<lparr>jobs := dset (jobs s) jid updated\<rparr>)))"

definition append_event :: "(nat \<Rightarrow> time) \<Rightarrow> job_store \<Rightarrow> string \<Rightarrow> string \<Rightarrow> string
    \<Rightarrow> pydict option \<Rightarrow> job_event store_outcome" where
  "append_event clk s jid owner kind data =
     (if kind = [] then (Inl (ValueError ''event kind is required''), s)
      else case validated_event_data kind data of
        Inl e \<Rightarrow> (Inl e, s)
      | Inr value \<Rightarrow>
          (case get_job s jid owner of
             None \<Rightarrow> (Inl JobNotFound, s)
           | Some _ \<Rightarrow> append_event_locked s jid kind value (clk 0)))"

definition transition_job :: "(nat \<Rightarrow> time) \<Rightarrow> job_store \<Rightarrow> string \<Rightarrow> string \<Rightarrow> int \<Rightarrow> job_state
    \<Rightarrow> string \<Rightarrow> pydict option \<Rightarrow> job_fields \<Rightarrow> job store_outcome" where
  "transition_job clk s jid owner expected_revision target event_kind event_data f =
     (case validated_event_data event_kind event_data of
        Inl e \<Rightarrow> (Inl e, s)
      | Inr value \<Rightarrow>
          bind_op (update_job clk s jid owner expected_revision target f)
            (\<lambda>moved s1. bind_op (append_event_locked s1 jid event_kind value (clk 1))
              (\<lambda>_ s2. (Inr moved, s2))))"

definition list_events :: "job_store \<Rightarrow> string \<Rightarrow> string \<Rightarrow> store_error + job_event list" where
  "list_events s jid owner =
     (case get_job s jid owner of
        None \<Rightarrow> Inl JobNotFound
      | Some _ \<Rightarrow> (case dget (events s) jid of None \<Rightarrow> Inl KeyError | Some evs \<Rightarrow> Inr evs))"

subsection \<open>Cancellation\<close>

definition cancelled_job :: "job \<Rightarrow> time \<Rightarrow> job" where
  "cancelled_job j t =
     j\<lparr>job_state := (if job_state j \<in> {AWAITING_APPROVAL, APPLYING} then CANCELLED else job_state j),
       job_cancel_requested := True,
       job_revision := job_revision j + 1,
       job_updated_at := t\<rparr>"

text \<open>The checks that \<open>request_cancel\<close> and \<open>request_cancel_idempotent\<close> share.\<close>

definition cancellable :: "job_store \<Rightarrow> string \<Rightarrow> string \<Rightarrow> int \<Rightarrow> store_error + job" where
  "cancellable s jid owner expected_revision =
     (case dget (jobs s) jid of
        None \<Rightarrow> Inl JobNotFound
      | Some current \<Rightarrow>
          if job_owner_id current \<noteq> owner then Inl JobNotFound
          else if job_revision current \<noteq> expected_revision then Inl StaleRevision
          else (case transition (job_state current) CANCELLED None (None :: pydict option)
                  None False False of
              Inl e \<Rightarrow> Inl (PolicyError e)
            | Inr _ \<Rightarrow> Inr current))"

definition request_cancel :: "(nat \<Rightarrow> time) \<Rightarrow> job_store \<Rightarrow> string \<Rightarrow> string \<Rightarrow> int
    \<Rightarrow> job store_outcome" where
  "request_cancel clk s jid owner expected_revision =
     (case cancellable s jid owner expected_revision of
        Inl e \<Rightarrow> (Inl e, s)
      | Inr current \<Rightarrow>
          let updated = cancelled_job current (clk 0)
          in (Inr updated, s\<lparr>jobs := dset (jobs s) jid updated\<rparr>))"

text \<open>The lookup that makes a decision idempotent: \<open>Inr (Some job)\<close> replays the recorded one,
  \<open>Inr None\<close> lets a first call go on.\<close>

definition replayed_decision :: "job_store \<Rightarrow> string \<Rightarrow> string \<Rightarrow> string \<Rightarrow> string
    \<Rightarrow> store_error + job option" where
  "replayed_decision s owner key request_hash jid =
     (case dget (decisions s) (owner, key) of
        None \<Rightarrow> Inr None
      | Some existing \<Rightarrow>
          if existing \<noteq> (request_hash, jid) then Inl IdempotencyConflict
          else (case dget (jobs s) jid of None \<Rightarrow> Inl KeyError | Some j \<Rightarrow> Inr (Some j)))"

definition request_cancel_idempotent :: "(nat \<Rightarrow> time) \<Rightarrow> job_store \<Rightarrow> string \<Rightarrow> string \<Rightarrow> int
    \<Rightarrow> string \<Rightarrow> string \<Rightarrow> job store_outcome" where
  "request_cancel_idempotent clk s jid owner expected_revision key request_hash =
     (case replayed_decision s owner key request_hash jid of
        Inl e \<Rightarrow> (Inl e, s)
      | Inr (Some j) \<Rightarrow> (Inr j, s)
      | Inr None \<Rightarrow>
          (case cancellable s jid owner expected_revision of
             Inl e \<Rightarrow> (Inl e, s)
           | Inr current \<Rightarrow>
               let updated = cancelled_job current (clk 0);
                   kind = (if job_state updated = CANCELLED then ''cancelled'' else ''cancel_requested'')
               in (case validated_event_data kind
                         (Some [(''revision'', PInt (job_revision updated))]) of
                     Inl e \<Rightarrow> (Inl e, s)
                   | Inr data \<Rightarrow>
                       bind_op (append_event_locked
                           (s\<lparr>jobs := dset (jobs s) jid updated,
                              decisions := dset (decisions s) (owner, key) (request_hash, jid)\<rparr>)
                           jid kind data (clk 1))
                         (\<lambda>_ s1. (Inr updated, s1)))))"

subsection \<open>The owner's decision\<close>

definition proposal_is :: "pydict \<Rightarrow> string \<Rightarrow> string \<Rightarrow> bool" where
  "proposal_is p k v \<longleftrightarrow> dget p k = Some (PStr v)"

text \<open>The approval offered for a job must repeat the job's own proposal, bind the proposal and
  source digests, carry a token hash and lie in the future.\<close>

definition approval_acceptable :: "job \<Rightarrow> string \<Rightarrow> string \<Rightarrow> pydict option \<Rightarrow> string option
    \<Rightarrow> time option \<Rightarrow> time \<Rightarrow> bool" where
  "approval_acceptable current decision proposal_digest approval_proposal token_hash expires_at t =
     (case (approval_proposal, job_approval_proposal current, job_source_digest current,
            token_hash, expires_at) of
        (Some p, Some q, Some source, Some h, Some ex) \<Rightarrow>
          decision = ''approve''
          \<and> json_type_equal (PDict p) (PDict q)
          \<and> proposal_is p ''action'' ''export_patch''
          \<and> proposal_is p ''target'' ''owner_download''
          \<and> proposal_is p ''proposalDigest'' proposal_digest
          \<and> proposal_is p ''sourceDigest'' source
          \<and> field_is is_str p ''policyVersion''
          \<and> field_is is_mapping p ''resourceProfile''
          \<and> hex_of_length 64 h
          \<and> t < ex
      | _ \<Rightarrow> False)"

definition str_field :: "pydict \<Rightarrow> string \<Rightarrow> string" where
  "str_field p k = (case dget p k of Some (PStr v) \<Rightarrow> v | _ \<Rightarrow> [])"

definition dict_field :: "pydict \<Rightarrow> string \<Rightarrow> pydict" where
  "dict_field p k = (case dget p k of Some (PDict d) \<Rightarrow> d | _ \<Rightarrow> [])"

definition applying_job :: "job \<Rightarrow> time \<Rightarrow> job" where
  "applying_job j t = j\<lparr>job_state := APPLYING, job_revision := job_revision j + 1,
     job_approval_consumed := False, job_updated_at := t\<rparr>"

text \<open>The two accepting branches of \<open>decide_job_idempotent\<close>, from the point where the job as
  stored (\<open>current\<close>) has passed the checks common to both.\<close>

definition reject_proposal :: "(nat \<Rightarrow> time) \<Rightarrow> time \<Rightarrow> job_store \<Rightarrow> job \<Rightarrow> string \<Rightarrow> string \<Rightarrow> string
    \<Rightarrow> string \<Rightarrow> job store_outcome" where
  "reject_proposal clk t s current jid owner key request_hash =
     (case transition (job_state current) REJECTED None (None :: pydict option) None False False of
        Inl e \<Rightarrow> (Inl (PolicyError e), s)
      | Inr target \<Rightarrow>
          (case validated_event_data ''rejected'' (Some []) of
             Inl e \<Rightarrow> (Inl e, s)
           | Inr data \<Rightarrow>
               let updated = current\<lparr>job_state := target, job_revision := job_revision current + 1,
                     job_updated_at := t\<rparr>;
                   s1 = s\<lparr>jobs := dset (jobs s) jid updated,
                     decisions := dset (decisions s) (owner, key) (request_hash, jid)\<rparr>
               in bind_op (append_event_locked s1 jid ''rejected'' data (clk 1))
                    (\<lambda>_ s2. (Inr updated, s2))))"

definition grant_approval :: "(nat \<Rightarrow> time) \<Rightarrow> time \<Rightarrow> job_store \<Rightarrow> job \<Rightarrow> string \<Rightarrow> string \<Rightarrow> string
    \<Rightarrow> string \<Rightarrow> string \<Rightarrow> pydict \<Rightarrow> string \<Rightarrow> string \<Rightarrow> time \<Rightarrow> job store_outcome" where
  "grant_approval clk t s current jid owner key request_hash proposal_digest p source h ex =
     (let approval_key = (jid, job_revision current, proposal_digest) in
      if dget (approval_index s) approval_key \<noteq> None then (Inl ApprovalError, s)
      else
        let approval = \<lparr>ap_token_hash = h, ap_job_id = jid, ap_owner_id = owner,
              ap_revision = job_revision current, ap_proposal_digest = proposal_digest,
              ap_source_digest = source, ap_action = ''export_patch'',
              ap_target = ''owner_download'', ap_policy_version = str_field p ''policyVersion'',
              ap_resource_profile = dict_field p ''resourceProfile'', ap_expires_at = ex,
              ap_consumed = False, ap_consumed_at = None\<rparr>
        in (case validated_event_data ''approved''
                    (Some [(''revision'', PInt (job_revision current)),
                           (''proposal_digest'', PStr proposal_digest),
                           (''source_digest'', PStr source), (''expires_at'', PFloat ex)]) of
              Inl e \<Rightarrow> (Inl e, s)
            | Inr approved_data \<Rightarrow>
                (case validated_event_data ''applying'' (Some [(''action'', PStr ''export_patch'')]) of
                   Inl e \<Rightarrow> (Inl e, s)
                 | Inr applying_data \<Rightarrow>
                     let updated = applying_job current t;
                         s1 = s\<lparr>jobs := dset (jobs s) jid updated,
                           approvals := dset (approvals s) h approval,
                           approval_index := dset (approval_index s) approval_key h,
                           decisions := dset (decisions s) (owner, key) (request_hash, jid)\<rparr>
                     in bind_op (append_event_locked s1 jid ''approved'' approved_data (clk 1))
                          (\<lambda>_ s2. bind_op (append_event_locked s2 jid ''applying'' applying_data (clk 2))
                            (\<lambda>_ s3. (Inr updated, s3))))))"

definition decide_job_idempotent :: "(nat \<Rightarrow> time) \<Rightarrow> job_store \<Rightarrow> string \<Rightarrow> string \<Rightarrow> int
    \<Rightarrow> string \<Rightarrow> string \<Rightarrow> string \<Rightarrow> string \<Rightarrow> pydict option \<Rightarrow> string option \<Rightarrow> time option
    \<Rightarrow> time option \<Rightarrow> job store_outcome" where
  "decide_job_idempotent clk s jid owner expected_revision key request_hash decision
     proposal_digest approval_proposal token_hash expires_at now =
     (let t = current_time now clk in
      case replayed_decision s owner key request_hash jid of
        Inl e \<Rightarrow> (Inl e, s)
      | Inr (Some j) \<Rightarrow> (Inr j, s)
      | Inr None \<Rightarrow>
          (case get_job s jid owner of
             None \<Rightarrow> (Inl JobNotFound, s)
           | Some current \<Rightarrow>
               if job_state current \<noteq> AWAITING_APPROVAL
                  \<or> job_revision current \<noteq> expected_revision
                  \<or> job_proposal_digest current \<noteq> Some proposal_digest
               then (Inl StaleRevision, s)
               else if decision = ''reject'' then
                 reject_proposal clk t s current jid owner key request_hash
               else if \<not> approval_acceptable current decision proposal_digest approval_proposal
                         token_hash expires_at t
               then (Inl ApprovalError, s)
               else (case transition (job_state current) APPLYING (Some proposal_digest)
                       (None :: pydict option) (Some proposal_digest) True False of
                   Inl e \<Rightarrow> (Inl (PolicyError e), s)
                 | Inr _ \<Rightarrow>
                     grant_approval clk t s current jid owner key request_hash proposal_digest
                       (the approval_proposal) (the (job_source_digest current))
                       (the token_hash) (the expires_at))))"

subsection \<open>Consuming an approval\<close>

definition token_char :: "char \<Rightarrow> bool" where
  "token_char c \<longleftrightarrow> is_alnum c \<or> c = CHR ''_'' \<or> c = CHR ''-''"

text \<open>\<open>^[A-Za-z0-9_-]{42}[AEIMQUYcgkosw048]$\<close>: an unpadded base64url string of 32 bytes.\<close>

definition canonical_approval_token :: "string \<Rightarrow> bool" where
  "canonical_approval_token tok \<longleftrightarrow> length tok = 43 \<and> list_all token_char (take 42 tok)
     \<and> last tok \<in> set ''AEIMQUYcgkosw048''"

definition evidence_matches :: "job \<Rightarrow> string \<Rightarrow> string \<Rightarrow> int \<Rightarrow> bool" where
  "evidence_matches j name digest size_bytes =
     (case dget (case job_evidence_manifest j of None \<Rightarrow> [] | Some m \<Rightarrow> m) name of
        Some (PDict d) \<Rightarrow>
          dget d ''sha256'' = Some (PStr digest)
          \<and> (case dget d ''bytes'' of None \<Rightarrow> False | Some v \<Rightarrow> py_eq_int v size_bytes)
      | _ \<Rightarrow> False)"

text \<open>The binding that an export must match: the approval's, the job's and the evidence's.\<close>

definition export_allowed :: "time \<Rightarrow> job \<Rightarrow> approval \<Rightarrow> string \<Rightarrow> string \<Rightarrow> int \<Rightarrow> string \<Rightarrow> string
    \<Rightarrow> string \<Rightarrow> pydict \<Rightarrow> string \<Rightarrow> string \<Rightarrow> int \<Rightarrow> bool" where
  "export_allowed t current a jid owner expected_revision proposal_digest source_digest
     policy_version resource_profile evidence_name evidence_sha256 evidence_size \<longleftrightarrow>
     \<not> ap_consumed a \<and> ap_owner_id a = owner \<and> ap_job_id a = jid
     \<and> ap_proposal_digest a = proposal_digest \<and> ap_source_digest a = source_digest
     \<and> ap_action a = ''export_patch'' \<and> ap_target a = ''owner_download''
     \<and> ap_policy_version a = policy_version
     \<and> json_type_equal (PDict (ap_resource_profile a)) (PDict resource_profile)
     \<and> t < ap_expires_at a
     \<and> job_owner_id current = owner \<and> job_state current = APPLYING
     \<and> job_revision current = expected_revision
     \<and> job_proposal_digest current = Some proposal_digest
     \<and> job_source_digest current = Some source_digest
     \<and> \<not> job_approval_consumed current
     \<and> evidence_name = ''changes.patch''
     \<and> evidence_matches current evidence_name evidence_sha256 evidence_size"

definition completed_job :: "job \<Rightarrow> time \<Rightarrow> job" where
  "completed_job j t = j\<lparr>job_state := COMPLETED, job_revision := job_revision j + 1,
     job_approval_consumed := True, job_updated_at := t\<rparr>"

definition consume_export_idempotent :: "(string \<Rightarrow> string) \<Rightarrow> (nat \<Rightarrow> time) \<Rightarrow> job_store \<Rightarrow> string
    \<Rightarrow> string \<Rightarrow> int \<Rightarrow> string \<Rightarrow> string \<Rightarrow> string \<Rightarrow> string \<Rightarrow> string \<Rightarrow> string \<Rightarrow> pydict \<Rightarrow> string
    \<Rightarrow> string \<Rightarrow> int \<Rightarrow> time option \<Rightarrow> job store_outcome" where
  "consume_export_idempotent sha clk s jid owner expected_revision key request_hash token
     proposal_digest source_digest policy_version resource_profile evidence_name
     evidence_sha256 evidence_size now =
     (let t = current_time now clk; identity = (owner, ''export:'' @ key) in
      if \<not> canonical_approval_token token then (Inl ApprovalError, s)
      else
        let h = sha token in
        case dget (decisions s) identity of
          Some existing \<Rightarrow>
            if existing \<noteq> (request_hash, jid) then (Inl IdempotencyConflict, s)
            else (case (dget (approvals s) h, dget (jobs s) jid) of
                (Some a, Some current) \<Rightarrow>
                  if ap_expires_at a \<le> t \<or> job_owner_id current \<noteq> owner
                     \<or> job_state current \<noteq> COMPLETED \<or> \<not> job_approval_consumed current
                  then (Inl ApprovalError, s) else (Inr current, s)
              | _ \<Rightarrow> (Inl ApprovalError, s))
        | None \<Rightarrow>
            (case (dget (approvals s) h, dget (jobs s) jid) of
               (Some a, Some current) \<Rightarrow>
                 if \<not> export_allowed t current a jid owner expected_revision proposal_digest
                      source_digest policy_version resource_profile evidence_name
                      evidence_sha256 evidence_size
                 then (Inl ApprovalError, s)
                 else (case transition (job_state current) COMPLETED None (None :: pydict option)
                         None False False of
                     Inl e \<Rightarrow> (Inl (PolicyError e), s)
                   | Inr _ \<Rightarrow>
                       let completed = completed_job current t;
                           s1 = s\<lparr>approvals := dset (approvals s) h
                                    (a\<lparr>ap_consumed := True, ap_consumed_at := Some t\<rparr>),
                             jobs := dset (jobs s) jid completed,
                             decisions := dset (decisions s) identity (request_hash, jid)\<rparr>
                       in (case validated_event_data ''completed''
                                 (Some [(''action'', PStr ''export_patch'')]) of
                             Inl e \<Rightarrow> (Inl e, s1)
                           | Inr data \<Rightarrow>
                               bind_op (append_event_locked s1 jid ''completed'' data (clk 1))
                                 (\<lambda>_ s2. (Inr completed, s2))))
             | _ \<Rightarrow> (Inl ApprovalError, s)))"

definition create_approval :: "(nat \<Rightarrow> time) \<Rightarrow> job_store \<Rightarrow> string \<Rightarrow> string \<Rightarrow> int \<Rightarrow> string
    \<Rightarrow> string \<Rightarrow> string \<Rightarrow> string \<Rightarrow> string \<Rightarrow> pydict \<Rightarrow> string \<Rightarrow> time \<Rightarrow> time option
    \<Rightarrow> approval store_outcome" where
  "create_approval clk s jid owner revision proposal_digest source_digest action target
     policy_version resource_profile token_hash expires_at now =
     (let t = current_time now clk in
      case dget (jobs s) jid of
        None \<Rightarrow> (Inl ApprovalError, s)
      | Some j \<Rightarrow>
          if job_owner_id j \<noteq> owner \<or> job_revision j \<noteq> revision
             \<or> job_proposal_digest j \<noteq> Some proposal_digest
             \<or> job_source_digest j \<noteq> Some source_digest
             \<or> expires_at \<le> t \<or> \<not> hex_of_length 64 token_hash
          then (Inl ApprovalError, s)
          else
            let approval_key = (jid, revision, proposal_digest) in
            if dget (approval_index s) approval_key \<noteq> None then (Inl ApprovalError, s)
            else
              let approval = \<lparr>ap_token_hash = token_hash, ap_job_id = jid, ap_owner_id = owner,
                    ap_revision = revision, ap_proposal_digest = proposal_digest,
                    ap_source_digest = source_digest, ap_action = action, ap_target = target,
                    ap_policy_version = policy_version, ap_resource_profile = resource_profile,
                    ap_expires_at = expires_at, ap_consumed = False, ap_consumed_at = None\<rparr>
              in (Inr approval,
                  s\<lparr>approvals := dset (approvals s) token_hash approval,
                    approval_index := dset (approval_index s) approval_key token_hash\<rparr>))"

definition consume_approval :: "(string \<Rightarrow> string) \<Rightarrow> (nat \<Rightarrow> time) \<Rightarrow> job_store \<Rightarrow> string \<Rightarrow> string
    \<Rightarrow> string \<Rightarrow> int \<Rightarrow> string \<Rightarrow> string \<Rightarrow> string \<Rightarrow> pydict \<Rightarrow> time option
    \<Rightarrow> approval store_outcome" where
  "consume_approval sha clk s token owner jid revision proposal_digest source_digest
     policy_version resource_profile now =
     (let t = current_time now clk; h = sha (utf8 token) in
      case (dget (approvals s) h, dget (jobs s) jid) of
        (Some a, Some j) \<Rightarrow>
          if ap_consumed a \<or> ap_owner_id a \<noteq> owner \<or> ap_job_id a \<noteq> jid
             \<or> ap_revision a \<noteq> revision \<or> ap_proposal_digest a \<noteq> proposal_digest
             \<or> ap_source_digest a \<noteq> source_digest \<or> ap_policy_version a \<noteq> policy_version
             \<or> \<not> json_type_equal (PDict (ap_resource_profile a)) (PDict resource_profile)
             \<or> ap_expires_at a \<le> t
             \<or> job_owner_id j \<noteq> owner \<or> job_revision j \<noteq> revision
             \<or> job_proposal_digest j \<noteq> Some proposal_digest
             \<or> job_source_digest j \<noteq> Some source_digest
          then (Inl ApprovalError, s)
          else
            let consumed = a\<lparr>ap_consumed := True, ap_consumed_at := Some t\<rparr>
            in (Inr consumed, s\<lparr>approvals := dset (approvals s) h consumed\<rparr>)
      | _ \<Rightarrow> (Inl ApprovalError, s))"

subsection \<open>Recorded decisions\<close>

definition get_decision :: "job_store \<Rightarrow> string \<Rightarrow> string \<Rightarrow> string \<Rightarrow> store_error + job option" where
  "get_decision s owner key request_hash =
     (case dget (decisions s) (owner, key) of
        None \<Rightarrow> Inr None
      | Some (stored_hash, jid) \<Rightarrow>
          if stored_hash \<noteq> request_hash then Inl IdempotencyConflict
          else (case dget (jobs s) jid of None \<Rightarrow> Inl KeyError | Some j \<Rightarrow> Inr (Some j)))"

definition record_decision :: "job_store \<Rightarrow> string \<Rightarrow> string \<Rightarrow> string \<Rightarrow> string
    \<Rightarrow> job store_outcome" where
  "record_decision s owner key request_hash jid =
     (case get_job s jid owner of
        None \<Rightarrow> (Inl JobNotFound, s)
      | Some j \<Rightarrow>
          if (case dget (decisions s) (owner, key) of
                None \<Rightarrow> False | Some existing \<Rightarrow> existing \<noteq> (request_hash, jid))
          then (Inl IdempotencyConflict, s)
          else (Inr j, s\<lparr>decisions := dset (decisions s) (owner, key) (request_hash, jid)\<rparr>))"

end
