(* ===== verification/JobStoreInv.thy ===== *)
theory JobStoreInv
  imports JobStore
begin

section \<open>Invariants of the job store\<close>

text \<open>
  The methods of the store as one step machine, and what holds in every state it reaches.
  \<open>effect\<close> lists the elementary mutations of the store; every method is a sequence of
  them (the lemmas \<open>..._effects\<close>), so the invariant \<open>store_inv\<close> and the preorder
  \<open>store_later\<close> (what a later state keeps of an earlier one) are proved once per elementary
  mutation and hold for every method.
\<close>

subsection \<open>The invariant and the preorder\<close>

definition owned :: "job_store \<Rightarrow> string \<Rightarrow> string \<Rightarrow> bool" where
  "owned s jid owner \<longleftrightarrow> (\<exists>j. dget (jobs s) jid = Some j \<and> job_owner_id j = owner)"

definition well_numbered :: "string \<Rightarrow> job_event list \<Rightarrow> bool" where
  "well_numbered jid evs \<longleftrightarrow> (\<forall>i < length evs. ev_job_id (evs ! i) = jid
     \<and> ev_sequence (evs ! i) = i + 1 \<and> valid_event_data (ev_kind (evs ! i)) (ev_data (evs ! i)))"

definition store_inv :: "job_store \<Rightarrow> bool" where
  "store_inv s \<longleftrightarrow>
     dict_ok (jobs s)
     \<and> (\<forall>k j. dget (jobs s) k = Some j \<longrightarrow> job_id j = k \<and> 0 \<le> job_revision j)
     \<and> (\<forall>k. dget (events s) k = None \<longleftrightarrow> dget (jobs s) k = None)
     \<and> (\<forall>k evs. dget (events s) k = Some evs \<longrightarrow> well_numbered k evs)
     \<and> (\<forall>owner key jid fp. dget (idempotency s) (owner, key) = Some (jid, fp) \<longrightarrow> owned s jid owner)
     \<and> (\<forall>owner key h jid. dget (decisions s) (owner, key) = Some (h, jid) \<longrightarrow> owned s jid owner)
     \<and> (\<forall>h a. dget (approvals s) h = Some a \<longrightarrow>
          ap_token_hash a = h \<and> owned s (ap_job_id a) (ap_owner_id a))
     \<and> (\<forall>jid l. dget (claims s) jid = Some l \<longrightarrow> lease_job_id l = jid
          \<and> owned s jid (lease_owner_id l) \<and> lease_generation l = generation_of s jid)"

definition same_request :: "job \<Rightarrow> job \<Rightarrow> bool" where
  "same_request j k \<longleftrightarrow> job_id k = job_id j \<and> job_owner_id k = job_owner_id j
     \<and> job_mode k = job_mode j \<and> job_prompt k = job_prompt j \<and> job_sources k = job_sources j
     \<and> job_project_context k = job_project_context j \<and> job_git_source k = job_git_source j
     \<and> job_created_at k = job_created_at j"

text \<open>A job keeps its request and its owner, its revision grows with every change, and a job
  in a terminal state does not change.\<close>

definition job_later :: "job \<Rightarrow> job \<Rightarrow> bool" where
  "job_later j k \<longleftrightarrow> same_request j k
     \<and> (k = j \<or> job_revision j < job_revision k \<and> job_state j \<notin> set terminal_states)"

definition store_later :: "job_store \<Rightarrow> job_store \<Rightarrow> bool" where
  "store_later s t \<longleftrightarrow>
     (\<forall>k j. dget (jobs s) k = Some j \<longrightarrow> (\<exists>j'. dget (jobs t) k = Some j' \<and> job_later j j'))
     \<and> (\<forall>k v. dget (idempotency s) k = Some v \<longrightarrow> dget (idempotency t) k = Some v)
     \<and> (\<forall>k v. dget (decisions s) k = Some v \<longrightarrow> dget (decisions t) k = Some v)
     \<and> (\<forall>k evs. dget (events s) k = Some evs \<longrightarrow> (\<exists>more. dget (events t) k = Some (evs @ more)))
     \<and> (\<forall>k h. dget (approval_index s) k = Some h \<longrightarrow> dget (approval_index t) k = Some h)
     \<and> (\<forall>k. generation_of s k \<le> generation_of t k)"

lemma same_request_refl [simp]: "same_request j j"
  by (simp add: same_request_def)

lemma job_later_refl [simp]: "job_later j j"
  by (simp add: job_later_def)

lemma job_later_trans: "job_later i j \<Longrightarrow> job_later j k \<Longrightarrow> job_later i k"
  by (auto simp: job_later_def same_request_def)

lemma store_later_refl [simp]: "store_later s s"
  by (auto simp: store_later_def)

lemma store_later_trans:
  assumes "store_later s t" "store_later t u"
  shows "store_later s u"
  unfolding store_later_def
proof (intro conjI allI impI)
  fix k j assume "dget (jobs s) k = Some j"
  then show "\<exists>j'. dget (jobs u) k = Some j' \<and> job_later j j'"
    using assms unfolding store_later_def by (meson job_later_trans)
next
  fix k evs assume "dget (events s) k = Some evs"
  then show "\<exists>more. dget (events u) k = Some (evs @ more)"
    using assms unfolding store_later_def by (metis append_assoc)
next
  fix k show "generation_of s k \<le> generation_of u k"
    using assms unfolding store_later_def by (meson order_trans)
qed (use assms in \<open>auto simp: store_later_def\<close>)

subsection \<open>Elementary mutations\<close>

text \<open>
  One change of a stored job; \<open>approved\<close> tells whether it may put the job into \<open>APPLYING\<close>.
  A change of a job, of its events or of its claim is made for the owner of the job, and
  \<open>w\<close> says which owners the method acts for.
\<close>

definition job_moves :: "bool \<Rightarrow> job \<Rightarrow> job \<Rightarrow> bool" where
  "job_moves approved j k \<longleftrightarrow> same_request j k \<and> job_revision k = job_revision j + 1
     \<and> job_state j \<notin> set terminal_states \<and> (job_state k = APPLYING \<longrightarrow> approved)"

definition acts_on :: "(string \<Rightarrow> bool) \<Rightarrow> job_store \<Rightarrow> string \<Rightarrow> bool" where
  "acts_on w s jid \<longleftrightarrow> (\<exists>j. dget (jobs s) jid = Some j \<and> w (job_owner_id j))"

inductive effect :: "bool \<Rightarrow> (string \<Rightarrow> bool) \<Rightarrow> job_store \<Rightarrow> job_store \<Rightarrow> bool" for approved w where
  effect_job: "dget (jobs s) k = Some j \<Longrightarrow> w (job_owner_id j) \<Longrightarrow> job_moves approved j j'
    \<Longrightarrow> t = s\<lparr>jobs := dset (jobs s) k j'\<rparr> \<Longrightarrow> effect approved w s t"
| effect_event: "dget (events s) k = Some evs \<Longrightarrow> acts_on w s k \<Longrightarrow> valid_event_data kind data
    \<Longrightarrow> t = s\<lparr>events := dset (events s) k (evs @ [\<lparr>ev_job_id = k,
          ev_sequence = length evs + 1, ev_kind = kind, ev_data = data, ev_created_at = tm\<rparr>])\<rparr>
    \<Longrightarrow> effect approved w s t"
| effect_decision: "dget (decisions s) (owner, key) \<in> {None, Some (h, jid)} \<Longrightarrow> owned s jid owner
    \<Longrightarrow> t = s\<lparr>decisions := dset (decisions s) (owner, key) (h, jid)\<rparr> \<Longrightarrow> effect approved w s t"
| effect_approval: "ap_token_hash a = h \<Longrightarrow> owned s (ap_job_id a) (ap_owner_id a)
    \<Longrightarrow> t = s\<lparr>approvals := dset (approvals s) h a\<rparr> \<Longrightarrow> effect approved w s t"
| effect_index: "dget (approval_index s) k = None
    \<Longrightarrow> t = s\<lparr>approval_index := dset (approval_index s) k h\<rparr> \<Longrightarrow> effect approved w s t"
| effect_claim: "owned s jid owner \<Longrightarrow> w owner \<Longrightarrow> lease_job_id l = jid \<Longrightarrow> lease_owner_id l = owner
    \<Longrightarrow> lease_generation l = generation_of s jid + 1
    \<Longrightarrow> t = s\<lparr>lease_generations := dset (lease_generations s) jid (generation_of s jid + 1),
          claims := dset (claims s) jid l\<rparr> \<Longrightarrow> effect approved w s t"
| effect_renew: "dget (claims s) jid = Some l \<Longrightarrow> w (lease_owner_id l)
    \<Longrightarrow> t = s\<lparr>claims := dset (claims s) jid (l\<lparr>lease_expires_at := tm\<rparr>)\<rparr> \<Longrightarrow> effect approved w s t"
| effect_release: "(\<And>l. dget (claims s) jid = Some l \<Longrightarrow> w (lease_owner_id l))
    \<Longrightarrow> t = s\<lparr>claims := dpop (claims s) jid\<rparr> \<Longrightarrow> effect approved w s t"
| effect_create: "dget (jobs s) jid = None \<Longrightarrow> dget (events s) jid = None
    \<Longrightarrow> dget (idempotency s) (owner, key) = None
    \<Longrightarrow> job_id j = jid \<Longrightarrow> job_owner_id j = owner \<Longrightarrow> job_revision j = 0 \<Longrightarrow> job_state j = DRAFT
    \<Longrightarrow> t = s\<lparr>jobs := dset (jobs s) jid j, idempotency := dset (idempotency s) (owner, key) (jid, fp),
          events := dset (events s) jid []\<rparr> \<Longrightarrow> effect approved w s t"
| effect_nonces: "t = s\<lparr>nonces := ns\<rparr> \<Longrightarrow> effect approved w s t"

abbreviation effects :: "bool \<Rightarrow> (string \<Rightarrow> bool) \<Rightarrow> job_store \<Rightarrow> job_store \<Rightarrow> bool" where
  "effects approved w \<equiv> (effect approved w)\<^sup>*\<^sup>*"

lemma owned_dset [simp]:
  "owned (s\<lparr>jobs := dset (jobs s) k j\<rparr>) jid owner \<longleftrightarrow>
     (if jid = k then job_owner_id j = owner else owned s jid owner)"
  by (auto simp: owned_def)

lemma acts_on_dset [simp]:
  "acts_on w (s\<lparr>jobs := dset (jobs s) k j\<rparr>) jid \<longleftrightarrow>
     (if jid = k then w (job_owner_id j) else acts_on w s jid)"
  by (auto simp: acts_on_def)

lemma acts_on_put [simp]: "acts_on w (s\<lparr>jobs := dset js k j\<rparr>) k \<longleftrightarrow> w (job_owner_id j)"
  by (auto simp: acts_on_def)

lemma acts_on_frame [simp]:
  "acts_on w (s\<lparr>idempotency := x1\<rparr>) = acts_on w s" "acts_on w (s\<lparr>events := x2\<rparr>) = acts_on w s"
  "acts_on w (s\<lparr>approvals := x3\<rparr>) = acts_on w s" "acts_on w (s\<lparr>approval_index := x4\<rparr>) = acts_on w s"
  "acts_on w (s\<lparr>decisions := x5\<rparr>) = acts_on w s" "acts_on w (s\<lparr>claims := x6\<rparr>) = acts_on w s"
  by (simp_all add: fun_eq_iff acts_on_def)

lemma acts_onI: "dget (jobs s) jid = Some j \<Longrightarrow> w (job_owner_id j) \<Longrightarrow> acts_on w s jid"
  by (auto simp: acts_on_def)

lemma generation_of_update [simp]:
  "generation_of (s\<lparr>lease_generations := dset (lease_generations s) k g\<rparr>) jid =
     (if jid = k then g else generation_of s jid)"
  by (simp add: generation_of_def)

lemma owned_frame [simp]:
  "owned (s\<lparr>idempotency := x1\<rparr>) = owned s" "owned (s\<lparr>events := x2\<rparr>) = owned s"
  "owned (s\<lparr>approvals := x3\<rparr>) = owned s" "owned (s\<lparr>approval_index := x4\<rparr>) = owned s"
  "owned (s\<lparr>decisions := x5\<rparr>) = owned s" "owned (s\<lparr>claims := x6\<rparr>) = owned s"
  "owned (s\<lparr>lease_generations := x7\<rparr>) = owned s" "owned (s\<lparr>nonces := x8\<rparr>) = owned s"
  by (simp_all add: fun_eq_iff owned_def)

lemma generation_of_frame [simp]:
  "generation_of (s\<lparr>idempotency := x1\<rparr>) = generation_of s" "generation_of (s\<lparr>events := x2\<rparr>) = generation_of s"
  "generation_of (s\<lparr>approvals := x3\<rparr>) = generation_of s" "generation_of (s\<lparr>approval_index := x4\<rparr>) = generation_of s"
  "generation_of (s\<lparr>decisions := x5\<rparr>) = generation_of s" "generation_of (s\<lparr>claims := x6\<rparr>) = generation_of s"
  "generation_of (s\<lparr>jobs := x7\<rparr>) = generation_of s" "generation_of (s\<lparr>nonces := x8\<rparr>) = generation_of s"
  by (simp_all add: fun_eq_iff generation_of_def)

lemma well_numbered_snoc:
  "well_numbered k evs \<Longrightarrow> valid_event_data kind data \<Longrightarrow>
     well_numbered k (evs @ [\<lparr>ev_job_id = k, ev_sequence = length evs + 1, ev_kind = kind,
       ev_data = data, ev_created_at = tm\<rparr>])"
  by (auto simp: well_numbered_def nth_append less_Suc_eq)

lemma well_numbered_Nil [simp]: "well_numbered k []"
  by (simp add: well_numbered_def)

lemma store_invD:
  assumes "store_inv s"
  shows "dict_ok (jobs s)"
    and "dget (jobs s) k = Some j \<Longrightarrow> job_id j = k"
    and "dget (jobs s) k = Some j \<Longrightarrow> 0 \<le> job_revision j"
    and "dget (events s) k = None \<longleftrightarrow> dget (jobs s) k = None"
    and "dget (events s) k = Some evs \<Longrightarrow> well_numbered k evs"
    and "dget (idempotency s) (owner, key) = Some (jid, fp) \<Longrightarrow> owned s jid owner"
    and "dget (decisions s) (owner, key) = Some (h, jid) \<Longrightarrow> owned s jid owner"
    and "dget (approvals s) h = Some a \<Longrightarrow> ap_token_hash a = h"
    and "dget (approvals s) h = Some a \<Longrightarrow> owned s (ap_job_id a) (ap_owner_id a)"
    and "dget (claims s) jid = Some l \<Longrightarrow> lease_job_id l = jid"
    and "dget (claims s) jid = Some l \<Longrightarrow> owned s jid (lease_owner_id l)"
    and "dget (claims s) jid = Some l \<Longrightarrow> lease_generation l = generation_of s jid"
  using assms unfolding store_inv_def by blast+

text \<open>A change that keeps the owners of the jobs keeps what the invariant says of the other
  dictionaries.\<close>

lemma store_inv_jobs:
  assumes "store_inv s" and "dict_ok js"
    and "\<And>k j. dget js k = Some j \<Longrightarrow> job_id j = k \<and> 0 \<le> job_revision j"
    and "\<And>k. dget es k = None \<longleftrightarrow> dget js k = None"
    and "\<And>k evs. dget es k = Some evs \<Longrightarrow> well_numbered k evs"
    and "\<And>k owner. owned s k owner \<Longrightarrow> owned (s\<lparr>jobs := js\<rparr>) k owner"
  shows "store_inv (s\<lparr>jobs := js, events := es\<rparr>)"
  using assms(2-6) store_invD(6-12)[OF assms(1)] unfolding store_inv_def by simp

lemma store_inv_idempotency:
  assumes "store_inv s" and "owned s jid owner"
  shows "store_inv (s\<lparr>idempotency := dset (idempotency s) (owner, key) (jid, fp)\<rparr>)"
  using assms unfolding store_inv_def by simp

lemma effect_inv: "effect approved w s t \<Longrightarrow> store_inv s \<Longrightarrow> store_inv t"
proof (induction rule: effect.induct)
  case (effect_job s k j j' t)
  note inv = store_invD[OF effect_job.prems]
  have move: "job_id j' = job_id j" "job_owner_id j' = job_owner_id j"
      "job_revision j' = job_revision j + 1"
    using effect_job(3) by (simp_all add: job_moves_def same_request_def)
  have "store_inv (s\<lparr>jobs := dset (jobs s) k j', events := events s\<rparr>)"
  proof (rule store_inv_jobs[OF effect_job.prems])
    fix i x assume "dget (dset (jobs s) k j') i = Some x"
    then show "job_id x = i \<and> 0 \<le> job_revision x"
      using inv(2,3)[of i] inv(2,3)[OF effect_job(1)] move by (auto split: if_splits)
  next
    fix i owner assume "owned s i owner"
    then show "owned (s\<lparr>jobs := dset (jobs s) k j'\<rparr>) i owner"
      using effect_job(1) move by (auto simp: owned_def)
  qed (use inv effect_job(1) in auto)
  then show ?case using effect_job(4) by simp
next
  case (effect_event s k evs kind data t tm)
  note inv = store_invD[OF effect_event.prems]
  let ?es = "dset (events s) k (evs @ [\<lparr>ev_job_id = k, ev_sequence = length evs + 1,
    ev_kind = kind, ev_data = data, ev_created_at = tm\<rparr>])"
  have "store_inv (s\<lparr>jobs := jobs s, events := ?es\<rparr>)"
  proof (rule store_inv_jobs[OF effect_event.prems])
    fix i xs assume "dget ?es i = Some xs"
    then show "well_numbered i xs"
      using inv(5)[of i xs] well_numbered_snoc[OF inv(5)[OF effect_event(1)] effect_event(3)]
      by (auto split: if_splits)
  next
    fix i show "dget ?es i = None \<longleftrightarrow> dget (jobs s) i = None"
      using inv(4)[of i] effect_event(1) by auto
  qed (use inv in auto)
  then show ?case using effect_event(4) by simp
next
  case (effect_create s jid owner key j t fp)
  note inv = store_invD[OF effect_create.prems]
  have new: "\<not> owned s jid x" for x using effect_create(1) by (simp add: owned_def)
  let ?s = "s\<lparr>jobs := dset (jobs s) jid j, events := dset (events s) jid []\<rparr>"
  have s1: "store_inv ?s"
  proof (rule store_inv_jobs[OF effect_create.prems])
    fix i x assume "dget (dset (jobs s) jid j) i = Some x"
    then show "job_id x = i \<and> 0 \<le> job_revision x"
      using inv(2,3)[of i] effect_create(4,6) by (auto split: if_splits)
  next
    fix i x assume "owned s i x"
    then show "owned (s\<lparr>jobs := dset (jobs s) jid j\<rparr>) i x"
      using new by auto
  next
    fix i show "dget (dset (events s) jid []) i = None \<longleftrightarrow> dget (dset (jobs s) jid j) i = None"
      using inv(4)[of i] by auto
  next
    fix i xs assume "dget (dset (events s) jid []) i = Some xs"
    then show "well_numbered i xs" using inv(5)[of i xs] by (auto split: if_splits)
  qed (use inv in auto)
  have "owned ?s jid owner" using effect_create(5) by simp
  then have "store_inv (?s\<lparr>idempotency := dset (idempotency s) (owner, key) (jid, fp)\<rparr>)"
    using store_inv_idempotency[OF s1] by simp
  moreover have "t = ?s\<lparr>idempotency := dset (idempotency s) (owner, key) (jid, fp)\<rparr>"
    using effect_create(8) by (cases s) simp
  ultimately show ?case by (simp only:)
qed (unfold store_inv_def, auto simp: generation_of_def)

lemma effect_later: "effect approved w s t \<Longrightarrow> store_later s t"
proof (induction rule: effect.induct)
  case (effect_job s k j j' t)
  then have "job_later j j'" by (simp add: job_moves_def job_later_def)
  then show ?case using effect_job by (simp add: store_later_def)
next
  case (effect_create s jid owner key j t fp)
  then show ?case by (auto simp: store_later_def)
qed (auto simp: store_later_def generation_of_def)

subsection \<open>Every method is a sequence of elementary mutations\<close>

lemma effects_one: "effect b w s t \<Longrightarrow> effects b w s t"
  by blast

lemmas one_job = effect_job [THEN effects_one]
  and one_event = effect_event [THEN effects_one]
  and one_claim = effect_claim [THEN effects_one]
  and one_renew = effect_renew [THEN effects_one]
  and one_release = effect_release [THEN effects_one]
  and one_create = effect_create [THEN effects_one]
  and one_nonces = effect_nonces [THEN effects_one]

lemma ownedI: "dget (jobs s) jid = Some j \<Longrightarrow> job_owner_id j = owner \<Longrightarrow> owned s jid owner"
  by (simp add: owned_def)

lemma effects_step: "effects b w s t \<Longrightarrow> effect b w t u \<Longrightarrow> effects b w s u"
  by (rule rtranclp.rtrancl_into_rtrancl)

lemma effects_inv: "effects b w s t \<Longrightarrow> store_inv s \<Longrightarrow> store_inv t"
  by (induction rule: rtranclp_induct) (auto intro: effect_inv)

lemma effects_later: "effects b w s t \<Longrightarrow> store_later s t"
  by (induction rule: rtranclp_induct) (auto intro: effect_later store_later_trans)

lemma bind_op_effects:
  assumes "effects b w s (snd r)"
    and "\<And>x t. r = (Inr x, t) \<Longrightarrow> effects b w t (snd (f x t))"
  shows "effects b w s (snd (bind_op r f))"
proof (cases r)
  case (Pair v t)
  then show ?thesis
    using assms by (cases v) (auto intro: rtranclp_trans)
qed

lemma append_event_locked_effects:
  "valid_event_data kind data \<Longrightarrow> acts_on w s jid
     \<Longrightarrow> effects b w s (snd (append_event_locked s jid kind data t))"
  by (auto simp: append_event_locked_def Let_def intro: one_event split: option.splits)

lemma append_event_from:
  "effects b w s t \<Longrightarrow> valid_event_data kind data \<Longrightarrow> acts_on w t jid \<Longrightarrow>
     effects b w s (snd (append_event_locked t jid kind data tm))"
  by (rule rtranclp_trans[OF _ append_event_locked_effects])

lemma validated_event_data_Inr:
  "validated_event_data kind data = Inr v \<Longrightarrow> valid_event_data kind v"
  by (auto simp: validated_event_data_def Let_def split: if_splits)

lemma append_event_acts:
  "append_event_locked s jid kind data tm = (Inr x, t) \<Longrightarrow> acts_on w t k \<longleftrightarrow> acts_on w s k"
  by (auto simp: append_event_locked_def Let_def split: option.splits)

text \<open>A method that ends by appending an event.\<close>

lemma append_event_last:
  assumes "effects b w s t" and "valid_event_data kind data" and "acts_on w t jid"
  shows "effects b w s (snd (bind_op (append_event_locked t jid kind data tm) (\<lambda>_ u. (Inr x, u))))"
  by (rule rtranclp_trans[OF assms(1)])
    (intro bind_op_effects append_event_locked_effects assms(2,3), simp)

lemma get_job_Some [simp]:
  "get_job s jid owner = Some j \<longleftrightarrow> dget (jobs s) jid = Some j \<and> job_owner_id j = owner"
  by (auto simp: get_job_def split: option.splits)

lemma get_job_frame [simp]:
  "get_job (s\<lparr>events := x\<rparr>) = get_job s" "get_job (s\<lparr>decisions := y\<rparr>) = get_job s"
  by (simp_all add: fun_eq_iff get_job_def)

lemma transition_unapproved: "transition s t p m a False c = Inr u \<Longrightarrow> u \<noteq> APPLYING"
  using transition_target transition_applying by metis

lemma moved_job_moves:
  "transition (job_state j) target p m a False c = Inr st \<Longrightarrow> job_moves b j (moved_job j st f t)"
  by (auto simp: job_moves_def moved_job_def same_request_def
      dest: transition_not_terminal transition_unapproved)

lemma update_job_effects: "w owner \<Longrightarrow> effects b w s (snd (update_job clk s jid owner rv target f))"
  by (auto simp: update_job_def Let_def intro!: one_job moved_job_moves
      split: option.splits sum.splits)

lemma append_event_effects: "w owner \<Longrightarrow> effects b w s (snd (append_event clk s jid owner kind data))"
  by (auto simp: append_event_def intro!: append_event_locked_effects validated_event_data_Inr
      intro: acts_onI
      split: option.splits sum.splits)

lemma owner_kept [simp]:
  "job_owner_id (moved_job j st f t) = job_owner_id j"
  "job_owner_id (cancelled_job j t) = job_owner_id j"
  "job_owner_id (applying_job j t) = job_owner_id j"
  "job_owner_id (completed_job j t) = job_owner_id j"
  by (simp_all add: moved_job_def cancelled_job_def applying_job_def completed_job_def)

lemma update_job_acts:
  "update_job clk s jid owner rv target f = (Inr j, t) \<Longrightarrow> w owner \<Longrightarrow> acts_on w t jid"
  by (auto simp: update_job_def Let_def split: option.splits sum.splits if_splits)

lemma transition_job_effects:
  "w owner \<Longrightarrow> effects b w s (snd (transition_job clk s jid owner rv target kind data f))"
  by (auto simp: transition_job_def split: sum.splits
      intro!: bind_op_effects update_job_effects append_event_locked_effects validated_event_data_Inr
        dest: update_job_acts)

lemma create_job_effects:
  assumes "store_inv s" "dget (jobs s) new_id = None"
  shows "effects b w s (snd (create_job sha fr clk new_id s owner key mode prompt sources ctx git))"
  using assms store_invD(4)[OF assms(1), of new_id]
  by (auto simp: create_job_def Let_def stored_job_def new_job_def
      intro!: one_create split: option.splits)

lemma claim_job_effects: "w owner \<Longrightarrow> effects b w s (snd (claim_job clk s jid owner worker secs now))"
  by (auto simp: claim_job_def Let_def intro!: one_claim ownedI split: option.splits)

lemma renew_claim_effects: "w (lease_owner_id l) \<Longrightarrow> effects b w s (snd (renew_claim clk s l secs now))"
  by (auto simp: renew_claim_def Let_def intro!: one_renew split: option.splits)

lemma release_claim_effects: "w (lease_owner_id l) \<Longrightarrow> effects b w s (release_claim s l)"
  by (auto simp: release_claim_def intro!: one_release split: option.splits)

lemma consume_nonce_effects: "effects b w s (snd (consume_nonce clk s key nonce))"
  by (auto simp: consume_nonce_def Let_def intro!: one_nonces)

lemma cancellable_Inr:
  "cancellable s jid owner rv = Inr j \<Longrightarrow>
     dget (jobs s) jid = Some j \<and> job_owner_id j = owner \<and> job_revision j = rv
     \<and> job_state j \<notin> set terminal_states"
  by (auto simp: cancellable_def transition_not_terminal split: option.splits sum.splits if_splits)

lemma cancelled_job_moves:
  "job_state j \<notin> set terminal_states \<Longrightarrow> job_moves b j (cancelled_job j t)"
  by (auto simp: job_moves_def cancelled_job_def same_request_def)

lemma request_cancel_effects: "w owner \<Longrightarrow> effects b w s (snd (request_cancel clk s jid owner rv))"
  by (auto simp: request_cancel_def Let_def dest!: cancellable_Inr
      intro!: one_job cancelled_job_moves split: sum.splits)

lemma effects_job_decision:
  assumes "dget (jobs s) jid = Some j" "w (job_owner_id j)" "job_moves b j j'"
    and "dget (decisions s) (job_owner_id j, key) = None"
  shows "effects b w s (s\<lparr>jobs := dset (jobs s) jid j',
    decisions := dset (decisions s) (job_owner_id j, key) (h, jid)\<rparr>)"
proof (rule effects_step)
  show "effects b w s (s\<lparr>jobs := dset (jobs s) jid j'\<rparr>)"
    using assms by (intro one_job) auto
  have "job_owner_id j' = job_owner_id j" using assms(3) by (simp add: job_moves_def same_request_def)
  then show "effect b w (s\<lparr>jobs := dset (jobs s) jid j'\<rparr>) (s\<lparr>jobs := dset (jobs s) jid j',
    decisions := dset (decisions s) (job_owner_id j, key) (h, jid)\<rparr>)"
    using assms(4) by (intro effect_decision[of _ "job_owner_id j" key h jid]) auto
qed

lemma replayed_decision_None:
  "replayed_decision s owner key h jid = Inr None \<longleftrightarrow> dget (decisions s) (owner, key) = None"
  by (auto simp: replayed_decision_def split: option.splits)

lemma request_cancel_idempotent_effects:
  "w owner \<Longrightarrow> effects b w s (snd (request_cancel_idempotent clk s jid owner rv key h))"
  by (auto simp: request_cancel_idempotent_def Let_def replayed_decision_None
      dest!: cancellable_Inr validated_event_data_Inr
      intro!: append_event_last effects_job_decision cancelled_job_moves
      split: sum.splits option.splits)

lemma reject_proposal_effects:
  assumes "dget (jobs s) jid = Some j" "job_owner_id j = owner" "w owner"
    and "dget (decisions s) (owner, key) = None"
  shows "effects b w s (snd (reject_proposal clk t s j jid owner key h))"
  unfolding reject_proposal_def assms(2)[symmetric] using assms
  by (auto simp: Let_def job_moves_def same_request_def
      dest!: validated_event_data_Inr dest: transition_not_terminal transition_target
      intro!: append_event_last effects_job_decision split: sum.splits)

lemma effects_approval_index:
  assumes "effects b w s t" "ap_token_hash a = h" "owned t (ap_job_id a) (ap_owner_id a)"
    and "dget (approval_index t) k = None"
  shows "effects b w s (t\<lparr>approvals := dset (approvals t) h a,
    approval_index := dset (approval_index t) k h\<rparr>)"
proof -
  have "effects b w s (t\<lparr>approvals := dset (approvals t) h a\<rparr>)"
    by (rule effects_step[OF assms(1) effect_approval[OF assms(2,3) refl]])
  moreover have "effect b w (t\<lparr>approvals := dset (approvals t) h a\<rparr>)
      (t\<lparr>approvals := dset (approvals t) h a, approval_index := dset (approval_index t) k h\<rparr>)"
    using assms(4) by (intro effect_index) auto
  ultimately show ?thesis by (rule effects_step)
qed

lemma grant_approval_effects:
  assumes "dget (jobs s) jid = Some j" "job_owner_id j = owner" "w owner"
    and "dget (decisions s) (owner, key) = None" and "job_state j = AWAITING_APPROVAL"
  shows "effects True w s (snd (grant_approval clk t s j jid owner key rh pd p source h ex))"
proof -
  let ?j = "applying_job j t" and ?k = "(jid, job_revision j, pd)"
  have move: "job_moves True j ?j"
    using assms(5) by (simp add: job_moves_def applying_job_def same_request_def terminal_states_def)
  have main: "effects True w s (s\<lparr>jobs := dset (jobs s) jid ?j, approvals := dset (approvals s) h a,
      approval_index := dset (approval_index s) ?k h,
      decisions := dset (decisions s) (owner, key) (rh, jid)\<rparr>)"
    if new: "dget (approval_index s) ?k = None"
      and a: "ap_token_hash a = h" "ap_job_id a = jid" "ap_owner_id a = owner" for a
  proof -
    let ?t = "s\<lparr>jobs := dset (jobs s) jid ?j,
      decisions := dset (decisions s) (owner, key) (rh, jid)\<rparr>"
    have "effects True w s ?t"
      using effects_job_decision[OF assms(1) _ move] assms(2-4) by blast
    moreover have "owned ?t jid owner"
      using assms(2) by simp
    ultimately have "effects True w s (?t\<lparr>approvals := dset (approvals ?t) h a,
        approval_index := dset (approval_index ?t) ?k h\<rparr>)"
      using new a by (intro effects_approval_index) auto
    then show ?thesis by (cases s) simp
  qed
  show ?thesis
    unfolding grant_approval_def
    by (auto simp: Let_def split: sum.splits dest!: validated_event_data_Inr
        intro!: bind_op_effects append_event_last append_event_from main
        simp: assms(2,3) append_event_acts)
qed

lemma decide_job_effects:
  "w owner \<Longrightarrow> effects (decision = ''approve'') w s
     (snd (decide_job_idempotent clk s jid owner rv key h decision pd p th ex now))"
  unfolding decide_job_idempotent_def
  by (auto simp: Let_def replayed_decision_None approval_acceptable_def
      intro!: reject_proposal_effects grant_approval_effects split: sum.splits option.splits)

lemma consume_export_effects:
  assumes inv: "store_inv s" and w: "w owner"
  shows "effects b w s (snd (consume_export_idempotent sha clk s jid owner rv key h tok pd sd pv rp
    en es ez now))"
proof -
  have main: "effects b w s (s\<lparr>approvals := dset (approvals s) th (a\<lparr>ap_consumed := True,
        ap_consumed_at := Some t\<rparr>), jobs := dset (jobs s) i (completed_job j t),
        decisions := dset (decisions s) (job_owner_id j, k) (h, i)\<rparr>)"
    if a: "dget (approvals s) th = Some a" and j: "dget (jobs s) i = Some j"
      and st: "job_state j = APPLYING" and new: "dget (decisions s) (job_owner_id j, k) = None"
      and wj: "w (job_owner_id j)"
    for a j th t k i
  proof -
    let ?j = "completed_job j t" and ?a = "a\<lparr>ap_consumed := True, ap_consumed_at := Some t\<rparr>"
    let ?t = "s\<lparr>jobs := dset (jobs s) i ?j,
      decisions := dset (decisions s) (job_owner_id j, k) (h, i)\<rparr>"
    have same: "job_owner_id ?j = job_owner_id j" by (simp add: completed_job_def)
    have "job_moves b j ?j"
      using st by (simp add: job_moves_def completed_job_def same_request_def terminal_states_def)
    from effects_job_decision[where w = w, OF j wj this new, of h] have "effects b w s ?t" .
    moreover have "owned ?t (ap_job_id a) (ap_owner_id a)"
      using store_invD(9)[OF inv a] j same by (auto simp: owned_def)
    then have "effect b w ?t (?t\<lparr>approvals := dset (approvals ?t) th ?a\<rparr>)"
      using store_invD(8)[OF inv a] by (intro effect_approval) auto
    ultimately have "effects b w s (?t\<lparr>approvals := dset (approvals ?t) th ?a\<rparr>)"
      by (rule effects_step)
    then show ?thesis by (cases s) simp
  qed
  show ?thesis
    unfolding consume_export_idempotent_def
    using w by (auto simp: Let_def export_allowed_def dest!: validated_event_data_Inr
        intro!: append_event_last main split: sum.splits option.splits)
qed

lemma create_approval_effects:
  "effects b w s (snd (create_approval clk s jid owner rv pd sd act tgt pv rp th ex now))"
  by (auto simp: create_approval_def Let_def owned_def
      intro!: effects_approval_index split: option.splits)

lemma effects_consumed:
  assumes "store_inv s" "dget (approvals s) h = Some a"
  shows "effects b w s (s\<lparr>approvals := dset (approvals s) h
    (a\<lparr>ap_consumed := True, ap_consumed_at := Some t\<rparr>)\<rparr>)"
  using store_invD(8,9)[OF assms]
  by (intro effects_one[OF effect_approval[OF _ _ refl]]) simp_all

lemma consume_approval_effects:
  "store_inv s \<Longrightarrow>
     effects b w s (snd (consume_approval sha clk s tok owner jid rv pd sd pv rp now))"
  by (auto simp: consume_approval_def Let_def intro!: effects_consumed split: option.splits)

lemma record_decision_effects: "effects b w s (snd (record_decision s owner key h jid))"
  by (auto simp: record_decision_def owned_def
      intro!: effects_one[OF effect_decision] split: option.splits)

subsection \<open>Recovery\<close>

lemma approval_for_state: "job_state j \<in> set active_states \<Longrightarrow> job_state j \<notin> set terminal_states"
  by (auto simp: active_states_def terminal_states_def)

lemma reconcile_target_state:
  "reconcile_target s t j = Some st \<Longrightarrow> st = QUEUED \<or> st = COMPLETED \<or> st = TIMED_OUT"
  by (auto simp: reconcile_target_def split: if_splits option.splits)

lemma reconcile_events_valid [simp]:
  "valid_event_data ''queued'' []" "valid_event_data ''timed_out'' []"
  "valid_event_data ''completed'' [(''action'', PStr ''export_patch'')]"
  by (simp_all add: valid_event_data_def empty_events_def code_events_def)

lemma reconcile_one_effects:
  assumes "dget (jobs s) (job_id j) = Some j" and w: "\<And>x. w x"
  shows "effects b w s (snd (reconcile_one tick t limit j rec s))"
proof -
  have "effects b w s (s\<lparr>jobs := dset (jobs s) (job_id j) (j\<lparr>job_state := st,
      job_revision := job_revision j + 1, job_updated_at := t\<rparr>),
      claims := dpop (claims s) (job_id j)\<rparr>)"
    if "reconcile_target s t j = Some st" "job_state j \<in> set active_states" for st
  proof (rule effects_step[OF one_job[OF assms(1) w _ refl] effect_release[OF _, of _ "job_id j"]])
    show "job_moves b j (j\<lparr>job_state := st, job_revision := job_revision j + 1, job_updated_at := t\<rparr>)"
      using that reconcile_target_state[OF that(1)] approval_for_state[of j]
      by (auto simp: job_moves_def same_request_def)
  qed (simp_all add: w)
  then show ?thesis
    unfolding reconcile_one_def Let_def
    by (auto intro!: append_event_last split: option.splits
        dest: reconcile_target_state simp: w)
qed

lemma append_event_locked_jobs [simp]:
  "jobs (snd (append_event_locked s jid kind data t)) = jobs s"
  by (simp add: append_event_locked_def Let_def split: option.splits)

lemma bind_append_jobs [simp]:
  "jobs (snd (bind_op (append_event_locked s jid kind data t) (\<lambda>_ u. (Inr x, u)))) = jobs s"
  by (auto simp: append_event_locked_def Let_def split: option.splits)

lemma reconcile_one_others:
  "k \<noteq> job_id j \<Longrightarrow> dget (jobs (snd (reconcile_one tick t limit j rec s))) k = dget (jobs s) k"
  by (simp add: reconcile_one_def Let_def split: option.splits)

lemma reconcile_loop_effects:
  assumes "distinct (map job_id js)" "\<forall>j \<in> set js. dget (jobs s) (job_id j) = Some j"
    and w: "\<And>x. w x"
  shows "effects b w s (snd (reconcile_loop clk i t limit js rec s))"
  using assms(1,2)
proof (induction js arbitrary: i rec s)
  case (Cons j js)
  let ?r = "reconcile_one (clk i) t limit j rec s"
  have one: "effects b w s (snd ?r)" using Cons.prems w by (intro reconcile_one_effects) auto
  have rest: "\<forall>x \<in> set js. dget (jobs (snd ?r)) (job_id x) = Some x"
  proof
    fix x assume "x \<in> set js"
    then have "job_id x \<noteq> job_id j" using Cons.prems(1) by (auto simp: image_iff)
    then show "dget (jobs (snd ?r)) (job_id x) = Some x"
      using \<open>x \<in> set js\<close> Cons.prems(2) by (simp add: reconcile_one_others)
  qed
  have "effects b w (snd ?r) (snd (reconcile_loop clk (Suc i) t limit js y (snd ?r)))" for y
    using Cons.prems(1) rest by (intro Cons.IH) auto
  then show ?case
    using one by (cases ?r) (auto intro: bind_op_effects)
qed simp

lemma jobs_in_order_stored:
  assumes "store_inv s"
  shows "distinct (map job_id (jobs_in_order s))"
    and "\<forall>j \<in> set (jobs_in_order s). dget (jobs s) (job_id j) = Some j"
proof -
  have stored: "dget (jobs s) (job_id j) = Some j" if "j \<in> set (dvalues (jobs s))" for j
    using in_dvalues_dget[OF store_invD(1)[OF assms] that] store_invD(2)[OF assms] by auto
  then show "\<forall>j \<in> set (jobs_in_order s). dget (jobs s) (job_id j) = Some j"
    by (simp add: jobs_in_order_def)
  have ids: "map job_id (dvalues (jobs s)) = dkeys (jobs s)"
    unfolding dvalues_def dkeys_def
  proof (simp, intro ballI)
    fix x assume x: "x \<in> set (jobs s)"
    obtain k j where "x = (k, j)" by (cases x)
    with x have "dget (jobs s) k = Some j"
      using store_invD(1)[OF assms] by (simp add: dget_def dict_ok_def)
    then show "job_id (snd x) = fst x" using store_invD(2)[OF assms] \<open>x = (k, j)\<close> by simp
  qed
  have "distinct (map job_id (dvalues (jobs s)))"
    using store_invD(1)[OF assms] by (simp add: ids dkeys_def dict_ok_def)
  then show "distinct (map job_id (jobs_in_order s))"
    by (simp add: jobs_in_order_def distinct_map)
qed

lemma reconcile_active_jobs_effects:
  "store_inv s \<Longrightarrow> (\<And>x. w x) \<Longrightarrow> effects b w s (snd (reconcile_active_jobs clk s now limit))"
  unfolding reconcile_active_jobs_def
  by (intro reconcile_loop_effects jobs_in_order_stored)

end
