(* ===== verification/JobStoreMachine.thy ===== *)
theory JobStoreMachine
  imports JobStoreInv
begin

section \<open>The job store as a machine, and its guarantees\<close>

text \<open>
  \<open>store_op\<close> has one constructor per method of \<open>MemoryJobStore\<close> that changes the store,
  with the method's arguments, the clock readings of the call and, for \<open>create_job\<close>, the
  fresh identifier. A run of the store is a list of operations, each of which sees the store
  its predecessors left, whether they returned or raised. The interpretations give every run
  the invariant and the preorder of the theory before; the lemmas after them are what a
  caller of the store can rely on.
\<close>

datatype store_op =
    ConsumeNonce "nat \<Rightarrow> time" string string
  | ClaimJob "nat \<Rightarrow> time" string string string int "time option"
  | RenewClaim "nat \<Rightarrow> time" job_lease int "time option"
  | ReleaseClaim job_lease
  | ReconcileActiveJobs "nat \<Rightarrow> time" "time option" int
  | CreateJob "nat \<Rightarrow> time" string string string job_mode string "source_spec list"
      "pydict option" "git_source_spec option"
  | UpdateJob "nat \<Rightarrow> time" string string int job_state job_fields
  | TransitionJob "nat \<Rightarrow> time" string string int job_state string "pydict option" job_fields
  | AppendEvent "nat \<Rightarrow> time" string string string "pydict option"
  | RequestCancel "nat \<Rightarrow> time" string string int
  | RequestCancelIdempotent "nat \<Rightarrow> time" string string int string string
  | DecideJob "nat \<Rightarrow> time" string string int string string string string "pydict option"
      "string option" "time option" "time option"
  | ConsumeExport "nat \<Rightarrow> time" string string int string string string string string string
      pydict string string int "time option"
  | CreateApproval "nat \<Rightarrow> time" string string int string string string string string pydict
      string time "time option"
  | ConsumeApproval "nat \<Rightarrow> time" string string string int string string string pydict
      "time option"
  | RecordDecision string string string string

fun store_step :: "(string \<Rightarrow> string) \<Rightarrow> (rat \<Rightarrow> string) \<Rightarrow> job_store \<Rightarrow> store_op \<Rightarrow> job_store" where
  "store_step sha fr s (ConsumeNonce clk key nonce) = snd (consume_nonce clk s key nonce)"
| "store_step sha fr s (ClaimJob clk jid owner worker secs now) =
     snd (claim_job clk s jid owner worker secs now)"
| "store_step sha fr s (RenewClaim clk lease secs now) = snd (renew_claim clk s lease secs now)"
| "store_step sha fr s (ReleaseClaim lease) = release_claim s lease"
| "store_step sha fr s (ReconcileActiveJobs clk now limit) =
     snd (reconcile_active_jobs clk s now limit)"
| "store_step sha fr s (CreateJob clk new_id owner key mode prompt sources ctx git) =
     snd (create_job sha fr clk new_id s owner key mode prompt sources ctx git)"
| "store_step sha fr s (UpdateJob clk jid owner rv target f) =
     snd (update_job clk s jid owner rv target f)"
| "store_step sha fr s (TransitionJob clk jid owner rv target kind data f) =
     snd (transition_job clk s jid owner rv target kind data f)"
| "store_step sha fr s (AppendEvent clk jid owner kind data) =
     snd (append_event clk s jid owner kind data)"
| "store_step sha fr s (RequestCancel clk jid owner rv) = snd (request_cancel clk s jid owner rv)"
| "store_step sha fr s (RequestCancelIdempotent clk jid owner rv key h) =
     snd (request_cancel_idempotent clk s jid owner rv key h)"
| "store_step sha fr s (DecideJob clk jid owner rv key h decision pd p th ex now) =
     snd (decide_job_idempotent clk s jid owner rv key h decision pd p th ex now)"
| "store_step sha fr s (ConsumeExport clk jid owner rv key h tok pd sd pv rp en es ez now) =
     snd (consume_export_idempotent sha clk s jid owner rv key h tok pd sd pv rp en es ez now)"
| "store_step sha fr s (CreateApproval clk jid owner rv pd sd act tgt pv rp th ex now) =
     snd (create_approval clk s jid owner rv pd sd act tgt pv rp th ex now)"
| "store_step sha fr s (ConsumeApproval clk tok owner jid rv pd sd pv rp now) =
     snd (consume_approval sha clk s tok owner jid rv pd sd pv rp now)"
| "store_step sha fr s (RecordDecision owner key h jid) = snd (record_decision s owner key h jid)"

text \<open>\<open>uuid4\<close> never returns an identifier that is in use.\<close>

fun store_ok :: "job_store \<Rightarrow> store_op \<Rightarrow> bool" where
  "store_ok s (CreateJob clk new_id owner key mode prompt sources ctx git) =
     (dget (jobs s) new_id = None)"
| "store_ok s _ = True"

fun approves :: "store_op \<Rightarrow> bool" where
  "approves (DecideJob clk jid owner rv key h decision pd p th ex now) = (decision = ''approve'')"
| "approves _ = False"

text \<open>The owner a method acts for; the recovery sweep acts for all and a nonce has none.\<close>

fun acts_for :: "store_op \<Rightarrow> string \<Rightarrow> bool" where
  "acts_for (ClaimJob clk jid owner worker secs now) x = (x = owner)"
| "acts_for (RenewClaim clk lease secs now) x = (x = lease_owner_id lease)"
| "acts_for (ReleaseClaim lease) x = (x = lease_owner_id lease)"
| "acts_for (ReconcileActiveJobs clk now limit) x = True"
| "acts_for (UpdateJob clk jid owner rv target f) x = (x = owner)"
| "acts_for (TransitionJob clk jid owner rv target kind data f) x = (x = owner)"
| "acts_for (AppendEvent clk jid owner kind data) x = (x = owner)"
| "acts_for (RequestCancel clk jid owner rv) x = (x = owner)"
| "acts_for (RequestCancelIdempotent clk jid owner rv key h) x = (x = owner)"
| "acts_for (DecideJob clk jid owner rv key h decision pd p th ex now) x = (x = owner)"
| "acts_for (ConsumeExport clk jid owner rv key h tok pd sd pv rp en es ez now) x = (x = owner)"
| "acts_for _ x = False"

lemma store_step_effects:
  "store_inv s \<Longrightarrow> store_ok s x \<Longrightarrow> effects (approves x) (acts_for x) s (store_step sha fr s x)"
  by (cases x)
    (auto intro: consume_nonce_effects claim_job_effects renew_claim_effects
      release_claim_effects reconcile_active_jobs_effects create_job_effects update_job_effects
      transition_job_effects append_event_effects request_cancel_effects
      request_cancel_idempotent_effects decide_job_effects consume_export_effects
      create_approval_effects consume_approval_effects record_decision_effects)

interpretation store_machine: monotone_machine "store_step sha fr" store_ok store_inv store_later
  for sha fr
proof unfold_locales
  fix s t u x
  assume "store_inv s" "store_ok s x"
  then have "effects (approves x) (acts_for x) s (store_step sha fr s x)"
    by (rule store_step_effects)
  then show "store_inv (store_step sha fr s x)" "store_later s (store_step sha fr s x)"
    using \<open>store_inv s\<close> by (auto intro: effects_inv effects_later)
qed (auto intro: store_later_trans)

abbreviation store_run :: "(string \<Rightarrow> string) \<Rightarrow> (rat \<Rightarrow> string) \<Rightarrow> job_store \<Rightarrow> store_op list \<Rightarrow> job_store" where
  "store_run sha fr \<equiv> run (store_step sha fr)"

abbreviation store_run_ok :: "(string \<Rightarrow> string) \<Rightarrow> (rat \<Rightarrow> string) \<Rightarrow> job_store \<Rightarrow> store_op list \<Rightarrow> bool" where
  "store_run_ok sha fr \<equiv> run_ok (store_step sha fr) store_ok"

lemma store_inv_empty [simp]: "store_inv empty_store"
  by (simp add: store_inv_def empty_store_def)

subsection \<open>Owners\<close>

lemma effect_others:
  assumes "effect b w s t" "store_inv s" "dget (jobs s) k = Some j" "\<not> w (job_owner_id j)"
  shows "dget (jobs t) k = Some j \<and> dget (events t) k = dget (events s) k
    \<and> dget (claims t) k = dget (claims s) k"
  using assms
proof (induction rule: effect.induct)
  case (effect_release s jid t)
  then show ?case
    using store_invD(11)[OF effect_release(3), of k]
    by (cases "dget (claims s) k") (auto simp: owned_def)
next
  case (effect_renew s jid l t tm)
  then show ?case
    using store_invD(11)[OF effect_renew(4), of k] by (auto simp: owned_def)
qed (auto simp: acts_on_def owned_def)

lemma effects_others:
  assumes "effects b w s t" "store_inv s" "dget (jobs s) k = Some j" "\<not> w (job_owner_id j)"
  shows "dget (jobs t) k = Some j \<and> dget (events t) k = dget (events s) k
    \<and> dget (claims t) k = dget (claims s) k"
  using assms
proof (induction rule: rtranclp_induct)
  case (step t u)
  then have "store_inv t" by (auto intro: effects_inv)
  then show ?case using step effect_others[OF step(2)] by auto
qed simp

subsection \<open>Leases\<close>

definition holds_claim :: "job_store \<Rightarrow> job_lease \<Rightarrow> bool" where
  "holds_claim s l \<longleftrightarrow> (case dget (claims s) (lease_job_id l) of None \<Rightarrow> False
     | Some c \<Rightarrow> lease_generation c = lease_generation l)"

interpretation store_leases: fencing "store_step sha fr" store_ok store_inv store_later
    generation_of lease_job_id lease_generation holds_claim
  for sha fr
  by unfold_locales
    (auto simp: holds_claim_def store_later_def dest: store_invD(12) split: option.splits)

lemma update_job_needs_claim:
  "\<not> holds_claim s l \<Longrightarrow> lease_job_id l = jid \<Longrightarrow> f_lease f = Some l
     \<Longrightarrow> isl (fst (update_job clk s jid owner rv target f))"
  by (auto simp: update_job_def lease_allows_def holds_claim_def split: option.splits if_splits)

lemma renew_claim_needs_claim: "\<not> holds_claim s l \<Longrightarrow> isl (fst (renew_claim clk s l secs now))"
  by (auto simp: renew_claim_def holds_claim_def Let_def split: option.splits if_splits)

lemma release_claim_needs_claim: "\<not> holds_claim s l \<Longrightarrow> release_claim s l = s"
  by (auto simp: release_claim_def holds_claim_def split: option.splits if_splits)

lemma claim_job_Inr:
  assumes "claim_job clk s jid owner worker secs now = (Inr (Some l), t)"
  shows "lease_job_id l = jid" "lease_generation l = generation_of s jid + 1"
    "generation_of t jid = lease_generation l"
    "t = store_step sha fr s (ClaimJob clk jid owner worker secs now)"
  using assms by (auto simp: claim_job_def Let_def split: option.splits if_splits)

subsection \<open>A demonstration run\<close>

text \<open>A job of one owner taken from creation to a downloaded patch. The witnesses below apply
  the guarantees at the states of this run; the hash and the float printer are constant
  functions and the clock stands still.\<close>

definition demo_sha :: "string \<Rightarrow> string" where
  "demo_sha s = replicate 64 (CHR ''a'')"

definition demo_fr :: "rat \<Rightarrow> string" where
  "demo_fr q = ''0.0''"

definition demo_clk :: "nat \<Rightarrow> time" where
  "demo_clk i = 0"

definition demo_digest :: string where
  "demo_digest = replicate 64 (CHR ''b'')"

definition demo_token :: string where
  "demo_token = replicate 43 (CHR ''A'')"

definition demo_proposal :: pydict where
  "demo_proposal = [(''action'', PStr ''export_patch''), (''target'', PStr ''owner_download''),
     (''proposalDigest'', PStr demo_digest), (''sourceDigest'', PStr demo_digest),
     (''policyVersion'', PStr ''1''), (''resourceProfile'', PDict [])]"

definition demo_evidence :: pydict where
  "demo_evidence = [(''changes.patch'', PDict [(''sha256'', PStr demo_digest), (''bytes'', PInt 7)])]"

definition demo_move :: "int \<Rightarrow> job_state \<Rightarrow> job_fields \<Rightarrow> store_op" where
  "demo_move rv target f =
     TransitionJob demo_clk ''job'' ''ann'' rv target (job_state_value target) None f"

definition demo_create :: store_op where
  "demo_create = CreateJob demo_clk ''job'' ''ann'' ''key'' BUILD ''task'' [] None None"

definition demo_review :: "store_op list" where
  "demo_review = [demo_create, demo_move 0 QUEUED no_fields, demo_move 1 INGESTING no_fields,
     demo_move 2 PLANNING no_fields, demo_move 3 EXECUTING no_fields, demo_move 4 TESTING no_fields,
     demo_move 5 COLLECTING no_fields,
     TransitionJob demo_clk ''job'' ''ann'' 6 AWAITING_APPROVAL ''awaiting_approval'' None
       (no_fields\<lparr>f_proposal_digest := Some demo_digest, f_source_digest := Some demo_digest,
         f_evidence_manifest := Some demo_evidence, f_approval_proposal := Some demo_proposal\<rparr>)]"

definition demo_decide :: store_op where
  "demo_decide = DecideJob demo_clk ''job'' ''ann'' 7 ''decision'' ''hash'' ''approve'' demo_digest
     (Some demo_proposal) (Some (demo_sha [])) (Some 100) None"

definition demo_export :: store_op where
  "demo_export = ConsumeExport demo_clk ''job'' ''ann'' 8 ''export'' ''hash'' demo_token demo_digest
     demo_digest ''1'' [] ''changes.patch'' demo_digest 7 None"

definition demo_start :: "store_op list" where
  "demo_start = [demo_create, demo_move 0 QUEUED no_fields]"

definition demo_old_lease :: job_lease where
  "demo_old_lease = \<lparr>lease_job_id = ''job'', lease_owner_id = ''ann'',
     lease_worker_id = ''w1'', lease_generation = 1, lease_expires_at = 10\<rparr>"

abbreviation demo_run :: "store_op list \<Rightarrow> job_store" where
  "demo_run \<equiv> store_run demo_sha demo_fr empty_store"

abbreviation demo_job :: "store_op list \<Rightarrow> job" where
  "demo_job ops \<equiv> the (dget (jobs (demo_run ops)) ''job'')"

end
