(* ===== verification/JobStoreProps.thy ===== *)
theory JobStoreProps
  imports JobStoreMachine
begin

section \<open>What a caller of the job store can rely on\<close>

text \<open>
  The guarantees of the job store: the approval gate, exactly-once export, frozen terminal
  jobs, the invariant, lease fencing, optimistic concurrency, idempotent creation and
  decisions, separation of owners, nonce replay and the audit trail. Each speaks of an
  arbitrary sequence of operations between two moments; the witnesses take theirs from the
  demonstration run.
\<close>

subsection \<open>The store's guarantees\<close>

lemma demo_review_ok: "store_run_ok demo_sha demo_fr empty_store demo_review"
  by code_simp

lemma demo_review_inv: "store_inv (demo_run demo_review)"
  by (rule store_machine.inv_run[OF store_inv_empty demo_review_ok])

text \<open>C16. The store invariant holds in every state that operations reach from the empty store:
  each job is stored under its own identifier, has an event list numbered 1, 2, ... of valid
  events, and every idempotency record, decision, approval and claim names a stored job of the
  owner it was made for.\<close>

theorem store_invariant:
  assumes "store_run_ok sha fr empty_store ops"
  shows "store_inv (store_run sha fr empty_store ops)"
  by (rule store_machine.inv_run[OF store_inv_empty assms])

theorem store_invariant_witness: "store_inv (demo_run (demo_review @ [demo_decide, demo_export]))"
  by (rule store_invariant) code_simp

text \<open>C15. A job in a terminal state is frozen: no sequence of operations changes any field of
  it again.\<close>

theorem terminal_job_is_frozen:
  assumes "store_inv s" and "store_run_ok sha fr s ops"
    and "dget (jobs s) k = Some j" and "job_state j \<in> set terminal_states"
  shows "dget (jobs (store_run sha fr s ops)) k = Some j"
  using store_machine.later_run[OF assms(1,2)] assms(3,4)
  unfolding store_later_def job_later_def by metis

theorem terminal_job_is_frozen_witness:
  "dget (jobs (store_run demo_sha demo_fr (demo_run (demo_review @ [demo_decide, demo_export]))
     [ReconcileActiveJobs demo_clk None 10])) ''job''
   = Some (demo_job (demo_review @ [demo_decide, demo_export]))"
proof (rule terminal_job_is_frozen)
  show "store_inv (demo_run (demo_review @ [demo_decide, demo_export]))"
    by (rule store_machine.inv_run[OF store_inv_empty]) code_simp
qed code_simp+

lemma effects_applying:
  assumes "effects False w s t" "dget (jobs t) k = Some j" "job_state j = APPLYING"
  shows "dget (jobs s) k = Some j"
  using assms
proof (induction rule: rtranclp_induct)
  case (step t u)
  from step(2) have "dget (jobs t) k = Some j"
    using step.prems
    by (induction rule: effect.induct) (auto simp: job_moves_def split: if_splits)
  then show ?case using step by blast
qed simp

lemma grant_approval_jobs:
  "jobs (snd (grant_approval clk t s j jid owner key rh pd p source h ex)) \<in>
     {jobs s, dset (jobs s) jid (applying_job j t)}"
  by (auto simp: grant_approval_def append_event_locked_def Let_def
      split: sum.splits option.splits)

lemma decide_approve_jobs:
  assumes "jobs t \<noteq> jobs s"
    and "t = snd (decide_job_idempotent clk s jid owner rv key h ''approve'' pd p th ex now)"
  obtains j0 p' th' ex' where "p = Some p'" "th = Some th'" "ex = Some ex'"
    "dget (jobs s) jid = Some j0" "job_owner_id j0 = owner" "job_state j0 = AWAITING_APPROVAL"
    "job_revision j0 = rv" "job_proposal_digest j0 = Some pd"
    "approval_acceptable j0 ''approve'' pd p th ex (current_time now clk)"
    "jobs t = dset (jobs s) jid (applying_job j0 (current_time now clk))"
proof -
  let ?t = "current_time now clk"
  have "\<exists>j0. dget (jobs s) jid = Some j0 \<and> job_owner_id j0 = owner
    \<and> job_state j0 = AWAITING_APPROVAL \<and> job_revision j0 = rv \<and> job_proposal_digest j0 = Some pd
    \<and> approval_acceptable j0 ''approve'' pd p th ex ?t
    \<and> t = snd (grant_approval clk ?t s j0 jid owner key h pd (the p) (the (job_source_digest j0))
         (the th) (the ex))"
    using assms unfolding decide_job_idempotent_def
    by (auto simp: Let_def get_job_def split: sum.splits option.splits if_splits)
  then obtain j0 where j0: "dget (jobs s) jid = Some j0" "job_owner_id j0 = owner"
      "job_state j0 = AWAITING_APPROVAL" "job_revision j0 = rv" "job_proposal_digest j0 = Some pd"
    and acc: "approval_acceptable j0 ''approve'' pd p th ex ?t"
    and t: "t = snd (grant_approval clk ?t s j0 jid owner key h pd (the p)
         (the (job_source_digest j0)) (the th) (the ex))"
    by blast
  from acc have "p \<noteq> None" "th \<noteq> None" "ex \<noteq> None"
    by (auto simp: approval_acceptable_def split: option.splits)
  moreover have "jobs t = dset (jobs s) jid (applying_job j0 ?t)"
    using assms(1) grant_approval_jobs unfolding t by blast
  ultimately show thesis using that j0 acc by blast
qed

text \<open>The operation \<open>x\<close>, on the store \<open>s\<close>, is an owner's accepted approval of the job \<open>k\<close>, and
  \<open>j\<close> is the job it stores.\<close>

fun accepted_approval :: "job_store \<Rightarrow> store_op \<Rightarrow> string \<Rightarrow> job \<Rightarrow> bool" where
  "accepted_approval s (DecideJob clk jid owner rv key h decision pd p th ex now) k j =
     (case dget (jobs s) k of
        None \<Rightarrow> False
      | Some j0 \<Rightarrow> jid = k \<and> owner = job_owner_id j0 \<and> decision = ''approve''
          \<and> job_state j0 = AWAITING_APPROVAL \<and> job_revision j0 = rv
          \<and> job_proposal_digest j0 = Some pd
          \<and> approval_acceptable j0 decision pd p th ex (current_time now clk)
          \<and> j = applying_job j0 (current_time now clk))"
| "accepted_approval s _ k j = False"

lemma applying_step:
  assumes "store_inv s" "store_ok s x"
    and "dget (jobs (store_step sha fr s x)) k = Some j" "job_state j = APPLYING"
    and new: "dget (jobs s) k \<noteq> Some j"
  shows "accepted_approval s x k j"
proof -
  have "approves x"
  proof (rule ccontr)
    assume "\<not> approves x"
    then have "effects False (acts_for x) s (store_step sha fr s x)"
      using store_step_effects[OF assms(1,2)] by simp
    then show False using effects_applying[OF _ assms(3,4)] new by blast
  qed
  then obtain clk jid owner rv key h pd p th ex now where
    x: "x = DecideJob clk jid owner rv key h ''approve'' pd p th ex now"
    by (cases x) auto
  let ?t = "store_step sha fr s x"
  have "jobs ?t \<noteq> jobs s" using assms(3) new by auto
  then obtain j0 where j0: "dget (jobs s) jid = Some j0" "job_owner_id j0 = owner"
      "job_state j0 = AWAITING_APPROVAL" "job_revision j0 = rv" "job_proposal_digest j0 = Some pd"
      "approval_acceptable j0 ''approve'' pd p th ex (current_time now clk)"
    and t: "jobs ?t = dset (jobs s) jid (applying_job j0 (current_time now clk))"
    unfolding x store_step.simps by (rule decide_approve_jobs[OF _ refl])
  have "k = jid" "j = applying_job j0 (current_time now clk)"
    using assms(3) new t by (auto split: if_splits)
  then show ?thesis using x j0 by simp
qed

text \<open>C1. The approval gate. In every run from the empty store, a job that is in APPLYING got
  there by an owner's decision: the run contains a call of decide_job_idempotent with decision
  "approve" made for the job's owner, on the job when it was AWAITING_APPROVAL at exactly the
  revision and proposal digest named in the call, with an unexpired approval whose proposal,
  digests and token hash match the job's; the job in APPLYING is that job, moved by that call
  and not changed since. No update, transition, recovery sweep or export reaches APPLYING.\<close>

theorem applying_needs_owner_approval:
  assumes "store_run_ok sha fr empty_store ops"
    and "dget (jobs (store_run sha fr empty_store ops)) k = Some j" "job_state j = APPLYING"
  shows "\<exists>pre x post. ops = pre @ x # post
    \<and> accepted_approval (store_run sha fr empty_store pre) x k j"
  using assms
proof (induction ops rule: rev_induct)
  case Nil
  then show ?case by (simp add: empty_store_def)
next
  case (snoc x xs)
  let ?s = "store_run sha fr empty_store xs"
  have ok: "store_run_ok sha fr empty_store xs" "store_ok ?s x"
    using snoc.prems(1) by (simp_all add: run_ok_append)
  then have inv: "store_inv ?s" by (auto intro: store_machine.inv_run)
  show ?case
  proof (cases "dget (jobs ?s) k = Some j")
    case True
    from snoc.IH[OF ok(1) this snoc.prems(3)] show ?thesis
      by (metis append_Cons append_assoc)
  next
    case False
    from applying_step[OF inv ok(2) _ snoc.prems(3) this] snoc.prems(2) show ?thesis
      by (auto simp: run_append)
  qed
qed

theorem applying_needs_owner_approval_witness:
  "\<exists>pre x post. demo_review @ [demo_decide] = pre @ x # post
    \<and> accepted_approval (demo_run pre) x ''job'' (demo_job (demo_review @ [demo_decide]))"
  by (rule applying_needs_owner_approval) code_simp+

text \<open>C17. Lease fencing. A worker whose lease on a job was superseded by a later claim of the
  same job can no longer write: whatever happens after the second claim, an update that
  carries the old lease raises, renewing it raises, and releasing it leaves the store as it
  is.\<close>

theorem superseded_lease_is_fenced:
  assumes "store_inv s0"
    and "claim_job c0 s0 jid o0 w0 secs0 now0 = (Inr (Some old), s1)"
    and "store_run_ok sha fr s1 ops1"
    and "claim_job c1 (store_run sha fr s1 ops1) jid o1 w1 secs1 now1 = (Inr (Some new), s2)"
    and "store_run_ok sha fr s2 ops2"
  shows "isl (fst (update_job c2 (store_run sha fr s2 ops2) jid o2 rv target (f\<lparr>f_lease := Some old\<rparr>)))
    \<and> isl (fst (renew_claim c3 (store_run sha fr s2 ops2) old secs2 now2))
    \<and> release_claim (store_run sha fr s2 ops2) old = store_run sha fr s2 ops2"
proof -
  note first = claim_job_Inr[OF assms(2)] and second = claim_job_Inr[OF assms(4)]
  have inv1: "store_inv s1"
    unfolding first(4)[of sha fr] by (rule store_machine.inv_step) (simp_all add: assms(1))
  then have "store_inv (store_run sha fr s1 ops1)" using assms(3) by (rule store_machine.inv_run)
  then have inv2: "store_inv s2"
    unfolding second(4)[of sha fr] by (intro store_machine.inv_step) simp_all
  have "generation_of s1 jid \<le> generation_of (store_run sha fr s1 ops1) jid"
    using inv1 assms(3) by (rule store_leases.generation_run)
  then have "\<not> holds_claim (store_run sha fr s2 ops2) old"
    using first(1-3) second(1-3) by (intro store_leases.fenced[OF inv2 assms(5)]) simp
  then show ?thesis
    using update_job_needs_claim[OF _ first(1)] renew_claim_needs_claim release_claim_needs_claim
    by auto
qed

theorem superseded_lease_is_fenced_witness:
  "isl (fst (update_job demo_clk
     (store_run demo_sha demo_fr (snd (claim_job demo_clk
        (store_run demo_sha demo_fr (snd (claim_job demo_clk (demo_run demo_start) ''job'' ''ann''
          ''w1'' 10 (Some 0))) []) ''job'' ''ann'' ''w2'' 10 (Some 20))) [])
     ''job'' ''ann'' 1 INGESTING (no_fields\<lparr>f_lease := Some demo_old_lease\<rparr>)))"
proof -
  have "store_inv (demo_run demo_start)"
    by (rule store_machine.inv_run[OF store_inv_empty]) code_simp
  moreover have "claim_job demo_clk (demo_run demo_start) ''job'' ''ann'' ''w1'' 10 (Some 0)
      = (Inr (Some demo_old_lease),
         snd (claim_job demo_clk (demo_run demo_start) ''job'' ''ann'' ''w1'' 10 (Some 0)))"
    by (rule prod_eqI) (simp_all only: snd_conv fst_conv, code_simp)
  moreover have "claim_job demo_clk
        (store_run demo_sha demo_fr (snd (claim_job demo_clk (demo_run demo_start) ''job'' ''ann''
          ''w1'' 10 (Some 0))) []) ''job'' ''ann'' ''w2'' 10 (Some 20)
      = (Inr (Some (demo_old_lease\<lparr>lease_worker_id := ''w2'', lease_generation := 2,
            lease_expires_at := 30\<rparr>)),
         snd (claim_job demo_clk
        (store_run demo_sha demo_fr (snd (claim_job demo_clk (demo_run demo_start) ''job'' ''ann''
          ''w1'' 10 (Some 0))) []) ''job'' ''ann'' ''w2'' 10 (Some 20)))"
    by (rule prod_eqI) (simp_all only: snd_conv fst_conv, code_simp)
  ultimately show ?thesis
    by (blast intro: superseded_lease_is_fenced [of _ _ _ _ _ _ _ _ _ demo_sha demo_fr "[]" _ _ _ _ _ _ _ "[]",
          THEN conjunct1] run_ok.simps(1)[THEN iffD2])
qed

subsection \<open>Exactly-once export\<close>

lemma export_Inr:
  assumes "consume_export_idempotent sha clk s jid owner rv key h tok pd sd pv rp en es ez now
    = (Inr j, t)"
  shows "dget (jobs t) jid = Some j \<and> job_state j = COMPLETED"
  using assms unfolding consume_export_idempotent_def
  by (auto simp: Let_def append_event_locked_def completed_job_def
      split: if_splits option.splits sum.splits)

lemma export_of_completed:
  assumes "dget (jobs s) jid = Some j" "job_state j = COMPLETED"
  shows "snd (consume_export_idempotent sha clk s jid owner rv key h tok pd sd pv rp en es ez now) = s"
  using assms unfolding consume_export_idempotent_def
  by (auto simp: Let_def export_allowed_def split: option.splits)

text \<open>C2. A patch is exported at most once. After an export of a job has succeeded, the job is
  COMPLETED for ever, and a later export of the same job, by whatever owner, key, request,
  token or clock, never changes the store again: it replays the recorded answer or raises.\<close>

theorem export_at_most_once:
  assumes "store_inv s"
    and "consume_export_idempotent sha clk s jid owner rv key h tok pd sd pv rp en es ez now = (Inr j, t)"
    and "store_run_ok sha fr t ops"
  shows "job_state j = COMPLETED \<and> dget (jobs (store_run sha fr t ops)) jid = Some j
    \<and> snd (consume_export_idempotent sha clk2 (store_run sha fr t ops) jid owner2 rv2 key2 h2 tok2
        pd2 sd2 pv2 rp2 en2 es2 ez2 now2) = store_run sha fr t ops"
proof -
  have j: "dget (jobs t) jid = Some j" "job_state j = COMPLETED"
    using export_Inr[OF assms(2)] by auto
  have "t = store_step sha fr s (ConsumeExport clk jid owner rv key h tok pd sd pv rp en es ez now)"
    using assms(2) by simp
  then have "store_inv t" using store_machine.inv_step[OF assms(1)] by (simp only: store_ok.simps)
  then have "store_later t (store_run sha fr t ops)"
    using assms(3) by (rule store_machine.later_run)
  then have "dget (jobs (store_run sha fr t ops)) jid = Some j"
    using j unfolding store_later_def job_later_def terminal_states_def by (metis list.set_intros(1))
  then show ?thesis using j(2) export_of_completed by blast
qed

theorem export_at_most_once_witness:
  "snd (consume_export_idempotent demo_sha demo_clk
      (store_run demo_sha demo_fr (demo_run (demo_review @ [demo_decide, demo_export])) [])
      ''job'' ''ann'' 9 ''again'' ''hash'' demo_token demo_digest demo_digest ''1'' []
      ''changes.patch'' demo_digest 7 None)
    = store_run demo_sha demo_fr (demo_run (demo_review @ [demo_decide, demo_export])) []"
proof -
  have inv: "store_inv (demo_run (demo_review @ [demo_decide]))"
    by (rule store_machine.inv_run[OF store_inv_empty]) code_simp
  have export: "consume_export_idempotent demo_sha demo_clk (demo_run (demo_review @ [demo_decide]))
      ''job'' ''ann'' 8 ''export'' ''hash'' demo_token demo_digest demo_digest ''1'' []
      ''changes.patch'' demo_digest 7 None
    = (Inr (demo_job (demo_review @ [demo_decide, demo_export])),
       demo_run (demo_review @ [demo_decide, demo_export]))"
    by code_simp
  show ?thesis
    by (rule export_at_most_once[OF inv export run_ok.simps(1)[THEN iffD2, OF TrueI],
        THEN conjunct2, THEN conjunct2])
qed

subsection \<open>Optimistic concurrency\<close>

lemma step_later:
  "store_inv s \<Longrightarrow> store_ok s x \<Longrightarrow> t = store_step sha fr s x \<Longrightarrow> store_run_ok sha fr t ops
     \<Longrightarrow> store_inv t \<and> store_later t (store_run sha fr t ops)"
  using store_machine.inv_step store_machine.later_run by blast

lemma job_grown:
  "store_later s t \<Longrightarrow> dget (jobs s) k = Some j \<Longrightarrow>
     \<exists>j'. dget (jobs t) k = Some j' \<and> job_revision j \<le> job_revision j'"
  unfolding store_later_def job_later_def by (metis order.refl less_imp_le)

lemma update_job_Inr:
  "update_job clk s jid owner rv target f = (Inr j, t) \<Longrightarrow>
     job_revision j = rv + 1 \<and> dget (jobs t) jid = Some j"
  by (auto simp: update_job_def moved_job_def Let_def split: option.splits sum.splits if_splits)

lemma stale_writers:
  assumes "dget (jobs s) jid = Some j" "job_revision j \<noteq> rv"
  shows "isl (fst (update_job clk s jid owner rv target f))"
    and "isl (fst (transition_job clk s jid owner rv target kind data f))"
    and "isl (fst (request_cancel clk s jid owner rv))"
  using assms
  by (auto simp: update_job_def transition_job_def request_cancel_def cancellable_def
      split: sum.splits option.splits if_splits)

text \<open>C18. Optimistic concurrency. Of all the writers that name one revision of a job, at most
  one succeeds: after an update at revision rv has returned, every later update, transition or
  cancellation of the job at revision rv raises, whatever happened in between.\<close>

theorem one_writer_per_revision:
  assumes "store_inv s" and "update_job clk s jid owner rv target f = (Inr j, t)"
    and "store_run_ok sha fr t ops"
  shows "isl (fst (update_job clk2 (store_run sha fr t ops) jid owner2 rv target2 f2))
    \<and> isl (fst (transition_job clk2 (store_run sha fr t ops) jid owner2 rv target2 kind data f2))
    \<and> isl (fst (request_cancel clk2 (store_run sha fr t ops) jid owner2 rv))"
proof -
  note upd = update_job_Inr[OF assms(2)]
  have "t = store_step sha fr s (UpdateJob clk jid owner rv target f)" using assms(2) by simp
  from step_later[OF assms(1) _ this assms(3)]
  have "store_later t (store_run sha fr t ops)" by simp
  from job_grown[OF this, of jid j] upd obtain j' where
    "dget (jobs (store_run sha fr t ops)) jid = Some j'" "rv + 1 \<le> job_revision j'" by auto
  then show ?thesis using stale_writers[of "store_run sha fr t ops" jid j' rv] by simp
qed

theorem one_writer_per_revision_witness:
  "isl (fst (update_job demo_clk (store_run demo_sha demo_fr
      (snd (update_job demo_clk (demo_run [demo_create]) ''job'' ''ann'' 0 QUEUED no_fields)) [])
      ''job'' ''ann'' 0 CANCELLED no_fields))"
proof -
  have inv: "store_inv (demo_run [demo_create])"
    by (rule store_machine.inv_run[OF store_inv_empty]) code_simp
  have "update_job demo_clk (demo_run [demo_create]) ''job'' ''ann'' 0 QUEUED no_fields
    = (Inr (demo_job demo_start),
       snd (update_job demo_clk (demo_run [demo_create]) ''job'' ''ann'' 0 QUEUED no_fields))"
    by code_simp
  from one_writer_per_revision[OF inv this run_ok.simps(1)[THEN iffD2, OF TrueI], THEN conjunct1]
  show ?thesis .
qed

subsection \<open>Idempotency\<close>

lemma create_job_Inr:
  assumes "create_job sha fr clk new_id s owner key mode prompt sources ctx git = (Inr j, t)"
  shows "owner \<noteq> [] \<and> key \<noteq> [] \<and> strip prompt \<noteq> [] \<and> (\<exists>jid. dget (jobs t) jid = Some j
    \<and> dget (idempotency t) (owner, key)
        = Some (jid, request_fingerprint sha fr mode prompt sources ctx git))"
  using assms
  by (auto simp: create_job_def Let_def stored_job_def split: if_splits option.splits)

text \<open>Creating a job is idempotent. Once a job was created for an owner and a key, the same
  request for that owner and key returns, at any later moment, the current version of that same
  job and leaves the store as it is; no second job is made.\<close>

theorem create_job_is_idempotent:
  assumes "store_inv s" and "dget (jobs s) new_id = None"
    and "create_job sha fr clk new_id s owner key mode prompt sources ctx git = (Inr j, t)"
    and "store_run_ok sha fr t ops"
  shows "\<exists>j'. create_job sha fr clk2 new_id2 (store_run sha fr t ops) owner key mode prompt
      sources ctx git = (Inr j', store_run sha fr t ops) \<and> job_later j j'"
proof -
  let ?u = "store_run sha fr t ops"
  obtain jid where j: "owner \<noteq> []" "key \<noteq> []" "strip prompt \<noteq> []" "dget (jobs t) jid = Some j"
      "dget (idempotency t) (owner, key)
        = Some (jid, request_fingerprint sha fr mode prompt sources ctx git)"
    using create_job_Inr[OF assms(3)] by auto
  have "t = store_step sha fr s (CreateJob clk new_id owner key mode prompt sources ctx git)"
    using assms(3) by simp
  from step_later[OF assms(1) _ this assms(4)] have "store_later t ?u" using assms(2) by simp
  then obtain j' where "dget (jobs ?u) jid = Some j'" "job_later j j'"
    "dget (idempotency ?u) (owner, key)
        = Some (jid, request_fingerprint sha fr mode prompt sources ctx git)"
    using j(4,5) unfolding store_later_def by metis
  then show ?thesis using j(1-3) by (simp add: create_job_def Let_def stored_job_def)
qed

theorem create_job_is_idempotent_witness:
  "\<exists>j'. create_job demo_sha demo_fr demo_clk ''job2'' (store_run demo_sha demo_fr
      (demo_run [demo_create]) [demo_move 0 QUEUED no_fields]) ''ann'' ''key'' BUILD ''task'' [] None None
    = (Inr j', store_run demo_sha demo_fr (demo_run [demo_create]) [demo_move 0 QUEUED no_fields])
    \<and> job_later (demo_job [demo_create]) j'"
proof -
  have new: "dget (jobs empty_store) ''job'' = None" by code_simp
  have "create_job demo_sha demo_fr demo_clk ''job'' empty_store ''ann'' ''key'' BUILD ''task'' [] None None
    = (Inr (demo_job [demo_create]), demo_run [demo_create])" by code_simp
  moreover have "store_run_ok demo_sha demo_fr (demo_run [demo_create]) [demo_move 0 QUEUED no_fields]"
    by code_simp
  ultimately show ?thesis by (rule create_job_is_idempotent[OF store_inv_empty new])
qed

lemma append_event_decisions [simp]:
  "decisions (snd (append_event_locked s jid kind data t)) = decisions s"
  by (simp add: append_event_locked_def Let_def split: option.splits)

lemma bind_append_Inr:
  "bind_op (append_event_locked s jid kind data tm) (\<lambda>_ u. (Inr x, u)) = (Inr y, t) \<Longrightarrow>
     y = x \<and> jobs t = jobs s \<and> decisions t = decisions s"
  by (auto simp: append_event_locked_def Let_def split: option.splits)

lemma bind_append_Inr2:
  "bind_op (append_event_locked s jid kind data tm)
     (\<lambda>_ u. bind_op (append_event_locked u jid kind2 data2 tm2) (\<lambda>_ v. (Inr x, v))) = (Inr y, t) \<Longrightarrow>
     y = x \<and> jobs t = jobs s \<and> decisions t = decisions s"
  by (auto simp: append_event_locked_def Let_def split: option.splits)

lemma decide_Inr:
  assumes "decide_job_idempotent clk s jid owner rv key h decision pd p th ex now = (Inr j, t)"
  shows "dget (decisions t) (owner, key) = Some (h, jid) \<and> dget (jobs t) jid = Some j"
  using assms
  by (auto simp: decide_job_idempotent_def replayed_decision_def reject_proposal_def
      grant_approval_def Let_def dest!: bind_append_Inr bind_append_Inr2
      split: option.splits sum.splits if_splits)

text \<open>A decision takes effect once. After a decision under an owner's key has returned, the
  same call returns, at any later moment, the current version of the decided job and leaves the
  store as it is, and a call with the same key and another request raises a conflict.\<close>

theorem decision_is_idempotent:
  assumes "store_inv s"
    and "decide_job_idempotent clk s jid owner rv key h decision pd p th ex now = (Inr j, t)"
    and "store_run_ok sha fr t ops" and "h2 \<noteq> h"
  shows "(\<exists>j'. decide_job_idempotent clk2 (store_run sha fr t ops) jid owner rv key h decision pd
        p th ex now2 = (Inr j', store_run sha fr t ops) \<and> job_later j j')
    \<and> decide_job_idempotent clk2 (store_run sha fr t ops) jid2 owner rv2 key h2 decision2 pd2 p2
        th2 ex2 now2 = (Inl IdempotencyConflict, store_run sha fr t ops)"
proof -
  let ?u = "store_run sha fr t ops"
  have "t = store_step sha fr s (DecideJob clk jid owner rv key h decision pd p th ex now)"
    using assms(2) by simp
  from step_later[OF assms(1) _ this assms(3)] have later: "store_later t ?u" by simp
  then have "dget (decisions ?u) (owner, key) = Some (h, jid)"
    using decide_Inr[OF assms(2)] unfolding store_later_def by blast
  moreover obtain j' where "dget (jobs ?u) jid = Some j'" "job_later j j'"
    using later decide_Inr[OF assms(2)] unfolding store_later_def by blast
  ultimately show ?thesis
    using assms(4) by (simp add: decide_job_idempotent_def replayed_decision_def)
qed

theorem decision_is_idempotent_witness:
  "decide_job_idempotent demo_clk (store_run demo_sha demo_fr (demo_run (demo_review @ [demo_decide]))
      [demo_export]) ''job'' ''ann'' 7 ''decision'' ''other'' ''reject'' demo_digest None None None None
    = (Inl IdempotencyConflict, store_run demo_sha demo_fr (demo_run (demo_review @ [demo_decide]))
      [demo_export])"
proof -
  have decide: "decide_job_idempotent demo_clk (demo_run demo_review) ''job'' ''ann'' 7 ''decision''
      ''hash'' ''approve'' demo_digest (Some demo_proposal) (Some (demo_sha [])) (Some 100) None
    = (Inr (demo_job (demo_review @ [demo_decide])), demo_run (demo_review @ [demo_decide]))"
    by code_simp
  have ok: "store_run_ok demo_sha demo_fr (demo_run (demo_review @ [demo_decide])) [demo_export]"
    by code_simp
  show ?thesis
    by (rule decision_is_idempotent[OF demo_review_inv decide ok, THEN conjunct2]) simp
qed

subsection \<open>Separation of owners\<close>

text \<open>C19. An operation made for one owner leaves the jobs of every other owner alone: neither the
  job, nor its events, nor the claim on it changes.\<close>

theorem other_owners_untouched:
  assumes "store_inv s" and "store_ok s x" and "dget (jobs s) k = Some j"
    and "\<not> acts_for x (job_owner_id j)"
  shows "dget (jobs (store_step sha fr s x)) k = Some j
    \<and> dget (events (store_step sha fr s x)) k = dget (events s) k
    \<and> dget (claims (store_step sha fr s x)) k = dget (claims s) k"
  using effects_others[OF store_step_effects[OF assms(1,2)] assms(1,3,4)] .

theorem other_owners_untouched_witness:
  "dget (jobs (store_step demo_sha demo_fr (demo_run demo_review)
     (DecideJob demo_clk ''job'' ''eve'' 7 ''decision'' ''hash'' ''approve'' demo_digest
       (Some demo_proposal) (Some (demo_sha [])) (Some 100) None))) ''job''
   = Some (demo_job demo_review)"
proof -
  have "dget (jobs (demo_run demo_review)) ''job'' = Some (demo_job demo_review)"
    and "\<not> acts_for (DecideJob demo_clk ''job'' ''eve'' 7 ''decision'' ''hash'' ''approve'' demo_digest
       (Some demo_proposal) (Some (demo_sha [])) (Some 100) None) (job_owner_id (demo_job demo_review))"
    by code_simp+
  from other_owners_untouched[OF demo_review_inv _ this, THEN conjunct1] show ?thesis by simp
qed

subsection \<open>The audit trail\<close>

text \<open>The audit trail of a job is append-only and numbered: what list_events returns at one
  moment is a prefix of what it returns at any later moment, event number i has sequence
  i + 1 and carries the job's identifier and data of the shape its kind demands.\<close>

theorem audit_trail_append_only:
  assumes "store_inv s" and "list_events s jid owner = Inr evs" and "store_run_ok sha fr s ops"
  shows "(\<exists>more. list_events (store_run sha fr s ops) jid owner = Inr (evs @ more))
    \<and> well_numbered jid evs"
proof -
  let ?u = "store_run sha fr s ops"
  obtain j where j: "dget (jobs s) jid = Some j" "job_owner_id j = owner" "dget (events s) jid = Some evs"
    using assms(2) by (auto simp: list_events_def split: option.splits)
  have later: "store_later s ?u" using store_machine.later_run assms(1,3) .
  obtain j' where j': "dget (jobs ?u) jid = Some j'" "job_owner_id j' = owner"
    using later j(1,2) unfolding store_later_def job_later_def same_request_def by metis
  obtain more where "dget (events ?u) jid = Some (evs @ more)"
    using later j(3) unfolding store_later_def by blast
  then have "list_events ?u jid owner = Inr (evs @ more)"
    using j' by (simp add: list_events_def get_job_def)
  moreover have "well_numbered jid evs" using store_invD(5)[OF assms(1) j(3)] .
  ultimately show ?thesis by blast
qed

theorem audit_trail_append_only_witness:
  "\<exists>more. list_events (store_run demo_sha demo_fr (demo_run demo_review) [demo_decide]) ''job'' ''ann''
    = Inr (projr (list_events (demo_run demo_review) ''job'' ''ann'') @ more)"
proof (rule audit_trail_append_only[OF demo_review_inv, THEN conjunct1])
  show "list_events (demo_run demo_review) ''job'' ''ann''
    = Inr (projr (list_events (demo_run demo_review) ''job'' ''ann''))" by code_simp
  show "store_run_ok demo_sha demo_fr (demo_run demo_review) [demo_decide]" by code_simp
qed

subsection \<open>Nonces\<close>

text \<open>The clock readings at which a run looks at nonces are all before \<open>t\<close>.\<close>

fun nonce_before :: "time \<Rightarrow> store_op \<Rightarrow> bool" where
  "nonce_before t (ConsumeNonce clk key nonce) = (clk 0 < t)"
| "nonce_before t _ = True"

lemma map_of_filter_keep:
  "map_of d k = Some v \<Longrightarrow> dict_ok d \<Longrightarrow> P (k, v) \<Longrightarrow> map_of (filter P d) k = Some v"
  by (induction d) (auto simp: dict_ok_def split: if_splits)

lemma append_event_nonces [simp]:
  "nonces (snd (append_event_locked s jid kind data tm)) = nonces s"
  by (simp add: append_event_locked_def Let_def split: option.splits)

lemma bind_op_nonces:
  "nonces (snd r) = nonces s \<Longrightarrow> (\<And>x t. r = (Inr x, t) \<Longrightarrow> nonces (snd (f x t)) = nonces t)
     \<Longrightarrow> nonces (snd (bind_op r f)) = nonces s"
  by (cases r; cases "fst r") auto

lemma append_last_nonces [simp]:
  "nonces (snd (bind_op (append_event_locked s jid kind data tm) (\<lambda>_ u. (Inr x, u)))) = nonces s"
  by (rule bind_op_nonces) auto

lemma update_job_nonces [simp]: "nonces (snd (update_job clk s jid owner rv target f)) = nonces s"
  by (simp add: update_job_def Let_def split: option.splits sum.splits)

lemma reconcile_one_nonces [simp]: "nonces (snd (reconcile_one tick t limit j rec s)) = nonces s"
  by (simp add: reconcile_one_def Let_def split: option.splits)

lemma reconcile_loop_nonces [simp]:
  "nonces (snd (reconcile_loop clk i t limit js rec s)) = nonces s"
proof (induction js arbitrary: i rec s)
  case (Cons j js)
  then show ?case by (auto intro: bind_op_nonces)
qed simp

lemma grant_approval_nonces [simp]:
  "nonces (snd (grant_approval clk t s j jid owner key rh pd p source h ex)) = nonces s"
  by (auto simp: grant_approval_def Let_def intro!: bind_op_nonces split: sum.splits)

lemma reject_proposal_nonces [simp]:
  "nonces (snd (reject_proposal clk t s j jid owner key h)) = nonces s"
  by (auto simp: reject_proposal_def Let_def split: sum.splits)

lemma decide_job_nonces [simp]:
  "nonces (snd (decide_job_idempotent clk s jid owner rv key h decision pd p th ex now)) = nonces s"
  by (simp add: decide_job_idempotent_def Let_def split: sum.splits option.splits)

lemma consume_export_nonces [simp]:
  "nonces (snd (consume_export_idempotent sha clk s jid owner rv key h tok pd sd pv rp en es ez now))
     = nonces s"
  by (simp add: consume_export_idempotent_def Let_def split: sum.splits option.splits)

lemma transition_job_nonces [simp]:
  "nonces (snd (transition_job clk s jid owner rv target kind data f)) = nonces s"
  by (auto simp: transition_job_def intro!: bind_op_nonces split: sum.splits)

fun is_nonce_op :: "store_op \<Rightarrow> bool" where
  "is_nonce_op (ConsumeNonce clk key nonce) = True"
| "is_nonce_op _ = False"

lemma store_step_nonces:
  "\<not> is_nonce_op x \<Longrightarrow> nonces (store_step sha fr s x) = nonces s"
proof (cases x)
  case (RequestCancelIdempotent clk jid owner rv key h)
  then show ?thesis
    by (simp add: request_cancel_idempotent_def Let_def split: sum.splits option.splits)
next
  case (CreateJob clk new_id owner key mode prompt sources ctx git)
  then show ?thesis by (simp add: create_job_def Let_def stored_job_def split: option.splits)
qed (simp_all add: claim_job_def renew_claim_def release_claim_def reconcile_active_jobs_def
    append_event_def request_cancel_def create_approval_def consume_approval_def
    record_decision_def Let_def split: option.splits sum.splits)

lemma consume_nonce_keeps:
  assumes "dict_ok (nonces s)" "dget (nonces s) k = Some tm" "clk 0 < tm + 600"
  shows "dget (nonces (snd (consume_nonce clk s key nonce))) k = Some tm
    \<and> dict_ok (nonces (snd (consume_nonce clk s key nonce)))"
proof -
  let ?kept = "filter (\<lambda>(item, consumed_at). clk 0 - 600 < consumed_at) (nonces s)"
  have "dget ?kept k = Some tm"
    using assms map_of_filter_keep[of "nonces s" k tm "\<lambda>(item, consumed_at). clk 0 - 600 < consumed_at"]
    by (simp add: dget_def)
  then show ?thesis
    using assms by (auto simp: consume_nonce_def Let_def)
qed

lemma nonce_kept:
  assumes "dict_ok (nonces s)" "dget (nonces s) k = Some tm" "list_all (nonce_before (tm + 600)) ops"
  shows "dget (nonces (store_run sha fr s ops)) k = Some tm
    \<and> dict_ok (nonces (store_run sha fr s ops))"
  using assms
proof (induction ops arbitrary: s)
  case (Cons x ops)
  have "dget (nonces (store_step sha fr s x)) k = Some tm
      \<and> dict_ok (nonces (store_step sha fr s x))"
  proof (cases "is_nonce_op x")
    case True
    then obtain clk key nonce where "x = ConsumeNonce clk key nonce" by (cases x) auto
    then show ?thesis using consume_nonce_keeps[OF Cons.prems(1,2)] Cons.prems(3) by simp
  next
    case False
    then show ?thesis using Cons.prems store_step_nonces by simp
  qed
  then show ?case using Cons by simp
qed simp

text \<open>A nonce is accepted once in ten minutes. After consume_nonce has accepted a nonce at
  time t, it refuses the same nonce of the same key as long as the clock stays before t + 600,
  whatever other operations, other nonces among them, happen in between.\<close>

theorem nonce_accepted_once:
  assumes "dict_ok (nonces s)" and "consume_nonce clk s key nonce = (True, t)"
    and "list_all (nonce_before (clk 1 + 600)) ops" and "clk2 0 < clk 1 + 600"
  shows "fst (consume_nonce clk2 (store_run sha fr t ops) key nonce) = False"
proof -
  let ?u = "store_run sha fr t ops"
  let ?kept = "filter (\<lambda>(item, consumed_at). clk2 0 - 600 < consumed_at) (nonces ?u)"
  have "dict_ok (nonces t)" "dget (nonces t) (key, nonce) = Some (clk 1)"
    using assms(1,2) by (auto simp: consume_nonce_def Let_def split: if_splits)
  from nonce_kept[OF this assms(3)]
  have "dget ?kept (key, nonce) = Some (clk 1)"
    using assms(4) map_of_filter_keep[of "nonces ?u" "(key, nonce)" "clk 1"
        "\<lambda>(item, consumed_at). clk2 0 - 600 < consumed_at"]
    by (simp add: dget_def)
  then show ?thesis by (simp add: consume_nonce_def Let_def)
qed

theorem nonce_accepted_once_witness:
  "fst (consume_nonce demo_clk (store_run demo_sha demo_fr
      (snd (consume_nonce demo_clk empty_store ''key'' ''n1''))
      [ConsumeNonce demo_clk ''key'' ''n2'']) ''key'' ''n1'') = False"
proof (rule nonce_accepted_once[where clk = demo_clk and s = empty_store])
  show "consume_nonce demo_clk empty_store ''key'' ''n1''
    = (True, snd (consume_nonce demo_clk empty_store ''key'' ''n1''))" by code_simp
qed (simp_all add: empty_store_def demo_clk_def)

end
