(* ===== verification/RecoveryContracts.thy ===== *)
theory RecoveryContracts
  imports PyValue
begin

section \<open>Failure recovery: contracts\<close>

text \<open>
  \<open>core/lil_tweak/failure_recovery/contracts.py\<close>. An enumeration is a datatype with its
  string values; a frozen dataclass is a record and its \<open>__post_init__\<close> a function that
  returns the validated record or the code of the \<open>ValueError\<close> it raises. The checks of a
  \<open>__post_init__\<close> are a list of conditions and codes in the order of the source, of which
  the first that fails is raised. Checks of the form \<open>isinstance(x, bool)\<close> hold by the
  typing of the record fields.
\<close>

subsection \<open>Enumerations\<close>

lemma find_by_value:
  "distinct (map f xs) \<Longrightarrow> x \<in> set xs \<Longrightarrow> find (\<lambda>y. f y = f x) xs = Some x"
  by (induction xs) (auto simp: image_iff)

datatype failure_class =
    FC_INPUT_CONTRACT | FC_PLANNING | FC_REPOSITORY_CONTEXT | FC_EXECUTION | FC_VERIFICATION
    | FC_INFRASTRUCTURE_PROVIDER | FC_RECOVERY | FC_UNKNOWN

fun failure_class_value :: "failure_class \<Rightarrow> string" where
  "failure_class_value FC_INPUT_CONTRACT = ''input_contract''"
| "failure_class_value FC_PLANNING = ''planning''"
| "failure_class_value FC_REPOSITORY_CONTEXT = ''repository_context''"
| "failure_class_value FC_EXECUTION = ''execution''"
| "failure_class_value FC_VERIFICATION = ''verification''"
| "failure_class_value FC_INFRASTRUCTURE_PROVIDER = ''infrastructure_provider''"
| "failure_class_value FC_RECOVERY = ''recovery''"
| "failure_class_value FC_UNKNOWN = ''unknown''"

definition failure_classes :: "failure_class list" where
  "failure_classes =
    [FC_INPUT_CONTRACT, FC_PLANNING, FC_REPOSITORY_CONTEXT, FC_EXECUTION, FC_VERIFICATION
     , FC_INFRASTRUCTURE_PROVIDER, FC_RECOVERY, FC_UNKNOWN]"

definition failure_class_of :: "string \<Rightarrow> failure_class option" where
  "failure_class_of s = find (\<lambda>x. failure_class_value x = s) failure_classes"

lemma failure_class_all: "x \<in> set failure_classes"
  by (cases x) (simp_all add: failure_classes_def)

lemma failure_class_distinct: "distinct (map failure_class_value failure_classes)"
  by code_simp

lemma failure_class_of_value [simp]: "failure_class_of (failure_class_value x) = Some x"
  unfolding failure_class_of_def by (rule find_by_value[OF failure_class_distinct failure_class_all])

lemma failure_class_value_inj [simp]: "failure_class_value x = failure_class_value y \<longleftrightarrow> x = y"
  using failure_class_of_value by (metis option.inject)

datatype failure_code =
    INVALID_REQUEST | MISSING_CONTRACT | CONFLICTING_CONTRACT | STALE_CONTRACT
    | MISSING_APPROVAL | STALE_APPROVAL | WRONG_DIGEST_BINDING | PLAN_INCOMPLETE
    | PLAN_INVALID | PLAN_CONTRACT_VIOLATION | PLAN_SCOPE_EXCESSIVE | PLAN_CRITIC_FAILURE
    | STALE_SOURCE | SOURCE_CHANGED | REPOSITORY_UNAVAILABLE | MAPPER_INCOMPLETE
    | DEPENDENCY_UNCERTAIN | REPOSITORY_INTEGRITY_FAILURE | COMMAND_FAILED | TIMEOUT
    | PROCESS_CRASH | RESOURCE_EXHAUSTION | SANDBOX_FAILURE | RUNNER_UNAVAILABLE
    | RUNNER_UNQUALIFIED | LEASE_REJECTED | LEASE_EXPIRED | LEASE_REPLAYED | CANCELLATION
    | CLEANUP_FAILURE | TEST_FAILURE | LINT_FAILURE | FORMAT_FAILURE | TYPECHECK_FAILURE
    | BUILD_FAILURE | SECURITY_CHECK_FAILURE | DETERMINISTIC_VERIFICATION_FAILURE
    | INDEPENDENT_VERIFICATION_FAILURE | FALSE_COMPLETION_CLAIM | PROVIDER_UNHEALTHY
    | PROVIDER_TIMEOUT | PROVIDER_CAPACITY_EXHAUSTED | PROVIDER_COST_GATE
    | PROVIDER_AUTH_FAILURE | CONTROL_PLANE_FAILURE | ROLLBACK_FAILED | REPAIR_REPEATED
    | REPAIR_BUDGET_EXHAUSTED | RECOVERY_EVIDENCE_INVALID | RECOVERY_STRATEGY_INVALID
    | RECOVERY_STRATEGY_NO_PROGRESS | UNKNOWN_FAILURE

fun failure_code_value :: "failure_code \<Rightarrow> string" where
  "failure_code_value INVALID_REQUEST = ''invalid_request''"
| "failure_code_value MISSING_CONTRACT = ''missing_contract''"
| "failure_code_value CONFLICTING_CONTRACT = ''conflicting_contract''"
| "failure_code_value STALE_CONTRACT = ''stale_contract''"
| "failure_code_value MISSING_APPROVAL = ''missing_approval''"
| "failure_code_value STALE_APPROVAL = ''stale_approval''"
| "failure_code_value WRONG_DIGEST_BINDING = ''wrong_digest_binding''"
| "failure_code_value PLAN_INCOMPLETE = ''plan_incomplete''"
| "failure_code_value PLAN_INVALID = ''plan_invalid''"
| "failure_code_value PLAN_CONTRACT_VIOLATION = ''plan_contract_violation''"
| "failure_code_value PLAN_SCOPE_EXCESSIVE = ''plan_scope_excessive''"
| "failure_code_value PLAN_CRITIC_FAILURE = ''plan_critic_failure''"
| "failure_code_value STALE_SOURCE = ''stale_source''"
| "failure_code_value SOURCE_CHANGED = ''source_changed''"
| "failure_code_value REPOSITORY_UNAVAILABLE = ''repository_unavailable''"
| "failure_code_value MAPPER_INCOMPLETE = ''mapper_incomplete''"
| "failure_code_value DEPENDENCY_UNCERTAIN = ''dependency_uncertain''"
| "failure_code_value REPOSITORY_INTEGRITY_FAILURE = ''repository_integrity_failure''"
| "failure_code_value COMMAND_FAILED = ''command_failed''"
| "failure_code_value TIMEOUT = ''timeout''"
| "failure_code_value PROCESS_CRASH = ''process_crash''"
| "failure_code_value RESOURCE_EXHAUSTION = ''resource_exhaustion''"
| "failure_code_value SANDBOX_FAILURE = ''sandbox_failure''"
| "failure_code_value RUNNER_UNAVAILABLE = ''runner_unavailable''"
| "failure_code_value RUNNER_UNQUALIFIED = ''runner_unqualified''"
| "failure_code_value LEASE_REJECTED = ''lease_rejected''"
| "failure_code_value LEASE_EXPIRED = ''lease_expired''"
| "failure_code_value LEASE_REPLAYED = ''lease_replayed''"
| "failure_code_value CANCELLATION = ''cancellation''"
| "failure_code_value CLEANUP_FAILURE = ''cleanup_failure''"
| "failure_code_value TEST_FAILURE = ''test_failure''"
| "failure_code_value LINT_FAILURE = ''lint_failure''"
| "failure_code_value FORMAT_FAILURE = ''format_failure''"
| "failure_code_value TYPECHECK_FAILURE = ''typecheck_failure''"
| "failure_code_value BUILD_FAILURE = ''build_failure''"
| "failure_code_value SECURITY_CHECK_FAILURE = ''security_check_failure''"
| "failure_code_value DETERMINISTIC_VERIFICATION_FAILURE = ''deterministic_verification_failure''"
| "failure_code_value INDEPENDENT_VERIFICATION_FAILURE = ''independent_verification_failure''"
| "failure_code_value FALSE_COMPLETION_CLAIM = ''false_completion_claim''"
| "failure_code_value PROVIDER_UNHEALTHY = ''provider_unhealthy''"
| "failure_code_value PROVIDER_TIMEOUT = ''provider_timeout''"
| "failure_code_value PROVIDER_CAPACITY_EXHAUSTED = ''provider_capacity_exhausted''"
| "failure_code_value PROVIDER_COST_GATE = ''provider_cost_gate''"
| "failure_code_value PROVIDER_AUTH_FAILURE = ''provider_auth_failure''"
| "failure_code_value CONTROL_PLANE_FAILURE = ''control_plane_failure''"
| "failure_code_value ROLLBACK_FAILED = ''rollback_failed''"
| "failure_code_value REPAIR_REPEATED = ''repair_repeated''"
| "failure_code_value REPAIR_BUDGET_EXHAUSTED = ''repair_budget_exhausted''"
| "failure_code_value RECOVERY_EVIDENCE_INVALID = ''recovery_evidence_invalid''"
| "failure_code_value RECOVERY_STRATEGY_INVALID = ''recovery_strategy_invalid''"
| "failure_code_value RECOVERY_STRATEGY_NO_PROGRESS = ''recovery_strategy_no_progress''"
| "failure_code_value UNKNOWN_FAILURE = ''unknown_failure''"

definition failure_codes :: "failure_code list" where
  "failure_codes =
    [INVALID_REQUEST, MISSING_CONTRACT, CONFLICTING_CONTRACT, STALE_CONTRACT
     , MISSING_APPROVAL, STALE_APPROVAL, WRONG_DIGEST_BINDING, PLAN_INCOMPLETE, PLAN_INVALID
     , PLAN_CONTRACT_VIOLATION, PLAN_SCOPE_EXCESSIVE, PLAN_CRITIC_FAILURE, STALE_SOURCE
     , SOURCE_CHANGED, REPOSITORY_UNAVAILABLE, MAPPER_INCOMPLETE, DEPENDENCY_UNCERTAIN
     , REPOSITORY_INTEGRITY_FAILURE, COMMAND_FAILED, TIMEOUT, PROCESS_CRASH
     , RESOURCE_EXHAUSTION, SANDBOX_FAILURE, RUNNER_UNAVAILABLE, RUNNER_UNQUALIFIED
     , LEASE_REJECTED, LEASE_EXPIRED, LEASE_REPLAYED, CANCELLATION, CLEANUP_FAILURE
     , TEST_FAILURE, LINT_FAILURE, FORMAT_FAILURE, TYPECHECK_FAILURE, BUILD_FAILURE
     , SECURITY_CHECK_FAILURE, DETERMINISTIC_VERIFICATION_FAILURE
     , INDEPENDENT_VERIFICATION_FAILURE, FALSE_COMPLETION_CLAIM, PROVIDER_UNHEALTHY
     , PROVIDER_TIMEOUT, PROVIDER_CAPACITY_EXHAUSTED, PROVIDER_COST_GATE
     , PROVIDER_AUTH_FAILURE, CONTROL_PLANE_FAILURE, ROLLBACK_FAILED, REPAIR_REPEATED
     , REPAIR_BUDGET_EXHAUSTED, RECOVERY_EVIDENCE_INVALID, RECOVERY_STRATEGY_INVALID
     , RECOVERY_STRATEGY_NO_PROGRESS, UNKNOWN_FAILURE]"

definition failure_code_of :: "string \<Rightarrow> failure_code option" where
  "failure_code_of s = find (\<lambda>x. failure_code_value x = s) failure_codes"

lemma failure_code_all: "x \<in> set failure_codes"
  by (cases x) (simp_all add: failure_codes_def)

lemma failure_code_distinct: "distinct (map failure_code_value failure_codes)"
  by code_simp

lemma failure_code_of_value [simp]: "failure_code_of (failure_code_value x) = Some x"
  unfolding failure_code_of_def by (rule find_by_value[OF failure_code_distinct failure_code_all])

lemma failure_code_value_inj [simp]: "failure_code_value x = failure_code_value y \<longleftrightarrow> x = y"
  using failure_code_of_value by (metis option.inject)

datatype recovery_disposition =
    RETRYABLE | REPLAN_REQUIRED | ROLLBACK_REQUIRED | RESOURCE_REROUTE_ALLOWED
    | APPROVAL_REQUIRED | HUMAN_ESCALATION_REQUIRED | NON_RECOVERABLE

fun recovery_disposition_value :: "recovery_disposition \<Rightarrow> string" where
  "recovery_disposition_value RETRYABLE = ''retryable''"
| "recovery_disposition_value REPLAN_REQUIRED = ''replan_required''"
| "recovery_disposition_value ROLLBACK_REQUIRED = ''rollback_required''"
| "recovery_disposition_value RESOURCE_REROUTE_ALLOWED = ''resource_reroute_allowed''"
| "recovery_disposition_value APPROVAL_REQUIRED = ''approval_required''"
| "recovery_disposition_value HUMAN_ESCALATION_REQUIRED = ''human_escalation_required''"
| "recovery_disposition_value NON_RECOVERABLE = ''non_recoverable''"

definition recovery_dispositions :: "recovery_disposition list" where
  "recovery_dispositions =
    [RETRYABLE, REPLAN_REQUIRED, ROLLBACK_REQUIRED, RESOURCE_REROUTE_ALLOWED
     , APPROVAL_REQUIRED, HUMAN_ESCALATION_REQUIRED, NON_RECOVERABLE]"

definition recovery_disposition_of :: "string \<Rightarrow> recovery_disposition option" where
  "recovery_disposition_of s = find (\<lambda>x. recovery_disposition_value x = s) recovery_dispositions"

lemma recovery_disposition_all: "x \<in> set recovery_dispositions"
  by (cases x) (simp_all add: recovery_dispositions_def)

lemma recovery_disposition_distinct: "distinct (map recovery_disposition_value recovery_dispositions)"
  by code_simp

lemma recovery_disposition_of_value [simp]: "recovery_disposition_of (recovery_disposition_value x) = Some x"
  unfolding recovery_disposition_of_def by (rule find_by_value[OF recovery_disposition_distinct recovery_disposition_all])

lemma recovery_disposition_value_inj [simp]: "recovery_disposition_value x = recovery_disposition_value y \<longleftrightarrow> x = y"
  using recovery_disposition_of_value by (metis option.inject)

datatype recovery_action =
    RETRY_STEP | REPLAN | REPAIR_CANDIDATE | ROLLBACK | REROUTE_RESOURCE
    | REQUALIFY_RESOURCE | ESCALATE | BLOCK

fun recovery_action_value :: "recovery_action \<Rightarrow> string" where
  "recovery_action_value RETRY_STEP = ''retry_step''"
| "recovery_action_value REPLAN = ''replan''"
| "recovery_action_value REPAIR_CANDIDATE = ''repair_candidate''"
| "recovery_action_value ROLLBACK = ''rollback''"
| "recovery_action_value REROUTE_RESOURCE = ''reroute_resource''"
| "recovery_action_value REQUALIFY_RESOURCE = ''requalify_resource''"
| "recovery_action_value ESCALATE = ''escalate''"
| "recovery_action_value BLOCK = ''block''"

definition recovery_actions :: "recovery_action list" where
  "recovery_actions =
    [RETRY_STEP, REPLAN, REPAIR_CANDIDATE, ROLLBACK, REROUTE_RESOURCE, REQUALIFY_RESOURCE
     , ESCALATE, BLOCK]"

definition recovery_action_of :: "string \<Rightarrow> recovery_action option" where
  "recovery_action_of s = find (\<lambda>x. recovery_action_value x = s) recovery_actions"

lemma recovery_action_all: "x \<in> set recovery_actions"
  by (cases x) (simp_all add: recovery_actions_def)

lemma recovery_action_distinct: "distinct (map recovery_action_value recovery_actions)"
  by code_simp

lemma recovery_action_of_value [simp]: "recovery_action_of (recovery_action_value x) = Some x"
  unfolding recovery_action_of_def by (rule find_by_value[OF recovery_action_distinct recovery_action_all])

lemma recovery_action_value_inj [simp]: "recovery_action_value x = recovery_action_value y \<longleftrightarrow> x = y"
  using recovery_action_of_value by (metis option.inject)

datatype outcome_status =
    OUTCOME_PENDING | OUTCOME_SUCCEEDED | OUTCOME_FAILED | OUTCOME_BLOCKED

fun outcome_status_value :: "outcome_status \<Rightarrow> string" where
  "outcome_status_value OUTCOME_PENDING = ''pending''"
| "outcome_status_value OUTCOME_SUCCEEDED = ''succeeded''"
| "outcome_status_value OUTCOME_FAILED = ''failed''"
| "outcome_status_value OUTCOME_BLOCKED = ''blocked''"

definition outcome_statuses :: "outcome_status list" where
  "outcome_statuses =
    [OUTCOME_PENDING, OUTCOME_SUCCEEDED, OUTCOME_FAILED, OUTCOME_BLOCKED]"

definition outcome_status_of :: "string \<Rightarrow> outcome_status option" where
  "outcome_status_of s = find (\<lambda>x. outcome_status_value x = s) outcome_statuses"

lemma outcome_status_all: "x \<in> set outcome_statuses"
  by (cases x) (simp_all add: outcome_statuses_def)

lemma outcome_status_distinct: "distinct (map outcome_status_value outcome_statuses)"
  by code_simp

lemma outcome_status_of_value [simp]: "outcome_status_of (outcome_status_value x) = Some x"
  unfolding outcome_status_of_def by (rule find_by_value[OF outcome_status_distinct outcome_status_all])

lemma outcome_status_value_inj [simp]: "outcome_status_value x = outcome_status_value y \<longleftrightarrow> x = y"
  using outcome_status_of_value by (metis option.inject)

subsection \<open>Validation\<close>

fun first_error :: "(bool \<times> string) list \<Rightarrow> string option" where
  "first_error [] = None"
| "first_error ((passed, code) # checks) = (if passed then first_error checks else Some code)"

definition validated :: "(bool \<times> string) list \<Rightarrow> 'a \<Rightarrow> string + 'a" where
  "validated checks x = (case first_error checks of None \<Rightarrow> Inr x | Some code \<Rightarrow> Inl code)"

lemma first_error_None: "first_error checks = None \<longleftrightarrow> list_all fst checks"
  by (induction checks rule: first_error.induct) auto

lemma first_error_append:
  "first_error (xs @ ys) = (case first_error xs of None \<Rightarrow> first_error ys | Some c \<Rightarrow> Some c)"
  by (induction xs rule: first_error.induct) auto

lemma validated_Inr: "validated checks x = Inr y \<longleftrightarrow> y = x \<and> list_all fst checks"
  by (auto simp: validated_def first_error_None[symmetric] split: option.splits)

definition id_char :: "char \<Rightarrow> bool" where
  "id_char c \<longleftrightarrow> is_alnum c \<or> c \<in> set ''._:/-''"

text \<open>\<open>_ID\<close>, \<open>_SHA256\<close>, \<open>_REVISION\<close> and \<open>_REASON\<close> under \<open>fullmatch\<close>.\<close>

definition valid_id :: "string \<Rightarrow> bool" where
  "valid_id s \<longleftrightarrow> s \<noteq> [] \<and> is_alnum (hd s) \<and> list_all id_char (tl s) \<and> length s \<le> 256"

definition valid_digest :: "string option \<Rightarrow> bool" where
  "valid_digest d = (case d of None \<Rightarrow> True | Some s \<Rightarrow> hex_of_length 64 s)"

definition valid_revision :: "string option \<Rightarrow> bool" where
  "valid_revision r = (case r of None \<Rightarrow> True | Some s \<Rightarrow> hex_of_length 40 s \<or> hex_of_length 64 s)"

definition valid_optional_id :: "string option \<Rightarrow> bool" where
  "valid_optional_id x = (case x of None \<Rightarrow> True | Some s \<Rightarrow> valid_id s)"

definition valid_reason :: "string \<Rightarrow> bool" where
  "valid_reason s \<longleftrightarrow> s \<noteq> [] \<and> is_lower (hd s)
     \<and> list_all (\<lambda>c. is_lower c \<or> is_digit c \<or> c = CHR ''_'') (tl s) \<and> length s \<le> 128"

definition normalize_strings :: "string list \<Rightarrow> string \<Rightarrow> string + string list" where
  "normalize_strings values code =
     (if list_ex (\<lambda>v. v = [] \<or> 256 < length v) values then Inl code else Inr (sorted_set values))"

text \<open>\<open>_freeze_value\<close> on the values of \<open>pyval\<close>: mappings sorted by key, lists as tuples.\<close>

fun freeze_value :: "pyval \<Rightarrow> pyval" where
  "freeze_value (PDict kvs) = PDict (map (\<lambda>(k, v). (k, freeze_value v)) (sort_key fst kvs))"
| "freeze_value (PList xs) = PList (map freeze_value xs)"
| "freeze_value v = v"

subsection \<open>Records\<close>

record evidence_ref =
  er_evidence_id :: string
  er_kind :: string
  er_sha256 :: string

definition evidence_ref_init :: "evidence_ref \<Rightarrow> string + evidence_ref" where
  "evidence_ref_init e = validated
     [(valid_id (er_evidence_id e), ''evidence_id_invalid''),
      (valid_id (er_kind e), ''evidence_kind_invalid''),
      (hex_of_length 64 (er_sha256 e), ''evidence_digest_invalid'')] e"

record recovery_context =
  rc_owner_id :: string
  rc_task_id :: string
  rc_dag_run_id :: string
  rc_node_id :: string
  rc_source_revision :: "string option"
  rc_attempt :: int
  rc_plan_digest :: "string option"
  rc_candidate_digest :: "string option"
  rc_contract_digest :: "string option"
  rc_execution_id :: "string option"
  rc_lease_id :: "string option"
  rc_resource_id :: "string option"
  rc_approval_present :: bool
  rc_new_authority_required :: bool

definition recovery_context_init :: "recovery_context \<Rightarrow> string + recovery_context" where
  "recovery_context_init c = validated
     [(valid_id (rc_owner_id c), ''owner_id_invalid''),
      (valid_id (rc_task_id c), ''task_id_invalid''),
      (valid_id (rc_dag_run_id c), ''dag_run_id_invalid''),
      (valid_id (rc_node_id c), ''node_id_invalid''),
      (valid_revision (rc_source_revision c), ''source_revision_invalid''),
      (1 \<le> rc_attempt c, ''attempt_must_be_positive''),
      (valid_digest (rc_plan_digest c), ''plan_digest_invalid''),
      (valid_digest (rc_candidate_digest c), ''candidate_digest_invalid''),
      (valid_digest (rc_contract_digest c), ''contract_digest_invalid''),
      (valid_optional_id (rc_execution_id c), ''execution_id_invalid''),
      (valid_optional_id (rc_lease_id c), ''lease_id_invalid''),
      (valid_optional_id (rc_resource_id c), ''resource_id_invalid'')] c"

text \<open>A signal's code after normalisation: a known \<open>FailureCode\<close> or any other short string.\<close>

datatype signal_code = Known failure_code | Other string

definition signal_code_of :: "string \<Rightarrow> signal_code" where
  "signal_code_of raw = (case failure_code_of raw of None \<Rightarrow> Other raw | Some c \<Rightarrow> Known c)"

fun signal_code_value :: "signal_code \<Rightarrow> string" where
  "signal_code_value (Known c) = failure_code_value c"
| "signal_code_value (Other raw) = raw"

record failure_signal =
  fs_code :: signal_code
  fs_exception_type :: string
  fs_message :: string
  fs_failed_checks :: "string list"
  fs_evidence :: "evidence_ref list"
  fs_transient :: bool
  fs_partial_mutation :: bool
  fs_integrity_failure :: bool
  fs_security_sensitive :: bool
  fs_details :: pydict

text \<open>\<open>tuple(sorted(set(evidence), key=...))\<close>: \<open>so\<close> is the order in which Python iterates over
  the set, which depends on string hashes; the sort is stable.\<close>

definition sorted_evidence :: "(evidence_ref list \<Rightarrow> evidence_ref list) \<Rightarrow> evidence_ref list
    \<Rightarrow> evidence_ref list" where
  "sorted_evidence so es = sort_key (\<lambda>e. (er_kind e, er_evidence_id e)) (so es)"

definition failure_signal_init :: "(evidence_ref list \<Rightarrow> evidence_ref list) \<Rightarrow> string \<Rightarrow> string
    \<Rightarrow> string \<Rightarrow> string list \<Rightarrow> evidence_ref list \<Rightarrow> bool \<Rightarrow> bool \<Rightarrow> bool \<Rightarrow> bool \<Rightarrow> pydict
    \<Rightarrow> string + failure_signal" where
  "failure_signal_init so raw exn_type message failed_checks evidence transient partial_mutation
     integrity_failure security_sensitive details =
     (case first_error
        [(raw \<noteq> [] \<and> length raw \<le> 128, ''failure_code_invalid''),
         (length exn_type \<le> 256, ''exception_type_invalid''),
         (length message \<le> 4000, ''failure_message_invalid'')] of
        Some code \<Rightarrow> Inl code
      | None \<Rightarrow>
          (case normalize_strings failed_checks ''failed_check_invalid'' of
             Inl code \<Rightarrow> Inl code
           | Inr checks \<Rightarrow> Inr
               \<lparr>fs_code = signal_code_of raw, fs_exception_type = exn_type, fs_message = message,
                fs_failed_checks = checks, fs_evidence = sorted_evidence so evidence,
                fs_transient = transient, fs_partial_mutation = partial_mutation,
                fs_integrity_failure = integrity_failure,
                fs_security_sensitive = security_sensitive,
                fs_details = (case freeze_value (PDict details) of PDict d \<Rightarrow> d | _ \<Rightarrow> [])\<rparr>))"

record recovery_budgets =
  rb_max_node_retries :: int
  rb_max_fingerprint_retries :: int
  rb_max_full_replans :: int
  rb_max_candidate_repairs :: int
  rb_max_resource_reroutes :: int
  rb_max_rollbacks :: int

definition default_budgets :: recovery_budgets where
  "default_budgets = \<lparr>rb_max_node_retries = 2, rb_max_fingerprint_retries = 1,
     rb_max_full_replans = 2, rb_max_candidate_repairs = 2, rb_max_resource_reroutes = 1,
     rb_max_rollbacks = 1\<rparr>"

definition hard_maximums :: "int list" where
  "hard_maximums = [3, 2, 2, 3, 1, 1]"

definition budget_values :: "recovery_budgets \<Rightarrow> int list" where
  "budget_values b = [rb_max_node_retries b, rb_max_fingerprint_retries b, rb_max_full_replans b,
     rb_max_candidate_repairs b, rb_max_resource_reroutes b, rb_max_rollbacks b]"

definition recovery_budgets_init :: "recovery_budgets \<Rightarrow> string + recovery_budgets" where
  "recovery_budgets_init b = validated
     [(list_all (\<lambda>v. 0 \<le> v) (budget_values b), ''recovery_budget_invalid''),
      (list_all2 (\<le>) (budget_values b) hard_maximums, ''recovery_budget_exceeds_hard_limit'')] b"

fun limit_for :: "recovery_budgets \<Rightarrow> recovery_action \<Rightarrow> int" where
  "limit_for b RETRY_STEP = rb_max_node_retries b"
| "limit_for b REPLAN = rb_max_full_replans b"
| "limit_for b REPAIR_CANDIDATE = rb_max_candidate_repairs b"
| "limit_for b REROUTE_RESOURCE = rb_max_resource_reroutes b"
| "limit_for b ROLLBACK = rb_max_rollbacks b"
| "limit_for b REQUALIFY_RESOURCE = rb_max_resource_reroutes b"
| "limit_for b ESCALATE = 0"
| "limit_for b BLOCK = 0"

record resource_decision =
  rr_resource_id :: string
  rr_qualified :: bool
  rr_healthy :: bool
  rr_authorized :: bool
  rr_cost_approved :: bool
  rr_fresh_lease :: bool
  rr_source_bound :: bool

definition resource_decision_init :: "resource_decision \<Rightarrow> string + resource_decision" where
  "resource_decision_init r = validated [(valid_id (rr_resource_id r), ''resource_id_invalid'')] r"

record classified_failure =
  cf_failure_class :: failure_class
  cf_code :: failure_code
  cf_disposition :: recovery_disposition
  cf_preferred_action :: recovery_action
  cf_reason_codes :: "string list"
  cf_automatic_recovery_prohibited :: bool
  cf_requires_reauthorization :: bool
  cf_requires_fresh_lease :: bool

definition valid_reason_codes :: "string list \<Rightarrow> bool" where
  "valid_reason_codes rs \<longleftrightarrow> rs \<noteq> [] \<and> list_all valid_reason rs"

definition classified_failure_init :: "classified_failure \<Rightarrow> string + classified_failure" where
  "classified_failure_init c = validated
     [(valid_reason_codes (cf_reason_codes c), ''reason_codes_invalid'')]
     (c\<lparr>cf_reason_codes := sorted_set (cf_reason_codes c)\<rparr>)"

record recovery_decision =
  rd_schema_version :: string
  rd_owner_id :: string
  rd_task_id :: string
  rd_dag_run_id :: string
  rd_node_id :: string
  rd_source_revision :: "string option"
  rd_plan_digest :: "string option"
  rd_candidate_digest :: "string option"
  rd_contract_digest :: "string option"
  rd_execution_id :: "string option"
  rd_lease_id :: "string option"
  rd_resource_id :: "string option"
  rd_target_resource_id :: "string option"
  rd_attempt :: int
  rd_failure_class :: failure_class
  rd_failure_code :: failure_code
  rd_fingerprint :: string
  rd_disposition :: recovery_disposition
  rd_action :: recovery_action
  rd_allowed :: bool
  rd_requires_reauthorization :: bool
  rd_requires_fresh_lease :: bool
  rd_reason_codes :: "string list"
  rd_decision_digest :: string

definition schema_version :: string where
  "schema_version = ''failure-recovery-v1''"

definition handoff_schema_version :: string where
  "handoff_schema_version = ''failure-recovery-handoff-v1''"

definition recovery_decision_init :: "recovery_decision \<Rightarrow> string + recovery_decision" where
  "recovery_decision_init d = validated
     [(rd_schema_version d = schema_version, ''recovery_schema_version_invalid''),
      (valid_id (rd_owner_id d), ''owner_id_invalid''),
      (valid_id (rd_task_id d), ''task_id_invalid''),
      (valid_id (rd_dag_run_id d), ''dag_run_id_invalid''),
      (valid_id (rd_node_id d), ''node_id_invalid''),
      (valid_revision (rd_source_revision d), ''source_revision_invalid''),
      (1 \<le> rd_attempt d, ''attempt_must_be_positive''),
      (valid_digest (rd_plan_digest d), ''plan_digest_invalid''),
      (valid_digest (rd_candidate_digest d), ''candidate_digest_invalid''),
      (valid_digest (rd_contract_digest d), ''contract_digest_invalid''),
      (hex_of_length 64 (rd_fingerprint d), ''failure_fingerprint_invalid''),
      (hex_of_length 64 (rd_decision_digest d), ''decision_digest_invalid''),
      (valid_optional_id (rd_execution_id d), ''execution_id_invalid''),
      (valid_optional_id (rd_lease_id d), ''lease_id_invalid''),
      (valid_optional_id (rd_resource_id d), ''resource_id_invalid''),
      (valid_optional_id (rd_target_resource_id d), ''target_resource_id_invalid''),
      (\<not> (rd_allowed d \<and> rd_action d \<in> {BLOCK, ESCALATE}), ''blocking_recovery_cannot_be_allowed''),
      (\<not> (rd_action d = REROUTE_RESOURCE \<and> rd_target_resource_id d = None),
         ''reroute_target_required''),
      (\<not> (rd_action d = REROUTE_RESOURCE \<and> rd_resource_id d = rd_target_resource_id d),
         ''reroute_target_must_be_distinct''),
      (\<not> (rd_action d \<noteq> REROUTE_RESOURCE \<and> rd_target_resource_id d \<noteq> None),
         ''target_resource_only_valid_for_reroute''),
      (valid_reason_codes (rd_reason_codes d), ''reason_codes_invalid'')]
     (d\<lparr>rd_reason_codes := sorted_set (rd_reason_codes d)\<rparr>)"

record recovery_outcome =
  ro_status :: outcome_status
  ro_progress :: bool
  ro_remaining_failed_checks :: "string list"
  ro_resulting_plan_digest :: "string option"
  ro_resulting_candidate_digest :: "string option"
  ro_resulting_resource_id :: "string option"
  ro_independently_verified :: bool

definition recovery_outcome_init :: "recovery_outcome \<Rightarrow> string + recovery_outcome" where
  "recovery_outcome_init r =
     (case normalize_strings (ro_remaining_failed_checks r) ''remaining_failed_check_invalid'' of
        Inl code \<Rightarrow> Inl code
      | Inr checks \<Rightarrow> validated
          [(valid_digest (ro_resulting_plan_digest r), ''resulting_plan_digest_invalid''),
           (valid_digest (ro_resulting_candidate_digest r), ''resulting_candidate_digest_invalid''),
           (valid_optional_id (ro_resulting_resource_id r), ''resulting_resource_id_invalid''),
           (\<not> (ro_status r = OUTCOME_SUCCEEDED \<and> \<not> ro_progress r),
              ''successful_outcome_requires_progress''),
           (\<not> (ro_status r = OUTCOME_SUCCEEDED \<and> \<not> ro_independently_verified r),
              ''verified_outcome_required'')]
          (r\<lparr>ro_remaining_failed_checks := checks\<rparr>))"

record history_entry =
  he_owner_id :: string
  he_sequence :: int
  he_task_id :: string
  he_fingerprint :: string
  he_action :: recovery_action
  he_decision_digest :: string
  he_outcome_status :: "outcome_status option"
  he_progress :: "bool option"
  he_remaining_failed_checks :: "string list"
  he_resulting_plan_digest :: "string option"
  he_resulting_candidate_digest :: "string option"
  he_resulting_resource_id :: "string option"
  he_node_id :: string
  he_attempt :: int
  he_target_resource_id :: "string option"

definition history_entry_init :: "history_entry \<Rightarrow> string + history_entry" where
  "history_entry_init e =
     (case first_error
        [(valid_id (he_owner_id e), ''owner_id_invalid''),
         (valid_id (he_task_id e), ''task_id_invalid''),
         (valid_id (he_node_id e), ''node_id_invalid''),
         (1 \<le> he_sequence e, ''history_sequence_invalid''),
         (1 \<le> he_attempt e, ''attempt_must_be_positive''),
         (hex_of_length 64 (he_fingerprint e), ''failure_fingerprint_invalid''),
         (hex_of_length 64 (he_decision_digest e), ''decision_digest_invalid'')] of
        Some code \<Rightarrow> Inl code
      | None \<Rightarrow>
          (case normalize_strings (he_remaining_failed_checks e) ''remaining_failed_check_invalid'' of
             Inl code \<Rightarrow> Inl code
           | Inr checks \<Rightarrow> validated
               [(valid_digest (he_resulting_plan_digest e), ''resulting_plan_digest_invalid''),
                (valid_digest (he_resulting_candidate_digest e),
                   ''resulting_candidate_digest_invalid''),
                (valid_optional_id (he_resulting_resource_id e), ''resulting_resource_id_invalid''),
                (valid_optional_id (he_target_resource_id e), ''target_resource_id_invalid'')]
               (e\<lparr>he_remaining_failed_checks := checks\<rparr>)))"

subsection \<open>Facts about validated records\<close>

lemma normalize_strings_Inr:
  "normalize_strings xs code = Inr ys \<Longrightarrow> ys = sorted_set xs \<and> (\<forall>x \<in> set xs. x \<noteq> [] \<and> length x \<le> 256)"
  by (auto simp: normalize_strings_def list_ex_iff not_less split: if_splits)

lemma normalize_strings_idem:
  "normalize_strings xs code = Inr ys \<Longrightarrow> normalize_strings ys code' = Inr ys"
  by (auto simp: normalize_strings_def list_ex_iff split: if_splits)

lemma failure_code_of_Some: "failure_code_of s = Some c \<longleftrightarrow> s = failure_code_value c"
  by (auto simp: failure_code_of_def find_Some_iff) (metis failure_code_of_def failure_code_of_value find_Some_iff)

lemma signal_code_of_value [simp]: "signal_code_value (signal_code_of raw) = raw"
  by (auto simp: signal_code_of_def failure_code_of_Some split: option.splits)

text \<open>The record invariant of a signal that went through \<open>__post_init__\<close>.\<close>

definition signal_ok :: "failure_signal \<Rightarrow> bool" where
  "signal_ok s \<longleftrightarrow> signal_code_of (signal_code_value (fs_code s)) = fs_code s
     \<and> sorted_set (fs_failed_checks s) = fs_failed_checks s
     \<and> normalize_strings (fs_failed_checks s) [] = Inr (fs_failed_checks s)"

lemma failure_signal_init_ok:
  "failure_signal_init so raw exn msg checks ev t p i sec details = Inr s \<Longrightarrow> signal_ok s"
  by (auto simp: failure_signal_init_def signal_ok_def dest: normalize_strings_Inr
      intro: normalize_strings_idem split: option.splits sum.splits)

definition context_ok :: "recovery_context \<Rightarrow> bool" where
  "context_ok c \<longleftrightarrow> recovery_context_init c = Inr c"

lemma recovery_context_init_ok: "recovery_context_init c = Inr d \<Longrightarrow> context_ok d"
  by (simp add: recovery_context_init_def context_ok_def validated_Inr)

end
