(* ===== verification/RecoveryPolicy.thy ===== *)
theory RecoveryPolicy
  imports RecoveryContracts
begin

section \<open>Failure recovery: classification and policy\<close>

text \<open>
  \<open>classifier.py\<close> maps a failure signal to a class, a disposition and a preferred action;
  \<open>policy.py\<close> decides from the owner's history and the budgets whether that action is allowed.
  The order of the tests is the order of the source.
\<close>

subsection \<open>Classification\<close>

definition input_contract_codes :: "failure_code list" where
  "input_contract_codes = [INVALID_REQUEST, MISSING_CONTRACT, CONFLICTING_CONTRACT, STALE_CONTRACT,
     MISSING_APPROVAL, STALE_APPROVAL, WRONG_DIGEST_BINDING]"

definition planning_codes :: "failure_code list" where
  "planning_codes = [PLAN_INCOMPLETE, PLAN_INVALID, PLAN_CONTRACT_VIOLATION, PLAN_SCOPE_EXCESSIVE,
     PLAN_CRITIC_FAILURE]"

definition repository_codes :: "failure_code list" where
  "repository_codes = [STALE_SOURCE, SOURCE_CHANGED, REPOSITORY_UNAVAILABLE, MAPPER_INCOMPLETE,
     DEPENDENCY_UNCERTAIN, REPOSITORY_INTEGRITY_FAILURE]"

definition execution_codes :: "failure_code list" where
  "execution_codes = [COMMAND_FAILED, TIMEOUT, PROCESS_CRASH, RESOURCE_EXHAUSTION, SANDBOX_FAILURE,
     RUNNER_UNAVAILABLE, RUNNER_UNQUALIFIED, LEASE_REJECTED, LEASE_EXPIRED, LEASE_REPLAYED,
     CANCELLATION, CLEANUP_FAILURE]"

definition verification_codes :: "failure_code list" where
  "verification_codes = [TEST_FAILURE, LINT_FAILURE, FORMAT_FAILURE, TYPECHECK_FAILURE,
     BUILD_FAILURE, SECURITY_CHECK_FAILURE, DETERMINISTIC_VERIFICATION_FAILURE,
     INDEPENDENT_VERIFICATION_FAILURE, FALSE_COMPLETION_CLAIM]"

definition infrastructure_codes :: "failure_code list" where
  "infrastructure_codes = [PROVIDER_UNHEALTHY, PROVIDER_TIMEOUT, PROVIDER_CAPACITY_EXHAUSTED,
     PROVIDER_COST_GATE, PROVIDER_AUTH_FAILURE, CONTROL_PLANE_FAILURE]"

definition recovery_codes :: "failure_code list" where
  "recovery_codes = [ROLLBACK_FAILED, REPAIR_REPEATED, REPAIR_BUDGET_EXHAUSTED,
     RECOVERY_EVIDENCE_INVALID, RECOVERY_STRATEGY_INVALID, RECOVERY_STRATEGY_NO_PROGRESS]"

definition failure_class_of_code :: "failure_code \<Rightarrow> failure_class" where
  "failure_class_of_code code =
     (if code \<in> set input_contract_codes then FC_INPUT_CONTRACT
      else if code \<in> set planning_codes then FC_PLANNING
      else if code \<in> set repository_codes then FC_REPOSITORY_CONTEXT
      else if code \<in> set execution_codes then FC_EXECUTION
      else if code \<in> set verification_codes then FC_VERIFICATION
      else if code \<in> set infrastructure_codes then FC_INFRASTRUCTURE_PROVIDER
      else if code \<in> set recovery_codes then FC_RECOVERY
      else FC_UNKNOWN)"

text \<open>\<open>ClassifiedFailure(...)\<close> with one reason; the three flags are the keyword arguments
  \<open>automatic_recovery_prohibited\<close>, \<open>requires_reauthorization\<close>, \<open>requires_fresh_lease\<close>.\<close>

definition classified :: "failure_class \<Rightarrow> failure_code \<Rightarrow> recovery_disposition \<Rightarrow> recovery_action
    \<Rightarrow> string \<Rightarrow> bool \<Rightarrow> bool \<Rightarrow> bool \<Rightarrow> string + classified_failure" where
  "classified cls code disposition action reason prohibited reauthorization fresh_lease =
     classified_failure_init
       \<lparr>cf_failure_class = cls, cf_code = code, cf_disposition = disposition,
        cf_preferred_action = action, cf_reason_codes = [reason],
        cf_automatic_recovery_prohibited = prohibited,
        cf_requires_reauthorization = reauthorization, cf_requires_fresh_lease = fresh_lease\<rparr>"

definition block_failure :: "failure_class \<Rightarrow> failure_code \<Rightarrow> string \<Rightarrow> string + classified_failure" where
  "block_failure cls code reason =
     classified cls code NON_RECOVERABLE BLOCK reason True False False"

definition unknown_classified :: "string + classified_failure" where
  "unknown_classified = classified FC_UNKNOWN UNKNOWN_FAILURE NON_RECOVERABLE BLOCK
     (failure_code_value UNKNOWN_FAILURE) True False False"

definition classify_known :: "failure_code \<Rightarrow> failure_signal \<Rightarrow> string + classified_failure" where
  "classify_known code signal =
     (let cls = failure_class_of_code code; reason = failure_code_value code in
      if fs_integrity_failure signal
         \<or> code \<in> set [REPOSITORY_INTEGRITY_FAILURE, RECOVERY_EVIDENCE_INVALID]
        then block_failure cls code ''integrity_failure''
      else if fs_security_sensitive signal
         \<or> code \<in> set [SECURITY_CHECK_FAILURE, FALSE_COMPLETION_CLAIM, LEASE_REPLAYED,
               PROVIDER_AUTH_FAILURE]
        then block_failure cls code reason
      else if code \<in> set [CANCELLATION, ROLLBACK_FAILED, REPAIR_BUDGET_EXHAUSTED, REPAIR_REPEATED,
               RECOVERY_STRATEGY_INVALID, RECOVERY_STRATEGY_NO_PROGRESS]
        then block_failure cls code reason
      else if code = WRONG_DIGEST_BINDING
        then classified cls code NON_RECOVERABLE BLOCK reason True True False
      else if code \<in> set [MISSING_APPROVAL, STALE_APPROVAL]
        then classified cls code APPROVAL_REQUIRED ESCALATE reason False True False
      else if code \<in> set [STALE_SOURCE, SOURCE_CHANGED, STALE_CONTRACT, CONFLICTING_CONTRACT,
               PLAN_CONTRACT_VIOLATION]
        then classified cls code HUMAN_ESCALATION_REQUIRED ESCALATE reason False True False
      else if code \<in> set planning_codes \<or> code \<in> set [MAPPER_INCOMPLETE, DEPENDENCY_UNCERTAIN]
        then classified cls code REPLAN_REQUIRED REPLAN reason False False False
      else if code \<in> set [TEST_FAILURE, LINT_FAILURE, FORMAT_FAILURE, TYPECHECK_FAILURE,
               BUILD_FAILURE, DETERMINISTIC_VERIFICATION_FAILURE,
               INDEPENDENT_VERIFICATION_FAILURE, COMMAND_FAILED]
        then classified cls code REPLAN_REQUIRED REPAIR_CANDIDATE reason False False False
      else if code = RUNNER_UNQUALIFIED
        then classified cls code RESOURCE_REROUTE_ALLOWED REQUALIFY_RESOURCE reason False False True
      else if code \<in> set [RUNNER_UNAVAILABLE, PROVIDER_UNHEALTHY, PROVIDER_TIMEOUT,
               PROVIDER_CAPACITY_EXHAUSTED, RESOURCE_EXHAUSTION, CONTROL_PLANE_FAILURE]
        then classified cls code RESOURCE_REROUTE_ALLOWED REROUTE_RESOURCE reason False False True
      else if code = PROVIDER_COST_GATE
        then classified cls code APPROVAL_REQUIRED ESCALATE reason False True False
      else if code \<in> set [LEASE_EXPIRED, LEASE_REJECTED]
        then classified cls code NON_RECOVERABLE BLOCK reason True False True
      else if code \<in> set [TIMEOUT, PROCESS_CRASH, SANDBOX_FAILURE, REPOSITORY_UNAVAILABLE]
              \<and> fs_transient signal
        then classified cls code RETRYABLE RETRY_STEP reason False False False
      else if code = CLEANUP_FAILURE
        then classified cls code ROLLBACK_REQUIRED ROLLBACK reason False False False
      else block_failure cls code reason)"

definition classify :: "failure_signal \<Rightarrow> recovery_context \<Rightarrow> string + classified_failure" where
  "classify signal context =
     (case fs_code signal of
        Other raw \<Rightarrow> unknown_classified
      | Known code \<Rightarrow> classify_known code signal)"

subsection \<open>Policy\<close>

record policy_decision =
  pd_disposition :: recovery_disposition
  pd_action :: recovery_action
  pd_allowed :: bool
  pd_requires_reauthorization :: bool
  pd_requires_fresh_lease :: bool
  pd_reason_codes :: "string list"

definition approval_required_actions :: "recovery_action list" where
  "approval_required_actions = [REPAIR_CANDIDATE, ROLLBACK, REROUTE_RESOURCE, REQUALIFY_RESOURCE]"

definition blocked :: "string \<Rightarrow> recovery_disposition \<Rightarrow> recovery_action \<Rightarrow> bool \<Rightarrow> bool
    \<Rightarrow> policy_decision" where
  "blocked reason disposition action reauthorization fresh_lease =
     \<lparr>pd_disposition = disposition, pd_action = action, pd_allowed = False,
      pd_requires_reauthorization = reauthorization, pd_requires_fresh_lease = fresh_lease,
      pd_reason_codes = [reason]\<rparr>"

definition blocked_default :: "string \<Rightarrow> policy_decision" where
  "blocked_default reason = blocked reason NON_RECOVERABLE BLOCK False False"

definition validate_resource :: "resource_decision option \<Rightarrow> string option \<Rightarrow> string option" where
  "validate_resource resource current_resource_id =
     (case resource of
        None \<Rightarrow> Some ''alternate_resource_unavailable''
      | Some r \<Rightarrow>
          if current_resource_id = Some (rr_resource_id r)
            then Some ''alternate_resource_not_distinct''
          else first_error
            [(rr_qualified r, ''alternate_resource_not_qualified''),
             (rr_healthy r, ''alternate_resource_unhealthy''),
             (rr_authorized r, ''alternate_resource_unauthorized''),
             (rr_cost_approved r, ''alternate_resource_cost_not_approved''),
             (rr_fresh_lease r, ''alternate_resource_lease_not_fresh''),
             (rr_source_bound r, ''alternate_resource_source_mismatch'')])"

fun budget_reason :: "recovery_action \<Rightarrow> string" where
  "budget_reason RETRY_STEP = ''node_retry_budget_exhausted''"
| "budget_reason REPLAN = ''mission_replan_budget_exhausted''"
| "budget_reason REPAIR_CANDIDATE = ''candidate_repair_budget_exhausted''"
| "budget_reason REROUTE_RESOURCE = ''resource_reroute_budget_exhausted''"
| "budget_reason REQUALIFY_RESOURCE = ''resource_requalification_budget_exhausted''"
| "budget_reason ROLLBACK = ''rollback_budget_exhausted''"
| "budget_reason ESCALATE = ''approval_required''"
| "budget_reason BLOCK = ''recovery_blocked''"

text \<open>The decision before budgets: the classifier's preference, or a rollback after a partial
  mutation that the classifier does not hold back.\<close>

definition base_decision :: "classified_failure \<Rightarrow> failure_signal \<Rightarrow> policy_decision" where
  "base_decision c signal =
     (if fs_partial_mutation signal
         \<and> \<not> (cf_automatic_recovery_prohibited c \<or> cf_requires_reauthorization c
               \<or> cf_preferred_action c \<in> {BLOCK, ESCALATE}
               \<or> cf_code c \<in> {ROLLBACK_FAILED, RECOVERY_EVIDENCE_INVALID, SECURITY_CHECK_FAILURE})
      then \<lparr>pd_disposition = ROLLBACK_REQUIRED, pd_action = ROLLBACK, pd_allowed = True,
            pd_requires_reauthorization = False, pd_requires_fresh_lease = False,
            pd_reason_codes = [''partial_mutation_requires_rollback'']\<rparr>
      else \<lparr>pd_disposition = cf_disposition c, pd_action = cf_preferred_action c,
            pd_allowed = cf_preferred_action c \<notin> {BLOCK, ESCALATE},
            pd_requires_reauthorization = cf_requires_reauthorization c,
            pd_requires_fresh_lease = cf_requires_fresh_lease c,
            pd_reason_codes = cf_reason_codes c\<rparr>)"

definition is_decision :: "history_entry \<Rightarrow> bool" where
  "is_decision e \<longleftrightarrow> he_outcome_status e = None"

definition fingerprint_decisions :: "history_entry list \<Rightarrow> string \<Rightarrow> history_entry list" where
  "fingerprint_decisions history fingerprint =
     filter (\<lambda>e. he_fingerprint e = fingerprint \<and> is_decision e) history"

definition fingerprint_outcomes :: "history_entry list \<Rightarrow> string \<Rightarrow> history_entry list" where
  "fingerprint_outcomes history fingerprint =
     filter (\<lambda>e. he_fingerprint e = fingerprint \<and> \<not> is_decision e) history"

text \<open>The earlier decisions that count against the budget of an action: retries are counted per
  node of a task, every other action per task.\<close>

definition prior_same_action :: "history_entry list \<Rightarrow> recovery_action \<Rightarrow> string \<Rightarrow> string
    \<Rightarrow> history_entry list" where
  "prior_same_action history action task_id node_id =
     filter (\<lambda>e. he_task_id e = task_id \<and> is_decision e \<and> he_action e = action
       \<and> (action = RETRY_STEP \<longrightarrow> he_node_id e = node_id)) history"

definition no_progress :: "history_entry list \<Rightarrow> recovery_action \<Rightarrow> string \<Rightarrow> bool" where
  "no_progress history action fingerprint =
     (let outcomes = fingerprint_outcomes history fingerprint in
      outcomes \<noteq> [] \<and> he_action (last outcomes) = action
      \<and> he_outcome_status (last outcomes) = Some OUTCOME_FAILED
      \<and> he_progress (last outcomes) = Some False)"

definition within_budgets :: "policy_decision \<Rightarrow> recovery_context \<Rightarrow> history_entry list
    \<Rightarrow> recovery_budgets \<Rightarrow> string \<Rightarrow> policy_decision" where
  "within_budgets base context history budgets fingerprint =
     (let action = pd_action base; limit = limit_for budgets action in
      if no_progress history action fingerprint
        then blocked_default ''recovery_strategy_no_progress''
      else if rb_max_fingerprint_retries budgets
                \<le> int (length (fingerprint_decisions history fingerprint))
        then blocked_default ''fingerprint_retry_budget_exhausted''
      else if limit \<le> 0
              \<or> limit \<le> int (length (prior_same_action history action (rc_task_id context)
                                       (rc_node_id context)))
        then blocked_default (budget_reason action)
      else base)"

definition policy_decide :: "classified_failure \<Rightarrow> failure_signal \<Rightarrow> recovery_context
    \<Rightarrow> history_entry list \<Rightarrow> recovery_budgets \<Rightarrow> string \<Rightarrow> resource_decision option
    \<Rightarrow> policy_decision" where
  "policy_decide c signal context history budgets fingerprint resource =
     (let base = base_decision c signal in
      if rc_new_authority_required context
        then blocked ''new_authority_requires_approval'' APPROVAL_REQUIRED ESCALATE True False
      else if \<not> rc_approval_present context \<and> pd_action base \<in> set approval_required_actions
        then blocked ''missing_required_approval'' APPROVAL_REQUIRED ESCALATE True False
      else if pd_action base = REROUTE_RESOURCE then
        (case validate_resource resource (rc_resource_id context) of
           Some reason \<Rightarrow> blocked reason NON_RECOVERABLE BLOCK False True
         | None \<Rightarrow> within_budgets (base\<lparr>pd_requires_fresh_lease := True\<rparr>) context history budgets
                     fingerprint)
      else if pd_action base \<in> {BLOCK, ESCALATE} then base
      else within_budgets base context history budgets fingerprint)"

subsection \<open>What the classifier and the policy guarantee\<close>

lemma valid_code_reasons: "list_all (\<lambda>c. valid_reason (failure_code_value c)) failure_codes"
  by code_simp

lemma valid_code_reason [simp]: "valid_reason (failure_code_value c)"
  using valid_code_reasons failure_code_all[of c] by (simp add: list_all_iff)

lemma valid_integrity_reason [simp]: "valid_reason ''integrity_failure''"
  by code_simp

lemma sorted_set_single [simp]: "sorted_set [x] = [x]"
  by (simp add: sorted_set_def)

lemma classified_Inr [simp]:
  "valid_reason reason \<Longrightarrow>
     classified cls code disposition action reason prohibited reauthorization fresh_lease = Inr
       \<lparr>cf_failure_class = cls, cf_code = code, cf_disposition = disposition,
        cf_preferred_action = action, cf_reason_codes = [reason],
        cf_automatic_recovery_prohibited = prohibited,
        cf_requires_reauthorization = reauthorization, cf_requires_fresh_lease = fresh_lease\<rparr>"
  by (simp add: classified_def classified_failure_init_def validated_Inr valid_reason_codes_def)

text \<open>The codes for which an automatic recovery exists; the last four only when transient.\<close>

definition recoverable_codes :: "failure_code list" where
  "recoverable_codes = [PLAN_INCOMPLETE, PLAN_INVALID, PLAN_SCOPE_EXCESSIVE, PLAN_CRITIC_FAILURE,
     MAPPER_INCOMPLETE, DEPENDENCY_UNCERTAIN, TEST_FAILURE, LINT_FAILURE, FORMAT_FAILURE,
     TYPECHECK_FAILURE, BUILD_FAILURE, DETERMINISTIC_VERIFICATION_FAILURE,
     INDEPENDENT_VERIFICATION_FAILURE, COMMAND_FAILED, RUNNER_UNQUALIFIED, RUNNER_UNAVAILABLE,
     PROVIDER_UNHEALTHY, PROVIDER_TIMEOUT, PROVIDER_CAPACITY_EXHAUSTED, RESOURCE_EXHAUSTION,
     CONTROL_PLANE_FAILURE, CLEANUP_FAILURE]"

definition transient_codes :: "failure_code list" where
  "transient_codes = [TIMEOUT, PROCESS_CRASH, SANDBOX_FAILURE, REPOSITORY_UNAVAILABLE]"

fun recoverable :: "failure_signal \<Rightarrow> signal_code \<Rightarrow> bool" where
  "recoverable s (Other raw) = False"
| "recoverable s (Known code) = (\<not> fs_integrity_failure s \<and> \<not> fs_security_sensitive s
     \<and> (code \<in> set recoverable_codes \<or> fs_transient s \<and> code \<in> set transient_codes))"

definition is_stop :: "recovery_action \<Rightarrow> bool" where
  "is_stop a \<longleftrightarrow> a \<in> {BLOCK, ESCALATE}"

definition classify_ok :: "failure_signal \<Rightarrow> failure_code \<Rightarrow> classified_failure \<Rightarrow> bool" where
  "classify_ok s code c \<longleftrightarrow> cf_code c = code \<and> valid_reason_codes (cf_reason_codes c)
     \<and> (is_stop (cf_preferred_action c) \<longleftrightarrow> \<not> recoverable s (Known code))
     \<and> (cf_automatic_recovery_prohibited c \<or> cf_requires_reauthorization c
         \<longleftrightarrow> is_stop (cf_preferred_action c))"

lemma classify_known_ok: "\<exists>c. classify_known code s = Inr c \<and> classify_ok s code c"
  by (cases code)
    (auto simp: classify_known_def Let_def block_failure_def planning_codes_def recoverable_codes_def
      transient_codes_def classify_ok_def valid_reason_codes_def is_stop_def
      simp del: failure_code_value.simps)

text \<open>C21. Classification is total and conservative. Every signal is classified, never with an
  exception; automatic recovery is proposed exactly for the recoverable and, when the signal is
  transient, the transient failure codes, and never for an integrity failure, a
  security-sensitive failure or an unknown code.\<close>

theorem classification_total_and_conservative:
  "\<exists>c. classify s ctx = Inr c
     \<and> (is_stop (cf_preferred_action c) \<longleftrightarrow> \<not> recoverable s (fs_code s))
     \<and> (cf_automatic_recovery_prohibited c \<or> cf_requires_reauthorization c
         \<longleftrightarrow> is_stop (cf_preferred_action c))"
proof (cases "fs_code s")
  case (Known code)
  then show ?thesis using classify_known_ok[of code s] by (auto simp: classify_def classify_ok_def)
next
  case (Other raw)
  then show ?thesis
    by (simp add: classify_def unknown_classified_def is_stop_def del: failure_code_value.simps)
qed

lemma classify_Inr:
  obtains c where "classify s ctx = Inr c" "valid_reason_codes (cf_reason_codes c)"
    "is_stop (cf_preferred_action c) \<longleftrightarrow> \<not> recoverable s (fs_code s)"
proof (cases "fs_code s")
  case (Known code)
  then show thesis
    using classify_known_ok[of code s] that by (auto simp: classify_def classify_ok_def)
next
  case (Other raw)
  then show thesis using that
    by (simp add: classify_def unknown_classified_def is_stop_def valid_reason_codes_def
        del: failure_code_value.simps)
qed

subsection \<open>The policy\<close>

definition resource_gates :: "resource_decision \<Rightarrow> bool" where
  "resource_gates r \<longleftrightarrow> rr_qualified r \<and> rr_healthy r \<and> rr_authorized r \<and> rr_cost_approved r
     \<and> rr_fresh_lease r \<and> rr_source_bound r"

lemma validate_resource_None:
  "validate_resource res current = None \<longleftrightarrow>
     (\<exists>r. res = Some r \<and> current \<noteq> Some (rr_resource_id r) \<and> resource_gates r)"
  by (auto simp: validate_resource_def resource_gates_def split: option.splits)

lemma base_decision_allowed: "pd_allowed (base_decision c s) \<longleftrightarrow> \<not> is_stop (pd_action (base_decision c s))"
  by (simp add: base_decision_def is_stop_def)

lemma blocked_simps [simp]:
  "pd_allowed (blocked reason disp action ra fl) = False"
  "pd_action (blocked reason disp action ra fl) = action"
  "pd_reason_codes (blocked reason disp action ra fl) = [reason]"
  "pd_allowed (blocked_default reason) = False"
  "pd_action (blocked_default reason) = BLOCK"
  "pd_reason_codes (blocked_default reason) = [reason]"
  by (simp_all add: blocked_def blocked_default_def)

definition in_budget :: "history_entry list \<Rightarrow> recovery_budgets \<Rightarrow> recovery_context \<Rightarrow> string
    \<Rightarrow> recovery_action \<Rightarrow> bool" where
  "in_budget history budgets ctx fp action \<longleftrightarrow>
     int (length (fingerprint_decisions history fp)) < rb_max_fingerprint_retries budgets
     \<and> int (length (prior_same_action history action (rc_task_id ctx) (rc_node_id ctx)))
         < limit_for budgets action
     \<and> \<not> no_progress history action fp"

lemma within_budgets_cases:
  "within_budgets base ctx history budgets fp = base \<and> in_budget history budgets ctx fp (pd_action base)
   \<or> (\<exists>reason. within_budgets base ctx history budgets fp = blocked_default reason)"
  by (auto simp: within_budgets_def in_budget_def Let_def)

lemma allowed_policy_is_safe:
  assumes "d = policy_decide c s ctx history budgets fp res" and "pd_allowed d"
  shows "\<not> is_stop (pd_action d) \<and> \<not> rc_new_authority_required ctx
    \<and> (pd_action d \<in> set approval_required_actions \<longrightarrow> rc_approval_present ctx)
    \<and> in_budget history budgets ctx fp (pd_action d)
    \<and> (pd_action d = REROUTE_RESOURCE \<longrightarrow>
         (\<exists>r. res = Some r \<and> rc_resource_id ctx \<noteq> Some (rr_resource_id r) \<and> resource_gates r))"
proof -
  let ?base = "base_decision c s"
  let ?fresh = "?base\<lparr>pd_requires_fresh_lease := True\<rparr>"
  note cases = within_budgets_cases[of ?base ctx history budgets fp]
    within_budgets_cases[of ?fresh ctx history budgets fp]
  show ?thesis
    using assms cases base_decision_allowed[of c s]
      validate_resource_None[of res "rc_resource_id ctx"]
    by (cases "validate_resource res (rc_resource_id ctx)")
      (auto simp: policy_decide_def Let_def is_stop_def split: if_splits)
qed

lemma policy_decide_stop:
  "pd_allowed (policy_decide c s ctx history budgets fp res) \<longleftrightarrow>
     \<not> is_stop (pd_action (policy_decide c s ctx history budgets fp res))"
proof -
  let ?base = "base_decision c s"
  show ?thesis
    using within_budgets_cases[of ?base ctx history budgets fp] base_decision_allowed[of c s]
      within_budgets_cases[of "?base\<lparr>pd_requires_fresh_lease := True\<rparr>" ctx history budgets fp]
    by (auto simp: policy_decide_def Let_def is_stop_def split: option.splits)
qed

lemma base_decision_stop:
  "pd_allowed (base_decision c s) \<Longrightarrow> \<not> is_stop (cf_preferred_action c)"
  by (auto simp: base_decision_def is_stop_def split: if_splits)

lemma policy_base_allowed:
  "pd_allowed (policy_decide c s ctx history budgets fp res) \<Longrightarrow> pd_allowed (base_decision c s)"
proof -
  let ?base = "base_decision c s"
  assume "pd_allowed (policy_decide c s ctx history budgets fp res)"
  then show ?thesis
    using within_budgets_cases[of ?base ctx history budgets fp]
      within_budgets_cases[of "?base\<lparr>pd_requires_fresh_lease := True\<rparr>" ctx history budgets fp]
    by (auto simp: policy_decide_def Let_def split: option.splits if_splits)
qed

end
