(* ===== verification/PyJson.thy ===== *)
theory PyJson
  imports PyValue "HOL-Library.Multiset"
begin

section \<open>The canonical JSON text determines the value\<close>

text \<open>
  \<open>canon\<close> sorts the keys of every dictionary in a value; \<open>emit\<close> prints a value whose
  dictionaries are sorted already, with the closing bracket of a list or a dictionary
  printed by the tail functions. \<open>dumps\<close> is \<open>emit\<close> after \<open>canon\<close> (\<open>dumps_emit\<close>), and
  \<open>emit\<close> is injective because every printed value ends where the next separator begins
  (\<open>emit_unique_all\<close>). A value is \<open>plain\<close> when it holds no float and its dictionaries have
  distinct keys, as a Python \<open>dict\<close> always has.
\<close>

fun canon :: "pyval \<Rightarrow> pyval" where
  "canon (PList xs) = PList (map canon xs)"
| "canon (PDict kvs) = PDict (sort_key fst (map (\<lambda>(k, v). (k, canon v)) kvs))"
| "canon v = v"

fun plain :: "pyval \<Rightarrow> bool" where
  "plain (PFloat _) = False"
| "plain (PList xs) = list_all plain xs"
| "plain (PDict kvs) = (dict_ok kvs \<and> list_all (\<lambda>(k, v). plain v) kvs)"
| "plain _ = True"

fun emit :: "bool \<Rightarrow> pyval \<Rightarrow> string"
  and emit_items :: "bool \<Rightarrow> pyval list \<Rightarrow> string"
  and emit_pairs :: "bool \<Rightarrow> (string \<times> pyval) list \<Rightarrow> string" where
  "emit ea PNone = ''null''"
| "emit ea (PBool b) = (if b then ''true'' else ''false'')"
| "emit ea (PInt n) = show_int n"
| "emit ea (PFloat q) = []"
| "emit ea (PStr s) = quoted ea s"
| "emit ea (PList xs) = CHR ''['' # emit_items ea xs"
| "emit ea (PDict kvs) = CHR ''{'' # emit_pairs ea kvs"
| "emit_items ea [] = '']''"
| "emit_items ea (x # xs) =
     emit ea x @ (if xs = [] then '']'' else CHR '','' # emit_items ea xs)"
| "emit_pairs ea [] = ''}''"
| "emit_pairs ea ((k, v) # xs) = quoted ea k @ CHR '':'' # emit ea v
     @ (if xs = [] then ''}'' else CHR '','' # emit_pairs ea xs)"

lemma insort_key_map_fst:
  "insort_key fst (k, f v) (map (\<lambda>(k, v). (k, f v)) xs)
     = map (\<lambda>(k, v). (k, f v)) (insort_key fst (k, v) xs)"
  by (induction xs) auto

lemma sort_key_map_fst:
  "sort_key fst (map (\<lambda>(k, v). (k, f v)) xs) = map (\<lambda>(k, v). (k, f v)) (sort_key fst xs)"
  by (induction xs) (auto simp: insort_key_map_fst)

lemma emit_items_join: "join '','' (map (emit ea) xs) @ '']'' = emit_items ea xs"
  by (induction xs rule: induct_list012) auto

lemma emit_pairs_join:
  "join '','' (map (\<lambda>(k, v). quoted ea k @ '':'' @ emit ea v) xs) @ ''}'' = emit_pairs ea xs"
  by (induction xs rule: induct_list012) auto

lemma dumps_emit: "plain v \<Longrightarrow> dumps fr ea v = emit ea (canon v)"
proof (induction v rule: canon.induct)
  case (1 xs)
  then have "map (dumps fr ea) xs = map (emit ea) (map canon xs)"
    by (auto simp: list_all_iff)
  then show ?case
    by (simp add: emit_items_join[symmetric] del: map_map)
next
  case (2 kvs)
  let ?c = "map (\<lambda>(k, v). (k, canon v)) kvs"
  from 2 have "map (\<lambda>(k, v). (k, dumps fr ea v)) kvs = map (\<lambda>(k, v). (k, emit ea v)) ?c"
    by (auto simp: list_all_iff)
  then have "sort_key fst (map (\<lambda>(k, v). (k, dumps fr ea v)) kvs)
      = map (\<lambda>(k, v). (k, emit ea v)) (sort_key fst ?c)"
    by (simp only: sort_key_map_fst)
  then show ?case
    by (simp add: emit_pairs_join[symmetric] case_prod_unfold comp_def)
qed auto

subsection \<open>Numbers\<close>

definition read_nat :: "string \<Rightarrow> nat" where
  "read_nat s = foldl (\<lambda>a c. 10 * a + (of_char c - 48)) 0 s"

lemma is_digit_char_of: "n < 10 \<Longrightarrow> is_digit (char_of (48 + n :: nat))"
  by (simp add: is_digit_def less_eq_char_def)

lemma show_nat_digits: "list_all is_digit (show_nat n)"
proof (induction n rule: show_nat.induct)
  case (1 n)
  then show ?case
    by (cases "n < 10") (auto simp: show_nat.simps[of n] is_digit_char_of)
qed

lemma show_nat_not_Nil: "show_nat n \<noteq> []"
  by (simp add: show_nat.simps[of n])

lemma read_show_nat [simp]: "read_nat (show_nat n) = n"
proof (induction n rule: show_nat.induct)
  case (1 n)
  then show ?case
    by (cases "n < 10") (auto simp: show_nat.simps[of n] read_nat_def)
qed

lemma digits_unique:
  assumes "list_all P u" "list_all P v" "r = [] \<or> \<not> P (hd r)" "s = [] \<or> \<not> P (hd s)"
    and "u @ r = v @ s"
  shows "u = v \<and> r = s"
proof -
  have "takeWhile P (u @ r) = u" "takeWhile P (v @ s) = v"
    using assms(1-4) by (cases r; cases s; simp add: takeWhile_append list_all_iff)+
  then show ?thesis using assms(5) by simp
qed

text \<open>What may follow a value inside a JSON text.\<close>

definition follows :: "string \<Rightarrow> bool" where
  "follows r \<longleftrightarrow> r = [] \<or> hd r \<in> {CHR '','', CHR '']'', CHR ''}''}"

lemma follows_simps [simp]:
  "follows []" "follows (CHR '','' # r)" "follows (CHR '']'' # r)" "follows (CHR ''}'' # r)"
  by (simp_all add: follows_def)

lemma follows_not_digit: "follows r \<Longrightarrow> r = [] \<or> \<not> is_digit (hd r)"
  by (auto simp: follows_def is_digit_def less_eq_char_def)

lemma show_nat_unique:
  "show_nat m @ r = show_nat n @ s \<Longrightarrow> follows r \<Longrightarrow> follows s \<Longrightarrow> m = n \<and> r = s"
  using digits_unique[OF show_nat_digits show_nat_digits follows_not_digit follows_not_digit]
  by (metis read_show_nat)

lemma show_nat_hd: "is_digit (hd (show_nat n @ r))"
  using show_nat_digits[of n] show_nat_not_Nil[of n] by (cases "show_nat n") auto

lemma show_int_unique:
  assumes "show_int m @ r = show_int n @ s" "follows r" "follows s"
  shows "m = n \<and> r = s"
proof -
  have minus: "CHR ''-'' \<noteq> hd (show_nat k @ t)" for k t
  proof -
    have "\<not> is_digit CHR ''-''" by (simp add: is_digit_def less_eq_char_def)
    then show ?thesis using show_nat_hd[of k t] by metis
  qed
  consider "m < 0" "n < 0" | "\<not> m < 0" "\<not> n < 0" | "m < 0" "\<not> n < 0" | "\<not> m < 0" "n < 0"
    by blast
  then show ?thesis
  proof cases
    case 1
    then show ?thesis
      using assms show_nat_unique[of "nat (- m)" r "nat (- n)" s]
      by (simp add: show_int_def eq_nat_nat_iff)
  next
    case 2
    then show ?thesis
      using assms show_nat_unique[of "nat m" r "nat n" s]
      by (simp add: show_int_def eq_nat_nat_iff)
  next
    case 3
    then have "CHR ''-'' = hd (show_nat (nat n) @ s)"
      using assms(1) by (simp add: show_int_def) (metis list.sel(1))?
    then show ?thesis using minus by blast
  next
    case 4
    then have "CHR ''-'' = hd (show_nat (nat m) @ r)"
      using assms(1) by (simp add: show_int_def) (metis list.sel(1))?
    then show ?thesis using minus by blast
  qed
qed

lemma show_int_hd: "hd (show_int n @ r) = CHR ''-'' \<or> is_digit (hd (show_int n @ r))"
  using show_nat_hd by (auto simp: show_int_def)

subsection \<open>Strings\<close>

lemma hex_digit_inj: "m < 16 \<Longrightarrow> n < 16 \<Longrightarrow> hex_digit m = hex_digit n \<Longrightarrow> m = n"
proof -
  assume b: "m < 16" "n < 16" and e: "hex_digit m = hex_digit n"
  have v: "of_char (hex_digit k) = (if k < 10 then 48 + k else 87 + k)" if "k < 16" for k
    using that by (simp add: hex_digit_def)
  from e have "of_char (hex_digit m) = (of_char (hex_digit n) :: nat)" by simp
  with b v show "m = n" by (simp split: if_splits)
qed

lemma of_char_bound: "(of_char c :: nat) < 256"
  by (metis nat_of_char_less_256)

lemma hex_pair_inj:
  assumes "hex_digit (of_char c div 16) = hex_digit (of_char d div 16)"
    and "hex_digit (of_char c mod 16) = hex_digit (of_char d mod 16)"
  shows "c = d"
proof -
  have "(of_char c :: nat) div 16 < 16" "(of_char d :: nat) div 16 < 16"
    using of_char_bound[of c] of_char_bound[of d] by (simp_all add: less_mult_imp_div_less)
  with assms have "(of_char c :: nat) div 16 = of_char d div 16"
      and "(of_char c :: nat) mod 16 = of_char d mod 16"
    by (auto intro: hex_digit_inj)
  then have "(of_char c :: nat) = of_char d" by (metis div_mult_mod_eq)
  then show ?thesis by simp
qed

lemma escape_char_prefix_free:
  "escape_char ea c @ x = escape_char ea d @ y \<Longrightarrow> c = d \<and> x = y"
  using hex_pair_inj[of c d] by (auto simp: escape_char_def split: if_splits)

lemma escape_char_hd: "hd (escape_char ea c @ x) \<noteq> CHR 0x22" "escape_char ea c \<noteq> []"
  by (auto simp: escape_char_def)

lemma escape_unique:
  "escape ea s @ CHR 0x22 # r = escape ea t @ CHR 0x22 # u \<Longrightarrow> s = t \<and> r = u"
proof (induction s arbitrary: t)
  case Nil
  then show ?case
    using escape_char_hd(1) by (cases t) (auto simp: escape_def, metis list.sel(1))
next
  case (Cons c s)
  show ?case
  proof (cases t)
    case Nil
    then show ?thesis
      using Cons.prems escape_char_hd(1) by (auto simp: escape_def, metis list.sel(1))
  next
    case (Cons d t')
    then have "escape_char ea c @ (escape ea s @ CHR 0x22 # r)
        = escape_char ea d @ (escape ea t' @ CHR 0x22 # u)"
      using Cons.prems by (simp add: escape_def)
    then have "c = d" "escape ea s @ CHR 0x22 # r = escape ea t' @ CHR 0x22 # u"
      using escape_char_prefix_free by blast+
    then show ?thesis using Cons.IH Cons by blast
  qed
qed

lemma quoted_unique: "quoted ea s @ r = quoted ea t @ u \<Longrightarrow> s = t \<and> r = u"
  using escape_unique[of ea s r t u] by (simp add: quoted_def)

lemma quoted_hd [simp]: "hd (quoted ea s @ r) = CHR 0x22" "quoted ea s \<noteq> []"
  by (simp_all add: quoted_def)

subsection \<open>Values\<close>

definition opens :: "char \<Rightarrow> bool" where
  "opens c \<longleftrightarrow> c \<notin> {CHR '','', CHR '']'', CHR ''}''}"

lemma emit_hd: "plain v \<Longrightarrow> emit ea v \<noteq> [] \<and> opens (hd (emit ea v))"
proof (cases v)
  case (PInt n)
  have "show_int n \<noteq> []" using show_nat_not_Nil by (auto simp: show_int_def)
  then show ?thesis
    using show_int_hd[of n "[]"] PInt
    by (auto simp: opens_def is_digit_def less_eq_char_def)
qed (auto simp: opens_def quoted_def)

fun kind :: "char \<Rightarrow> nat" where
  "kind c = (if c = CHR ''n'' then 0 else if c = CHR ''t'' then 1 else if c = CHR ''f'' then 2
     else if c = CHR 0x22 then 3 else if c = CHR ''['' then 4 else if c = CHR ''{'' then 5 else 6)"

fun vkind :: "pyval \<Rightarrow> nat" where
  "vkind PNone = 0"
| "vkind (PBool b) = (if b then 1 else 2)"
| "vkind (PStr s) = 3"
| "vkind (PList xs) = 4"
| "vkind (PDict xs) = 5"
| "vkind _ = 6"

lemma emit_kind: "plain v \<Longrightarrow> kind (hd (emit ea v @ r)) = vkind v"
proof (cases v)
  case (PInt n)
  then show ?thesis
    using show_int_hd[of n r] by (auto simp: is_digit_def less_eq_char_def)
qed auto

lemma emit_same_kind:
  "emit ea a @ r = emit ea b @ s \<Longrightarrow> plain a \<Longrightarrow> plain b \<Longrightarrow> vkind b = vkind a"
  by (metis emit_kind)

lemma vkind_cases:
  "vkind b = 0 \<longleftrightarrow> b = PNone" "vkind b = Suc 0 \<longleftrightarrow> b = PBool True" "vkind b = 2 \<longleftrightarrow> b = PBool False"
  "vkind b = 3 \<longleftrightarrow> (\<exists>t. b = PStr t)" "vkind b = 4 \<longleftrightarrow> (\<exists>ys. b = PList ys)"
  "vkind b = 5 \<longleftrightarrow> (\<exists>ys. b = PDict ys)" "plain b \<Longrightarrow> vkind b = 6 \<longleftrightarrow> (\<exists>n. b = PInt n)"
  by (cases b; auto)+

lemma emit_items_Cons_unique:
  assumes "\<not> opens c" and "emit ea x @ r = c # s" and "plain x"
  shows False
  using assms emit_hd[OF assms(3), of ea] by (cases "emit ea x") auto

lemma emit_items_after:
  assumes "emit_items ea xs @ r = c # s" and "list_all plain xs" and "\<not> opens c"
  shows "xs = []"
  using assms emit_hd by (cases xs) (auto, metis append_Cons list.collapse list.sel(1))

lemma emit_unique_all:
  "plain a \<Longrightarrow> plain b \<Longrightarrow> follows r \<Longrightarrow> follows s \<Longrightarrow> emit ea a @ r = emit ea b @ s
     \<Longrightarrow> a = b \<and> r = s"
  "list_all plain xs \<Longrightarrow> list_all plain ys \<Longrightarrow> emit_items ea xs @ r = emit_items ea ys @ s
     \<Longrightarrow> xs = ys \<and> r = s"
  "list_all (\<lambda>(k, v). plain v) ps \<Longrightarrow> list_all (\<lambda>(k, v). plain v) qs
     \<Longrightarrow> emit_pairs ea ps @ r = emit_pairs ea qs @ s \<Longrightarrow> ps = qs \<and> r = s"
proof (induction ea a and ea xs and ea ps arbitrary: b r s and ys r s and qs r s
    rule: emit_emit_items_emit_pairs.induct)
  case (1 ea)
  then show ?case using emit_same_kind[OF 1(5) 1(1,2)] by (auto simp: vkind_cases)
next
  case (2 ea c)
  then show ?case using emit_same_kind[OF 2(5) 2(1,2)] by (cases c) (auto simp: vkind_cases)
next
  case (3 ea n)
  then obtain m where "b = PInt m"
    using emit_same_kind[OF 3(5) 3(1,2)] by (auto simp: vkind_cases)
  then show ?case using 3 show_int_unique[of n r m s] by simp
next
  case (4 ea q)
  then show ?case by simp
next
  case (5 ea t)
  then obtain u where "b = PStr u"
    using emit_same_kind[OF 5(5) 5(1,2)] by (auto simp: vkind_cases)
  then show ?case using 5 quoted_unique[of ea t r u s] by simp
next
  case (6 ea xs)
  then obtain ys where "b = PList ys"
    using emit_same_kind[OF 6(6) 6(2,3)] by (auto simp: vkind_cases)
  then show ?case using 6(1)[of ys r s] 6(2,3,6) by simp
next
  case (7 ea kvs)
  then obtain ys where "b = PDict ys"
    using emit_same_kind[OF 7(6) 7(2,3)] by (auto simp: vkind_cases)
  then show ?case using 7(1)[of ys r s] 7(2,3,6) by (simp add: list_all_iff)
next
  case (8 ea)
  then show ?case using emit_items_after[of ea ys s "CHR '']''" r]
    by (auto simp: opens_def)
next
  case (9 ea x xs)
  let ?tail = "\<lambda>zs. if zs = [] then '']'' else CHR '','' # emit_items ea zs"
  obtain y ys' where ys: "ys = y # ys'"
    using emit_items_after[of ea "x # xs" r "CHR '']''" s] 9 by (cases ys) (auto simp: opens_def)
  have "emit ea x @ ?tail xs @ r = emit ea y @ ?tail ys' @ s" using 9(5) ys by simp
  moreover have "follows (?tail xs @ r)" "follows (?tail ys' @ s)" by auto
  ultimately have xy: "x = y" and tails: "?tail xs @ r = ?tail ys' @ s"
    using 9(1)[of y] 9(3,4) ys by auto
  show ?case
  proof (cases "xs = []")
    case True
    then show ?thesis using tails xy ys by (auto split: if_splits)
  next
    case False
    then have "ys' \<noteq> []" and "emit_items ea xs @ r = emit_items ea ys' @ s"
      using tails by (auto split: if_splits)
    then show ?thesis using 9(2)[OF False] 9(3,4) xy ys by auto
  qed
next
  case (10 ea)
  then show ?case by (cases qs) (auto simp: quoted_def)
next
  case (11 ea k v xs)
  let ?tail = "\<lambda>zs. if zs = [] then ''}'' else CHR '','' # emit_pairs ea zs"
  obtain l w qs' where qs: "qs = (l, w) # qs'"
    using 11(5) by (cases qs) (auto simp: quoted_def)
  have "quoted ea k @ CHR '':'' # emit ea v @ ?tail xs @ r
      = quoted ea l @ CHR '':'' # emit ea w @ ?tail qs' @ s" using 11(5) qs by simp
  then have kl: "k = l" and "emit ea v @ ?tail xs @ r = emit ea w @ ?tail qs' @ s"
    using quoted_unique[of ea k _ l] by blast+
  moreover have "follows (?tail xs @ r)" "follows (?tail qs' @ s)" by auto
  ultimately have vw: "v = w" and tails: "?tail xs @ r = ?tail qs' @ s"
    using 11(1)[of w] 11(3,4) qs by auto
  show ?case
  proof (cases "xs = []")
    case True
    then show ?thesis using tails kl vw qs by (auto split: if_splits)
  next
    case False
    then have "qs' \<noteq> []" and "emit_pairs ea xs @ r = emit_pairs ea qs' @ s"
      using tails by (auto split: if_splits)
    then show ?thesis using 11(2)[OF False] 11(3,4) kl vw qs by auto
  qed
qed

lemma emit_unique: "plain a \<Longrightarrow> plain b \<Longrightarrow> emit ea a = emit ea b \<Longrightarrow> a = b"
  using emit_unique_all(1)[of a b "[]" "[]" ea] by simp

lemma map_fst_map_val: "map fst (map (\<lambda>(k, v). (k, f v)) xs) = map fst xs"
  by (induction xs) auto

lemma distinct_fst_sort: "distinct (map fst (sort_key fst xs)) \<longleftrightarrow> distinct (map fst xs)"
  by (simp add: distinct_map)

lemma plain_canon: "plain v \<Longrightarrow> plain (canon v)"
proof (induction v rule: canon.induct)
  case (2 kvs)
  have "dict_ok (sort_key fst (map (\<lambda>(k, v). (k, canon v)) kvs))"
    using 2(2) by (simp only: dict_ok_def distinct_fst_sort map_fst_map_val plain.simps)
  then show ?case using 2 by (auto simp: list_all_iff)
qed (auto simp: list_all_iff)

lemma dict_sort_eq:
  assumes "dict_ok xs" "dict_ok ys"
  shows "sort_key fst xs = sort_key fst ys \<longleftrightarrow> (\<forall>k. dget xs k = dget ys k)"
proof -
  have d: "distinct xs" "distinct ys" "inj_on fst (set xs)" "inj_on fst (set ys)"
    using assms by (auto simp: dict_ok_def distinct_map)
  have "sort_key fst xs = sort_key fst ys \<longleftrightarrow> set xs = set ys"
  proof
    assume "set xs = set ys"
    then have "mset xs = mset ys" using d by (simp add: set_eq_iff_mset_eq_distinct)
    then show "sort_key fst xs = sort_key fst ys"
      using d by (intro sort_key_inj_key_eq) auto
  qed (metis set_sort)
  also have "\<dots> \<longleftrightarrow> map_of xs = map_of ys"
    using assms by (simp add: dict_ok_def map_of_inject_set)
  finally show ?thesis by (simp add: dget_def fun_eq_iff)
qed

lemma dget_map_val: "dget (map (\<lambda>(k, v). (k, f v)) xs) k = map_option f (dget xs k)"
  by (induction xs) (auto simp: dget_def)

lemma dget_member: "dict_ok xs \<Longrightarrow> (k, v) \<in> set xs \<longleftrightarrow> dget xs k = Some v"
  by (simp add: dict_ok_def dget_def)

lemma dumps_eq_iff_canon:
  "plain a \<Longrightarrow> plain b \<Longrightarrow> dumps fr ea a = dumps fr ea b \<longleftrightarrow> canon a = canon b"
  using emit_unique dumps_emit plain_canon by metis

subsection \<open>Type-strict equality is equality of the canonical text\<close>

lemma map_option_agree:
  "map_option f x = map_option f y \<longleftrightarrow>
     (x = None \<longleftrightarrow> y = None) \<and> (\<forall>v. x = Some v \<longrightarrow> (\<exists>w. y = Some w \<and> f v = f w))"
  by (cases x; cases y) auto

lemma atom_eq_canon [simp]:
  "PNone = canon v \<longleftrightarrow> v = PNone" "PBool b = canon v \<longleftrightarrow> v = PBool b"
  "PInt n = canon v \<longleftrightarrow> v = PInt n" "PStr s = canon v \<longleftrightarrow> v = PStr s"
  by (cases v; auto)+

lemma dict_canon_eq:
  assumes "dict_ok xs" "dict_ok ys"
  shows "canon (PDict xs) = canon (PDict ys) \<longleftrightarrow>
    set (dkeys xs) = set (dkeys ys) \<and>
    (\<forall>(k, v) \<in> set xs. \<exists>w. dget ys k = Some w \<and> canon v = canon w)"
proof -
  have ok: "dict_ok (map (\<lambda>(k, v). (k, canon v)) zs)" if "dict_ok zs" for zs
    using that by (simp only: dict_ok_def map_fst_map_val)
  have "canon (PDict xs) = canon (PDict ys) \<longleftrightarrow>
      (\<forall>k. map_option canon (dget xs k) = map_option canon (dget ys k))"
    using dict_sort_eq[OF ok ok, OF assms] by (simp add: dget_map_val)
  also have "\<dots> \<longleftrightarrow> (\<forall>k. dget xs k = None \<longleftrightarrow> dget ys k = None) \<and>
      (\<forall>k v. dget xs k = Some v \<longrightarrow> (\<exists>w. dget ys k = Some w \<and> canon v = canon w))"
    by (simp only: map_option_agree all_conj_distrib)
  also have "\<dots> \<longleftrightarrow> set (dkeys xs) = set (dkeys ys) \<and>
      (\<forall>(k, v) \<in> set xs. \<exists>w. dget ys k = Some w \<and> canon v = canon w)"
  proof -
    have "(\<forall>k. dget xs k = None \<longleftrightarrow> dget ys k = None) \<longleftrightarrow> set (dkeys xs) = set (dkeys ys)"
      unfolding set_eq_iff in_dkeys_iff by metis
    then show ?thesis by (simp only: Ball_def split_paired_All prod.case dget_member[OF assms(1)])
  qed
  finally show ?thesis .
qed

lemma json_equal_canon:
  "plain a \<Longrightarrow> plain b \<Longrightarrow> json_type_equal a b \<longleftrightarrow> canon a = canon b"
  "list_all plain xs \<Longrightarrow> list_all plain ys \<Longrightarrow> json_items_equal xs ys \<longleftrightarrow> map canon xs = map canon ys"
  "list_all (\<lambda>(k, v). plain v) ps \<Longrightarrow> list_all (\<lambda>(k, v). plain v) qs \<Longrightarrow>
     json_pairs_equal ps qs \<longleftrightarrow> (\<forall>(k, v) \<in> set ps. \<exists>w. dget qs k = Some w \<and> canon v = canon w)"
proof (induction a b and xs ys and ps qs
    rule: json_type_equal_json_items_equal_json_pairs_equal.induct)
  case (7 xs r)
  show ?case
  proof (cases r)
    case (PDict ys)
    then show ?thesis using 7 dict_canon_eq[of xs ys] by (simp del: canon.simps)
  qed auto
next
  case (11 k x xs ys)
  have "plain y" if "dget ys k = Some y" for y
    using that 11(4) by (auto simp: dget_def list_all_iff dest: map_of_SomeD)
  then show ?case using 11 by (auto split: option.splits)
qed (auto split: pyval.splits list.splits)

lemma dumps_eq_json:
  "plain a \<Longrightarrow> plain b \<Longrightarrow> dumps fr ea a = dumps fr ea b \<longleftrightarrow> json_type_equal a b"
  using json_equal_canon(1) dumps_eq_iff_canon by blast

text \<open>The canonical JSON text identifies the value. Two values without floats, whose
  dictionaries have distinct keys, print to the same text exactly when _json_type_equal holds of
  them: a digest of the text therefore binds the value, and the approval check, which compares
  values, agrees with the digests, which compare texts.\<close>

theorem json_type_equal_iff_dumps:
  assumes "plain a" "plain b"
  shows "json_type_equal a b \<longleftrightarrow> dumps fr ea a = dumps fr ea b"
  using dumps_eq_json assms by blast

theorem json_type_equal_iff_dumps_witness:
  "json_type_equal (PDict [(''b'', PInt 1), (''a'', PBool True)]) (PDict [(''a'', PInt 1), (''b'', PInt 1)])
     \<longleftrightarrow> dumps (\<lambda>q. []) True (PDict [(''b'', PInt 1), (''a'', PBool True)])
       = dumps (\<lambda>q. []) True (PDict [(''a'', PInt 1), (''b'', PInt 1)])"
  by (rule json_type_equal_iff_dumps) code_simp+

end
