(* ===== verification/RecoveryDigest.thy ===== *)
theory RecoveryDigest
  imports RecoveryPolicy PyJson
begin

section \<open>Failure recovery: canonical identities\<close>

text \<open>
  \<open>fingerprints.py\<close> and the two functions of the controller that collect what a decision digest
  binds. A payload is a value of \<open>pyval\<close>, already in the primitive form that \<open>_primitive\<close>
  makes (an enumeration is its string, a tuple a list); \<open>sha\<close> is the hexadecimal SHA-256 of the
  text. Injectivity of the payloads and of their text turns equality of digests into equality of
  what they bind, up to a collision of \<open>sha\<close> on the two texts at hand.
\<close>

fun opt_str :: "string option \<Rightarrow> pyval" where
  "opt_str None = PNone"
| "opt_str (Some s) = PStr s"

definition strs :: "string list \<Rightarrow> pyval" where
  "strs xs = PList (map PStr xs)"

definition canonical_json :: "(rat \<Rightarrow> string) \<Rightarrow> pyval \<Rightarrow> string" where
  "canonical_json fr v = dumps fr True v"

definition canonical_digest :: "(string \<Rightarrow> string) \<Rightarrow> (rat \<Rightarrow> string) \<Rightarrow> pyval \<Rightarrow> string" where
  "canonical_digest sha fr v = sha (canonical_json fr v)"

definition binding_payload :: "recovery_context \<Rightarrow> pyval" where
  "binding_payload c = PDict
     [(''ownerId'', PStr (rc_owner_id c)), (''taskId'', PStr (rc_task_id c)),
      (''dagRunId'', PStr (rc_dag_run_id c)), (''nodeId'', PStr (rc_node_id c)),
      (''sourceRevision'', opt_str (rc_source_revision c)),
      (''planDigest'', opt_str (rc_plan_digest c)),
      (''candidateDigest'', opt_str (rc_candidate_digest c)),
      (''contractDigest'', opt_str (rc_contract_digest c)),
      (''resourceId'', opt_str (rc_resource_id c))]"

definition evidence_value :: "evidence_ref \<Rightarrow> pyval" where
  "evidence_value e = PDict [(''evidenceId'', PStr (er_evidence_id e)), (''kind'', PStr (er_kind e)),
     (''sha256'', PStr (er_sha256 e))]"

definition failure_payload :: "failure_signal \<Rightarrow> pyval" where
  "failure_payload s = PDict
     [(''code'', PStr (signal_code_value (fs_code s))),
      (''exceptionType'', PStr (fs_exception_type s)),
      (''failedChecks'', strs (fs_failed_checks s)),
      (''evidence'', PList (map evidence_value (fs_evidence s))),
      (''transient'', PBool (fs_transient s)),
      (''partialMutation'', PBool (fs_partial_mutation s)),
      (''integrityFailure'', PBool (fs_integrity_failure s)),
      (''securitySensitive'', PBool (fs_security_sensitive s))]"

definition fingerprint_payload :: "failure_signal \<Rightarrow> recovery_context \<Rightarrow> pyval" where
  "fingerprint_payload s c = PDict
     [(''schemaVersion'', PStr ''failure-fingerprint-v1''), (''binding'', binding_payload c),
      (''failure'', failure_payload s)]"

definition failure_fingerprint :: "(string \<Rightarrow> string) \<Rightarrow> (rat \<Rightarrow> string) \<Rightarrow> failure_signal
    \<Rightarrow> recovery_context \<Rightarrow> string" where
  "failure_fingerprint sha fr s c = canonical_digest sha fr (fingerprint_payload s c)"

definition bound_value :: "pydict \<Rightarrow> pyval" where
  "bound_value payload =
     PDict ((''schemaVersion'', PStr ''recovery-decision-digest-v1'') # payload)"

definition decision_digest :: "(string \<Rightarrow> string) \<Rightarrow> (rat \<Rightarrow> string) \<Rightarrow> pydict \<Rightarrow> string" where
  "decision_digest sha fr payload = canonical_digest sha fr (bound_value payload)"

definition decision_material :: "recovery_context \<Rightarrow> string option \<Rightarrow> string \<Rightarrow> failure_class
    \<Rightarrow> failure_code \<Rightarrow> policy_decision \<Rightarrow> string list \<Rightarrow> pydict" where
  "decision_material c target fp cls code pd reasons =
     [(''ownerId'', PStr (rc_owner_id c)), (''taskId'', PStr (rc_task_id c)),
      (''dagRunId'', PStr (rc_dag_run_id c)), (''nodeId'', PStr (rc_node_id c)),
      (''sourceRevision'', opt_str (rc_source_revision c)),
      (''planDigest'', opt_str (rc_plan_digest c)),
      (''candidateDigest'', opt_str (rc_candidate_digest c)),
      (''contractDigest'', opt_str (rc_contract_digest c)),
      (''executionId'', opt_str (rc_execution_id c)), (''leaseId'', opt_str (rc_lease_id c)),
      (''resourceId'', opt_str (rc_resource_id c)), (''targetResourceId'', opt_str target),
      (''attempt'', PInt (rc_attempt c)),
      (''failureClass'', PStr (failure_class_value cls)),
      (''failureCode'', PStr (failure_code_value code)), (''fingerprint'', PStr fp),
      (''disposition'', PStr (recovery_disposition_value (pd_disposition pd))),
      (''action'', PStr (recovery_action_value (pd_action pd))),
      (''allowed'', PBool (pd_allowed pd)),
      (''requiresReauthorization'', PBool (pd_requires_reauthorization pd)),
      (''requiresFreshLease'', PBool (pd_requires_fresh_lease pd)),
      (''reasonCodes'', strs reasons)]"

definition material_from_decision :: "recovery_decision \<Rightarrow> pydict" where
  "material_from_decision d =
     [(''ownerId'', PStr (rd_owner_id d)), (''taskId'', PStr (rd_task_id d)),
      (''dagRunId'', PStr (rd_dag_run_id d)), (''nodeId'', PStr (rd_node_id d)),
      (''sourceRevision'', opt_str (rd_source_revision d)),
      (''planDigest'', opt_str (rd_plan_digest d)),
      (''candidateDigest'', opt_str (rd_candidate_digest d)),
      (''contractDigest'', opt_str (rd_contract_digest d)),
      (''executionId'', opt_str (rd_execution_id d)), (''leaseId'', opt_str (rd_lease_id d)),
      (''resourceId'', opt_str (rd_resource_id d)),
      (''targetResourceId'', opt_str (rd_target_resource_id d)),
      (''attempt'', PInt (rd_attempt d)),
      (''failureClass'', PStr (failure_class_value (rd_failure_class d))),
      (''failureCode'', PStr (failure_code_value (rd_failure_code d))),
      (''fingerprint'', PStr (rd_fingerprint d)),
      (''disposition'', PStr (recovery_disposition_value (rd_disposition d))),
      (''action'', PStr (recovery_action_value (rd_action d))),
      (''allowed'', PBool (rd_allowed d)),
      (''requiresReauthorization'', PBool (rd_requires_reauthorization d)),
      (''requiresFreshLease'', PBool (rd_requires_fresh_lease d)),
      (''reasonCodes'', strs (rd_reason_codes d))]"

subsection \<open>Injectivity of the payloads\<close>

lemma opt_str_inj [simp]: "opt_str a = opt_str b \<longleftrightarrow> a = b"
  by (cases a; cases b) auto

lemma plain_opt_str [simp]: "plain (opt_str a)"
  by (cases a) auto

lemma plain_strs [simp]: "plain (strs xs)"
  by (simp add: strs_def list_all_iff)

lemma json_opt_str [simp]: "json_type_equal (opt_str a) v \<longleftrightarrow> v = opt_str a"
  by (cases a) auto

lemma json_items_strs:
  "json_items_equal (map PStr xs) (map PStr ys) \<longleftrightarrow> xs = ys"
proof (induction xs arbitrary: ys)
  case (Cons x xs)
  show ?case using Cons.IH by (cases ys) auto
qed auto

lemma json_strs [simp]: "json_type_equal (strs xs) (strs ys) \<longleftrightarrow> xs = ys"
  by (simp add: strs_def json_items_strs)

lemma evidence_value_inj: "json_type_equal (evidence_value a) (evidence_value b) \<longleftrightarrow> a = b"
  by (simp add: evidence_value_def dkeys_def) (cases a; cases b; auto)

lemma json_items_evidence:
  "json_items_equal (map evidence_value xs) (map evidence_value ys) \<longleftrightarrow> xs = ys"
proof (induction xs arbitrary: ys)
  case Nil
  show ?case by auto
next
  case (Cons x xs)
  show ?case using Cons.IH by (cases ys) (simp_all add: evidence_value_inj)
qed

lemma plain_evidence [simp]: "plain (evidence_value e)"
  by (simp add: evidence_value_def dict_ok_def)

lemma plain_fingerprint_payload [simp]: "plain (fingerprint_payload s c)"
  by (simp add: fingerprint_payload_def binding_payload_def failure_payload_def dict_ok_def
      list_all_iff)

lemma plain_bound_value [simp]: "plain (bound_value (material_from_decision d))"
  by (simp add: bound_value_def material_from_decision_def dict_ok_def)

text \<open>What a fingerprint is made of, and what it leaves out: the attempt, the message and the
  details, the execution and the lease.\<close>

definition same_cause :: "failure_signal \<Rightarrow> recovery_context \<Rightarrow> failure_signal \<Rightarrow> recovery_context \<Rightarrow> bool" where
  "same_cause s c s2 c2 \<longleftrightarrow>
     rc_owner_id c = rc_owner_id c2 \<and> rc_task_id c = rc_task_id c2
     \<and> rc_dag_run_id c = rc_dag_run_id c2 \<and> rc_node_id c = rc_node_id c2
     \<and> rc_source_revision c = rc_source_revision c2 \<and> rc_plan_digest c = rc_plan_digest c2
     \<and> rc_candidate_digest c = rc_candidate_digest c2
     \<and> rc_contract_digest c = rc_contract_digest c2 \<and> rc_resource_id c = rc_resource_id c2
     \<and> signal_code_value (fs_code s) = signal_code_value (fs_code s2)
     \<and> fs_exception_type s = fs_exception_type s2
     \<and> fs_failed_checks s = fs_failed_checks s2 \<and> fs_evidence s = fs_evidence s2
     \<and> fs_transient s = fs_transient s2 \<and> fs_partial_mutation s = fs_partial_mutation s2
     \<and> fs_integrity_failure s = fs_integrity_failure s2
     \<and> fs_security_sensitive s = fs_security_sensitive s2"

lemma fingerprint_payload_equal:
  "json_type_equal (fingerprint_payload s c) (fingerprint_payload s2 c2) \<longleftrightarrow> same_cause s c s2 c2"
  by (simp add: fingerprint_payload_def binding_payload_def failure_payload_def dkeys_def
      same_cause_def json_items_evidence) (intro iffI; elim conjE; simp)

lemma fingerprint_eq_iff:
  assumes "sha (canonical_json fr (fingerprint_payload s c))
             = sha (canonical_json fr (fingerprint_payload s2 c2))
           \<Longrightarrow> canonical_json fr (fingerprint_payload s c) = canonical_json fr (fingerprint_payload s2 c2)"
  shows "failure_fingerprint sha fr s c = failure_fingerprint sha fr s2 c2 \<longleftrightarrow> same_cause s c s2 c2"
  using assms dumps_eq_json[of "fingerprint_payload s c" "fingerprint_payload s2 c2" fr True]
  by (auto simp: failure_fingerprint_def canonical_digest_def canonical_json_def fingerprint_payload_equal)

text \<open>A failure fingerprint identifies a cause. Two signals in two contexts have the same
  fingerprint exactly when they agree on the binding (owner, task, run, node, source, plan,
  candidate, contract, resource) and on the failure (code, exception type, failed checks,
  evidence, the four flags); the attempt, the message and the details play no part. The
  hypothesis is that the hash does not collide on the two texts.\<close>

theorem fingerprint_identifies_cause:
  assumes "sha (canonical_json fr (fingerprint_payload s c))
             = sha (canonical_json fr (fingerprint_payload s2 c2))
           \<Longrightarrow> canonical_json fr (fingerprint_payload s c) = canonical_json fr (fingerprint_payload s2 c2)"
  shows "failure_fingerprint sha fr s c = failure_fingerprint sha fr s2 c2 \<longleftrightarrow> same_cause s c s2 c2"
  using fingerprint_eq_iff[OF assms] .

definition demo_context :: recovery_context where
  "demo_context = \<lparr>rc_owner_id = ''ann'', rc_task_id = ''job'', rc_dag_run_id = ''job:job'',
     rc_node_id = ''executing'', rc_source_revision = None, rc_attempt = 1, rc_plan_digest = None,
     rc_candidate_digest = None, rc_contract_digest = None, rc_execution_id = None,
     rc_lease_id = None, rc_resource_id = None, rc_approval_present = True,
     rc_new_authority_required = False\<rparr>"

definition demo_signal :: failure_signal where
  "demo_signal = \<lparr>fs_code = Known TEST_FAILURE, fs_exception_type = [], fs_message = [],
     fs_failed_checks = [''unit''], fs_evidence = [], fs_transient = False,
     fs_partial_mutation = False, fs_integrity_failure = False, fs_security_sensitive = False,
     fs_details = []\<rparr>"

theorem fingerprint_identifies_cause_witness:
  "failure_fingerprint (\<lambda>t. t) (\<lambda>q. []) demo_signal demo_context
     = failure_fingerprint (\<lambda>t. t) (\<lambda>q. []) (demo_signal\<lparr>fs_message := ''other''\<rparr>)
         (demo_context\<lparr>rc_attempt := 2\<rparr>)
   \<longleftrightarrow> same_cause demo_signal demo_context (demo_signal\<lparr>fs_message := ''other''\<rparr>)
         (demo_context\<lparr>rc_attempt := 2\<rparr>)"
  by (rule fingerprint_identifies_cause)

subsection \<open>Decisions\<close>

text \<open>Two decisions that agree on everything but the digest and the schema version.\<close>

lemma bound_value_determines_decision:
  "json_type_equal (bound_value (material_from_decision d)) (bound_value (material_from_decision e))
   \<Longrightarrow> e = d\<lparr>rd_schema_version := rd_schema_version e, rd_decision_digest := rd_decision_digest e\<rparr>"
  by (simp add: bound_value_def material_from_decision_def dkeys_def)

text \<open>The hash does not collide on what two payloads bind.\<close>

definition no_collision :: "(string \<Rightarrow> string) \<Rightarrow> (rat \<Rightarrow> string) \<Rightarrow> pydict \<Rightarrow> pydict \<Rightarrow> bool" where
  "no_collision sha fr p q \<longleftrightarrow>
     (decision_digest sha fr p = decision_digest sha fr q \<longrightarrow>
       canonical_json fr (bound_value p) = canonical_json fr (bound_value q))"

lemma decision_digest_binds:
  assumes "no_collision sha fr (material_from_decision d) (material_from_decision e)"
    and "decision_digest sha fr (material_from_decision d)
           = decision_digest sha fr (material_from_decision e)"
  shows "e = d\<lparr>rd_schema_version := rd_schema_version e, rd_decision_digest := rd_decision_digest e\<rparr>"
  using assms dumps_eq_json[OF plain_bound_value plain_bound_value, of fr True d e]
  by (intro bound_value_determines_decision) (simp add: no_collision_def canonical_json_def)

subsection \<open>The order of evidence\<close>

text \<open>An iteration order of a set: the elements of the list, each once.\<close>

definition iterates :: "(evidence_ref list \<Rightarrow> evidence_ref list) \<Rightarrow> bool" where
  "iterates so \<longleftrightarrow> (\<forall>es. mset (so es) = mset (remdups es))"

text \<open>The order in which Python iterates over a set of evidence does not show in a signal
  as long as no two different pieces of evidence share kind and identifier: the sorted tuple is
  the same for every iteration order and every order of the arguments.\<close>

theorem evidence_order_irrelevant:
  assumes "iterates so" "iterates so2" "set es = set es2"
    and "inj_on (\<lambda>e. (er_kind e, er_evidence_id e)) (set es)"
  shows "sorted_evidence so es = sorted_evidence so2 es2"
proof -
  have "mset (remdups es) = mset (remdups es2)"
    using assms(3) by (simp add: set_eq_iff_mset_remdups_eq)
  then have m: "mset (so es) = mset (so2 es2)"
    using assms(1,2) unfolding iterates_def by metis
  then have "set (so es) = set es"
    using assms(1) unfolding iterates_def by (metis mset_eq_setD set_remdups)
  then show ?thesis
    unfolding sorted_evidence_def using m assms(4) by (intro sort_key_inj_key_eq) simp_all
qed

lemma iterates_remdups: "iterates remdups" "iterates (\<lambda>es. rev (remdups es))"
  by (simp_all add: iterates_def)

theorem evidence_order_irrelevant_witness:
  "sorted_evidence remdups
      [\<lparr>er_evidence_id = ''b'', er_kind = ''log'', er_sha256 = []\<rparr>,
       \<lparr>er_evidence_id = ''a'', er_kind = ''log'', er_sha256 = []\<rparr>]
   = sorted_evidence (\<lambda>es. rev (remdups es))
      [\<lparr>er_evidence_id = ''a'', er_kind = ''log'', er_sha256 = []\<rparr>,
       \<lparr>er_evidence_id = ''b'', er_kind = ''log'', er_sha256 = []\<rparr>]"
  by (rule evidence_order_irrelevant[OF iterates_remdups]) auto

text \<open>The restriction on kind and identifier is needed: a signal with two pieces of
  evidence of the same kind and identifier but different digests gets different evidence tuples
  under two iteration orders of the same set, and with a collision-free hash different
  fingerprints for the same failure.\<close>

theorem evidence_ties_depend_on_hash_order:
  "\<exists>so so2 es s s2. iterates so \<and> iterates so2
     \<and> failure_signal_init so ''test_failure'' [] [] [] es False False False False [] = Inr s
     \<and> failure_signal_init so2 ''test_failure'' [] [] [] es False False False False [] = Inr s2
     \<and> failure_fingerprint (\<lambda>t. t) fr s c \<noteq> failure_fingerprint (\<lambda>t. t) fr s2 c"
proof -
  let ?a = "\<lparr>er_evidence_id = ''e'', er_kind = ''log'', er_sha256 = replicate 64 (CHR ''a'')\<rparr>"
  let ?b = "\<lparr>er_evidence_id = ''e'', er_kind = ''log'', er_sha256 = replicate 64 (CHR ''b'')\<rparr>"
  let ?sig = "\<lambda>so. projr (failure_signal_init so ''test_failure'' [] [] [] [?a, ?b] False False
      False False [])"
  have init: "failure_signal_init so ''test_failure'' [] [] [] [?a, ?b] False False False False []
      = Inr (?sig so)" for so
    by (simp add: failure_signal_init_def normalize_strings_def)
  have "fs_evidence (?sig remdups) \<noteq> fs_evidence (?sig (\<lambda>es. rev (remdups es)))"
    by code_simp
  then have "\<not> same_cause (?sig remdups) c (?sig (\<lambda>es. rev (remdups es))) c"
    unfolding same_cause_def by blast
  then have "failure_fingerprint (\<lambda>t. t) fr (?sig remdups) c
      \<noteq> failure_fingerprint (\<lambda>t. t) fr (?sig (\<lambda>es. rev (remdups es))) c"
    using fingerprint_eq_iff[of "\<lambda>t. t"] by blast
  with init iterates_remdups show ?thesis by blast
qed

end
