(* ===== verification/JsonStrings.thy ===== *)
theory JsonStrings
  imports PyJson
begin

section \<open>Reading back a JSON array of strings\<close>

text \<open>
  \<open>json.loads\<close> on the texts the SQLite history writes, arrays of strings without white space:
  \<open>unescape\<close> reads a string up to its closing quote with the escapes of JSON, and
  \<open>loads_strings\<close> the array. A \<open>\u\<close> escape above 255 has no character here and is refused.
  \<open>loads_dumps\<close> is the round trip with \<open>dumps\<close>.
\<close>

definition hex_value :: "char \<Rightarrow> nat option" where
  "hex_value c =
     (if is_digit c then Some (of_char c - 48)
      else if CHR ''a'' \<le> c \<and> c \<le> CHR ''f'' then Some (of_char c - 87)
      else if CHR ''A'' \<le> c \<and> c \<le> CHR ''F'' then Some (of_char c - 55)
      else None)"

definition hex4 :: "char \<Rightarrow> char \<Rightarrow> char \<Rightarrow> char \<Rightarrow> char option" where
  "hex4 a b c d =
     (case (hex_value a, hex_value b, hex_value c, hex_value d) of
        (Some w, Some x, Some y, Some z) \<Rightarrow>
          if w = 0 \<and> x = 0 then Some (char_of (16 * y + z)) else None
      | _ \<Rightarrow> None)"

definition unescape_char :: "char \<Rightarrow> char option" where
  "unescape_char e =
     (if e = CHR 0x22 \<or> e = CHR 0x5C \<or> e = CHR ''/'' then Some e
      else if e = CHR ''b'' then Some (CHR 0x08)
      else if e = CHR ''f'' then Some (CHR 0x0C)
      else if e = CHR ''n'' then Some (CHR 0x0A)
      else if e = CHR ''r'' then Some (CHR 0x0D)
      else if e = CHR ''t'' then Some (CHR 0x09)
      else None)"

definition push :: "char \<Rightarrow> (string \<times> string) option \<Rightarrow> (string \<times> string) option" where
  "push c r = map_option (\<lambda>(s, rest). (c # s, rest)) r"

fun unescape :: "string \<Rightarrow> (string \<times> string) option" where
  "unescape [] = None"
| "unescape (c # cs) =
     (if c = CHR 0x22 then Some ([], cs)
      else if c = CHR 0x5C then
        (case cs of
           [] \<Rightarrow> None
         | e # r \<Rightarrow>
             if e = CHR ''u'' then
               (case r of
                  x1 # x2 # x3 # x4 # r2 \<Rightarrow>
                    (case hex4 x1 x2 x3 x4 of None \<Rightarrow> None | Some x \<Rightarrow> push x (unescape r2))
                | _ \<Rightarrow> None)
             else (case unescape_char e of None \<Rightarrow> None | Some x \<Rightarrow> push x (unescape r)))
      else if c < CHR 0x20 then None
      else push c (unescape cs))"

lemma unescape_shorter: "unescape s = Some (x, r) \<Longrightarrow> length r < length s"
proof (induction s arbitrary: x r rule: unescape.induct)
  case (2 c cs)
  then show ?case
    by (fastforce simp: push_def split: if_splits list.splits option.splits)
qed simp

text \<open>The items of the array after the opening bracket or a comma.\<close>

function load_items :: "string \<Rightarrow> string list option" where
  "load_items s =
     (case s of
        [] \<Rightarrow> None
      | q # cs \<Rightarrow>
          if q \<noteq> CHR 0x22 then None
          else (case unescape cs of
              None \<Rightarrow> None
            | Some (x, rest) \<Rightarrow>
                (case rest of
                   [] \<Rightarrow> None
                 | d # rest2 \<Rightarrow>
                     if d = CHR '']'' then (if rest2 = [] then Some [x] else None)
                     else if d = CHR '','' then map_option ((#) x) (load_items rest2)
                     else None)))"
  by pat_completeness auto
termination
  by (relation "measure length") (auto dest: unescape_shorter)

declare load_items.simps [simp del]

definition loads_strings :: "string \<Rightarrow> string list option" where
  "loads_strings s =
     (case s of
        [] \<Rightarrow> None
      | b # cs \<Rightarrow> if b \<noteq> CHR ''['' then None else if cs = '']'' then Some [] else load_items cs)"

subsection \<open>The round trip\<close>

lemma hex_value_digit [simp]: "n < 16 \<Longrightarrow> hex_value (hex_digit n) = Some n"
  by (auto simp: hex_value_def hex_digit_def is_digit_def less_eq_char_def)

lemma hex4_digits: "hex4 (CHR ''0'') (CHR ''0'') (hex_digit (of_char c div 16)) (hex_digit (of_char c mod 16)) = Some c"
proof -
  have "of_char c < (256 :: nat)" by simp
  then have "(of_char c :: nat) div 16 < 16" by linarith
  moreover have "hex_value (CHR ''0'') = Some 0" by code_simp
  ultimately show ?thesis by (simp add: hex4_def)
qed

lemma unescape_escape_char: "unescape (escape_char ea c @ r) = push c (unescape r)"
  by (auto simp: escape_char_def unescape_char_def hex4_digits)

lemma unescape_escape: "unescape (escape ea s @ CHR 0x22 # r) = Some (s, r)"
proof (induction s)
  case (Cons c s)
  have "escape ea (c # s) @ CHR 0x22 # r = escape_char ea c @ (escape ea s @ CHR 0x22 # r)"
    by (simp add: escape_def)
  then show ?case by (simp only: unescape_escape_char Cons.IH) (simp add: push_def)
qed (simp add: escape_def)

lemma load_items_emit:
  "xs \<noteq> [] \<Longrightarrow> load_items (emit_items ea (map PStr xs)) = Some xs"
proof (induction xs)
  case (Cons x xs)
  then show ?case
    by (subst load_items.simps) (auto simp: quoted_def unescape_escape)
qed simp

lemma loads_dumps: "loads_strings (dumps fr ea (PList (map PStr xs))) = Some xs"
proof -
  have "plain (PList (map PStr xs))" by (simp add: list_all_iff)
  then have "dumps fr ea (PList (map PStr xs)) = emit ea (canon (PList (map PStr xs)))"
    by (rule dumps_emit)
  then have "dumps fr ea (PList (map PStr xs)) = CHR ''['' # emit_items ea (map PStr xs)"
    by (simp only: canon.simps emit.simps map_map comp_def)
  moreover have "xs \<noteq> [] \<Longrightarrow> emit_items ea (map PStr xs) \<noteq> '']''"
    by (cases xs) (auto simp: quoted_def)
  ultimately show ?thesis
    by (cases "xs = []") (simp_all add: loads_strings_def load_items_emit)
qed

end
