(* ===== verification/RecoveryHistory.thy ===== *)
theory RecoveryHistory
  imports RecoveryDigest JsonStrings
begin

section \<open>Failure recovery: the append-only history\<close>

text \<open>
  \<open>history.py\<close>. The protocol \<open>RecoveryHistoryStore\<close> is the record \<open>history_ops\<close> of its
  operations on a state; \<open>memory_ops\<close> is \<open>InMemoryRecoveryHistoryStore\<close>, whose state is the
  dictionary from owners to entries, and \<open>sqlite_ops\<close> is \<open>SQLiteRecoveryHistoryStore\<close>, whose
  state is the list of rows of its table. The locale \<open>recovery_history\<close> states what a client
  may rely on, and is interpreted on both.
\<close>

record 's history_ops =
  h_append_decision :: "'s \<Rightarrow> recovery_decision \<Rightarrow> string list \<Rightarrow> (string, history_entry, 's) outcome"
  h_append_outcome :: "'s \<Rightarrow> recovery_decision \<Rightarrow> recovery_outcome
    \<Rightarrow> (string, history_entry, 's) outcome"
  h_contains_decision :: "'s \<Rightarrow> recovery_decision \<Rightarrow> bool"
  h_list :: "'s \<Rightarrow> string \<Rightarrow> string + history_entry list"

subsection \<open>Entries\<close>

definition entry_of :: "recovery_decision \<Rightarrow> int \<Rightarrow> recovery_outcome option \<Rightarrow> string list
    \<Rightarrow> string + history_entry" where
  "entry_of d seq outcome initial_failed_checks = history_entry_init
     \<lparr>he_owner_id = rd_owner_id d, he_sequence = seq, he_task_id = rd_task_id d,
      he_fingerprint = rd_fingerprint d, he_action = rd_action d,
      he_decision_digest = rd_decision_digest d,
      he_outcome_status = map_option ro_status outcome,
      he_progress = map_option ro_progress outcome,
      he_remaining_failed_checks =
        (case outcome of None \<Rightarrow> initial_failed_checks | Some r \<Rightarrow> ro_remaining_failed_checks r),
      he_resulting_plan_digest =
        (case outcome of None \<Rightarrow> None | Some r \<Rightarrow> ro_resulting_plan_digest r),
      he_resulting_candidate_digest =
        (case outcome of None \<Rightarrow> None | Some r \<Rightarrow> ro_resulting_candidate_digest r),
      he_resulting_resource_id =
        (case outcome of None \<Rightarrow> None | Some r \<Rightarrow> ro_resulting_resource_id r),
      he_node_id = rd_node_id d, he_attempt = rd_attempt d,
      he_target_resource_id = rd_target_resource_id d\<rparr>"

text \<open>The entry that records the issue of a decision.\<close>

definition issued_as :: "history_entry \<Rightarrow> recovery_decision \<Rightarrow> bool" where
  "issued_as e d \<longleftrightarrow> he_decision_digest e = rd_decision_digest d
     \<and> he_fingerprint e = rd_fingerprint d \<and> he_task_id e = rd_task_id d
     \<and> he_node_id e = rd_node_id d \<and> he_attempt e = rd_attempt d
     \<and> he_target_resource_id e = rd_target_resource_id d \<and> is_decision e"

definition is_outcome_of :: "history_entry \<Rightarrow> recovery_decision \<Rightarrow> bool" where
  "is_outcome_of e d \<longleftrightarrow> he_decision_digest e = rd_decision_digest d \<and> \<not> is_decision e"

subsection \<open>The in-memory store\<close>

type_synonym memory_history = "(string, history_entry list) dict"

definition mem_entries :: "memory_history \<Rightarrow> string \<Rightarrow> history_entry list" where
  "mem_entries s owner = (case dget s owner of None \<Rightarrow> [] | Some es \<Rightarrow> es)"

definition mem_contains_decision :: "memory_history \<Rightarrow> recovery_decision \<Rightarrow> bool" where
  "mem_contains_decision s d = list_ex (\<lambda>e. issued_as e d) (mem_entries s (rd_owner_id d))"

definition mem_has_outcome :: "memory_history \<Rightarrow> recovery_decision \<Rightarrow> bool" where
  "mem_has_outcome s d = list_ex (\<lambda>e. is_outcome_of e d) (mem_entries s (rd_owner_id d))"

definition mem_next :: "memory_history \<Rightarrow> string \<Rightarrow> int" where
  "mem_next s owner = int (length (mem_entries s owner)) + 1"

definition mem_append :: "memory_history \<Rightarrow> string \<Rightarrow> string + history_entry
    \<Rightarrow> (string, history_entry, memory_history) outcome" where
  "mem_append s owner entry =
     (case entry of
        Inl code \<Rightarrow> (Inl code, s)
      | Inr e \<Rightarrow> (Inr e, dset s owner (mem_entries s owner @ [e])))"

definition mem_append_decision :: "memory_history \<Rightarrow> recovery_decision \<Rightarrow> string list
    \<Rightarrow> (string, history_entry, memory_history) outcome" where
  "mem_append_decision s d failed_checks =
     (if mem_contains_decision s d then (Inl ''recovery_decision_already_issued'', s)
      else mem_append s (rd_owner_id d)
             (entry_of d (mem_next s (rd_owner_id d)) None failed_checks))"

definition mem_append_outcome :: "memory_history \<Rightarrow> recovery_decision \<Rightarrow> recovery_outcome
    \<Rightarrow> (string, history_entry, memory_history) outcome" where
  "mem_append_outcome s d r =
     (if \<not> mem_contains_decision s d then (Inl ''recovery_decision_not_issued'', s)
      else if mem_has_outcome s d then (Inl ''recovery_outcome_already_recorded'', s)
      else mem_append s (rd_owner_id d) (entry_of d (mem_next s (rd_owner_id d)) (Some r) []))"

definition mem_list :: "memory_history \<Rightarrow> string \<Rightarrow> string + history_entry list" where
  "mem_list s owner = Inr (mem_entries s owner)"

definition mem_for_fingerprint :: "memory_history \<Rightarrow> string \<Rightarrow> string \<Rightarrow> history_entry list" where
  "mem_for_fingerprint s owner fp = filter (\<lambda>e. he_fingerprint e = fp) (mem_entries s owner)"

definition memory_ops :: "memory_history history_ops" where
  "memory_ops = \<lparr>h_append_decision = mem_append_decision, h_append_outcome = mem_append_outcome,
     h_contains_decision = mem_contains_decision, h_list = mem_list\<rparr>"

subsection \<open>The SQLite store\<close>

record history_row =
  row_owner_id :: string
  row_sequence :: int
  row_task_id :: string
  row_node_id :: string
  row_attempt :: int
  row_fingerprint :: string
  row_action :: string
  row_decision_digest :: string
  row_target_resource_id :: "string option"
  row_outcome_status :: "string option"
  row_progress :: "int option"
  row_remaining_failed_checks :: string
  row_resulting_plan_digest :: "string option"
  row_resulting_candidate_digest :: "string option"
  row_resulting_resource_id :: "string option"

definition encode :: "history_entry \<Rightarrow> history_row" where
  "encode e =
     \<lparr>row_owner_id = he_owner_id e, row_sequence = he_sequence e, row_task_id = he_task_id e,
      row_node_id = he_node_id e, row_attempt = he_attempt e,
      row_fingerprint = he_fingerprint e, row_action = recovery_action_value (he_action e),
      row_decision_digest = he_decision_digest e,
      row_target_resource_id = he_target_resource_id e,
      row_outcome_status = map_option outcome_status_value (he_outcome_status e),
      row_progress = map_option of_bool (he_progress e),
      row_remaining_failed_checks =
        dumps (\<lambda>q. []) True (PList (map PStr (he_remaining_failed_checks e))),
      row_resulting_plan_digest = he_resulting_plan_digest e,
      row_resulting_candidate_digest = he_resulting_candidate_digest e,
      row_resulting_resource_id = he_resulting_resource_id e\<rparr>"

definition decode_status :: "string option \<Rightarrow> string + outcome_status option" where
  "decode_status v =
     (case v of
        None \<Rightarrow> Inr None
      | Some s \<Rightarrow> (case outcome_status_of s of
            None \<Rightarrow> Inl ''RecoveryOutcomeStatus'' | Some x \<Rightarrow> Inr (Some x)))"

definition decode :: "history_row \<Rightarrow> string + history_entry" where
  "decode r =
     (case recovery_action_of (row_action r) of
        None \<Rightarrow> Inl ''RecoveryAction''
      | Some action \<Rightarrow>
          (case decode_status (row_outcome_status r) of
             Inl code \<Rightarrow> Inl code
           | Inr status \<Rightarrow>
               (case loads_strings (row_remaining_failed_checks r) of
                  None \<Rightarrow> Inl ''JSONDecodeError''
                | Some checks \<Rightarrow> history_entry_init
                    \<lparr>he_owner_id = row_owner_id r, he_sequence = row_sequence r,
                     he_task_id = row_task_id r, he_fingerprint = row_fingerprint r,
                     he_action = action, he_decision_digest = row_decision_digest r,
                     he_outcome_status = status,
                     he_progress = map_option (\<lambda>n. n \<noteq> 0) (row_progress r),
                     he_remaining_failed_checks = checks,
                     he_resulting_plan_digest = row_resulting_plan_digest r,
                     he_resulting_candidate_digest = row_resulting_candidate_digest r,
                     he_resulting_resource_id = row_resulting_resource_id r,
                     he_node_id = row_node_id r, he_attempt = row_attempt r,
                     he_target_resource_id = row_target_resource_id r\<rparr>)))"

fun decode_all :: "history_row list \<Rightarrow> string + history_entry list" where
  "decode_all [] = Inr []"
| "decode_all (r # rs) =
     (case decode r of
        Inl code \<Rightarrow> Inl code
      | Inr e \<Rightarrow> (case decode_all rs of Inl code \<Rightarrow> Inl code | Inr es \<Rightarrow> Inr (e # es)))"

text \<open>The table is the list of its rows; \<open>pick\<close> chooses the row that a \<open>SELECT ... LIMIT 1\<close>
  without an order returns among those that match, any of them.\<close>

type_synonym history_table = "history_row list"

definition sql_matches :: "history_table \<Rightarrow> recovery_decision \<Rightarrow> history_row list" where
  "sql_matches t d = filter (\<lambda>r. row_owner_id r = rd_owner_id d
     \<and> row_decision_digest r = rd_decision_digest d \<and> row_fingerprint r = rd_fingerprint d
     \<and> row_task_id r = rd_task_id d \<and> row_node_id r = rd_node_id d
     \<and> row_attempt r = rd_attempt d \<and> row_outcome_status r = None) t"

definition sql_contains_decision :: "(history_row list \<Rightarrow> nat) \<Rightarrow> history_table
    \<Rightarrow> recovery_decision \<Rightarrow> bool" where
  "sql_contains_decision pick t d =
     (case sql_matches t d of
        [] \<Rightarrow> False
      | rows \<Rightarrow> row_target_resource_id (rows ! (pick rows mod length rows))
                  = rd_target_resource_id d)"

definition sql_has_outcome :: "history_table \<Rightarrow> recovery_decision \<Rightarrow> bool" where
  "sql_has_outcome t d = list_ex (\<lambda>r. row_owner_id r = rd_owner_id d
     \<and> row_decision_digest r = rd_decision_digest d \<and> row_outcome_status r \<noteq> None) t"

text \<open>\<open>COALESCE(MAX(sequence), 0) + 1\<close>\<close>

definition sql_next :: "history_table \<Rightarrow> string \<Rightarrow> int" where
  "sql_next t owner =
     (case map row_sequence (filter (\<lambda>r. row_owner_id r = owner) t) of
        [] \<Rightarrow> 0
      | x # xs \<Rightarrow> fold max xs x) + 1"

definition sql_insert :: "history_table \<Rightarrow> history_row \<Rightarrow> string + history_table" where
  "sql_insert t r =
     (if list_ex (\<lambda>x. row_owner_id x = row_owner_id r \<and> row_sequence x = row_sequence r) t
      then Inl ''IntegrityError'' else Inr (t @ [r]))"

definition sql_append :: "(history_row list \<Rightarrow> nat) \<Rightarrow> history_table \<Rightarrow> recovery_decision
    \<Rightarrow> recovery_outcome option \<Rightarrow> string list \<Rightarrow> (string, history_entry, history_table) outcome" where
  "sql_append pick t d outcome initial_failed_checks =
     (if outcome = None \<and> sql_contains_decision pick t d
        then (Inl ''recovery_decision_already_issued'', t)
      else if outcome \<noteq> None \<and> \<not> sql_contains_decision pick t d
        then (Inl ''recovery_decision_not_issued'', t)
      else if outcome \<noteq> None \<and> sql_has_outcome t d
        then (Inl ''recovery_outcome_already_recorded'', t)
      else (case entry_of d (sql_next t (rd_owner_id d)) outcome initial_failed_checks of
          Inl code \<Rightarrow> (Inl code, t)
        | Inr e \<Rightarrow> (case sql_insert t (encode e) of
              Inl code \<Rightarrow> (Inl code, t)
            | Inr t2 \<Rightarrow> (Inr e, t2))))"

definition sql_list :: "history_table \<Rightarrow> string \<Rightarrow> string + history_entry list" where
  "sql_list t owner =
     decode_all (sort_key row_sequence (filter (\<lambda>r. row_owner_id r = owner) t))"

definition sqlite_ops :: "(history_row list \<Rightarrow> nat) \<Rightarrow> history_table history_ops" where
  "sqlite_ops pick =
     \<lparr>h_append_decision = (\<lambda>t d checks. sql_append pick t d None checks),
      h_append_outcome = (\<lambda>t d r. sql_append pick t d (Some r) []),
      h_contains_decision = sql_contains_decision pick, h_list = sql_list\<rparr>"

subsection \<open>The contract of a history\<close>

text \<open>What a history does, on the plain lists of entries per owner.\<close>

type_synonym entries_by_owner = "string \<Rightarrow> history_entry list"

definition spec_contains :: "entries_by_owner \<Rightarrow> recovery_decision \<Rightarrow> bool" where
  "spec_contains es d \<longleftrightarrow> (\<exists>e \<in> set (es (rd_owner_id d)). issued_as e d)"

definition spec_append :: "entries_by_owner \<Rightarrow> recovery_decision \<Rightarrow> recovery_outcome option
    \<Rightarrow> string list \<Rightarrow> string + history_entry" where
  "spec_append es d outcome checks =
     (if outcome = None \<and> spec_contains es d then Inl ''recovery_decision_already_issued''
      else if outcome \<noteq> None \<and> \<not> spec_contains es d then Inl ''recovery_decision_not_issued''
      else if outcome \<noteq> None \<and> (\<exists>e \<in> set (es (rd_owner_id d)). is_outcome_of e d)
        then Inl ''recovery_outcome_already_recorded''
      else entry_of d (int (length (es (rd_owner_id d))) + 1) outcome checks)"

definition spec_after :: "entries_by_owner \<Rightarrow> recovery_decision \<Rightarrow> string + history_entry
    \<Rightarrow> entries_by_owner" where
  "spec_after es d r = (case r of Inl _ \<Rightarrow> es
     | Inr e \<Rightarrow> es(rd_owner_id d := es (rd_owner_id d) @ [e]))"

text \<open>
  \<open>fits\<close> is what a history may demand of a decision it is asked about: nothing in memory; in
  SQLite that a recorded decision of the same digest has the same target, which the digest
  guarantees up to collisions.
\<close>

locale recovery_history =
  fixes ops :: "'s history_ops"
    and inv :: "'s \<Rightarrow> bool"
    and entries :: "'s \<Rightarrow> string \<Rightarrow> history_entry list"
    and fits :: "'s \<Rightarrow> recovery_decision \<Rightarrow> bool"
  assumes list_law: "inv s \<Longrightarrow> h_list ops s owner = Inr (entries s owner)"
    and contains_law: "inv s \<Longrightarrow> fits s d \<Longrightarrow> h_contains_decision ops s d \<longleftrightarrow> spec_contains (entries s) d"
    and decision_law: "inv s \<Longrightarrow> fits s d \<Longrightarrow> h_append_decision ops s d checks = (r, t) \<Longrightarrow>
      r = spec_append (entries s) d None checks \<and> inv t \<and> entries t = spec_after (entries s) d r"
    and outcome_law: "inv s \<Longrightarrow> fits s d \<Longrightarrow> h_append_outcome ops s d res = (r, t) \<Longrightarrow>
      r = spec_append (entries s) d (Some res) [] \<and> inv t \<and> entries t = spec_after (entries s) d r"

subsection \<open>The in-memory store keeps the contract\<close>

lemma mem_append_entries:
  "mem_append s owner r = (r2, t) \<Longrightarrow> r2 = r \<and>
     mem_entries t = (case r of Inl _ \<Rightarrow> mem_entries s
       | Inr e \<Rightarrow> (mem_entries s)(owner := mem_entries s owner @ [e]))"
  by (auto simp: mem_append_def mem_entries_def fun_eq_iff split: sum.splits)

interpretation memory: recovery_history memory_ops "\<lambda>s. True" mem_entries "\<lambda>s d. True"
  by unfold_locales
    (auto simp: memory_ops_def mem_list_def mem_contains_decision_def mem_has_outcome_def
      spec_contains_def list_ex_iff mem_append_decision_def mem_append_outcome_def spec_append_def
      spec_after_def mem_next_def dest!: mem_append_entries split: if_splits sum.splits)

subsection \<open>Rows and entries\<close>

definition entry_ok :: "history_entry \<Rightarrow> bool" where
  "entry_ok e \<longleftrightarrow> history_entry_init e = Inr e"

lemma history_entry_init_ok: "history_entry_init e = Inr e2 \<Longrightarrow> entry_ok e2"
  by (auto simp: entry_ok_def history_entry_init_def validated_Inr
      simp del: first_error.simps dest: normalize_strings_idem[where code' = "''remaining_failed_check_invalid''"]
      split: option.splits sum.splits)

lemma decode_encode:
  assumes "entry_ok e"
  shows "decode (encode e) = Inr e"
proof -
  have "map_option (\<lambda>n. n \<noteq> (0 :: int)) (map_option of_bool b) = b" for b
    by (cases b) auto
  moreover have "decode_status (map_option outcome_status_value st) = Inr st" for st
    by (cases st) (auto simp: decode_status_def)
  ultimately show ?thesis
    using assms by (cases e) (simp add: decode_def encode_def loads_dumps entry_ok_def del: dumps.simps)
qed

lemma encode_fields [simp]:
  "row_owner_id (encode e) = he_owner_id e" "row_sequence (encode e) = he_sequence e"
  "row_decision_digest (encode e) = he_decision_digest e"
  "row_fingerprint (encode e) = he_fingerprint e" "row_task_id (encode e) = he_task_id e"
  "row_node_id (encode e) = he_node_id e" "row_attempt (encode e) = he_attempt e"
  "row_target_resource_id (encode e) = he_target_resource_id e"
  "row_outcome_status (encode e) = None \<longleftrightarrow> is_decision e"
  "(\<exists>y. row_outcome_status (encode e) = Some y) \<longleftrightarrow> \<not> is_decision e"
  by (simp_all add: encode_def is_decision_def)

lemma decode_all_encode: "list_all entry_ok es \<Longrightarrow> decode_all (map encode es) = Inr es"
  by (induction es) (simp_all add: decode_encode)

subsection \<open>The SQLite store keeps the contract\<close>

text \<open>A table holds the rows of valid entries, numbered 1, 2, ... per owner in table order.\<close>

definition table_entries :: "history_table \<Rightarrow> history_entry list" where
  "table_entries t = map (\<lambda>r. projr (decode r)) t"

definition sql_entries :: "history_table \<Rightarrow> string \<Rightarrow> history_entry list" where
  "sql_entries t owner = filter (\<lambda>e. he_owner_id e = owner) (table_entries t)"

definition sql_inv :: "history_table \<Rightarrow> bool" where
  "sql_inv t \<longleftrightarrow> (\<exists>es. t = map encode es \<and> list_all entry_ok es
     \<and> (\<forall>owner. map he_sequence (filter (\<lambda>e. he_owner_id e = owner) es)
            = map (\<lambda>i. int i + 1) [0..<length (filter (\<lambda>e. he_owner_id e = owner) es)]))"

definition entry_target :: "history_entry \<Rightarrow> recovery_decision \<Rightarrow> bool" where
  "entry_target e d \<longleftrightarrow> \<not> is_decision e \<or> he_decision_digest e \<noteq> rd_decision_digest d
     \<or> he_target_resource_id e = rd_target_resource_id d"

definition sql_fits :: "history_table \<Rightarrow> recovery_decision \<Rightarrow> bool" where
  "sql_fits t d \<longleftrightarrow> (\<forall>e \<in> set (sql_entries t (rd_owner_id d)). entry_target e d)"

lemma table_entries_encode: "list_all entry_ok es \<Longrightarrow> table_entries (map encode es) = es"
  by (induction es) (simp_all add: table_entries_def decode_encode)

lemma sql_inv_entries:
  assumes "sql_inv t"
  shows "t = map encode (table_entries t)" "list_all entry_ok (table_entries t)"
    "map he_sequence (sql_entries t owner) = map (\<lambda>i. int i + 1) [0..<length (sql_entries t owner)]"
  using assms by (auto simp: sql_inv_def sql_entries_def table_entries_encode)

lemma filter_rows:
  "filter (\<lambda>r. row_owner_id r = owner) (map encode es)
     = map encode (filter (\<lambda>e. he_owner_id e = owner) es)"
  by (simp add: filter_map comp_def)

lemma sql_rows:
  "sql_inv t \<Longrightarrow> filter (\<lambda>r. row_owner_id r = owner) t = map encode (sql_entries t owner)"
  using sql_inv_entries(1) filter_rows unfolding sql_entries_def by metis

lemma sorted_numbers: "sorted (map (\<lambda>i. int i + 1) [0..<n])"
  by (simp add: sorted_map)

lemma sql_list_entries:
  assumes "sql_inv t"
  shows "sql_list t owner = Inr (sql_entries t owner)"
proof -
  have "sorted (map row_sequence (map encode (sql_entries t owner)))"
    using sql_inv_entries(3)[OF assms, of owner] sorted_numbers by (simp add: comp_def)
  then have "sort_key row_sequence (map encode (sql_entries t owner)) = map encode (sql_entries t owner)"
    by (rule sort_key_id_if_sorted)
  moreover have "list_all entry_ok (sql_entries t owner)"
    using sql_inv_entries(2)[OF assms] by (simp add: sql_entries_def list_all_iff)
  ultimately show ?thesis
    using assms by (simp add: sql_list_def sql_rows decode_all_encode)
qed

lemma sql_matches_entries:
  assumes "sql_inv t"
  shows "sql_matches t d = map encode (filter (\<lambda>e. he_decision_digest e = rd_decision_digest d
     \<and> he_fingerprint e = rd_fingerprint d \<and> he_task_id e = rd_task_id d
     \<and> he_node_id e = rd_node_id d \<and> he_attempt e = rd_attempt d \<and> is_decision e)
     (sql_entries t (rd_owner_id d)))"
proof -
  have "sql_matches t d = filter (\<lambda>r. row_decision_digest r = rd_decision_digest d
     \<and> row_fingerprint r = rd_fingerprint d \<and> row_task_id r = rd_task_id d
     \<and> row_node_id r = rd_node_id d \<and> row_attempt r = rd_attempt d \<and> row_outcome_status r = None)
     (filter (\<lambda>r. row_owner_id r = rd_owner_id d) t)"
    by (simp add: sql_matches_def conj_commute)
  then show ?thesis by (simp add: sql_rows[OF assms] filter_map comp_def)
qed

lemma sql_contains_entries:
  assumes "sql_inv t" "sql_fits t d"
  shows "sql_contains_decision pick t d \<longleftrightarrow> spec_contains (sql_entries t) d"
proof -
  let ?rows = "sql_matches t d"
  have target: "row_target_resource_id r = rd_target_resource_id d" if "r \<in> set ?rows" for r
    using that assms(2) by (auto simp: sql_matches_entries[OF assms(1)] sql_fits_def entry_target_def)
  have "?rows \<noteq> [] \<longleftrightarrow> spec_contains (sql_entries t) d"
    using assms(2)
    by (auto simp: sql_matches_entries[OF assms(1)] spec_contains_def issued_as_def sql_fits_def
        filter_empty_conv entry_target_def)
  moreover have "sql_contains_decision pick t d \<longleftrightarrow> ?rows \<noteq> []"
  proof (cases ?rows)
    case (Cons r rs)
    then have "?rows ! (pick ?rows mod length ?rows) \<in> set ?rows"
      by (intro nth_mem) simp
    from target[OF this] show ?thesis by (simp add: sql_contains_decision_def Cons)
  qed (simp add: sql_contains_decision_def)
  ultimately show ?thesis by blast
qed

lemma sql_has_outcome_entries:
  assumes "sql_inv t"
  shows "sql_has_outcome t d \<longleftrightarrow> (\<exists>e \<in> set (sql_entries t (rd_owner_id d)). is_outcome_of e d)"
proof -
  have "sql_has_outcome (map encode es) d \<longleftrightarrow>
      (\<exists>e \<in> set (filter (\<lambda>e. he_owner_id e = rd_owner_id d) es). is_outcome_of e d)" for es
    by (auto simp: sql_has_outcome_def list_ex_iff is_outcome_of_def simp flip: not_None_eq)
  from this[of "table_entries t"] show ?thesis
    using sql_inv_entries(1)[OF assms] by (simp add: sql_entries_def)
qed

lemma fold_max_numbers: "fold max (map (\<lambda>i. int i + 1) [m..<n]) (int m) = int (max m n)"
proof (induction "n - m" arbitrary: m)
  case (Suc k)
  then have "[m..<n] = m # [Suc m..<n]" by (simp add: upt_conv_Cons)
  moreover have "fold max (map (\<lambda>i. int i + 1) [Suc m..<n]) (int (Suc m)) = int (max (Suc m) n)"
    using Suc.hyps by (intro Suc.hyps(1)) simp
  ultimately show ?case using Suc.hyps by (simp add: max_def add.commute)
qed simp

lemma sql_next_entries:
  assumes "sql_inv t"
  shows "sql_next t owner = int (length (sql_entries t owner)) + 1"
proof -
  let ?n = "length (sql_entries t owner)"
  have "map row_sequence (map encode (sql_entries t owner)) = map (\<lambda>i. int i + 1) [0..<?n]"
    using sql_inv_entries(3)[OF assms, of owner] by (simp add: comp_def)
  moreover have "?n \<noteq> 0 \<Longrightarrow> [0..<?n] = 0 # [1..<?n]" by (simp add: upt_conv_Cons)
  ultimately show ?thesis
    using fold_max_numbers[of 1 ?n] by (cases "?n = 0") (simp_all add: sql_next_def sql_rows[OF assms])
qed

lemma entry_of_ok: "entry_of d seq outcome checks = Inr e \<Longrightarrow> entry_ok e"
  unfolding entry_of_def by (rule history_entry_init_ok)

lemma entry_of_fields:
  "entry_of d seq outcome checks = Inr e \<Longrightarrow> he_owner_id e = rd_owner_id d \<and> he_sequence e = seq
     \<and> he_decision_digest e = rd_decision_digest d \<and> he_fingerprint e = rd_fingerprint d
     \<and> he_task_id e = rd_task_id d \<and> he_node_id e = rd_node_id d \<and> he_attempt e = rd_attempt d
     \<and> he_action e = rd_action d \<and> he_target_resource_id e = rd_target_resource_id d
     \<and> he_outcome_status e = map_option ro_status outcome
     \<and> he_progress e = map_option ro_progress outcome"
  by (auto simp: entry_of_def history_entry_init_def validated_Inr simp del: first_error.simps
      split: option.splits sum.splits)

lemma sql_append_row:
  assumes "sql_inv t" "entry_ok e" "he_sequence e = int (length (sql_entries t (he_owner_id e))) + 1"
  shows "sql_insert t (encode e) = Inr (t @ [encode e])" "sql_inv (t @ [encode e])"
    "sql_entries (t @ [encode e]) = (sql_entries t)(he_owner_id e := sql_entries t (he_owner_id e) @ [e])"
proof -
  let ?es = "table_entries t" and ?o = "he_owner_id e"
  have t: "t = map encode ?es" "list_all entry_ok ?es" using sql_inv_entries[OF assms(1)] by auto
  have seqs: "map he_sequence (sql_entries t x) = map (\<lambda>i. int i + 1) [0..<length (sql_entries t x)]" for x
    using sql_inv_entries(3)[OF assms(1)] .
  have "\<not> (\<exists>x \<in> set ?es. he_owner_id x = ?o \<and> he_sequence x = he_sequence e)"
  proof
    assume "\<exists>x \<in> set ?es. he_owner_id x = ?o \<and> he_sequence x = he_sequence e"
    then have "he_sequence e \<in> set (map he_sequence (sql_entries t ?o))"
      by (auto simp: sql_entries_def intro: rev_image_eqI)
    then show False using assms(3) by (auto simp: seqs)
  qed
  then have "\<not> list_ex (\<lambda>x. row_owner_id x = row_owner_id (encode e)
      \<and> row_sequence x = row_sequence (encode e)) (map encode ?es)"
    by (auto simp: list_ex_iff)
  then show "sql_insert t (encode e) = Inr (t @ [encode e])"
    using t(1) by (simp add: sql_insert_def)
  have app: "table_entries (t @ [encode e]) = ?es @ [e]"
    using assms(2) by (simp add: table_entries_def decode_encode)
  then show "sql_entries (t @ [encode e]) = (sql_entries t)(?o := sql_entries t ?o @ [e])"
    by (auto simp: sql_entries_def fun_eq_iff)
  show "sql_inv (t @ [encode e])"
    unfolding sql_inv_def
  proof (intro exI[of _ "?es @ [e]"] conjI allI)
    show "t @ [encode e] = map encode (?es @ [e])" using t(1) by simp
    show "list_all entry_ok (?es @ [e])" using t(2) assms(2) by simp
    fix x
    show "map he_sequence (filter (\<lambda>y. he_owner_id y = x) (?es @ [e]))
      = map (\<lambda>i. int i + 1) [0..<length (filter (\<lambda>y. he_owner_id y = x) (?es @ [e]))]"
      using seqs[of x] assms(3) by (auto simp: sql_entries_def)
  qed
qed

lemma sql_append_spec:
  assumes "sql_inv t" "sql_fits t d" "sql_append pick t d outcome checks = (r, t2)"
  shows "r = spec_append (sql_entries t) d outcome checks \<and> sql_inv t2
    \<and> sql_entries t2 = spec_after (sql_entries t) d r"
proof (cases "spec_append (sql_entries t) d outcome checks")
  case (Inl code)
  then show ?thesis
    using assms
    by (auto simp: sql_append_def spec_append_def spec_after_def sql_contains_entries
        sql_has_outcome_entries sql_next_entries split: if_splits sum.splits)
next
  case (Inr e)
  then have e: "entry_of d (sql_next t (rd_owner_id d)) outcome checks = Inr e"
    by (auto simp: spec_append_def sql_next_entries[OF assms(1)] split: if_splits)
  note fields = entry_of_fields[OF e]
  have row: "sql_insert t (encode e) = Inr (t @ [encode e])" "sql_inv (t @ [encode e])"
    "sql_entries (t @ [encode e]) = (sql_entries t)(rd_owner_id d := sql_entries t (rd_owner_id d) @ [e])"
    using sql_append_row[OF assms(1), of e] entry_of_ok[OF e] fields by (simp_all add: sql_next_entries[OF assms(1)])
  have "sql_append pick t d outcome checks = (Inr e, t @ [encode e])"
    using Inr e row(1) assms(1,2)
    by (auto simp: sql_append_def spec_append_def sql_contains_entries sql_has_outcome_entries
        split: if_splits)
  then show ?thesis
    using assms(3) Inr row(2,3) by (simp add: spec_after_def)
qed

interpretation sqlite: recovery_history "sqlite_ops pick" sql_inv sql_entries sql_fits for pick
  by unfold_locales
    (simp_all add: sqlite_ops_def sql_list_entries sql_contains_entries sql_append_spec)

subsection \<open>The two stores agree\<close>

datatype history_op = AppendDecision recovery_decision "string list"
  | AppendOutcome recovery_decision recovery_outcome

fun history_step :: "'s history_ops \<Rightarrow> 's \<Rightarrow> history_op \<Rightarrow> (string, history_entry, 's) outcome" where
  "history_step ops s (AppendDecision d checks) = h_append_decision ops s d checks"
| "history_step ops s (AppendOutcome d r) = h_append_outcome ops s d r"

fun history_answers :: "'s history_ops \<Rightarrow> 's \<Rightarrow> history_op list \<Rightarrow> (string + history_entry) list" where
  "history_answers ops s [] = []"
| "history_answers ops s (x # xs) =
     fst (history_step ops s x) # history_answers ops (snd (history_step ops s x)) xs"

fun op_decision :: "history_op \<Rightarrow> recovery_decision" where
  "op_decision (AppendDecision d checks) = d"
| "op_decision (AppendOutcome d r) = d"

fun spec_step :: "entries_by_owner \<Rightarrow> history_op \<Rightarrow> string + history_entry" where
  "spec_step es (AppendDecision d checks) = spec_append es d None checks"
| "spec_step es (AppendOutcome d r) = spec_append es d (Some r) []"

fun spec_answers :: "entries_by_owner \<Rightarrow> history_op list \<Rightarrow> (string + history_entry) list" where
  "spec_answers es [] = []"
| "spec_answers es (x # xs) =
     spec_step es x # spec_answers (spec_after es (op_decision x) (spec_step es x)) xs"

text \<open>The digest of a decision determines its target among the recorded decisions and \<open>ds\<close>.\<close>

definition same_target :: "recovery_decision \<Rightarrow> recovery_decision \<Rightarrow> bool" where
  "same_target d d2 \<longleftrightarrow> rd_decision_digest d \<noteq> rd_decision_digest d2
     \<or> rd_target_resource_id d = rd_target_resource_id d2"

definition targets_bound :: "entries_by_owner \<Rightarrow> recovery_decision list \<Rightarrow> bool" where
  "targets_bound es ds \<longleftrightarrow> (\<forall>d \<in> set ds. (\<forall>e \<in> set (es (rd_owner_id d)). entry_target e d)
     \<and> (\<forall>d2 \<in> set ds. same_target d2 d))"

lemma spec_step_entry:
  "spec_step es x = Inr e \<Longrightarrow> he_decision_digest e = rd_decision_digest (op_decision x)
     \<and> he_target_resource_id e = rd_target_resource_id (op_decision x)"
  by (cases x) (auto simp: spec_append_def dest!: entry_of_fields split: if_splits)

lemma targets_bound_step:
  assumes "targets_bound es (op_decision x # ds)"
  shows "targets_bound (spec_after es (op_decision x) (spec_step es x)) ds"
proof (cases "spec_step es x")
  case (Inr e)
  then have "entry_target e d" if "same_target (op_decision x) d" for d
    using spec_step_entry[OF Inr] that by (auto simp: entry_target_def same_target_def)
  then show ?thesis using assms by (auto simp: targets_bound_def spec_after_def Inr)
qed (use assms in \<open>simp add: targets_bound_def spec_after_def\<close>)

context recovery_history
begin

lemma step_spec:
  assumes "inv s" "fits s (op_decision x)"
  shows "fst (history_step ops s x) = spec_step (entries s) x \<and> inv (snd (history_step ops s x))
    \<and> entries (snd (history_step ops s x))
        = spec_after (entries s) (op_decision x) (spec_step (entries s) x)"
proof (cases x)
  case (AppendDecision d checks)
  obtain r t where "h_append_decision ops s d checks = (r, t)" by fastforce
  with decision_law[OF _ _ this] assms show ?thesis by (simp add: AppendDecision)
next
  case (AppendOutcome d res)
  obtain r t where "h_append_outcome ops s d res = (r, t)" by fastforce
  with outcome_law[OF _ _ this] assms show ?thesis by (simp add: AppendOutcome)
qed

lemma answers_spec:
  assumes "inv s" "targets_bound (entries s) (map op_decision xs)"
    and fits: "\<And>s d. inv s \<Longrightarrow> targets_bound (entries s) [d] \<Longrightarrow> fits s d"
  shows "history_answers ops s xs = spec_answers (entries s) xs"
  using assms(1,2)
proof (induction xs arbitrary: s)
  case (Cons x xs)
  have "fits s (op_decision x)"
    using Cons.prems by (intro fits) (auto simp: targets_bound_def)
  note step = step_spec[OF Cons.prems(1) this]
  have "targets_bound (entries (snd (history_step ops s x))) (map op_decision xs)"
    using targets_bound_step Cons.prems(2) step by simp
  then show ?case using Cons.IH step by simp
qed simp

end

lemma empty_entries: "mem_entries [] = (\<lambda>owner. [])" "sql_entries [] = (\<lambda>owner. [])"
  by (simp_all add: fun_eq_iff mem_entries_def sql_entries_def table_entries_def)


definition demo_decision :: recovery_decision where
  "demo_decision = \<lparr>rd_schema_version = schema_version, rd_owner_id = ''ann'', rd_task_id = ''job'',
     rd_dag_run_id = ''job:job'', rd_node_id = ''executing'', rd_source_revision = None,
     rd_plan_digest = None, rd_candidate_digest = None, rd_contract_digest = None,
     rd_execution_id = None, rd_lease_id = None, rd_resource_id = None,
     rd_target_resource_id = None, rd_attempt = 1, rd_failure_class = FC_VERIFICATION,
     rd_failure_code = TEST_FAILURE, rd_fingerprint = replicate 64 (CHR ''c''),
     rd_disposition = REPLAN_REQUIRED, rd_action = REPAIR_CANDIDATE, rd_allowed = True,
     rd_requires_reauthorization = False, rd_requires_fresh_lease = False,
     rd_reason_codes = [''test_failure''], rd_decision_digest = replicate 64 (CHR ''d'')\<rparr>"


text \<open>C35. A history row is read back as it was written: encoding a valid entry for the SQLite
  table and decoding the row gives the entry again, its failed checks through their JSON text.\<close>

theorem history_row_round_trip:
  assumes "entry_ok e"
  shows "decode (encode e) = Inr e"
  using decode_encode[OF assms] .

theorem history_row_round_trip_witness:
  "decode (encode (projr (entry_of demo_decision 1 None [''a\"b'', ''unit''])))
     = Inr (projr (entry_of demo_decision 1 None [''a\"b'', ''unit'']))"
  by (rule history_row_round_trip) (unfold entry_ok_def, code_simp)

end
