(* ===== verification/RecoveryController.thy ===== *)
theory RecoveryController
  imports RecoveryHistory
begin

section \<open>Failure recovery: the controller\<close>

text \<open>
  \<open>controller.py\<close>: \<open>decide\<close>, \<open>record_outcome\<close>, \<open>dag_handoff\<close> and \<open>signal_from_exception\<close> over
  any history (a value of \<open>history_ops\<close>). \<open>decision_for\<close> is the part of \<open>decide\<close> between
  reading the history and appending to it. A state of the controller is the state of its
  history; the budgets are fixed when it is made.
\<close>

subsection \<open>Signals from exceptions\<close>

definition exception_codes :: "(string, failure_code \<times> bool) dict" where
  "exception_codes =
     [(''agent_deadline_exceeded'', (TIMEOUT, True)),
      (''agent_round_limit'', (RESOURCE_EXHAUSTION, False)),
      (''agent_tool_capacity'', (RESOURCE_EXHAUSTION, False)),
      (''agent_protocol_error'', (COMMAND_FAILED, False)),
      (''admission_unavailable'', (RUNNER_UNAVAILABLE, True)),
      (''stale_lease'', (LEASE_REJECTED, False)),
      (''patch_reconciliation_required'', (RECOVERY_EVIDENCE_INVALID, False))]"

text \<open>What the controller looks at in an exception: its \<open>code\<close> attribute when that is a string,
  the name of its type, and whether it is a \<open>TimeoutError\<close>.\<close>

record exception_view =
  xv_code :: "string option"
  xv_type_name :: string
  xv_is_timeout :: bool

definition simple_signal :: "failure_code \<Rightarrow> string \<Rightarrow> bool \<Rightarrow> bool \<Rightarrow> string + failure_signal" where
  "simple_signal code type_name transient integrity = failure_signal_init (\<lambda>es. es)
     (failure_code_value code) type_name [] [] [] transient False integrity False []"

definition signal_from_exception :: "exception_view \<Rightarrow> string + failure_signal" where
  "signal_from_exception x =
     (case (case xv_code x of None \<Rightarrow> None | Some raw \<Rightarrow> dget exception_codes raw) of
        Some (code, transient) \<Rightarrow>
          simple_signal code (xv_type_name x) transient (code = RECOVERY_EVIDENCE_INVALID)
      | None \<Rightarrow>
          if xv_is_timeout x then simple_signal TIMEOUT (xv_type_name x) True False
          else simple_signal UNKNOWN_FAILURE (xv_type_name x) False False)"

subsection \<open>Deciding\<close>

definition decision_for :: "(string \<Rightarrow> string) \<Rightarrow> (rat \<Rightarrow> string) \<Rightarrow> recovery_budgets
    \<Rightarrow> failure_signal \<Rightarrow> recovery_context \<Rightarrow> resource_decision option \<Rightarrow> history_entry list
    \<Rightarrow> string + recovery_decision" where
  "decision_for sha fr budgets signal c resource history =
     (case classify signal c of
        Inl code \<Rightarrow> Inl code
      | Inr cf \<Rightarrow>
          let fp = failure_fingerprint sha fr signal c;
              pd = policy_decide cf signal c history budgets fp resource;
              target = (if pd_allowed pd \<and> pd_action pd = REROUTE_RESOURCE
                        then map_option rr_resource_id resource else None);
              reasons = sorted_set (pd_reason_codes pd);
              material = decision_material c target fp (cf_failure_class cf) (cf_code cf) pd reasons
          in recovery_decision_init
               \<lparr>rd_schema_version = schema_version, rd_owner_id = rc_owner_id c,
                rd_task_id = rc_task_id c, rd_dag_run_id = rc_dag_run_id c,
                rd_node_id = rc_node_id c, rd_source_revision = rc_source_revision c,
                rd_plan_digest = rc_plan_digest c, rd_candidate_digest = rc_candidate_digest c,
                rd_contract_digest = rc_contract_digest c, rd_execution_id = rc_execution_id c,
                rd_lease_id = rc_lease_id c, rd_resource_id = rc_resource_id c,
                rd_target_resource_id = target, rd_attempt = rc_attempt c,
                rd_failure_class = cf_failure_class cf, rd_failure_code = cf_code cf,
                rd_fingerprint = fp, rd_disposition = pd_disposition pd,
                rd_action = pd_action pd, rd_allowed = pd_allowed pd,
                rd_requires_reauthorization = pd_requires_reauthorization pd,
                rd_requires_fresh_lease = pd_requires_fresh_lease pd,
                rd_reason_codes = reasons,
                rd_decision_digest = decision_digest sha fr material\<rparr>)"

definition controller_decide :: "(string \<Rightarrow> string) \<Rightarrow> (rat \<Rightarrow> string) \<Rightarrow> 's history_ops
    \<Rightarrow> recovery_budgets \<Rightarrow> 's \<Rightarrow> failure_signal \<Rightarrow> recovery_context \<Rightarrow> resource_decision option
    \<Rightarrow> (string, recovery_decision, 's) outcome" where
  "controller_decide sha fr ops budgets s signal c resource =
     (case h_list ops s (rc_owner_id c) of
        Inl code \<Rightarrow> (Inl code, s)
      | Inr history \<Rightarrow>
          (case decision_for sha fr budgets signal c resource history of
             Inl code \<Rightarrow> (Inl code, s)
           | Inr d \<Rightarrow> bind_op (h_append_decision ops s d (fs_failed_checks signal))
                         (\<lambda>_ t. (Inr d, t))))"

subsection \<open>Recording an outcome\<close>

definition require_issued :: "(string \<Rightarrow> string) \<Rightarrow> (rat \<Rightarrow> string) \<Rightarrow> 's history_ops \<Rightarrow> 's
    \<Rightarrow> recovery_decision \<Rightarrow> string + history_entry" where
  "require_issued sha fr ops s d =
     (if \<not> h_contains_decision ops s d then Inl ''recovery_decision_not_issued''
      else if decision_digest sha fr (material_from_decision d) \<noteq> rd_decision_digest d
        then Inl ''recovery_decision_digest_mismatch''
      else (case h_list ops s (rd_owner_id d) of
          Inl code \<Rightarrow> Inl code
        | Inr history \<Rightarrow>
            (case find (\<lambda>e. issued_as e d) history of
               None \<Rightarrow> Inl ''recovery_decision_not_issued''
             | Some e \<Rightarrow> Inr e)))"

definition objective_progress :: "recovery_decision \<Rightarrow> history_entry \<Rightarrow> recovery_outcome \<Rightarrow> bool" where
  "objective_progress d issued r \<longleftrightarrow>
     (let initial_checks = set (he_remaining_failed_checks issued);
          remaining_checks = set (ro_remaining_failed_checks r)
      in (initial_checks \<noteq> {} \<and> remaining_checks \<noteq> {} \<and> remaining_checks \<subset> initial_checks)
         \<or> (ro_resulting_plan_digest r \<noteq> None \<and> ro_resulting_plan_digest r \<noteq> rd_plan_digest d)
         \<or> (ro_resulting_candidate_digest r \<noteq> None
             \<and> ro_resulting_candidate_digest r \<noteq> rd_candidate_digest d)
         \<or> (rd_action d = REROUTE_RESOURCE \<and> rd_target_resource_id d \<noteq> None
             \<and> ro_resulting_resource_id r = rd_target_resource_id d))"

definition normalize_progress :: "recovery_decision \<Rightarrow> history_entry \<Rightarrow> recovery_outcome
    \<Rightarrow> string + recovery_outcome" where
  "normalize_progress d issued r =
     (if ro_status r = OUTCOME_SUCCEEDED then Inr r
      else if ro_progress r \<and> \<not> objective_progress d issued r
        then Inl ''unsupported_recovery_progress''
      else if objective_progress d issued r \<and> \<not> ro_progress r
        then recovery_outcome_init (r\<lparr>ro_progress := True\<rparr>)
      else Inr r)"

definition binding_matches :: "recovery_decision \<Rightarrow> recovery_context \<Rightarrow> bool" where
  "binding_matches d c \<longleftrightarrow>
     rd_owner_id d = rc_owner_id c \<and> rd_task_id d = rc_task_id c
     \<and> rd_dag_run_id d = rc_dag_run_id c \<and> rd_node_id d = rc_node_id c
     \<and> rd_source_revision d = rc_source_revision c \<and> rd_plan_digest d = rc_plan_digest c
     \<and> rd_candidate_digest d = rc_candidate_digest c
     \<and> rd_contract_digest d = rc_contract_digest c \<and> rd_execution_id d = rc_execution_id c
     \<and> rd_lease_id d = rc_lease_id c \<and> rd_resource_id d = rc_resource_id c
     \<and> rd_attempt d = rc_attempt c"

definition outcome_resource_error :: "recovery_decision \<Rightarrow> recovery_outcome \<Rightarrow> string option" where
  "outcome_resource_error d r =
     (if rd_target_resource_id d \<noteq> None then
        (if ro_resulting_resource_id r \<noteq> None
            \<and> ro_resulting_resource_id r \<noteq> rd_target_resource_id d
           then Some ''recovery_outcome_resource_mismatch''
         else if ro_status r = OUTCOME_SUCCEEDED
                 \<and> ro_resulting_resource_id r \<noteq> rd_target_resource_id d
           then Some ''successful_reroute_target_evidence_required''
         else None)
      else if ro_resulting_resource_id r \<noteq> None \<and> ro_resulting_resource_id r \<noteq> rd_resource_id d
        then Some ''recovery_outcome_resource_not_authorized''
      else None)"

definition controller_record_outcome :: "(string \<Rightarrow> string) \<Rightarrow> (rat \<Rightarrow> string) \<Rightarrow> 's history_ops
    \<Rightarrow> 's \<Rightarrow> recovery_decision \<Rightarrow> recovery_context \<Rightarrow> recovery_outcome
    \<Rightarrow> (string, history_entry, 's) outcome" where
  "controller_record_outcome sha fr ops s d c r =
     (if \<not> binding_matches d c then (Inl ''recovery_decision_binding_mismatch'', s)
      else (case require_issued sha fr ops s d of
          Inl code \<Rightarrow> (Inl code, s)
        | Inr issued \<Rightarrow>
            (case outcome_resource_error d r of
               Some code \<Rightarrow> (Inl code, s)
             | None \<Rightarrow>
                 (case normalize_progress d issued r of
                    Inl code \<Rightarrow> (Inl code, s)
                  | Inr normalized \<Rightarrow> h_append_outcome ops s d normalized))))"

definition dag_handoff :: "(string \<Rightarrow> string) \<Rightarrow> (rat \<Rightarrow> string) \<Rightarrow> 's history_ops \<Rightarrow> 's
    \<Rightarrow> recovery_decision \<Rightarrow> string + pydict" where
  "dag_handoff sha fr ops s d =
     (case require_issued sha fr ops s d of
        Inl code \<Rightarrow> Inl code
      | Inr _ \<Rightarrow> Inr
          [(''schemaVersion'', PStr handoff_schema_version),
           (''decisionDigest'', PStr (rd_decision_digest d)), (''taskId'', PStr (rd_task_id d)),
           (''dagRunId'', PStr (rd_dag_run_id d)), (''nodeId'', PStr (rd_node_id d)),
           (''sourceRevision'', opt_str (rd_source_revision d)),
           (''planDigest'', opt_str (rd_plan_digest d)),
           (''candidateDigest'', opt_str (rd_candidate_digest d)),
           (''contractDigest'', opt_str (rd_contract_digest d)),
           (''failureFingerprint'', PStr (rd_fingerprint d)),
           (''failureCode'', PStr (failure_code_value (rd_failure_code d))),
           (''disposition'', PStr (recovery_disposition_value (rd_disposition d))),
           (''action'', PStr (recovery_action_value (rd_action d))),
           (''resourceId'', opt_str (rd_resource_id d)),
           (''targetResourceId'', opt_str (rd_target_resource_id d)),
           (''allowed'', PBool (rd_allowed d)),
           (''requiresReauthorization'', PBool (rd_requires_reauthorization d)),
           (''requiresFreshLease'', PBool (rd_requires_fresh_lease d)),
           (''reasonCodes'', strs (rd_reason_codes d)), (''mayExecute'', PBool False),
           (''mayAuthorize'', PBool False), (''maySelectProvider'', PBool False)])"

subsection \<open>Every decision is well formed\<close>

lemma valid_policy_reasons:
  "list_all valid_reason
     [''new_authority_requires_approval'', ''missing_required_approval'',
      ''recovery_strategy_no_progress'', ''fingerprint_retry_budget_exhausted'',
      ''partial_mutation_requires_rollback'', ''alternate_resource_unavailable'',
      ''alternate_resource_not_distinct'', ''alternate_resource_not_qualified'',
      ''alternate_resource_unhealthy'', ''alternate_resource_unauthorized'',
      ''alternate_resource_cost_not_approved'', ''alternate_resource_lease_not_fresh'',
      ''alternate_resource_source_mismatch'']"
  by code_simp

lemma valid_budget_reason: "valid_reason (budget_reason a)"
  by (cases a; simp; code_simp)

lemma valid_resource_reason: "validate_resource res cur = Some reason \<Longrightarrow> valid_reason reason"
  using valid_policy_reasons by (auto simp: validate_resource_def split: option.splits if_splits)

lemma within_budgets_reasons:
  "valid_reason_codes (pd_reason_codes base) \<Longrightarrow>
     valid_reason_codes (pd_reason_codes (within_budgets base c history budgets fp))"
  using valid_policy_reasons valid_budget_reason
  by (simp add: within_budgets_def Let_def valid_reason_codes_def)

lemma policy_reasons:
  assumes "valid_reason_codes (cf_reason_codes cf)"
  shows "valid_reason_codes (pd_reason_codes (policy_decide cf s c history budgets fp res))"
proof -
  have base: "valid_reason_codes (pd_reason_codes (base_decision cf s))"
    using assms valid_policy_reasons by (simp add: base_decision_def valid_reason_codes_def)
  then have "valid_reason_codes (pd_reason_codes (within_budgets (base_decision cf s) c history budgets fp))"
    "valid_reason_codes (pd_reason_codes
       (within_budgets ((base_decision cf s)\<lparr>pd_requires_fresh_lease := True\<rparr>) c history budgets fp))"
    by (simp_all add: within_budgets_reasons)
  then show ?thesis
    using base valid_policy_reasons valid_resource_reason
    by (simp add: policy_decide_def Let_def valid_reason_codes_def split: option.splits)
qed

lemma policy_reroute:
  "pd_action (policy_decide cf s c history budgets fp res) = REROUTE_RESOURCE \<Longrightarrow>
     pd_allowed (policy_decide cf s c history budgets fp res)
     \<and> (\<exists>r. res = Some r \<and> rc_resource_id c \<noteq> Some (rr_resource_id r))"
proof -
  let ?d = "policy_decide cf s c history budgets fp res"
  assume r: "pd_action ?d = REROUTE_RESOURCE"
  then have "pd_allowed ?d" by (simp add: policy_decide_stop is_stop_def)
  then show ?thesis using allowed_policy_is_safe[OF refl] r by blast
qed

lemma valid_reason_sorted: "valid_reason_codes rs \<Longrightarrow> valid_reason_codes (sorted_set rs)"
  by (simp add: valid_reason_codes_def list_all_iff)

lemma decision_for_total:
  assumes "context_ok c" and sha: "\<And>x. hex_of_length 64 (sha x)"
    and res: "\<And>r. res = Some r \<Longrightarrow> valid_id (rr_resource_id r)"
  shows "\<exists>d. decision_for sha fr budgets s c res history = Inr d"
proof -
  obtain cf where cf: "classify s c = Inr cf" "valid_reason_codes (cf_reason_codes cf)"
    by (rule classify_Inr)
  let ?fp = "failure_fingerprint sha fr s c"
  let ?pd = "policy_decide cf s c history budgets ?fp res"
  have stop: "pd_allowed ?pd \<longleftrightarrow> \<not> is_stop (pd_action ?pd)" by (rule policy_decide_stop)
  have hex: "hex_of_length 64 ?fp" "\<And>m. hex_of_length 64 (decision_digest sha fr m)"
    using sha by (simp_all add: failure_fingerprint_def decision_digest_def canonical_digest_def)
  note reroute = policy_reroute[of cf s c history budgets ?fp res]
  note reasons = valid_reason_sorted[OF policy_reasons[OF cf(2), of s c history budgets ?fp res]]
  have target: "valid_optional_id (if pd_allowed ?pd \<and> pd_action ?pd = REROUTE_RESOURCE
      then map_option rr_resource_id res else None)"
    using res by (cases res) (auto simp: valid_optional_id_def)
  show ?thesis
    using assms(1) hex stop reasons reroute target cf(1)
    by (auto simp: decision_for_def Let_def recovery_decision_init_def validated_Inr
        context_ok_def recovery_context_init_def is_stop_def)
qed

definition resource_ok :: "resource_decision option \<Rightarrow> bool" where
  "resource_ok res = (case res of None \<Rightarrow> True | Some r \<Rightarrow> resource_decision_init r = Inr r)"

lemma decision_for_Inr:
  assumes "decision_for sha fr budgets s c res history = Inr d"
  obtains cf pd where "classify s c = Inr cf"
    "pd = policy_decide cf s c history budgets (failure_fingerprint sha fr s c) res"
    "binding_matches d c" "rd_schema_version d = schema_version"
    "rd_fingerprint d = failure_fingerprint sha fr s c"
    "rd_action d = pd_action pd" "rd_allowed d = pd_allowed pd"
    "rd_target_resource_id d = (if pd_allowed pd \<and> pd_action pd = REROUTE_RESOURCE
       then map_option rr_resource_id res else None)"
    "rd_decision_digest d = decision_digest sha fr (material_from_decision d)"
    "recovery_decision_init d = Inr d"
proof -
  obtain cf where cf: "classify s c = Inr cf" by (rule classify_Inr)
  show thesis
    using assms
    by (intro that[OF cf refl])
      (auto simp: decision_for_def cf Let_def recovery_decision_init_def validated_Inr
        binding_matches_def material_from_decision_def decision_material_def)
qed

lemma entry_of_decision:
  assumes "recovery_decision_init d = Inr d" "normalize_strings checks [] = Inr checks" "1 \<le> seq"
  shows "\<exists>e. entry_of d seq None checks = Inr e"
proof -
  have "normalize_strings checks code = Inr checks" for code
    using normalize_strings_idem[OF assms(2)] .
  then show ?thesis
    using assms(1,3)
    by (simp add: entry_of_def history_entry_init_def recovery_decision_init_def validated_Inr
        first_error_None valid_digest_def valid_optional_id_def)
qed

text \<open>C22. Deciding never fails on valid input. For a validated context and resource decision,
  any validated signal and any history, decide produces a decision whose own validation
  succeeds; the only way it can raise is that this very decision was issued before.\<close>

theorem decide_only_refuses_duplicates:
  assumes "context_ok c" and "signal_ok s" and "\<forall>x. hex_of_length 64 (sha x)"
    and "resource_ok res"
  shows "\<exists>d. decision_for sha fr budgets s c res (mem_entries h (rc_owner_id c)) = Inr d
    \<and> fst (controller_decide sha fr memory_ops budgets h s c res)
        = (if mem_contains_decision h d then Inl ''recovery_decision_already_issued'' else Inr d)"
proof -
  let ?history = "mem_entries h (rc_owner_id c)"
  have "valid_id (rr_resource_id r)" if "res = Some r" for r
    using assms(4) that by (simp add: resource_ok_def resource_decision_init_def validated_Inr)
  then obtain d where d: "decision_for sha fr budgets s c res ?history = Inr d"
    using decision_for_total[OF assms(1)] assms(3) by metis
  then have ok: "recovery_decision_init d = Inr d" by (rule decision_for_Inr)
  obtain e where "entry_of d (mem_next h (rd_owner_id d)) None (fs_failed_checks s) = Inr e"
    using entry_of_decision[OF ok, of "fs_failed_checks s" "mem_next h (rd_owner_id d)"] assms(2)
    by (auto simp: signal_ok_def mem_next_def)
  then have "h_append_decision memory_ops h d (fs_failed_checks s)
      = (if mem_contains_decision h d then (Inl ''recovery_decision_already_issued'', h)
         else (Inr e, dset h (rd_owner_id d) (mem_entries h (rd_owner_id d) @ [e])))"
    by (simp add: memory_ops_def mem_append_decision_def mem_append_def)
  then show ?thesis
    using d by (simp add: controller_decide_def memory_ops_def mem_list_def)
qed

definition demo_hash :: "string \<Rightarrow> string" where
  "demo_hash x = replicate 64 (CHR ''a'')"

lemma demo_hash_hex: "\<forall>x. hex_of_length 64 (demo_hash x)"
proof -
  have "hex_of_length 64 (replicate 64 (CHR ''a''))" by code_simp
  then show ?thesis by (simp add: demo_hash_def)
qed

theorem decide_only_refuses_duplicates_witness:
  "\<exists>d. decision_for demo_hash (\<lambda>q. []) default_budgets demo_signal demo_context None
        (mem_entries [] (rc_owner_id demo_context)) = Inr d
    \<and> fst (controller_decide demo_hash (\<lambda>q. []) memory_ops default_budgets [] demo_signal
             demo_context None)
        = (if mem_contains_decision [] d then Inl ''recovery_decision_already_issued'' else Inr d)"
proof (rule decide_only_refuses_duplicates[OF _ _ demo_hash_hex])
  show "context_ok demo_context" unfolding context_ok_def by code_simp
  show "signal_ok demo_signal" unfolding signal_ok_def by code_simp
  show "resource_ok None" by (simp add: resource_ok_def)
qed

lemma allowed_decision_budget:
  assumes "decision_for sha fr budgets s c res history = Inr d" and "rd_allowed d"
  shows "in_budget history budgets c (rd_fingerprint d) (rd_action d)"
proof -
  obtain cf pd where pd: "pd = policy_decide cf s c history budgets (failure_fingerprint sha fr s c) res"
    and d: "rd_fingerprint d = failure_fingerprint sha fr s c" "rd_action d = pd_action pd"
      "rd_allowed d = pd_allowed pd"
    using assms(1) by (rule decision_for_Inr)
  then show ?thesis using allowed_policy_is_safe[OF pd] assms(2) by simp
qed

subsection \<open>Allowed decisions are safe\<close>

text \<open>C4. An allowed recovery decision is safe. A decision is allowed exactly when its action is
  not BLOCK or ESCALATE; and an allowed decision is for a signal the classifier holds
  recoverable, needs no new authority, has the approval its action requires, is within every
  budget of the owner's history, does not repeat a strategy that made no progress, and, when it
  reroutes, names a different resource that passes all six gates.\<close>

theorem allowed_decision_is_safe:
  assumes "decision_for sha fr budgets s c res history = Inr d" and "rd_allowed d"
  shows "\<not> is_stop (rd_action d) \<and> recoverable s (fs_code s) \<and> \<not> rc_new_authority_required c
    \<and> (rd_action d \<notin> set approval_required_actions \<or> rc_approval_present c)
    \<and> in_budget history budgets c (rd_fingerprint d) (rd_action d)
    \<and> (rd_action d \<noteq> REROUTE_RESOURCE \<or>
         (\<exists>r. res = Some r \<and> rd_target_resource_id d = Some (rr_resource_id r)
            \<and> rd_target_resource_id d \<noteq> rc_resource_id c \<and> resource_gates r))"
proof -
  obtain cf pd where cf: "classify s c = Inr cf"
    and pd: "pd = policy_decide cf s c history budgets (failure_fingerprint sha fr s c) res"
    and d: "rd_fingerprint d = failure_fingerprint sha fr s c" "rd_action d = pd_action pd"
      "rd_allowed d = pd_allowed pd" "rd_target_resource_id d = (if pd_allowed pd
         \<and> pd_action pd = REROUTE_RESOURCE then map_option rr_resource_id res else None)"
    using assms(1) by (rule decision_for_Inr)
  have allowed: "pd_allowed pd" using assms(2) d by simp
  have "\<not> is_stop (cf_preferred_action cf)"
    using allowed pd base_decision_stop policy_base_allowed by metis
  then have "recoverable s (fs_code s)"
    using cf classify_Inr[of s c] by auto
  then show ?thesis
    using allowed_policy_is_safe[OF pd allowed] d allowed by auto
qed

lemma bind_op_return_snd [simp]: "snd (bind_op r (\<lambda>_ t. (v, t))) = snd r"
  by (cases r; cases "fst r") auto

lemma bind_op_return:
  "bind_op r (\<lambda>_ t. (Inr d, t)) = (Inr d2, t2) \<longleftrightarrow> d2 = d \<and> (\<exists>x. r = (Inr x, t2))"
  by (cases r; cases "fst r") auto

theorem allowed_decision_is_safe_witness:
  "recoverable demo_signal (fs_code demo_signal) \<and> rc_approval_present demo_context"
proof -
  define d where "d = projr (decision_for demo_hash (\<lambda>q. []) default_budgets demo_signal demo_context
    None [])"
  have "decision_for demo_hash (\<lambda>q. []) default_budgets demo_signal demo_context None [] = Inr d"
    unfolding d_def by code_simp
  moreover have "rd_allowed d" "rd_action d = REPAIR_CANDIDATE"
    unfolding d_def by code_simp+
  moreover have "REPAIR_CANDIDATE \<in> set approval_required_actions" by code_simp
  ultimately show ?thesis
    using allowed_decision_is_safe[of demo_hash "\<lambda>q. []" default_budgets demo_signal demo_context
        None "[]" d] by auto
qed

subsection \<open>Issued decisions are authentic\<close>

text \<open>C20. A decision cannot be altered. A decision that record_outcome or dag_handoff accepts
  and that carries the digest of an issued decision is that decision, in every field, provided
  the hash does not collide on the two payloads.\<close>

theorem issued_decision_is_authentic:
  assumes "controller_decide sha fr ops budgets s signal c res = (Inr d, t)"
    and "dag_handoff sha fr ops2 s2 d2 = Inr handoff"
    and "rd_decision_digest d2 = rd_decision_digest d"
    and "recovery_decision_init d2 = Inr d2"
    and "no_collision sha fr (material_from_decision d) (material_from_decision d2)"
  shows "d2 = d"
proof -
  obtain history where "decision_for sha fr budgets signal c res history = Inr d"
    using assms(1) by (auto simp: controller_decide_def bind_op_return split: sum.splits)
  then have d: "rd_schema_version d = schema_version"
    "rd_decision_digest d = decision_digest sha fr (material_from_decision d)"
    by (blast elim: decision_for_Inr)+
  have "rd_decision_digest d2 = decision_digest sha fr (material_from_decision d2)"
    using assms(2) by (auto simp: dag_handoff_def require_issued_def split: if_splits sum.splits)
  moreover have "rd_schema_version d2 = schema_version"
    using assms(4) by (simp add: recovery_decision_init_def validated_Inr)
  ultimately show ?thesis
    using decision_digest_binds[OF assms(5)] d assms(3) by (metis recovery_decision.surjective
      recovery_decision.update_convs(1,24))
qed

theorem issued_decision_is_authentic_witness:
  "projr (fst (controller_decide demo_hash (\<lambda>q. []) memory_ops default_budgets [] demo_signal
      demo_context None))
   = projr (decision_for demo_hash (\<lambda>q. []) default_budgets demo_signal demo_context None [])"
proof (rule issued_decision_is_authentic[of demo_hash "\<lambda>q. []"])
  show "controller_decide demo_hash (\<lambda>q. []) memory_ops default_budgets [] demo_signal demo_context None
      = (Inr (projr (decision_for demo_hash (\<lambda>q. []) default_budgets demo_signal demo_context None [])),
         snd (controller_decide demo_hash (\<lambda>q. []) memory_ops default_budgets [] demo_signal
           demo_context None))"
    by (rule prod_eqI) (simp_all only: fst_conv snd_conv, code_simp)
  show "dag_handoff demo_hash (\<lambda>q. []) memory_ops
      (snd (controller_decide demo_hash (\<lambda>q. []) memory_ops default_budgets [] demo_signal
         demo_context None))
      (projr (fst (controller_decide demo_hash (\<lambda>q. []) memory_ops default_budgets [] demo_signal
         demo_context None)))
    = Inr (projr (dag_handoff demo_hash (\<lambda>q. []) memory_ops
      (snd (controller_decide demo_hash (\<lambda>q. []) memory_ops default_budgets [] demo_signal
         demo_context None))
      (projr (fst (controller_decide demo_hash (\<lambda>q. []) memory_ops default_budgets [] demo_signal
         demo_context None)))))"
    by code_simp
qed (unfold no_collision_def, code_simp+)

subsection \<open>The controller as a machine\<close>

datatype controller_op =
    DecideOp failure_signal recovery_context "resource_decision option"
  | RecordOp recovery_decision recovery_context recovery_outcome

fun controller_step :: "(string \<Rightarrow> string) \<Rightarrow> (rat \<Rightarrow> string) \<Rightarrow> recovery_budgets
    \<Rightarrow> memory_history \<Rightarrow> controller_op \<Rightarrow> memory_history" where
  "controller_step sha fr budgets s (DecideOp signal c res) =
     snd (controller_decide sha fr memory_ops budgets s signal c res)"
| "controller_step sha fr budgets s (RecordOp d c r) =
     snd (controller_record_outcome sha fr memory_ops s d c r)"

text \<open>What a step can do to the entries of the owners: append the entry of a decision that
  \<open>decide\<close> makes from them, or the entry of an outcome.\<close>

lemma controller_step_entries:
  "mem_entries (controller_step sha fr budgets s x) = mem_entries s
   \<or> (\<exists>signal c res d e. x = DecideOp signal c res
        \<and> decision_for sha fr budgets signal c res (mem_entries s (rc_owner_id c)) = Inr d
        \<and> spec_append (mem_entries s) d None (fs_failed_checks signal) = Inr e
        \<and> mem_entries (controller_step sha fr budgets s x)
            = (mem_entries s)(rd_owner_id d := mem_entries s (rd_owner_id d) @ [e]))
   \<or> (\<exists>d c r r2 e. x = RecordOp d c r \<and> spec_append (mem_entries s) d (Some r2) [] = Inr e
        \<and> mem_entries (controller_step sha fr budgets s x)
            = (mem_entries s)(rd_owner_id d := mem_entries s (rd_owner_id d) @ [e]))"
proof (cases x)
  case (DecideOp signal c res)
  let ?h = "mem_entries s (rc_owner_id c)"
  show ?thesis
  proof (cases "decision_for sha fr budgets signal c res ?h")
    case (Inr d)
    obtain r t where app: "h_append_decision memory_ops s d (fs_failed_checks signal) = (r, t)"
      by fastforce
    note law = memory.decision_law[OF TrueI TrueI app]
    show ?thesis
      using law Inr DecideOp app
      by (cases "spec_append (mem_entries s) d None (fs_failed_checks signal)") (auto simp: controller_decide_def memory.list_law spec_after_def)
  qed (simp add: DecideOp controller_decide_def memory.list_law)
next
  case (RecordOp d c r)
  have "mem_entries (snd (h_append_outcome memory_ops s d r2)) = mem_entries s
      \<or> (\<exists>e. spec_append (mem_entries s) d (Some r2) [] = Inr e
           \<and> mem_entries (snd (h_append_outcome memory_ops s d r2))
             = (mem_entries s)(rd_owner_id d := mem_entries s (rd_owner_id d) @ [e]))" for r2
  proof -
    obtain q t where app: "h_append_outcome memory_ops s d r2 = (q, t)" by fastforce
    show ?thesis
      using memory.outcome_law[OF TrueI TrueI app] app 
      by (cases "spec_append (mem_entries s) d (Some r2) []") (auto simp: spec_after_def)
  qed
  then show ?thesis
    by (auto simp: RecordOp controller_record_outcome_def split: sum.splits option.splits)
qed

subsection \<open>Recovery is bounded\<close>

text \<open>The recoveries of a history: the decisions whose action is not BLOCK or ESCALATE.\<close>

definition fingerprint_recoveries :: "history_entry list \<Rightarrow> string \<Rightarrow> history_entry list" where
  "fingerprint_recoveries es fp =
     filter (\<lambda>e. \<not> is_stop (he_action e)) (fingerprint_decisions es fp)"

definition budgets_kept :: "recovery_budgets \<Rightarrow> history_entry list \<Rightarrow> bool" where
  "budgets_kept b es \<longleftrightarrow>
     (\<forall>fp. int (length (fingerprint_recoveries es fp)) \<le> max 0 (rb_max_fingerprint_retries b))
     \<and> (\<forall>task node action. is_stop action
          \<or> int (length (prior_same_action es action task node)) \<le> max 0 (limit_for b action))"

lemma prior_same_action_other:
  "\<not> is_decision e \<or> he_action e \<noteq> a \<or> he_task_id e \<noteq> task \<Longrightarrow>
     prior_same_action (es @ [e]) a task node = prior_same_action es a task node"
  by (auto simp: prior_same_action_def)

lemma prior_same_action_node:
  "a \<noteq> RETRY_STEP \<Longrightarrow> prior_same_action es a task node = prior_same_action es a task node2"
  by (simp add: prior_same_action_def)

lemma budgets_kept_stop:
  assumes "budgets_kept b es" "\<not> is_decision e \<or> is_stop (he_action e)"
  shows "budgets_kept b (es @ [e])"
proof -
  have "fingerprint_recoveries (es @ [e]) fp = fingerprint_recoveries es fp" for fp
    using assms(2) by (auto simp: fingerprint_recoveries_def fingerprint_decisions_def)
  moreover have "prior_same_action (es @ [e]) a task node = prior_same_action es a task node"
    if "\<not> is_stop a" for a task node
    using assms(2) that by (intro prior_same_action_other) auto
  ultimately show ?thesis using assms(1) unfolding budgets_kept_def by metis
qed

lemma budgets_kept_recovery:
  assumes kept: "budgets_kept b es" and e: "is_decision e" "he_fingerprint e = fp"
      "he_task_id e = rc_task_id c" "he_node_id e = rc_node_id c"
    and ok: "in_budget es b c fp (he_action e)"
  shows "budgets_kept b (es @ [e])"
  unfolding budgets_kept_def
proof (intro conjI allI)
  fix f
  have "length (fingerprint_recoveries es f) \<le> length (fingerprint_decisions es f)"
    by (simp add: fingerprint_recoveries_def)
  then have "fp = f \<Longrightarrow> int (length (fingerprint_recoveries es f)) + 1 \<le> rb_max_fingerprint_retries b"
    using ok by (simp add: in_budget_def)
  moreover have "int (length (fingerprint_recoveries es f)) \<le> max 0 (rb_max_fingerprint_retries b)"
    using kept by (simp add: budgets_kept_def)
  moreover have "length (fingerprint_recoveries (es @ [e]) f)
      \<le> length (fingerprint_recoveries es f) + (if fp = f then 1 else 0)"
    using e by (simp add: fingerprint_recoveries_def fingerprint_decisions_def)
  ultimately show "int (length (fingerprint_recoveries (es @ [e]) f))
      \<le> max 0 (rb_max_fingerprint_retries b)"
    by (cases "fp = f") auto
next
  fix task node a
  have old: "is_stop a \<or> int (length (prior_same_action es a task node)) \<le> max 0 (limit_for b a)"
    using kept by (simp add: budgets_kept_def)
  show "is_stop a \<or> int (length (prior_same_action (es @ [e]) a task node)) \<le> max 0 (limit_for b a)"
  proof (cases "he_action e = a \<and> he_task_id e = task \<and> (a = RETRY_STEP \<longrightarrow> he_node_id e = node)")
    case True
    then have "prior_same_action es a task node = prior_same_action es a task (rc_node_id c)"
      using e(4) prior_same_action_node by (cases "a = RETRY_STEP") auto
    then have "int (length (prior_same_action es a task node)) < limit_for b a"
      using ok True e(3) by (simp add: in_budget_def)
    moreover have "length (prior_same_action (es @ [e]) a task node)
        \<le> length (prior_same_action es a task node) + 1"
      by (simp add: prior_same_action_def)
    ultimately show ?thesis by linarith
  next
    case False
    then have "prior_same_action (es @ [e]) a task node = prior_same_action es a task node"
      by (auto simp: prior_same_action_def)
    then show ?thesis using old by simp
  qed
qed

lemma decision_entry_budget:
  assumes "decision_for sha fr b signal c res es = Inr d"
    and "entry_of d seq None checks = Inr e" and "budgets_kept b es"
  shows "budgets_kept b (es @ [e])"
proof (cases "is_stop (rd_action d)")
  case True
  then show ?thesis using assms entry_of_fields by (auto intro: budgets_kept_stop)
next
  case False
  obtain cf pd where d: "binding_matches d c" "rd_action d = pd_action pd" "rd_allowed d = pd_allowed pd"
    and pd: "pd = policy_decide cf signal c es b (failure_fingerprint sha fr signal c) res"
    using assms(1) by (rule decision_for_Inr)
  have "rd_allowed d" using False d(2,3) by (simp add: pd policy_decide_stop)
  then have "in_budget es b c (rd_fingerprint d) (rd_action d)"
    using allowed_decision_budget[OF assms(1)] by blast
  then show ?thesis
    using entry_of_fields[OF assms(2)] d(1) assms(3)
    by (intro budgets_kept_recovery[where c = c]) (auto simp: is_decision_def binding_matches_def)
qed

interpretation recovery_machine: invariant_machine "controller_step sha fr budgets"
    "\<lambda>s x. True" "\<lambda>s. \<forall>owner. budgets_kept budgets (mem_entries s owner)"
  for sha fr budgets
proof
  fix s x
  assume kept: "\<forall>owner. budgets_kept budgets (mem_entries s owner)"
  from controller_step_entries[of sha fr budgets s x]
  show "\<forall>owner. budgets_kept budgets (mem_entries (controller_step sha fr budgets s x) owner)"
  proof (elim disjE exE conjE)
    assume "mem_entries (controller_step sha fr budgets s x) = mem_entries s"
    then show ?thesis using kept by simp
  next
    fix signal c res d e
    assume d: "decision_for sha fr budgets signal c res (mem_entries s (rc_owner_id c)) = Inr d"
      and app: "spec_append (mem_entries s) d None (fs_failed_checks signal) = Inr e"
      and t: "mem_entries (controller_step sha fr budgets s x)
        = (mem_entries s)(rd_owner_id d := mem_entries s (rd_owner_id d) @ [e])"
    have "rc_owner_id c = rd_owner_id d"
      using d by (rule decision_for_Inr) (simp add: binding_matches_def)
    moreover have "entry_of d (int (length (mem_entries s (rd_owner_id d))) + 1) None
        (fs_failed_checks signal) = Inr e"
      using app by (simp add: spec_append_def split: if_splits)
    ultimately have "budgets_kept budgets (mem_entries s (rd_owner_id d) @ [e])"
      using d kept by (intro decision_entry_budget) simp_all
    then show ?thesis using kept by (simp add: t)
  next
    fix d c r r2 e
    assume "spec_append (mem_entries s) d (Some r2) [] = Inr e"
      and t: "mem_entries (controller_step sha fr budgets s x)
        = (mem_entries s)(rd_owner_id d := mem_entries s (rd_owner_id d) @ [e])"
    then have "\<not> is_decision e"
      by (auto simp: spec_append_def is_decision_def dest!: entry_of_fields split: if_splits)
    then show ?thesis using kept by (simp add: t budgets_kept_stop)
  qed
qed

text \<open>C3. Automatic recovery is bounded. After any sequence of decisions and recorded outcomes,
  for every owner: the recoveries of one failure fingerprint never exceed
  max_fingerprint_retries, and the recoveries of a task by one action never exceed the action's
  budget, where retries are counted per node.\<close>

theorem recovery_is_bounded:
  "budgets_kept budgets (mem_entries (run (controller_step sha fr budgets) [] ops) owner)"
proof -
  have "\<forall>owner. budgets_kept budgets (mem_entries [] owner)"
    by (simp add: mem_entries_def budgets_kept_def fingerprint_recoveries_def
        fingerprint_decisions_def prior_same_action_def)
  moreover have "run_ok (controller_step sha fr budgets) (\<lambda>s x. True) [] ops"
    using run_ok_True .
  ultimately show ?thesis using recovery_machine.inv_run by blast
qed

subsection \<open>One outcome per decision\<close>

definition history_later :: "memory_history \<Rightarrow> memory_history \<Rightarrow> bool" where
  "history_later s t \<longleftrightarrow> (\<forall>owner. \<exists>more. mem_entries t owner = mem_entries s owner @ more)"

interpretation history_machine: monotone_machine "controller_step sha fr budgets"
    "\<lambda>s x. True" "\<lambda>s. True" history_later
  for sha fr budgets
proof unfold_locales
  fix s x
  show "history_later s (controller_step sha fr budgets s x)"
    using controller_step_entries[of sha fr budgets s x]
    by (elim disjE exE conjE) (simp_all add: history_later_def)
next
  fix s t u assume "history_later s t" "history_later t u"
  then show "history_later s u" unfolding history_later_def by (metis append_assoc)
qed (simp_all add: history_later_def)

lemma record_outcome_Inr:
  assumes "controller_record_outcome sha fr memory_ops s d c r = (Inr e, t)"
  shows "\<exists>e \<in> set (mem_entries t (rd_owner_id d)). is_outcome_of e d"
proof -
  obtain r2 where app: "h_append_outcome memory_ops s d r2 = (Inr e, t)"
    using assms by (auto simp: controller_record_outcome_def split: if_splits sum.splits option.splits)
  note law = memory.outcome_law[OF TrueI TrueI app]
  then have "mem_entries t (rd_owner_id d) = mem_entries s (rd_owner_id d) @ [e]"
    by (simp add: spec_after_def)
  moreover have "is_outcome_of e d"
    using law[THEN conjunct1, symmetric]
    by (auto simp: spec_append_def is_outcome_of_def is_decision_def
        dest!: entry_of_fields split: if_splits)
  ultimately show ?thesis by simp
qed

lemma record_outcome_twice:
  assumes "\<exists>e \<in> set (mem_entries s (rd_owner_id d)). is_outcome_of e d"
  shows "isl (fst (controller_record_outcome sha fr memory_ops s d c r))
    \<and> snd (controller_record_outcome sha fr memory_ops s d c r) = s"
proof -
  have "isl (fst (h_append_outcome memory_ops s d r2)) \<and> snd (h_append_outcome memory_ops s d r2) = s" for r2
    using assms by (auto simp: memory_ops_def mem_append_outcome_def mem_has_outcome_def list_ex_iff)
  then show ?thesis
    by (auto simp: controller_record_outcome_def split: sum.splits option.splits)
qed

text \<open>A decision has one outcome. After record_outcome has succeeded for a decision, every
  later call for the same decision raises and changes nothing, whatever was decided and
  recorded in between and whatever context and outcome it is given.\<close>

theorem outcome_recorded_once:
  assumes "controller_record_outcome sha fr memory_ops s d c r = (Inr e, t)"
  shows "isl (fst (controller_record_outcome sha fr memory_ops
        (run (controller_step sha fr budgets) t ops) d c2 r2))
    \<and> snd (controller_record_outcome sha fr memory_ops
        (run (controller_step sha fr budgets) t ops) d c2 r2)
      = run (controller_step sha fr budgets) t ops"
proof (rule record_outcome_twice)
  have "history_later t (run (controller_step sha fr budgets) t ops)"
    by (rule history_machine.later_run[OF TrueI run_ok_True])
  then show "\<exists>e \<in> set (mem_entries (run (controller_step sha fr budgets) t ops) (rd_owner_id d)).
      is_outcome_of e d"
    using record_outcome_Inr[OF assms] unfolding history_later_def by (metis UnCI set_append)
qed

definition demo_outcome :: recovery_outcome where
  "demo_outcome = \<lparr>ro_status = OUTCOME_FAILED, ro_progress = False,
     ro_remaining_failed_checks = [''unit''], ro_resulting_plan_digest = None,
     ro_resulting_candidate_digest = None, ro_resulting_resource_id = None,
     ro_independently_verified = False\<rparr>"

definition demo_issued :: "recovery_decision \<times> memory_history" where
  "demo_issued = (case controller_decide demo_hash (\<lambda>q. []) memory_ops default_budgets []
     demo_signal demo_context None of (r, t) \<Rightarrow> (projr r, t))"

theorem outcome_recorded_once_witness:
  "isl (fst (controller_record_outcome demo_hash (\<lambda>q. []) memory_ops
     (run (controller_step demo_hash (\<lambda>q. []) default_budgets)
        (snd (controller_record_outcome demo_hash (\<lambda>q. []) memory_ops (snd demo_issued)
           (fst demo_issued) demo_context demo_outcome)) [])
     (fst demo_issued) demo_context demo_outcome))"
proof -
  have "\<not> isl (fst (controller_record_outcome demo_hash (\<lambda>q. []) memory_ops (snd demo_issued)
       (fst demo_issued) demo_context demo_outcome))"
    by code_simp
  then obtain e where "controller_record_outcome demo_hash (\<lambda>q. []) memory_ops (snd demo_issued)
       (fst demo_issued) demo_context demo_outcome
     = (Inr e, snd (controller_record_outcome demo_hash (\<lambda>q. []) memory_ops (snd demo_issued)
       (fst demo_issued) demo_context demo_outcome))"
    by (metis prod.collapse sum.collapse(2))
  from outcome_recorded_once[OF this, THEN conjunct1] show ?thesis .
qed

end
