(* ===== verification/TestWorld.thy ===== *)
theory TestWorld
  imports PyValue
begin

section \<open>Test worlds\<close>

text \<open>
  \<open>core/lil_tweak/test_world.py\<close>: a test world is a repository at a commit with the checks
  that judge it; attempts to make the checks pass are queued one at a time, claimed under a
  lease by a worker, and end passed, failed or in error. This theory has the data with its
  validation and \<open>MemoryTestWorldStore\<close>: the store's seven dictionaries as a record and one
  definition per method (the lock makes a method atomic). Parameters:
  \<^item> \<open>sha\<close>: SHA-256 in hexadecimal of a byte string; \<open>fr\<close>: \<open>float.__repr__\<close>;
  \<^item> \<open>clk\<close>: the readings of the clock during the call; \<open>new_id\<close>: what \<open>uuid4().hex\<close> returns.
  A flag, a number or a text that Python checks with \<open>isinstance\<close> has its type here; copies
  of frozen data are the data. A subscript of a dictionary that fails is \<open>WorldKeyError\<close>.
\<close>

subsection \<open>Data\<close>

datatype world_error = TestWorldConflict string | TestWorldNotFound string
  | TestWorldLimitReached string | WorldValueError string | WorldKeyError

datatype world_status = WorldReady | WorldRunning | WorldFailed | WorldPassed
  | WorldExhausted | WorldBlocked

datatype attempt_status = AttemptQueued | AttemptRunning | AttemptPassed | AttemptFailed
  | AttemptError

datatype attempt_mode = ModeRetry | ModeFresh

fun attempt_status_value :: "attempt_status \<Rightarrow> string" where
  "attempt_status_value AttemptQueued = ''queued''"
| "attempt_status_value AttemptRunning = ''running''"
| "attempt_status_value AttemptPassed = ''passed''"
| "attempt_status_value AttemptFailed = ''failed''"
| "attempt_status_value AttemptError = ''error''"

text \<open>\<open>AttemptMode(mode)\<close>; \<open>None\<close> is the \<open>ValueError\<close> of an unknown value.\<close>

definition attempt_mode_of :: "string \<Rightarrow> attempt_mode option" where
  "attempt_mode_of v = (if v = ''retry'' then Some ModeRetry
     else if v = ''fresh'' then Some ModeFresh else None)"

text \<open>\<open>len(s.encode("utf-8"))\<close>, an unbounded integer as the limits it is compared with.\<close>

definition utf8_size :: "string \<Rightarrow> int" where
  "utf8_size s = int (utf8_len s)"

record test_check =
  check_name :: string
  check_command :: "string list"
  check_timeout_seconds :: int

definition test_check_init :: "test_check \<Rightarrow> world_error + test_check" where
  "test_check_init c =
     (if strip (check_name c) = [] \<or> 200 < utf8_size (check_name c)
         \<or> \<not> (1 \<le> length (check_command c) \<and> length (check_command c) \<le> 128)
         \<or> list_ex (\<lambda>part. part = [] \<or> 4096 < utf8_size part) (check_command c)
         \<or> \<not> (1 \<le> check_timeout_seconds c \<and> check_timeout_seconds c \<le> 1200)
      then Inl (WorldValueError ''invalid test check'')
      else Inr c)"

record test_world =
  tw_id :: string
  tw_owner_id :: string
  tw_name :: string
  tw_objective :: string
  tw_repository_url :: string
  tw_commit :: string
  tw_checks :: "test_check list"
  tw_max_attempts :: int
  tw_status :: world_status
  tw_fingerprint :: string
  tw_judge_version :: string
  tw_created_at :: time
  tw_updated_at :: time

record world_attempt =
  at_id :: string
  at_world_id :: string
  at_owner_id :: string
  at_number :: int
  at_status :: attempt_status
  at_world_fingerprint :: string
  at_judge_version :: string
  at_mode :: attempt_mode
  at_outcome :: "string option"
  at_previous_attempt_id :: "string option"
  at_feedback :: "pydict list"
  at_cumulative_patch :: string
  at_plan :: string
  at_summary :: string
  at_tests :: string
  at_model_calls :: int
  at_input_tokens :: int
  at_output_tokens :: int
  at_total_tokens :: int
  at_duration_ms :: int
  at_judge_duration_ms :: int
  at_created_at :: time
  at_started_at :: "time option"
  at_finished_at :: "time option"

record world_lease =
  wl_attempt_id :: string
  wl_world_id :: string
  wl_owner_id :: string
  wl_worker_id :: string
  wl_generation :: int
  wl_expires_at :: time

subsection \<open>Digests and validation\<close>

definition check_value :: "test_check \<Rightarrow> pyval" where
  "check_value c = PDict [(''name'', PStr (check_name c)),
     (''command'', PList (map PStr (check_command c))),
     (''timeout_seconds'', PInt (check_timeout_seconds c))]"

definition judge_version :: "(string \<Rightarrow> string) \<Rightarrow> (rat \<Rightarrow> string) \<Rightarrow> test_check list \<Rightarrow> string" where
  "judge_version sha fr checks =
     sha (''lil-tweak-test-world-judge-v1'' @ [CHR 0x00]
       @ utf8 (dumps fr False (PList (map check_value checks))))"

definition world_fingerprint :: "(string \<Rightarrow> string) \<Rightarrow> (rat \<Rightarrow> string) \<Rightarrow> string \<Rightarrow> string
    \<Rightarrow> string \<Rightarrow> string \<Rightarrow> test_check list \<Rightarrow> int \<Rightarrow> string" where
  "world_fingerprint sha fr name objective repository_url commit checks max_attempts =
     sha (''lil-tweak-test-world-v1'' @ [CHR 0x00]
       @ utf8 (dumps fr False (PDict
           [(''name'', PStr name), (''objective'', PStr objective),
            (''repository_url'', PStr repository_url), (''commit'', PStr commit),
            (''checks'', PList (map check_value checks)),
            (''max_attempts'', PInt max_attempts)])))"

definition valid_commit :: "string \<Rightarrow> bool" where
  "valid_commit s \<longleftrightarrow> hex_of_length 40 s \<or> hex_of_length 64 s"

definition valid_world_definition :: "string \<Rightarrow> string \<Rightarrow> string \<Rightarrow> string \<Rightarrow> string \<Rightarrow> string
    \<Rightarrow> test_check list \<Rightarrow> int \<Rightarrow> bool" where
  "valid_world_definition owner idem name objective repository_url commit checks max_attempts \<longleftrightarrow>
     owner \<noteq> []
     \<and> idem \<noteq> [] \<and> utf8_size idem \<le> 200
     \<and> strip name \<noteq> [] \<and> utf8_size name \<le> 240
     \<and> strip objective \<noteq> [] \<and> utf8_size objective \<le> 16000
     \<and> starts_with ''https://'' repository_url \<and> utf8_size repository_url \<le> 2048
     \<and> valid_commit commit
     \<and> 1 \<le> length checks \<and> length checks \<le> 8
     \<and> 1 \<le> max_attempts \<and> max_attempts \<le> 10"

definition max_feedback_bytes :: int where
  "max_feedback_bytes = 256 * 1024"

definition max_patch_bytes :: int where
  "max_patch_bytes = 2 * 1024 * 1024"

definition max_duration_ms :: int where
  "max_duration_ms = 24 * 60 * 60 * 1000"

definition validate_feedback :: "(rat \<Rightarrow> string) \<Rightarrow> pydict list \<Rightarrow> world_error + pydict list" where
  "validate_feedback fr feedback =
     (if max_feedback_bytes < utf8_size (dumps fr False (PList (map PDict feedback)))
      then Inl (WorldValueError ''test world feedback too large'')
      else Inr feedback)"

definition validate_duration :: "int \<Rightarrow> string \<Rightarrow> world_error + int" where
  "validate_duration v field =
     (if 0 \<le> v \<and> v \<le> max_duration_ms then Inr v
      else Inl (WorldValueError (''invalid '' @ field)))"

text \<open>The loop zips the checks with the feedback, whose lengths agree then.\<close>

definition has_complete_pass_proof :: "test_world \<Rightarrow> pydict list \<Rightarrow> bool" where
  "has_complete_pass_proof w feedback \<longleftrightarrow>
     length feedback = length (tw_checks w)
     \<and> list_all (\<lambda>(check, item). dget item ''check'' = Some (PStr (check_name check))
         \<and> dget item ''passed'' = Some (PBool True)) (zip (tw_checks w) feedback)"

definition valid_world_id :: "string \<Rightarrow> bool" where
  "valid_world_id v \<longleftrightarrow> starts_with ''world:'' v \<and> hex_of_length 32 (drop 6 v)"

definition valid_attempt_id :: "string \<Rightarrow> bool" where
  "valid_attempt_id v \<longleftrightarrow> starts_with ''attempt:'' v \<and> hex_of_length 32 (drop 8 v)"

subsection \<open>The store\<close>

record world_store =
  worlds :: "(string, test_world) dict"
  attempts :: "(string, world_attempt) dict"
  attempt_ids :: "(string, string list) dict"
  world_idempotency :: "(string \<times> string, string \<times> string) dict"
  attempt_idempotency :: "(string \<times> string, string \<times> string \<times> attempt_mode) dict"
  attempt_claims :: "(string, world_lease) dict"
  attempt_generations :: "(string, int) dict"

definition empty_world_store :: world_store where
  "empty_world_store = \<lparr>worlds = [], attempts = [], attempt_ids = [], world_idempotency = [],
     attempt_idempotency = [], attempt_claims = [], attempt_generations = []\<rparr>"

type_synonym 'a world_outcome = "(world_error, 'a, world_store) outcome"

definition create_world :: "(string \<Rightarrow> string) \<Rightarrow> (rat \<Rightarrow> string) \<Rightarrow> (nat \<Rightarrow> time) \<Rightarrow> string
    \<Rightarrow> string \<Rightarrow> string \<Rightarrow> string \<Rightarrow> string \<Rightarrow> string \<Rightarrow> string \<Rightarrow> test_check list \<Rightarrow> int
    \<Rightarrow> world_store \<Rightarrow> test_world world_outcome" where
  "create_world sha fr clk new_id owner idem name objective repository_url commit checks
      max_attempts s =
     (if \<not> valid_world_definition owner idem name objective repository_url commit checks max_attempts
      then (Inl (WorldValueError ''invalid test world definition''), s)
      else
        let fingerprint = world_fingerprint sha fr name objective repository_url commit checks max_attempts;
            judge = judge_version sha fr checks;
            identity = (owner, idem)
        in case dget (world_idempotency s) identity of
          Some (world_id, previous) \<Rightarrow>
            (if previous \<noteq> fingerprint
             then (Inl (TestWorldConflict ''idempotency key reused''), s)
             else case dget (worlds s) world_id of
               None \<Rightarrow> (Inl WorldKeyError, s)
             | Some w \<Rightarrow> (Inr w, s))
        | None \<Rightarrow>
            let now = clk 0;
                w = \<lparr>tw_id = ''world:'' @ new_id, tw_owner_id = owner, tw_name = strip name,
                  tw_objective = strip objective, tw_repository_url = repository_url,
                  tw_commit = commit, tw_checks = checks, tw_max_attempts = max_attempts,
                  tw_status = WorldReady, tw_fingerprint = fingerprint,
                  tw_judge_version = judge, tw_created_at = now, tw_updated_at = now\<rparr>
            in (Inr w, s\<lparr>worlds := dset (worlds s) (tw_id w) w,
                 attempt_ids := dset (attempt_ids s) (tw_id w) [],
                 world_idempotency := dset (world_idempotency s) identity (tw_id w, fingerprint)\<rparr>))"

text \<open>\<open>values.sort(key=..., reverse=True)\<close> keeps the order of equal keys.\<close>

definition sort_reversed :: "('a \<Rightarrow> 'b::linorder) \<Rightarrow> 'a list \<Rightarrow> 'a list" where
  "sort_reversed f xs = rev (sort_key f (rev xs))"

definition list_worlds :: "string \<Rightarrow> int \<Rightarrow> world_store \<Rightarrow> world_error + test_world list" where
  "list_worlds owner limit s =
     (if \<not> (1 \<le> limit \<and> limit \<le> 100) then Inl (WorldValueError ''invalid world limit'')
      else Inr (take (nat limit)
        (sort_reversed (\<lambda>w. (tw_updated_at w, tw_created_at w, tw_id w))
          (filter (\<lambda>w. tw_owner_id w = owner) (dvalues (worlds s))))))"

fun count_attempts :: "world_store \<Rightarrow> test_world list \<Rightarrow> world_error + (test_world \<times> nat) list" where
  "count_attempts s [] = Inr []"
| "count_attempts s (w # ws) =
     (case dget (attempt_ids s) (tw_id w) of
        None \<Rightarrow> Inl WorldKeyError
      | Some ids \<Rightarrow> (case count_attempts s ws of
            Inl e \<Rightarrow> Inl e
          | Inr rest \<Rightarrow> Inr ((w, length ids) # rest)))"

definition list_worlds_with_attempt_counts :: "string \<Rightarrow> int \<Rightarrow> world_store
    \<Rightarrow> world_error + (test_world \<times> nat) list" where
  "list_worlds_with_attempt_counts owner limit s =
     (case list_worlds owner limit s of Inl e \<Rightarrow> Inl e | Inr ws \<Rightarrow> count_attempts s ws)"

definition get_world :: "string \<Rightarrow> string \<Rightarrow> world_store \<Rightarrow> test_world option" where
  "get_world world_id owner s =
     (case dget (worlds s) world_id of
        None \<Rightarrow> None
      | Some w \<Rightarrow> if tw_owner_id w \<noteq> owner then None else Some w)"

fun attempts_with_ids :: "world_store \<Rightarrow> string list \<Rightarrow> world_error + world_attempt list" where
  "attempts_with_ids s [] = Inr []"
| "attempts_with_ids s (i # is) =
     (case dget (attempts s) i of
        None \<Rightarrow> Inl WorldKeyError
      | Some a \<Rightarrow> (case attempts_with_ids s is of Inl e \<Rightarrow> Inl e | Inr as \<Rightarrow> Inr (a # as)))"

definition list_attempts :: "string \<Rightarrow> string \<Rightarrow> world_store \<Rightarrow> world_error + world_attempt list" where
  "list_attempts world_id owner s =
     (case get_world world_id owner s of
        None \<Rightarrow> Inl (TestWorldNotFound ''world not found'')
      | Some w \<Rightarrow> (case dget (attempt_ids s) world_id of
            None \<Rightarrow> Inl WorldKeyError
          | Some ids \<Rightarrow> attempts_with_ids s ids))"

definition get_attempt :: "string \<Rightarrow> string \<Rightarrow> world_store \<Rightarrow> world_attempt option" where
  "get_attempt attempt_id owner s =
     (case dget (attempts s) attempt_id of
        None \<Rightarrow> None
      | Some a \<Rightarrow> if at_owner_id a \<noteq> owner then None else Some a)"

definition active :: "world_attempt \<Rightarrow> bool" where
  "active a \<longleftrightarrow> at_status a \<in> {AttemptQueued, AttemptRunning}"

definition closed_status :: "world_status \<Rightarrow> bool" where
  "closed_status st \<longleftrightarrow> st \<in> {WorldPassed, WorldExhausted, WorldBlocked}"

text \<open>\<open>any(self._attempts[item].status in ... for item in attempt_ids)\<close>, which stops at the
  first active attempt.\<close>

fun any_active :: "world_store \<Rightarrow> string list \<Rightarrow> world_error + bool" where
  "any_active s [] = Inr False"
| "any_active s (i # is) =
     (case dget (attempts s) i of
        None \<Rightarrow> Inl WorldKeyError
      | Some a \<Rightarrow> if active a then Inr True else any_active s is)"

definition new_attempt :: "string \<Rightarrow> time \<Rightarrow> string \<Rightarrow> string \<Rightarrow> test_world \<Rightarrow> string list
    \<Rightarrow> attempt_mode \<Rightarrow> world_attempt" where
  "new_attempt new_id now world_id owner w ids mode =
     \<lparr>at_id = ''attempt:'' @ new_id, at_world_id = world_id, at_owner_id = owner,
      at_number = int (length ids) + 1, at_status = AttemptQueued,
      at_world_fingerprint = tw_fingerprint w, at_judge_version = tw_judge_version w,
      at_mode = mode, at_outcome = None,
      at_previous_attempt_id = (if ids = [] then None else Some (last ids)),
      at_feedback = [], at_cumulative_patch = [], at_plan = [], at_summary = [], at_tests = [],
      at_model_calls = 0, at_input_tokens = 0, at_output_tokens = 0, at_total_tokens = 0,
      at_duration_ms = 0, at_judge_duration_ms = 0, at_created_at = now,
      at_started_at = None, at_finished_at = None\<rparr>"

definition enqueue_attempt :: "(nat \<Rightarrow> time) \<Rightarrow> string \<Rightarrow> string \<Rightarrow> string \<Rightarrow> string \<Rightarrow> string
    \<Rightarrow> world_store \<Rightarrow> world_attempt world_outcome" where
  "enqueue_attempt clk new_id world_id owner idem mode s =
     (if idem = [] \<or> 200 < utf8_size idem
      then (Inl (WorldValueError ''invalid idempotency key''), s)
      else case attempt_mode_of mode of
        None \<Rightarrow> (Inl (WorldValueError ''invalid attempt mode''), s)
      | Some attempt_mode \<Rightarrow>
        (case dget (attempt_idempotency s) (owner, idem) of
          Some (previous_world_id, attempt_id, previous_mode) \<Rightarrow>
            (if previous_world_id \<noteq> world_id \<or> previous_mode \<noteq> attempt_mode
             then (Inl (TestWorldConflict ''idempotency key reused''), s)
             else case dget (attempts s) attempt_id of
               None \<Rightarrow> (Inl WorldKeyError, s)
             | Some a \<Rightarrow> (Inr a, s))
        | None \<Rightarrow>
            (case get_world world_id owner s of
               None \<Rightarrow> (Inl (TestWorldNotFound ''world not found''), s)
             | Some w \<Rightarrow>
               if closed_status (tw_status w)
               then (Inl (TestWorldLimitReached ''world cannot accept another attempt''), s)
               else case dget (attempt_ids s) world_id of
                 None \<Rightarrow> (Inl WorldKeyError, s)
               | Some ids \<Rightarrow> (case any_active s ids of
                   Inl e \<Rightarrow> (Inl e, s)
                 | Inr busy \<Rightarrow>
                   if busy
                   then (Inl (TestWorldConflict ''world already has an active attempt''), s)
                   else if tw_max_attempts w \<le> int (length ids)
                   then (Inl (TestWorldLimitReached ''attempt budget exhausted''), s)
                   else
                     let now = clk 0;
                         a = new_attempt new_id now world_id owner w ids attempt_mode
                     in (Inr a, s\<lparr>attempts := dset (attempts s) (at_id a) a,
                          attempt_ids := dset (attempt_ids s) world_id (ids @ [at_id a]),
                          attempt_idempotency := dset (attempt_idempotency s) (owner, idem)
                            (world_id, at_id a, attempt_mode),
                          worlds := dset (worlds s) world_id
                            (w\<lparr>tw_status := WorldRunning, tw_updated_at := now\<rparr>)\<rparr>)))))"

definition attempts_in_order :: "world_store \<Rightarrow> world_attempt list" where
  "attempts_in_order s = sort_key (\<lambda>a. (at_created_at a, at_id a)) (dvalues (attempts s))"

definition list_schedulable_attempts :: "(nat \<Rightarrow> time) \<Rightarrow> time option \<Rightarrow> int \<Rightarrow> world_store
    \<Rightarrow> world_error + world_attempt list" where
  "list_schedulable_attempts clk now limit s =
     (let current = current_time now clk in
      if \<not> (1 \<le> limit \<and> limit \<le> 1000) then Inl (WorldValueError ''invalid scheduler limit'')
      else Inr (take (nat limit)
        (filter (\<lambda>a. at_status a = AttemptQueued
            \<and> (case dget (attempt_claims s) (at_id a) of
                 None \<Rightarrow> True | Some claim \<Rightarrow> wl_expires_at claim \<le> current))
          (attempts_in_order s))))"

text \<open>One round of the loop of \<open>reconcile_active_attempts\<close>; the flag says whether the attempt
  was recovered. The loop goes over the attempts as they were when it started.\<close>

definition reconcile_attempt :: "time \<Rightarrow> world_attempt \<Rightarrow> world_store
    \<Rightarrow> world_attempt option world_outcome" where
  "reconcile_attempt current a s =
     (if at_status a \<noteq> AttemptRunning then (Inr None, s)
      else if (case dget (attempt_claims s) (at_id a) of
                 None \<Rightarrow> False | Some claim \<Rightarrow> current < wl_expires_at claim)
      then (Inr None, s)
      else
        let queued = a\<lparr>at_status := AttemptQueued, at_started_at := None\<rparr>;
            s' = s\<lparr>attempts := dset (attempts s) (at_id a) queued,
                   attempt_claims := dpop (attempt_claims s) (at_id a)\<rparr>
        in case dget (worlds s') (at_world_id a) of
          None \<Rightarrow> (Inl WorldKeyError, s')
        | Some w \<Rightarrow> (Inr (Some queued), s'\<lparr>worlds := dset (worlds s') (tw_id w)
            (w\<lparr>tw_status := WorldRunning, tw_updated_at := current\<rparr>)\<rparr>))"

fun reconcile_attempts :: "time \<Rightarrow> nat \<Rightarrow> world_attempt list \<Rightarrow> world_attempt list \<Rightarrow> world_store
    \<Rightarrow> world_attempt list world_outcome" where
  "reconcile_attempts current limit [] recovered s = (Inr recovered, s)"
| "reconcile_attempts current limit (a # rest) recovered s =
     (if limit \<le> length recovered then reconcile_attempts current limit rest recovered s
      else bind_op (reconcile_attempt current a s) (\<lambda>r s'.
        reconcile_attempts current limit rest
          (case r of None \<Rightarrow> recovered | Some q \<Rightarrow> recovered @ [q]) s'))"

definition reconcile_active_attempts :: "(nat \<Rightarrow> time) \<Rightarrow> time option \<Rightarrow> int \<Rightarrow> world_store
    \<Rightarrow> world_attempt list world_outcome" where
  "reconcile_active_attempts clk now limit s =
     (let current = current_time now clk in
      if \<not> (1 \<le> limit \<and> limit \<le> 1000)
      then (Inl (WorldValueError ''invalid scheduler limit''), s)
      else reconcile_attempts current (nat limit) (attempts_in_order s) [] s)"

definition claim_attempt :: "(nat \<Rightarrow> time) \<Rightarrow> string \<Rightarrow> string \<Rightarrow> int \<Rightarrow> time option \<Rightarrow> world_store
    \<Rightarrow> world_lease option world_outcome" where
  "claim_attempt clk attempt_id worker lease_seconds now s =
     (let current = current_time now clk in
      if worker = [] \<or> lease_seconds \<le> 0 then (Inl (WorldValueError ''invalid lease''), s)
      else case dget (attempts s) attempt_id of
        None \<Rightarrow> (Inr None, s)
      | Some a \<Rightarrow>
        if at_status a \<noteq> AttemptQueued then (Inr None, s)
        else if (case dget (attempt_claims s) attempt_id of
                   None \<Rightarrow> False | Some claim \<Rightarrow> current < wl_expires_at claim)
        then (Inr None, s)
        else
          let generation = (case dget (attempt_generations s) attempt_id of
                              None \<Rightarrow> 0 | Some g \<Rightarrow> g) + 1;
              lease = \<lparr>wl_attempt_id = at_id a, wl_world_id = at_world_id a,
                wl_owner_id = at_owner_id a, wl_worker_id = worker,
                wl_generation = generation,
                wl_expires_at = current + of_int lease_seconds\<rparr>;
              s' = s\<lparr>attempt_generations := dset (attempt_generations s) attempt_id generation,
                     attempt_claims := dset (attempt_claims s) attempt_id lease,
                     attempts := dset (attempts s) attempt_id
                       (a\<lparr>at_status := AttemptRunning, at_started_at := Some current\<rparr>)\<rparr>
          in case dget (worlds s') (at_world_id a) of
            None \<Rightarrow> (Inl WorldKeyError, s')
          | Some w \<Rightarrow> (Inr (Some lease), s'\<lparr>worlds := dset (worlds s') (tw_id w)
              (w\<lparr>tw_status := WorldRunning, tw_updated_at := current\<rparr>)\<rparr>))"

definition same_claim :: "world_lease \<Rightarrow> world_lease \<Rightarrow> bool" where
  "same_claim current lease \<longleftrightarrow>
     wl_worker_id current = wl_worker_id lease \<and> wl_owner_id current = wl_owner_id lease
     \<and> wl_world_id current = wl_world_id lease \<and> wl_generation current = wl_generation lease"

definition renew_attempt :: "(nat \<Rightarrow> time) \<Rightarrow> world_lease \<Rightarrow> int \<Rightarrow> time option \<Rightarrow> world_store
    \<Rightarrow> world_lease world_outcome" where
  "renew_attempt clk lease lease_seconds now s =
     (let time = current_time now clk in
      if lease_seconds \<le> 0 then (Inl (WorldValueError ''invalid lease''), s)
      else case dget (attempt_claims s) (wl_attempt_id lease) of
        None \<Rightarrow> (Inl (TestWorldConflict ''stale attempt lease''), s)
      | Some current \<Rightarrow>
        if \<not> same_claim current lease \<or> wl_expires_at current \<le> time
        then (Inl (TestWorldConflict ''stale attempt lease''), s)
        else let renewed = current\<lparr>wl_expires_at := time + of_int lease_seconds\<rparr>
          in (Inr renewed,
              s\<lparr>attempt_claims := dset (attempt_claims s) (wl_attempt_id lease) renewed\<rparr>))"

definition release_attempt :: "world_lease \<Rightarrow> world_store \<Rightarrow> world_store" where
  "release_attempt lease s =
     (if dget (attempt_claims s) (wl_attempt_id lease) = Some lease
      then s\<lparr>attempt_claims := dpop (attempt_claims s) (wl_attempt_id lease)\<rparr>
      else s)"

text \<open>The arguments of \<open>complete_attempt\<close> beside the lease and the clock.\<close>

record attempt_result =
  res_passed :: bool
  res_feedback :: "pydict list"
  res_cumulative_patch :: string
  res_plan :: string
  res_summary :: string
  res_tests :: string
  res_model_calls :: int
  res_input_tokens :: int
  res_output_tokens :: int
  res_total_tokens :: int
  res_duration_ms :: int
  res_judge_duration_ms :: int

definition max_text_bytes :: int where
  "max_text_bytes = 64 * 1024"

text \<open>The checks on the arguments, in their order; the value is the first \<open>ValueError\<close>.\<close>

definition result_error :: "(rat \<Rightarrow> string) \<Rightarrow> attempt_result \<Rightarrow> world_error option" where
  "result_error fr r =
     (if max_patch_bytes < utf8_size (res_cumulative_patch r)
      then Some (WorldValueError ''invalid attempt result'')
      else case validate_feedback fr (res_feedback r) of Inl e \<Rightarrow> Some e
      | Inr _ \<Rightarrow> (case validate_duration (res_duration_ms r) ''duration'' of Inl e \<Rightarrow> Some e
      | Inr _ \<Rightarrow> (case validate_duration (res_judge_duration_ms r) ''judge duration'' of Inl e \<Rightarrow> Some e
      | Inr _ \<Rightarrow>
        if res_duration_ms r < res_judge_duration_ms r \<and> res_duration_ms r \<noteq> 0
        then Some (WorldValueError ''judge duration exceeds attempt duration'')
        else if list_ex (\<lambda>v. max_text_bytes < utf8_size v) [res_plan r, res_summary r, res_tests r]
        then Some (WorldValueError ''invalid attempt text'')
        else if list_ex (\<lambda>v. v < 0) [res_model_calls r, res_input_tokens r, res_output_tokens r,
            res_total_tokens r]
        then Some (WorldValueError ''invalid attempt usage'')
        else None)))"

definition completed_attempt :: "attempt_result \<Rightarrow> time \<Rightarrow> world_attempt \<Rightarrow> world_attempt" where
  "completed_attempt r now a =
     a\<lparr>at_status := if res_passed r then AttemptPassed else AttemptFailed,
       at_outcome := Some (if res_passed r then ''pass'' else ''fail''),
       at_feedback := res_feedback r, at_cumulative_patch := res_cumulative_patch r,
       at_plan := res_plan r, at_summary := res_summary r, at_tests := res_tests r,
       at_model_calls := res_model_calls r, at_input_tokens := res_input_tokens r,
       at_output_tokens := res_output_tokens r, at_total_tokens := res_total_tokens r,
       at_duration_ms := res_duration_ms r, at_judge_duration_ms := res_judge_duration_ms r,
       at_finished_at := Some now\<rparr>"

definition complete_attempt :: "(rat \<Rightarrow> string) \<Rightarrow> (nat \<Rightarrow> time) \<Rightarrow> world_lease \<Rightarrow> attempt_result
    \<Rightarrow> time option \<Rightarrow> world_store \<Rightarrow> world_attempt world_outcome" where
  "complete_attempt fr clk lease r now s =
     (let time = current_time now clk in
      case result_error fr r of Some e \<Rightarrow> (Inl e, s)
      | None \<Rightarrow>
        (case (dget (attempt_claims s) (wl_attempt_id lease), dget (attempts s) (wl_attempt_id lease)) of
          (Some current, Some a) \<Rightarrow>
            (if \<not> same_claim current lease \<or> at_status a \<noteq> AttemptRunning
             then (Inl (TestWorldConflict ''stale attempt lease''), s)
             else case dget (worlds s) (at_world_id a) of
               None \<Rightarrow> (Inl WorldKeyError, s)
             | Some w \<Rightarrow>
               if at_world_fingerprint a \<noteq> tw_fingerprint w \<or> at_judge_version a \<noteq> tw_judge_version w
               then (Inl (TestWorldConflict ''attempt challenge version mismatch''), s)
               else if res_passed r \<and> \<not> has_complete_pass_proof w (res_feedback r)
               then (Inl (TestWorldConflict ''pass requires complete judge proof''), s)
               else
                 let completed = completed_attempt r time a;
                     status = (if res_passed r then WorldPassed
                       else if tw_max_attempts w \<le> at_number a then WorldExhausted
                       else WorldFailed)
                 in (Inr completed, s\<lparr>attempts := dset (attempts s) (at_id a) completed,
                      attempt_claims := dpop (attempt_claims s) (at_id a),
                      worlds := dset (worlds s) (tw_id w)
                        (w\<lparr>tw_status := status, tw_updated_at := time\<rparr>)\<rparr>))
        | _ \<Rightarrow> (Inl (TestWorldConflict ''stale attempt lease''), s)))"

definition failed_attempt :: "pydict list \<Rightarrow> string \<Rightarrow> int \<Rightarrow> time \<Rightarrow> world_attempt \<Rightarrow> world_attempt" where
  "failed_attempt feedback summary duration_ms now a =
     a\<lparr>at_status := AttemptError, at_outcome := Some ''error'', at_feedback := feedback,
       at_summary := summary, at_duration_ms := duration_ms, at_finished_at := Some now\<rparr>"

definition fail_attempt :: "(rat \<Rightarrow> string) \<Rightarrow> (nat \<Rightarrow> time) \<Rightarrow> world_lease \<Rightarrow> pydict list \<Rightarrow> string
    \<Rightarrow> bool \<Rightarrow> int \<Rightarrow> time option \<Rightarrow> world_store \<Rightarrow> world_attempt world_outcome" where
  "fail_attempt fr clk lease feedback summary is_blocked duration_ms now s =
     (let time = current_time now clk in
      case validate_feedback fr feedback of Inl e \<Rightarrow> (Inl e, s)
      | Inr _ \<Rightarrow> (case validate_duration duration_ms ''duration'' of Inl e \<Rightarrow> (Inl e, s)
      | Inr _ \<Rightarrow>
        if max_text_bytes < utf8_size summary then (Inl (WorldValueError ''invalid attempt text''), s)
        else case (dget (attempt_claims s) (wl_attempt_id lease), dget (attempts s) (wl_attempt_id lease)) of
          (Some current, Some a) \<Rightarrow>
            (if at_status a \<noteq> AttemptRunning \<or> at_world_id a \<noteq> wl_world_id lease
                 \<or> at_owner_id a \<noteq> wl_owner_id lease \<or> current \<noteq> lease
             then (Inl (TestWorldConflict ''stale attempt lease''), s)
             else
               let failed = failed_attempt feedback summary duration_ms time a;
                   s' = s\<lparr>attempts := dset (attempts s) (at_id a) failed,
                          attempt_claims := dpop (attempt_claims s) (at_id a)\<rparr>
               in case dget (worlds s') (at_world_id a) of
                 None \<Rightarrow> (Inl WorldKeyError, s')
               | Some w \<Rightarrow>
                 let status = (if is_blocked then WorldBlocked
                       else if tw_max_attempts w \<le> at_number a then WorldExhausted
                       else WorldFailed)
                 in (Inr failed, s'\<lparr>worlds := dset (worlds s') (tw_id w)
                      (w\<lparr>tw_status := status, tw_updated_at := time\<rparr>)\<rparr>))
        | _ \<Rightarrow> (Inl (TestWorldConflict ''stale attempt lease''), s)))"

subsection \<open>The store as a step machine\<close>

datatype world_op =
    CreateWorld string string string string string string string "test_check list" int
  | EnqueueAttempt string string string string string
  | ReconcileAttempts "time option" int
  | ClaimAttempt string string int "time option"
  | RenewAttempt world_lease int "time option"
  | ReleaseAttempt world_lease
  | CompleteAttempt world_lease attempt_result "time option"
  | FailAttempt world_lease "pydict list" string bool int "time option"

fun world_step :: "(string \<Rightarrow> string) \<Rightarrow> (rat \<Rightarrow> string) \<Rightarrow> world_store \<Rightarrow> (nat \<Rightarrow> time) \<times> world_op
    \<Rightarrow> world_store" where
  "world_step sha fr s (clk, CreateWorld i owner idem name objective url commit checks m) =
     snd (create_world sha fr clk i owner idem name objective url commit checks m s)"
| "world_step sha fr s (clk, EnqueueAttempt i w owner idem mode) =
     snd (enqueue_attempt clk i w owner idem mode s)"
| "world_step sha fr s (clk, ReconcileAttempts now limit) =
     snd (reconcile_active_attempts clk now limit s)"
| "world_step sha fr s (clk, ClaimAttempt a worker seconds now) =
     snd (claim_attempt clk a worker seconds now s)"
| "world_step sha fr s (clk, RenewAttempt lease seconds now) =
     snd (renew_attempt clk lease seconds now s)"
| "world_step sha fr s (clk, ReleaseAttempt lease) = release_attempt lease s"
| "world_step sha fr s (clk, CompleteAttempt lease r now) =
     snd (complete_attempt fr clk lease r now s)"
| "world_step sha fr s (clk, FailAttempt lease feedback summary is_blocked ms now) =
     snd (fail_attempt fr clk lease feedback summary is_blocked ms now s)"

text \<open>\<open>uuid4\<close> returns an identifier that the store does not have.\<close>

fun world_op_ok :: "world_store \<Rightarrow> (nat \<Rightarrow> time) \<times> world_op \<Rightarrow> bool" where
  "world_op_ok s (clk, CreateWorld i owner idem name objective url commit checks m) =
     (dget (worlds s) (''world:'' @ i) = None)"
| "world_op_ok s (clk, EnqueueAttempt i w owner idem mode) =
     (dget (attempts s) (''attempt:'' @ i) = None)"
| "world_op_ok s x = True"

end
