(* ===== verification/TestWorldInv.thy ===== *)
theory TestWorldInv
  imports TestWorld
begin

section \<open>The test-world store's invariant\<close>

text \<open>
  \<open>world_history w as\<close> is the abstract specification of one world: its attempts \<open>as\<close> in
  order, numbered from one, within the budget, judged by the world's own checks, all but the
  last one ended without a pass, and the world's status a function of the last attempt.
  \<open>world_inv\<close> says that the dictionaries of the store hold such a history for every world,
  and that a claim belongs to a running attempt. Every operation except creation replaces the
  active attempt of one world (\<open>put_attempt_inv\<close>), appends one (\<open>enqueue\<close>), or touches the
  claims only.
\<close>

subsection \<open>The history of a world\<close>

definition belongs :: "test_world \<Rightarrow> nat \<Rightarrow> world_attempt \<Rightarrow> bool" where
  "belongs w n a \<longleftrightarrow> at_world_id a = tw_id w \<and> at_owner_id a = tw_owner_id w
     \<and> at_number a = int n
     \<and> at_world_fingerprint a = tw_fingerprint w \<and> at_judge_version a = tw_judge_version w
     \<and> (at_status a = AttemptPassed \<longrightarrow> has_complete_pass_proof w (at_feedback a))"

definition status_fits :: "world_status \<Rightarrow> int \<Rightarrow> world_attempt list \<Rightarrow> bool" where
  "status_fits st m as \<longleftrightarrow>
     (if as = [] then st = WorldReady
      else case at_status (last as) of
        AttemptQueued \<Rightarrow> st = WorldRunning
      | AttemptRunning \<Rightarrow> st = WorldRunning
      | AttemptPassed \<Rightarrow> st = WorldPassed
      | AttemptFailed \<Rightarrow> st = (if int (length as) = m then WorldExhausted else WorldFailed)
      | AttemptError \<Rightarrow> st = (if int (length as) = m then WorldExhausted else WorldFailed)
          \<or> st = WorldBlocked)"

definition ended_without_pass :: "world_attempt \<Rightarrow> bool" where
  "ended_without_pass a \<longleftrightarrow> at_status a \<in> {AttemptFailed, AttemptError}"

definition world_history :: "test_world \<Rightarrow> world_attempt list \<Rightarrow> bool" where
  "world_history w as \<longleftrightarrow> int (length as) \<le> tw_max_attempts w
     \<and> 1 \<le> tw_max_attempts w
     \<and> (\<forall>i < length as. belongs w (Suc i) (as ! i))
     \<and> list_all ended_without_pass (butlast as)
     \<and> status_fits (tw_status w) (tw_max_attempts w) as"

lemma world_history_snoc:
  "world_history w (as @ [a]) \<longleftrightarrow> int (length as) + 1 \<le> tw_max_attempts w
     \<and> (\<forall>i < length as. belongs w (Suc i) (as ! i)) \<and> belongs w (Suc (length as)) a
     \<and> list_all ended_without_pass as
     \<and> status_fits (tw_status w) (tw_max_attempts w) (as @ [a])"
  by (auto simp: world_history_def nth_append less_Suc_eq split: if_splits)

lemma belongs_update [simp]:
  "belongs (w\<lparr>tw_status := st, tw_updated_at := t\<rparr>) n a = belongs w n a"
  by (simp add: belongs_def has_complete_pass_proof_def)

lemma pass_proof_update [simp]:
  "has_complete_pass_proof (w\<lparr>tw_status := st, tw_updated_at := t\<rparr>) f = has_complete_pass_proof w f"
  by (simp add: has_complete_pass_proof_def)

text \<open>An active attempt is the last one, so replacing it by one that fits keeps the history.\<close>

lemma active_is_last:
  assumes "world_history w as" "a \<in> set as" "active a"
  shows "as = butlast as @ [a]"
proof -
  have "as \<noteq> []" using assms by auto
  then have split: "as = butlast as @ [last as]" by simp
  have "a \<notin> set (butlast as)"
    using assms by (auto simp: world_history_def list_all_iff ended_without_pass_def active_def)
  then have "a = last as" using assms(2) split
    by (metis in_set_conv_decomp Un_iff empty_iff empty_set insert_iff list.simps(15) set_append)
  then show ?thesis using split by simp
qed

lemma replace_last_history:
  assumes "world_history w (as @ [a])" "belongs w (Suc (length as)) a'"
    "status_fits st (tw_max_attempts w) (as @ [a'])"
  shows "world_history (w\<lparr>tw_status := st, tw_updated_at := t\<rparr>) (as @ [a'])"
  using assms by (simp add: world_history_snoc)

lemma append_history:
  assumes "world_history w as" "list_all (\<lambda>a. \<not> active a) as" "\<not> closed_status (tw_status w)"
    "int (length as) < tw_max_attempts w" "belongs w (Suc (length as)) a" "at_status a = AttemptQueued"
  shows "world_history (w\<lparr>tw_status := WorldRunning, tw_updated_at := t\<rparr>) (as @ [a])"
proof -
  have "list_all ended_without_pass as"
  proof (cases as rule: rev_cases)
    case (snoc bs b)
    then show ?thesis using assms
      by (cases "at_status b")
        (auto simp: world_history_snoc status_fits_def ended_without_pass_def active_def closed_status_def)
  qed simp
  then show ?thesis using assms
    by (simp add: world_history_snoc) (simp add: world_history_def status_fits_def)
qed

subsection \<open>The store\<close>

definition stored_history :: "world_store \<Rightarrow> string \<Rightarrow> world_attempt list \<Rightarrow> bool" where
  "stored_history s k as \<longleftrightarrow> dget (attempt_ids s) k = Some (map at_id as)
     \<and> distinct (map at_id as) \<and> (\<forall>a \<in> set as. dget (attempts s) (at_id a) = Some a)"

definition worlds_inv :: "world_store \<Rightarrow> bool" where
  "worlds_inv s \<longleftrightarrow> (\<forall>k w. dget (worlds s) k = Some w \<longrightarrow>
     tw_id w = k \<and> (\<exists>as. stored_history s k as \<and> world_history w as))"

definition attempts_inv :: "world_store \<Rightarrow> bool" where
  "attempts_inv s \<longleftrightarrow> dict_ok (attempts s) \<and> (\<forall>k a. dget (attempts s) k = Some a \<longrightarrow>
     at_id a = k \<and> dget (worlds s) (at_world_id a) \<noteq> None
     \<and> (\<exists>ids. dget (attempt_ids s) (at_world_id a) = Some ids \<and> k \<in> set ids))"

definition claims_inv :: "world_store \<Rightarrow> bool" where
  "claims_inv s \<longleftrightarrow> (\<forall>k l. dget (attempt_claims s) k = Some l \<longrightarrow>
     wl_attempt_id l = k \<and> dget (attempt_generations s) k = Some (wl_generation l)
     \<and> (\<exists>a. dget (attempts s) k = Some a \<and> at_status a = AttemptRunning
          \<and> wl_world_id l = at_world_id a \<and> wl_owner_id l = at_owner_id a))"

definition idempotency_inv :: "world_store \<Rightarrow> bool" where
  "idempotency_inv s \<longleftrightarrow>
     (\<forall>owner k i fp. dget (world_idempotency s) (owner, k) = Some (i, fp) \<longrightarrow>
        (\<exists>w. dget (worlds s) i = Some w \<and> tw_owner_id w = owner \<and> tw_fingerprint w = fp))
     \<and> (\<forall>owner k i j m. dget (attempt_idempotency s) (owner, k) = Some (i, j, m) \<longrightarrow>
        (\<exists>a. dget (attempts s) j = Some a \<and> at_owner_id a = owner \<and> at_world_id a = i \<and> at_mode a = m))"

definition ids_inv :: "world_store \<Rightarrow> bool" where
  "ids_inv s \<longleftrightarrow> (\<forall>k ids. dget (attempt_ids s) k = Some ids \<longrightarrow> dget (worlds s) k \<noteq> None)"

definition world_inv :: "world_store \<Rightarrow> bool" where
  "world_inv s \<longleftrightarrow> ids_inv s \<and> worlds_inv s \<and> attempts_inv s \<and> claims_inv s \<and> idempotency_inv s"

lemma world_invD:
  assumes "world_inv s"
  shows "worlds_inv s" "attempts_inv s" "claims_inv s" "idempotency_inv s"
  using assms by (simp_all add: world_inv_def)

lemma world_inv_empty: "world_inv empty_world_store"
  by (simp add: world_inv_def ids_inv_def worlds_inv_def attempts_inv_def claims_inv_def
      idempotency_inv_def empty_world_store_def)

lemma attempts_invD:
  assumes "world_inv s" "dget (attempts s) k = Some a"
  shows "at_id a = k" "dget (worlds s) (at_world_id a) \<noteq> None"
    "\<exists>ids. dget (attempt_ids s) (at_world_id a) = Some ids \<and> k \<in> set ids"
  using assms unfolding world_inv_def attempts_inv_def by blast+

lemma worlds_invD:
  assumes "world_inv s" "dget (worlds s) k = Some w"
  obtains as where "tw_id w = k" "stored_history s k as" "world_history w as"
  using assms by (auto simp: world_inv_def worlds_inv_def)

lemma attempt_invD:
  assumes "world_inv s" "dget (attempts s) k = Some a"
  obtains w as where "at_id a = k" "dget (worlds s) (at_world_id a) = Some w"
    "tw_id w = at_world_id a" "stored_history s (at_world_id a) as" "world_history w as" "a \<in> set as"
proof -
  obtain w ids where a: "at_id a = k" "dget (worlds s) (at_world_id a) = Some w"
    "dget (attempt_ids s) (at_world_id a) = Some ids" "k \<in> set ids"
    using attempts_invD[OF assms] by auto
  obtain as where as: "tw_id w = at_world_id a" "stored_history s (at_world_id a) as" "world_history w as"
    using assms(1) a(2) by (rule worlds_invD)
  have "\<exists>b \<in> set as. at_id b = k" using as(2) a(3,4) by (auto simp: stored_history_def)
  then obtain b where "b \<in> set as" "at_id b = k" by blast
  moreover have "dget (attempts s) (at_id b) = Some b"
    using as(2) \<open>b \<in> set as\<close> by (simp add: stored_history_def)
  ultimately have "a \<in> set as" using assms(2) by simp
  then show thesis using that a(1,2) as by blast
qed

lemma claims_invD:
  assumes "world_inv s" "dget (attempt_claims s) k = Some l"
  obtains a where "wl_attempt_id l = k" "dget (attempt_generations s) k = Some (wl_generation l)"
    "dget (attempts s) k = Some a" "at_status a = AttemptRunning"
    "wl_world_id l = at_world_id a" "wl_owner_id l = at_owner_id a"
  using assms unfolding world_inv_def claims_inv_def by blast

lemma world_idempotencyD:
  assumes "world_inv s" "dget (world_idempotency s) (owner, k) = Some (i, fp)"
  obtains w where "dget (worlds s) i = Some w" "tw_owner_id w = owner" "tw_fingerprint w = fp"
  using assms unfolding world_inv_def idempotency_inv_def by blast

lemma attempt_idempotencyD:
  assumes "world_inv s" "dget (attempt_idempotency s) (owner, k) = Some (i, j, m)"
  obtains a where "dget (attempts s) j = Some a" "at_owner_id a = owner" "at_world_id a = i"
    "at_mode a = m"
  using assms unfolding world_inv_def idempotency_inv_def by blast

lemma stored_history_lookup:
  "stored_history s k as \<Longrightarrow> as = map (\<lambda>i. the (dget (attempts s) i)) (map at_id as)"
  by (auto simp: stored_history_def intro: map_idI[symmetric])

lemma stored_history_unique:
  assumes "stored_history s k as" "stored_history s k bs"
  shows "as = bs"
proof -
  have "map at_id as = map at_id bs" using assms by (simp add: stored_history_def)
  then show ?thesis using assms[THEN stored_history_lookup] by simp
qed

subsection \<open>Replacing the active attempt of a world\<close>

definition same_attempt :: "world_attempt \<Rightarrow> world_attempt \<Rightarrow> bool" where
  "same_attempt a b \<longleftrightarrow> at_id a = at_id b \<and> at_world_id a = at_world_id b
     \<and> at_owner_id a = at_owner_id b \<and> at_number a = at_number b \<and> at_mode a = at_mode b
     \<and> at_world_fingerprint a = at_world_fingerprint b \<and> at_judge_version a = at_judge_version b
     \<and> at_previous_attempt_id a = at_previous_attempt_id b \<and> at_created_at a = at_created_at b"

text \<open>\<open>replaces s a w b st now t\<close>: \<open>t\<close> is \<open>s\<close> with the attempt \<open>a\<close> of the world \<open>w\<close> replaced
  by \<open>b\<close> and the world's status by \<open>st\<close>; of the claims, that of \<open>a\<close> may have changed.\<close>

definition replaces :: "world_store \<Rightarrow> world_attempt \<Rightarrow> test_world \<Rightarrow> world_attempt \<Rightarrow> world_status
    \<Rightarrow> time \<Rightarrow> world_store \<Rightarrow> bool" where
  "replaces s a w b st now t \<longleftrightarrow>
     attempts t = dset (attempts s) (at_id a) b
     \<and> worlds t = dset (worlds s) (tw_id w) (w\<lparr>tw_status := st, tw_updated_at := now\<rparr>)
     \<and> attempt_ids t = attempt_ids s
     \<and> world_idempotency t = world_idempotency s
     \<and> attempt_idempotency t = attempt_idempotency s
     \<and> (\<forall>k. k \<noteq> at_id a \<longrightarrow> dget (attempt_claims t) k = dget (attempt_claims s) k
          \<and> dget (attempt_generations t) k = dget (attempt_generations s) k)"

definition fitting :: "test_world \<Rightarrow> world_attempt \<Rightarrow> world_status \<Rightarrow> bool" where
  "fitting w b st \<longleftrightarrow>
     (at_status b = AttemptPassed \<longrightarrow> has_complete_pass_proof w (at_feedback b))
     \<and> (\<forall>as. int (length as) + 1 = at_number b \<and> at_number b \<le> tw_max_attempts w
          \<longrightarrow> status_fits st (tw_max_attempts w) (as @ [b]))"

lemma replaces_worlds:
  assumes inv: "world_inv s" and a: "dget (attempts s) k = Some a" "active a"
    and w: "dget (worlds s) (at_world_id a) = Some w"
    and b: "same_attempt a b" "fitting w b st" and r: "replaces s a w b st now t"
  shows "worlds_inv t"
  unfolding worlds_inv_def
proof (intro allI impI)
  fix k' w' assume w': "dget (worlds t) k' = Some w'"
  obtain as where as: "at_id a = k" "tw_id w = at_world_id a"
    "stored_history s (at_world_id a) as" "world_history w as" "a \<in> set as"
    using inv a(1) by (rule attempt_invD) (use w in auto)
  define bs where "bs = butlast as"
  have split: "as = bs @ [a]" unfolding bs_def using as(4,5) a(2) by (rule active_is_last)
  show "tw_id w' = k' \<and> (\<exists>as. stored_history t k' as \<and> world_history w' as)"
  proof (cases "k' = tw_id w")
    case True
    have "stored_history t k' (bs @ [b])"
      using as(2,3) True split b(1) r
      by (auto simp: stored_history_def replaces_def same_attempt_def image_iff)
    moreover have "belongs w (Suc (length bs)) b"
      using as(4) split b by (auto simp: world_history_snoc belongs_def same_attempt_def fitting_def)
    moreover have "status_fits st (tw_max_attempts w) (bs @ [b])"
    proof -
      have "at_number b = int (length bs) + 1" "int (length bs) + 1 \<le> tw_max_attempts w"
        using as(4) split b(1) by (auto simp: world_history_snoc belongs_def same_attempt_def)
      then show ?thesis using b(2) by (simp add: fitting_def)
    qed
    ultimately show ?thesis using as(4) split w' True r
      by (auto simp: replaces_def intro!: replace_last_history)
  next
    case False
    then have "dget (worlds s) k' = Some w'" using w' r by (simp add: replaces_def)
    then obtain cs where cs: "tw_id w' = k'" "stored_history s k' cs" "world_history w' cs"
      using inv by (blast elim: worlds_invD)
    have "at_id c \<noteq> at_id a" if "c \<in> set cs" for c
    proof
      assume "at_id c = at_id a"
      then have "c = a" using cs(2) that a(1) as(1) by (auto simp: stored_history_def)
      moreover have "at_world_id c = k'" using cs that
        by (auto simp: world_history_def belongs_def in_set_conv_nth)
      ultimately show False using False as(2) by simp
    qed
    then have "stored_history t k' cs" using cs(2) r
      by (simp add: stored_history_def replaces_def)
    then show ?thesis using cs by blast
  qed
qed

lemma replaces_attempts:
  assumes inv: "world_inv s" and a: "dget (attempts s) k = Some a"
    and b: "same_attempt a b" and r: "replaces s a w b st now t"
  shows "attempts_inv t"
proof -
  have "dict_ok (attempts s)" using inv by (simp add: world_inv_def attempts_inv_def)
  moreover have "at_id c = i \<and> dget (worlds t) (at_world_id c) \<noteq> None
    \<and> (\<exists>ids. dget (attempt_ids t) (at_world_id c) = Some ids \<and> i \<in> set ids)"
    if c: "dget (attempts t) i = Some c" for i c
  proof -
    obtain c' where c': "dget (attempts s) i = Some c'" "at_id c = at_id c'"
      "at_world_id c = at_world_id c'"
      using c r b a attempts_invD(1)[OF inv a]
      by (cases "i = at_id a") (auto simp: replaces_def same_attempt_def)
    have "at_id c = i" using c'(2) attempts_invD(1)[OF inv c'(1)] by simp
    moreover have "dget (worlds t) (at_world_id c) \<noteq> None"
      using attempts_invD(2)[OF inv c'(1)] c'(3) r by (simp add: replaces_def)
    moreover have "\<exists>ids. dget (attempt_ids t) (at_world_id c) = Some ids \<and> i \<in> set ids"
      using attempts_invD(3)[OF inv c'(1)] c'(3) r by (simp add: replaces_def)
    ultimately show ?thesis by blast
  qed
  moreover have "dict_ok (attempts t)" using r calculation(1) by (simp add: replaces_def)
  ultimately show ?thesis unfolding attempts_inv_def by blast
qed

lemma replaces_idempotency:
  assumes inv: "world_inv s" and a: "dget (attempts s) k = Some a"
    and w: "dget (worlds s) (at_world_id a) = Some w"
    and b: "same_attempt a b" and r: "replaces s a w b st now t"
  shows "idempotency_inv t"
proof -
  have keys: "at_id a = k" "tw_id w = at_world_id a"
    using attempts_invD(1)[OF inv a] worlds_invD[OF inv w] by auto
  have "\<exists>w'. dget (worlds t) i = Some w' \<and> tw_owner_id w' = owner \<and> tw_fingerprint w' = fp"
    if e: "dget (world_idempotency s) (owner, j) = Some (i, fp)" for owner i j fp
  proof -
    obtain w' where "dget (worlds s) i = Some w'" "tw_owner_id w' = owner" "tw_fingerprint w' = fp"
      using inv e by (rule world_idempotencyD)
    then show ?thesis using r w keys by (cases "i = tw_id w") (auto simp: replaces_def)
  qed
  moreover have "\<exists>c. dget (attempts t) j = Some c \<and> at_owner_id c = owner \<and> at_world_id c = i \<and> at_mode c = m"
    if e: "dget (attempt_idempotency s) (owner, l) = Some (i, j, m)" for owner l i j m
  proof -
    obtain c where "dget (attempts s) j = Some c" "at_owner_id c = owner" "at_world_id c = i" "at_mode c = m"
      using inv e by (rule attempt_idempotencyD)
    then show ?thesis using r a keys b
      by (cases "j = at_id a") (auto simp: replaces_def same_attempt_def)
  qed
  moreover have "world_idempotency t = world_idempotency s"
    "attempt_idempotency t = attempt_idempotency s" using r by (simp_all add: replaces_def)
  ultimately show ?thesis unfolding idempotency_inv_def by simp
qed

lemma replaces_claims:
  assumes inv: "world_inv s" and a: "dget (attempts s) k = Some a"
    and r: "replaces s a w b st now t"
    and c: "dget (attempt_claims t) k = None \<or>
      (\<exists>l. dget (attempt_claims t) k = Some l \<and> wl_attempt_id l = k
         \<and> dget (attempt_generations t) k = Some (wl_generation l) \<and> at_status b = AttemptRunning
         \<and> wl_world_id l = at_world_id b \<and> wl_owner_id l = at_owner_id b)"
  shows "claims_inv t"
  unfolding claims_inv_def
proof (intro allI impI)
  fix i l assume l: "dget (attempt_claims t) i = Some l"
  have key: "at_id a = k" using attempts_invD(1)[OF inv a] by simp
  show "wl_attempt_id l = i \<and> dget (attempt_generations t) i = Some (wl_generation l)
    \<and> (\<exists>a. dget (attempts t) i = Some a \<and> at_status a = AttemptRunning
         \<and> wl_world_id l = at_world_id a \<and> wl_owner_id l = at_owner_id a)"
  proof (cases "i = k")
    case True
    then show ?thesis using c l r key by (auto simp: replaces_def)
  next
    case False
    then have "dget (attempt_claims s) i = Some l" using l r key by (simp add: replaces_def)
    with inv obtain c where "wl_attempt_id l = i"
      "dget (attempt_generations s) i = Some (wl_generation l)"
      "dget (attempts s) i = Some c" "at_status c = AttemptRunning"
      "wl_world_id l = at_world_id c" "wl_owner_id l = at_owner_id c"
      by (rule claims_invD)
    then show ?thesis using r key False by (simp add: replaces_def)
  qed
qed

lemmas replaces_inv = replaces_worlds replaces_attempts replaces_idempotency replaces_claims

subsection \<open>What an operation does to the store\<close>

definition generation_of_attempt :: "world_store \<Rightarrow> string \<Rightarrow> int" where
  "generation_of_attempt s k = (case dget (attempt_generations s) k of None \<Rightarrow> 0 | Some g \<Rightarrow> g)"

definition claim_fits :: "world_store \<Rightarrow> string \<Rightarrow> world_attempt \<Rightarrow> bool" where
  "claim_fits t k b \<longleftrightarrow> dget (attempt_claims t) k = None \<or>
      (\<exists>l. dget (attempt_claims t) k = Some l \<and> wl_attempt_id l = k
         \<and> dget (attempt_generations t) k = Some (wl_generation l) \<and> at_status b = AttemptRunning
         \<and> wl_world_id l = at_world_id b \<and> wl_owner_id l = at_owner_id b)"

inductive world_effect :: "world_store \<Rightarrow> world_store \<Rightarrow> bool" where
  replace_attempt: "\<lbrakk>dget (attempts s) k = Some a; active a; dget (worlds s) (at_world_id a) = Some w;
    same_attempt a b; fitting w b st; replaces s a w b st now t; claim_fits t k b;
    generation_of_attempt s k \<le> generation_of_attempt t k\<rbrakk> \<Longrightarrow> world_effect s t"
| append_attempt: "\<lbrakk>dget (worlds s) k = Some w; \<not> closed_status (tw_status w);
    stored_history s k as; list_all (\<lambda>a. \<not> active a) as; int (length as) < tw_max_attempts w;
    a = new_attempt i now k (tw_owner_id w) w (map at_id as) mode;
    dget (attempts s) (at_id a) = None; dget (attempt_idempotency s) (tw_owner_id w, idem) = None\<rbrakk>
    \<Longrightarrow> world_effect s (s\<lparr>attempts := dset (attempts s) (at_id a) a,
          attempt_ids := dset (attempt_ids s) k (map at_id as @ [at_id a]),
          attempt_idempotency := dset (attempt_idempotency s) (tw_owner_id w, idem) (k, at_id a, mode),
          worlds := dset (worlds s) k (w\<lparr>tw_status := WorldRunning, tw_updated_at := now\<rparr>)\<rparr>)"
| new_world: "\<lbrakk>dget (worlds s) (tw_id w) = None; tw_status w = WorldReady; 1 \<le> tw_max_attempts w;
    dget (world_idempotency s) (tw_owner_id w, idem) = None\<rbrakk>
    \<Longrightarrow> world_effect s (s\<lparr>worlds := dset (worlds s) (tw_id w) w,
          attempt_ids := dset (attempt_ids s) (tw_id w) [],
          world_idempotency := dset (world_idempotency s) (tw_owner_id w, idem)
            (tw_id w, tw_fingerprint w)\<rparr>)"
| change_claims: "claims_inv (s\<lparr>attempt_claims := c\<rparr>) \<Longrightarrow> world_effect s (s\<lparr>attempt_claims := c\<rparr>)"

abbreviation world_effects :: "world_store \<Rightarrow> world_store \<Rightarrow> bool" where
  "world_effects \<equiv> rtranclp world_effect"

lemma append_attempt_worlds:
  assumes inv: "world_inv s" and w: "dget (worlds s) k = Some w" "\<not> closed_status (tw_status w)"
    and as: "stored_history s k as" "list_all (\<lambda>a. \<not> active a) as" "int (length as) < tw_max_attempts w"
    and a: "a = new_attempt i now k (tw_owner_id w) w (map at_id as) mode"
    "dget (attempts s) (at_id a) = None"
    and t: "attempts t = dset (attempts s) (at_id a) a"
    "attempt_ids t = dset (attempt_ids s) k (map at_id as @ [at_id a])"
    "worlds t = dset (worlds s) k (w\<lparr>tw_status := WorldRunning, tw_updated_at := now\<rparr>)"
  shows "worlds_inv t"
  unfolding worlds_inv_def
proof (intro allI impI)
  fix k' w' assume w': "dget (worlds t) k' = Some w'"
  have hist: "tw_id w = k" "world_history w as"
    using worlds_invD[OF inv w(1)] stored_history_unique as(1) by metis+
  show "tw_id w' = k' \<and> (\<exists>as. stored_history t k' as \<and> world_history w' as)"
  proof (cases "k' = k")
    case True
    have "at_id a \<notin> at_id ` set as" using as(1) a(2) by (auto simp: stored_history_def)
    then have "stored_history t k' (as @ [a])"
      using as(1) t(1,2) True by (auto simp: stored_history_def image_iff)
    moreover have "belongs w (Suc (length as)) a" "at_status a = AttemptQueued"
      using a(1) hist(1) by (simp_all add: belongs_def new_attempt_def)
    ultimately show ?thesis using append_history[OF hist(2) as(2) w(2) as(3)] w' True t(3) hist(1)
      by auto
  next
    case False
    then have "dget (worlds s) k' = Some w'" using w' t(3) by simp
    then obtain cs where cs: "tw_id w' = k'" "stored_history s k' cs" "world_history w' cs"
      using inv by (blast elim: worlds_invD)
    have "at_id c \<noteq> at_id a" if "c \<in> set cs" for c
      using cs(2) that a(2) by (auto simp: stored_history_def)
    then have "stored_history t k' cs" using cs(2) t(1,2) False by (simp add: stored_history_def)
    then show ?thesis using cs by blast
  qed
qed

lemma append_attempt_attempts:
  assumes inv: "world_inv s" and w: "dget (worlds s) k = Some w"
    and as: "stored_history s k as"
    and a: "at_world_id a = k"
    and t: "attempts t = dset (attempts s) (at_id a) a"
    "attempt_ids t = dset (attempt_ids s) k (map at_id as @ [at_id a])"
    "worlds t = dset (worlds s) k w'"
  shows "attempts_inv t"
proof -
  have "dict_ok (attempts t)" using inv t by (simp add: world_inv_def attempts_inv_def)
  moreover have "at_id c = i \<and> dget (worlds t) (at_world_id c) \<noteq> None
    \<and> (\<exists>ids. dget (attempt_ids t) (at_world_id c) = Some ids \<and> i \<in> set ids)"
    if c: "dget (attempts t) i = Some c" for i c
  proof (cases "i = at_id a")
    case True
    then show ?thesis using c a t by simp
  next
    case False
    then have c': "dget (attempts s) i = Some c" using c t by simp
    show ?thesis
      using attempts_invD[OF inv c'] as t by (auto simp: stored_history_def)
  qed
  ultimately show ?thesis unfolding attempts_inv_def by blast
qed

lemma append_attempt_claims:
  assumes "world_inv s" "dget (attempts s) (at_id a) = None"
    "attempts t = dset (attempts s) (at_id a) a" "attempt_claims t = attempt_claims s"
    "attempt_generations t = attempt_generations s"
  shows "claims_inv t"
  unfolding claims_inv_def
proof (intro allI impI)
  fix j l assume "dget (attempt_claims t) j = Some l"
  then have "dget (attempt_claims s) j = Some l" by (simp add: assms(4))
  with assms(1) obtain c where c: "wl_attempt_id l = j"
    "dget (attempt_generations s) j = Some (wl_generation l)" "dget (attempts s) j = Some c"
    "at_status c = AttemptRunning" "wl_world_id l = at_world_id c" "wl_owner_id l = at_owner_id c"
    by (rule claims_invD)
  then have "j \<noteq> at_id a" using assms(2) by auto
  then show "wl_attempt_id l = j \<and> dget (attempt_generations t) j = Some (wl_generation l)
    \<and> (\<exists>a. dget (attempts t) j = Some a \<and> at_status a = AttemptRunning
         \<and> wl_world_id l = at_world_id a \<and> wl_owner_id l = at_owner_id a)"
    using c by (simp add: assms)
qed

lemma append_attempt_idempotency:
  assumes "world_inv s" "dget (attempts s) (at_id a) = None" "dget (worlds s) k = Some w"
    "attempts t = dset (attempts s) (at_id a) a" "at_world_id a = k" "at_mode a = mode"
    "world_idempotency t = world_idempotency s"
    "attempt_idempotency t = dset (attempt_idempotency s) (at_owner_id a, idem) (k, at_id a, mode)"
    "worlds t = dset (worlds s) k (w\<lparr>tw_status := st, tw_updated_at := now\<rparr>)"
  shows "idempotency_inv t"
  unfolding idempotency_inv_def
proof (intro conjI allI impI)
  fix owner j l fp assume "dget (world_idempotency t) (owner, j) = Some (l, fp)"
  then have "dget (world_idempotency s) (owner, j) = Some (l, fp)" by (simp add: assms(7))
  with assms(1) obtain v where "dget (worlds s) l = Some v" "tw_owner_id v = owner" "tw_fingerprint v = fp"
    by (rule world_idempotencyD)
  then show "\<exists>w. dget (worlds t) l = Some w \<and> tw_owner_id w = owner \<and> tw_fingerprint w = fp"
    using assms(3,9) by auto
next
  fix owner l j' j m assume e: "dget (attempt_idempotency t) (owner, l) = Some (j', j, m)"
  show "\<exists>a. dget (attempts t) j = Some a \<and> at_owner_id a = owner \<and> at_world_id a = j' \<and> at_mode a = m"
  proof (cases "(owner, l) = (at_owner_id a, idem)")
    case True
    then show ?thesis using e assms by auto
  next
    case False
    then have "dget (attempt_idempotency s) (owner, l) = Some (j', j, m)"
      using e assms(8) by auto
    with assms(1) obtain c where "dget (attempts s) j = Some c" "at_owner_id c = owner"
      "at_world_id c = j'" "at_mode c = m" by (rule attempt_idempotencyD)
    then show ?thesis using assms(2,4) by auto
  qed
qed

lemma new_world_worlds:
  assumes "world_inv s" "tw_status w = WorldReady" "1 \<le> tw_max_attempts w"
    "attempts t = attempts s" "worlds t = dset (worlds s) (tw_id w) w"
    "attempt_ids t = dset (attempt_ids s) (tw_id w) []"
  shows "worlds_inv t"
  unfolding worlds_inv_def
proof (intro allI impI)
  fix k v assume v: "dget (worlds t) k = Some v"
  show "tw_id v = k \<and> (\<exists>as. stored_history t k as \<and> world_history v as)"
  proof (cases "k = tw_id w")
    case True
    then have "v = w" using v assms(5) by simp
    moreover have "stored_history t k []" using True assms(6) by (simp add: stored_history_def)
    moreover have "world_history w []" using assms(2,3) by (simp add: world_history_def status_fits_def)
    ultimately show ?thesis using True by auto
  next
    case False
    then have "dget (worlds s) k = Some v" using v assms(5) by simp
    then obtain as where "tw_id v = k" "stored_history s k as" "world_history v as"
      using assms(1) by (blast elim: worlds_invD)
    moreover have "stored_history t k as" using calculation(2) False assms(4,6)
      by (simp add: stored_history_def)
    ultimately show ?thesis by blast
  qed
qed

lemma new_world_attempts:
  assumes "world_inv s" "dget (worlds s) (tw_id w) = None" "attempts t = attempts s"
    "worlds t = dset (worlds s) (tw_id w) w" "attempt_ids t = dset (attempt_ids s) (tw_id w) []"
  shows "attempts_inv t"
proof -
  have "at_id c = i \<and> dget (worlds t) (at_world_id c) \<noteq> None
    \<and> (\<exists>ids. dget (attempt_ids t) (at_world_id c) = Some ids \<and> i \<in> set ids)"
    if c: "dget (attempts s) i = Some c" for i c
  proof -
    have "at_world_id c \<noteq> tw_id w" using attempts_invD(2)[OF assms(1) c] assms(2) by metis
    then show ?thesis using attempts_invD[OF assms(1) c] assms(4,5) by auto
  qed
  moreover have "dict_ok (attempts t)" using assms(1,3) by (simp add: world_inv_def attempts_inv_def)
  ultimately show ?thesis unfolding attempts_inv_def assms(3) by blast
qed

lemma new_world_idempotency:
  assumes "world_inv s" "dget (worlds s) (tw_id w) = None" "attempts t = attempts s"
    "worlds t = dset (worlds s) (tw_id w) w" "attempt_idempotency t = attempt_idempotency s"
    "world_idempotency t = dset (world_idempotency s) (tw_owner_id w, idem) (tw_id w, tw_fingerprint w)"
  shows "idempotency_inv t"
  unfolding idempotency_inv_def
proof (intro conjI allI impI)
  fix owner j l fp assume e: "dget (world_idempotency t) (owner, j) = Some (l, fp)"
  show "\<exists>v. dget (worlds t) l = Some v \<and> tw_owner_id v = owner \<and> tw_fingerprint v = fp"
  proof (cases "(owner, j) = (tw_owner_id w, idem)")
    case True
    then show ?thesis using e assms(4,6) by auto
  next
    case False
    then have "dget (world_idempotency s) (owner, j) = Some (l, fp)" using e assms(6) by auto
    with assms(1) obtain v where "dget (worlds s) l = Some v" "tw_owner_id v = owner" "tw_fingerprint v = fp"
      by (rule world_idempotencyD)
    then show ?thesis using assms(2,4) by auto
  qed
next
  fix owner l j' j m assume "dget (attempt_idempotency t) (owner, l) = Some (j', j, m)"
  then have "dget (attempt_idempotency s) (owner, l) = Some (j', j, m)" by (simp add: assms(5))
  with assms(1) show "\<exists>a. dget (attempts t) j = Some a \<and> at_owner_id a = owner \<and> at_world_id a = j' \<and> at_mode a = m"
    unfolding assms(3) by (blast elim: attempt_idempotencyD)
qed

lemma world_effect_ids:
  assumes "world_effect s t" "world_inv s"
  shows "ids_inv t"
  using assms by cases (auto simp: world_inv_def ids_inv_def replaces_def)

lemma world_effect_inv:
  assumes "world_effect s t" "world_inv s"
  shows "world_inv t"
  using assms(1)
proof cases
  case (replace_attempt k a w b st now)
  then show ?thesis using assms(2) world_effect_ids[OF assms]
    unfolding world_inv_def[of t] claim_fits_def by (blast intro: replaces_inv)
next
  case (append_attempt k w as a i now mode idem)
  have new: "at_world_id a = k" "at_owner_id a = tw_owner_id w" "at_mode a = mode"
    by (simp_all add: append_attempt(7) new_attempt_def)
  have "worlds_inv t" using assms(2) append_attempt(2-8)
    by (rule append_attempt_worlds) (simp_all add: append_attempt(1))
  moreover have "attempts_inv t" by (rule append_attempt_attempts[OF assms(2) append_attempt(2,4) new(1)])
    (simp_all add: append_attempt(1))
  moreover have "claims_inv t" by (rule append_attempt_claims[OF assms(2) append_attempt(8)])
    (simp_all add: append_attempt(1))
  moreover have "idempotency_inv t"
    by (rule append_attempt_idempotency[OF assms(2) append_attempt(8,2) _ new(1,3)])
      (simp_all add: append_attempt(1) new(2))
  ultimately show ?thesis using world_effect_ids[OF assms] by (simp add: world_inv_def)
next
  case (new_world w idem)
  have "worlds_inv t" by (rule new_world_worlds[OF assms(2) new_world(3,4)]) (simp_all add: new_world(1))
  moreover have "attempts_inv t" by (rule new_world_attempts[OF assms(2) new_world(2)])
    (simp_all add: new_world(1))
  moreover have "idempotency_inv t" by (rule new_world_idempotency[OF assms(2) new_world(2)])
    (simp_all add: new_world(1))
  moreover have "claims_inv t" using assms(2) new_world(1)
    by (simp add: world_inv_def claims_inv_def)
  ultimately show ?thesis using world_effect_ids[OF assms] by (simp add: world_inv_def)
next
  case (change_claims c)
  then show ?thesis using assms(2)
    by (simp add: world_inv_def ids_inv_def worlds_inv_def attempts_inv_def idempotency_inv_def stored_history_def)
qed

lemma world_effects_inv: "world_effects s t \<Longrightarrow> world_inv s \<Longrightarrow> world_inv t"
  by (induction rule: rtranclp_induct) (auto intro: world_effect_inv)

end
