(* ===== verification/TestWorldMachine.thy ===== *)
theory TestWorldMachine
  imports TestWorldInv
begin

section \<open>Runs of the test-world store\<close>

text \<open>
  Every method of the store is a sequence of the changes of \<open>world_effect\<close>
  (\<open>world_step_effects\<close>), so it keeps the invariant and moves the store forward in
  \<open>world_later\<close>: definitions of worlds never change, a closed world is frozen, an attempt
  that has ended is frozen, attempts are only appended, generations only grow. The locales of
  \<open>Prelude\<close> are interpreted on the store: runs keep the invariant, and a superseded lease is
  refused for ever.
\<close>

subsection \<open>The order in which a store grows\<close>

definition same_world :: "test_world \<Rightarrow> test_world \<Rightarrow> bool" where
  "same_world w w' \<longleftrightarrow> w' = w\<lparr>tw_status := tw_status w', tw_updated_at := tw_updated_at w'\<rparr>"

definition world_later :: "world_store \<Rightarrow> world_store \<Rightarrow> bool" where
  "world_later s t \<longleftrightarrow>
     (\<forall>k w. dget (worlds s) k = Some w \<longrightarrow>
        (\<exists>w'. dget (worlds t) k = Some w' \<and> same_world w w' \<and> (closed_status (tw_status w) \<longrightarrow> w' = w)))
     \<and> (\<forall>k ids. dget (attempt_ids s) k = Some ids \<longrightarrow>
        (\<exists>more. dget (attempt_ids t) k = Some (ids @ more)
           \<and> ((\<exists>w. dget (worlds s) k = Some w \<and> closed_status (tw_status w)) \<longrightarrow> more = [])))
     \<and> (\<forall>k a. dget (attempts s) k = Some a \<longrightarrow>
        (\<exists>b. dget (attempts t) k = Some b \<and> same_attempt a b \<and> (\<not> active a \<longrightarrow> b = a)))
     \<and> (\<forall>k. generation_of_attempt s k \<le> generation_of_attempt t k)
     \<and> (\<forall>i v. dget (world_idempotency s) i = Some v \<longrightarrow> dget (world_idempotency t) i = Some v)
     \<and> (\<forall>i v. dget (attempt_idempotency s) i = Some v \<longrightarrow> dget (attempt_idempotency t) i = Some v)"

lemma world_laterD:
  assumes "world_later s t"
  shows "dget (worlds s) k = Some w \<Longrightarrow> \<exists>w'. dget (worlds t) k = Some w' \<and> same_world w w'
      \<and> (closed_status (tw_status w) \<longrightarrow> w' = w)"
    and "dget (attempt_ids s) k = Some ids \<Longrightarrow> \<exists>more. dget (attempt_ids t) k = Some (ids @ more)
      \<and> ((\<exists>w. dget (worlds s) k = Some w \<and> closed_status (tw_status w)) \<longrightarrow> more = [])"
    and "dget (attempts s) k = Some a \<Longrightarrow> \<exists>b. dget (attempts t) k = Some b \<and> same_attempt a b
      \<and> (\<not> active a \<longrightarrow> b = a)"
    and "generation_of_attempt s k \<le> generation_of_attempt t k"
    and "dget (world_idempotency s) i = Some v \<Longrightarrow> dget (world_idempotency t) i = Some v"
    and "dget (attempt_idempotency s) j = Some u \<Longrightarrow> dget (attempt_idempotency t) j = Some u"
  using assms unfolding world_later_def by blast+

lemma same_world_refl [simp]: "same_world w w"
  by (simp add: same_world_def)

lemma same_world_trans: "same_world u v \<Longrightarrow> same_world v w \<Longrightarrow> same_world u w"
  unfolding same_world_def by (cases u, cases v, cases w) simp

lemma same_world_update [simp]: "same_world w (w\<lparr>tw_status := st, tw_updated_at := n\<rparr>)"
  by (simp add: same_world_def)

lemma same_attempt_refl [simp]: "same_attempt a a"
  by (simp add: same_attempt_def)

lemma same_attempt_trans: "same_attempt a b \<Longrightarrow> same_attempt b c \<Longrightarrow> same_attempt a c"
  by (simp add: same_attempt_def)

lemma world_later_refl [simp]: "world_later s s"
  by (simp add: world_later_def)

lemma world_later_trans:
  assumes st: "world_later s t" and tu: "world_later t u"
  shows "world_later s u"
proof -
  have "\<exists>w'. dget (worlds u) k = Some w' \<and> same_world w w' \<and> (closed_status (tw_status w) \<longrightarrow> w' = w)"
    if w: "dget (worlds s) k = Some w" for k w
  proof -
    obtain v where v: "dget (worlds t) k = Some v" "same_world w v" "closed_status (tw_status w) \<longrightarrow> v = w"
      using world_laterD(1)[OF st w] by blast
    then show ?thesis using world_laterD(1)[OF tu v(1)] by (blast intro: same_world_trans)
  qed
  moreover have "\<exists>more. dget (attempt_ids u) k = Some (ids @ more)
      \<and> ((\<exists>w. dget (worlds s) k = Some w \<and> closed_status (tw_status w)) \<longrightarrow> more = [])"
    if i: "dget (attempt_ids s) k = Some ids" for k ids
  proof -
    obtain m where m: "dget (attempt_ids t) k = Some (ids @ m)"
      "(\<exists>w. dget (worlds s) k = Some w \<and> closed_status (tw_status w)) \<longrightarrow> m = []"
      using world_laterD(2)[OF st i] by blast
    obtain n where n: "dget (attempt_ids u) k = Some ((ids @ m) @ n)"
      "(\<exists>w. dget (worlds t) k = Some w \<and> closed_status (tw_status w)) \<longrightarrow> n = []"
      using world_laterD(2)[OF tu m(1)] by blast
    have "m @ n = []" if "dget (worlds s) k = Some w" "closed_status (tw_status w)" for w
      using m(2) n(2) that world_laterD(1)[OF st that(1)] by auto
    then show ?thesis using n(1) by auto
  qed
  moreover have "\<exists>b. dget (attempts u) k = Some b \<and> same_attempt a b \<and> (\<not> active a \<longrightarrow> b = a)"
    if a: "dget (attempts s) k = Some a" for k a
  proof -
    obtain b where b: "dget (attempts t) k = Some b" "same_attempt a b" "\<not> active a \<longrightarrow> b = a"
      using world_laterD(3)[OF st a] by blast
    then show ?thesis using world_laterD(3)[OF tu b(1)] by (blast intro: same_attempt_trans)
  qed
  moreover have "generation_of_attempt s k \<le> generation_of_attempt u k" for k
    using world_laterD(4)[OF st] world_laterD(4)[OF tu] by (rule order_trans)
  ultimately show ?thesis using world_laterD(5,6)[OF st] world_laterD(5,6)[OF tu]
    unfolding world_later_def by blast
qed

lemma active_world_open:
  assumes "world_inv s" "dget (attempts s) k = Some a" "active a" "dget (worlds s) (at_world_id a) = Some w"
  shows "\<not> closed_status (tw_status w)" "tw_status w = WorldRunning"
proof -
  obtain as where as: "world_history w as" "a \<in> set as"
    using assms(1,2) by (rule attempt_invD) (use assms(4) in auto)
  define bs where "bs = butlast as"
  have "as = bs @ [a]" unfolding bs_def by (rule active_is_last[OF as assms(3)])
  then show "tw_status w = WorldRunning" using as(1) assms(3)
    by (auto simp: world_history_snoc status_fits_def active_def)
  then show "\<not> closed_status (tw_status w)" by (simp add: closed_status_def)
qed

lemma world_effect_later:
  assumes "world_effect s t" "world_inv s"
  shows "world_later s t"
  using assms(1)
proof cases
  case (replace_attempt k a w b st now)
  have keys: "at_id a = k" "tw_id w = at_world_id a"
    using attempts_invD(1)[OF assms(2) replace_attempt(1)] worlds_invD[OF assms(2) replace_attempt(3)] by auto
  have "generation_of_attempt s j \<le> generation_of_attempt t j" for j
    using replace_attempt(6,8) keys
    by (cases "j = k") (auto simp: replaces_def generation_of_attempt_def)
  then show ?thesis
    using replace_attempt(1-4,6) keys active_world_open(1)[OF assms(2) replace_attempt(1-3)]
    by (auto simp: world_later_def replaces_def)
next
  case (append_attempt k w as a i now mode idem)
  then show ?thesis
    by (auto simp: world_later_def generation_of_attempt_def stored_history_def)
next
  case (new_world w idem)
  have "dget (attempt_ids s) (tw_id w) = None"
    using new_world(2) assms(2) by (auto simp: world_inv_def ids_inv_def)
  then show ?thesis using new_world
    by (auto simp: world_later_def generation_of_attempt_def)
next
  case (change_claims c)
  then show ?thesis by (simp add: world_later_def generation_of_attempt_def)
qed

lemma world_effects_later:
  assumes "world_effects s t" "world_inv s"
  shows "world_later s t"
  using assms
proof (induction rule: rtranclp_induct)
  case (step t u)
  then show ?case
    by (blast intro: world_later_trans world_effect_later world_effects_inv)
qed simp

subsection \<open>The operations\<close>

lemma attempt_world:
  assumes "world_inv s" "dget (attempts s) k = Some a"
  obtains w where "at_id a = k" "dget (worlds s) (at_world_id a) = Some w" "tw_id w = at_world_id a"
  using assms by (rule attempt_invD)

lemma create_world_effects:
  assumes "world_inv s" "dget (worlds s) (''world:'' @ new_id) = None"
  shows "world_effects s (snd (create_world sha fr clk new_id owner idem name objective url commit checks m s))"
proof -
  have "world_effect s (snd (create_world sha fr clk new_id owner idem name objective url commit checks m s))
      \<or> snd (create_world sha fr clk new_id owner idem name objective url commit checks m s) = s"
  proof (cases "valid_world_definition owner idem name objective url commit checks m
      \<and> dget (world_idempotency s) (owner, idem) = None")
    case True
    let ?w = "\<lparr>tw_id = ''world:'' @ new_id, tw_owner_id = owner, tw_name = strip name,
      tw_objective = strip objective, tw_repository_url = url, tw_commit = commit,
      tw_checks = checks, tw_max_attempts = m, tw_status = WorldReady,
      tw_fingerprint = world_fingerprint sha fr name objective url commit checks m,
      tw_judge_version = judge_version sha fr checks, tw_created_at = clk 0, tw_updated_at = clk 0\<rparr>"
    have "1 \<le> m" using True by (simp add: valid_world_definition_def)
    then show ?thesis using True assms new_world[of s ?w idem]
      by (simp add: create_world_def Let_def)
  next
    case False
    then show ?thesis by (auto simp: create_world_def Let_def split: option.splits)
  qed
  then show ?thesis by auto
qed

lemma any_active_Inr:
  "any_active s (map at_id as) = Inr busy \<Longrightarrow> \<forall>a \<in> set as. dget (attempts s) (at_id a) = Some a
    \<Longrightarrow> busy \<longleftrightarrow> list_ex active as"
  by (induction as) (auto split: if_splits)

lemma any_active_stored:
  "\<forall>a \<in> set as. dget (attempts s) (at_id a) = Some a
    \<Longrightarrow> any_active s (map at_id as) = Inr (list_ex active as)"
  by (induction as) auto

lemma enqueue_attempt_effects:
  assumes inv: "world_inv s" and new: "dget (attempts s) (''attempt:'' @ new_id) = None"
  shows "world_effects s (snd (enqueue_attempt clk new_id world_id owner idem mode s))"
proof (cases "dget (attempt_idempotency s) (owner, idem)")
  case None
  show ?thesis
  proof (cases "get_world world_id owner s")
    case (Some w)
    then have w: "dget (worlds s) world_id = Some w" "tw_owner_id w = owner"
      by (auto simp: get_world_def split: option.splits if_splits)
    obtain as where as: "tw_id w = world_id" "stored_history s world_id as"
      using inv w(1) by (rule worlds_invD)
    then have ids: "dget (attempt_ids s) world_id = Some (map at_id as)"
      "any_active s (map at_id as) = Inr (list_ex active as)"
      by (auto simp: stored_history_def intro: any_active_stored)
    show ?thesis
    proof (cases "idem = [] \<or> 200 < utf8_size idem \<or> closed_status (tw_status w) \<or> list_ex active as
        \<or> tw_max_attempts w \<le> int (length as) \<or> attempt_mode_of mode = None")
      case True
      then show ?thesis using None Some ids
        by (auto simp: enqueue_attempt_def split: option.splits)
    next
      case False
      then obtain m where m: "attempt_mode_of mode = Some m" by auto
      let ?a = "new_attempt new_id (clk 0) world_id (tw_owner_id w) w (map at_id as) m"
      have a: "dget (attempts s) (at_id ?a) = None" using new by (simp add: new_attempt_def)
      have "list_all (\<lambda>a. \<not> active a) as" using False by (auto simp: list_all_iff list_ex_iff)
      then have "world_effect s (s\<lparr>attempts := dset (attempts s) (at_id ?a) ?a,
          attempt_ids := dset (attempt_ids s) world_id (map at_id as @ [at_id ?a]),
          attempt_idempotency := dset (attempt_idempotency s) (tw_owner_id w, idem) (world_id, at_id ?a, m),
          worlds := dset (worlds s) world_id (w\<lparr>tw_status := WorldRunning, tw_updated_at := clk 0\<rparr>)\<rparr>)"
        using False None w as a by (intro append_attempt) auto
      then show ?thesis using None Some ids False m w(2)
        by (simp add: enqueue_attempt_def Let_def)
    qed
  qed (use None in \<open>auto simp: enqueue_attempt_def split: option.splits\<close>)
qed (auto simp: enqueue_attempt_def split: option.splits)

lemma reconcile_attempt_effects:
  assumes inv: "world_inv s" and a: "dget (attempts s) k = Some a"
  shows "world_effects s (snd (reconcile_attempt current a s))"
proof -
  obtain w where w: "at_id a = k" "dget (worlds s) (at_world_id a) = Some w" "tw_id w = at_world_id a"
    using inv a by (rule attempt_world)
  show ?thesis
  proof (cases "at_status a \<noteq> AttemptRunning \<or> (case dget (attempt_claims s) (at_id a) of
      None \<Rightarrow> False | Some claim \<Rightarrow> current < wl_expires_at claim)")
    case False
    let ?b = "a\<lparr>at_status := AttemptQueued, at_started_at := None\<rparr>"
    have "world_effect s (snd (reconcile_attempt current a s))"
      by (rule replace_attempt[of s k a w ?b WorldRunning current])
        (use False a w in \<open>auto simp: active_def same_attempt_def fitting_def status_fits_def
          replaces_def reconcile_attempt_def Let_def claim_fits_def generation_of_attempt_def\<close>)
    then show ?thesis by simp
  qed (auto simp: reconcile_attempt_def)
qed

lemma reconcile_attempt_others:
  "i \<noteq> at_id a \<Longrightarrow> dget (attempts (snd (reconcile_attempt current a s))) i = dget (attempts s) i"
  by (auto simp: reconcile_attempt_def Let_def split: option.splits)

text \<open>A round of the loop leaves what the remaining rounds need.\<close>

lemma reconcile_attempt_frame:
  assumes "world_inv s" "distinct (map at_id (b # bs))"
    "\<forall>c \<in> set (b # bs). dget (attempts s) (at_id c) = Some c" "reconcile_attempt current b s = (r, s')"
  shows "world_inv s'" "\<forall>c \<in> set bs. dget (attempts s') (at_id c) = Some c"
proof -
  have "dget (attempts s) (at_id b) = Some b" using assms(3) by simp
  from reconcile_attempt_effects[OF assms(1) this, of current] show "world_inv s'"
    using world_effects_inv[OF _ assms(1)] assms(4) by simp
  have "at_id c \<noteq> at_id b" if "c \<in> set bs" for c using assms(2) that by (auto simp: image_iff)
  then show "\<forall>c \<in> set bs. dget (attempts s') (at_id c) = Some c"
    using reconcile_attempt_others[of _ b current s] assms(3,4) by simp
qed

lemma reconcile_attempts_effects:
  "world_inv s \<Longrightarrow> distinct (map at_id as) \<Longrightarrow> \<forall>a \<in> set as. dget (attempts s) (at_id a) = Some a
    \<Longrightarrow> world_effects s (snd (reconcile_attempts current limit as recovered s))"
proof (induction as arbitrary: s recovered)
  case (Cons a as)
  show ?case
  proof (cases "length recovered < limit")
    case True
    obtain r s' where r: "reconcile_attempt current a s = (r, s')" by (cases "reconcile_attempt current a s")
    have first: "world_effects s s'"
      using reconcile_attempt_effects[OF Cons.prems(1), of "at_id a" a current] Cons.prems(3) r by simp
    have "world_effects s' (snd (reconcile_attempts current limit as rec s'))" for rec
      using Cons.IH reconcile_attempt_frame[OF Cons.prems r] Cons.prems(2) by simp
    then have "world_effects s (snd (reconcile_attempts current limit as rec s'))" for rec
      using first by (blast intro: rtranclp_trans)
    then show ?thesis using first True r by (cases r) auto
  next
    case False
    then show ?thesis using Cons by simp
  qed
qed simp

lemma attempts_in_order_stored:
  assumes "world_inv s"
  shows "distinct (map at_id (attempts_in_order s))"
    and "\<forall>a \<in> set (attempts_in_order s). dget (attempts s) (at_id a) = Some a"
proof -
  have ok: "dict_ok (attempts s)" using assms by (simp add: world_inv_def attempts_inv_def)
  have keys: "at_id a = k" if "(k, a) \<in> set (attempts s)" for k a
    using attempts_invD(1)[OF assms] that ok by (simp add: dget_def dict_ok_def)
  have "map at_id (dvalues (attempts s)) = map fst (attempts s)"
    using keys by (auto simp: dvalues_def)
  then have "distinct (map at_id (dvalues (attempts s)))" using ok by (simp add: dict_ok_def)
  then show "distinct (map at_id (attempts_in_order s))"
    by (simp add: attempts_in_order_def distinct_map)
  show "\<forall>a \<in> set (attempts_in_order s). dget (attempts s) (at_id a) = Some a"
    using keys ok by (auto simp: attempts_in_order_def dvalues_def dget_def dict_ok_def)
qed

lemma reconcile_active_attempts_effects:
  assumes "world_inv s"
  shows "world_effects s (snd (reconcile_active_attempts clk now limit s))"
  using reconcile_attempts_effects[OF assms attempts_in_order_stored[OF assms]]
  by (simp add: reconcile_active_attempts_def Let_def)

lemma claim_attempt_effects:
  assumes inv: "world_inv s"
  shows "world_effects s (snd (claim_attempt clk attempt_id worker seconds now s))"
proof (cases "dget (attempts s) attempt_id")
  case (Some a)
  obtain w where w: "at_id a = attempt_id" "dget (worlds s) (at_world_id a) = Some w" "tw_id w = at_world_id a"
    using inv Some by (rule attempt_world)
  show ?thesis
  proof (cases "worker = [] \<or> seconds \<le> 0 \<or> at_status a \<noteq> AttemptQueued
      \<or> (case dget (attempt_claims s) attempt_id of None \<Rightarrow> False
         | Some claim \<Rightarrow> current_time now clk < wl_expires_at claim)")
    case True
    then show ?thesis using Some by (auto simp: claim_attempt_def Let_def)
  next
    case False
    let ?b = "a\<lparr>at_status := AttemptRunning, at_started_at := Some (current_time now clk)\<rparr>"
    have "world_effect s (snd (claim_attempt clk attempt_id worker seconds now s))"
      by (rule replace_attempt[of s attempt_id a w ?b WorldRunning "current_time now clk"])
        (use False Some w in \<open>auto simp: active_def same_attempt_def fitting_def status_fits_def
          replaces_def claim_attempt_def Let_def claim_fits_def generation_of_attempt_def\<close>)
    then show ?thesis by simp
  qed
qed (simp add: claim_attempt_def Let_def)

lemma claims_inv_pop:
  assumes "world_inv s"
  shows "claims_inv (s\<lparr>attempt_claims := dpop (attempt_claims s) k\<rparr>)"
  using world_invD(3)[OF assms] by (simp add: claims_inv_def)

lemma release_attempt_effects: "world_inv s \<Longrightarrow> world_effects s (release_attempt lease s)"
  by (auto simp: release_attempt_def intro!: r_into_rtranclp change_claims claims_inv_pop)

lemma renew_attempt_effects:
  assumes inv: "world_inv s"
  shows "world_effects s (snd (renew_attempt clk lease seconds now s))"
proof (cases "dget (attempt_claims s) (wl_attempt_id lease)")
  case (Some c)
  have "claims_inv (s\<lparr>attempt_claims := dset (attempt_claims s) (wl_attempt_id lease)
      (c\<lparr>wl_expires_at := e\<rparr>)\<rparr>)" for e
    using world_invD(3)[OF inv] Some by (simp add: claims_inv_def)
  then show ?thesis using Some
    by (auto simp: renew_attempt_def Let_def intro!: r_into_rtranclp change_claims)
qed (simp add: renew_attempt_def Let_def)

lemma complete_attempt_cases:
  assumes inv: "world_inv s" and r: "complete_attempt fr clk lease r now s = (Inr b, s')"
  obtains a w current where "dget (attempt_claims s) (wl_attempt_id lease) = Some current"
    "same_claim current lease" "dget (attempts s) (wl_attempt_id lease) = Some a"
    "at_status a = AttemptRunning" "dget (worlds s) (at_world_id a) = Some w"
    "res_passed r \<longrightarrow> has_complete_pass_proof w (res_feedback r)"
    "b = completed_attempt r (current_time now clk) a"
    "replaces s a w b (if res_passed r then WorldPassed
       else if tw_max_attempts w \<le> at_number a then WorldExhausted else WorldFailed)
       (current_time now clk) s'"
    "attempt_claims s' = dpop (attempt_claims s) (wl_attempt_id lease)"
    "attempt_generations s' = attempt_generations s"
proof -
  obtain current a where a: "dget (attempt_claims s) (wl_attempt_id lease) = Some current"
    "dget (attempts s) (wl_attempt_id lease) = Some a" "same_claim current lease"
    "at_status a = AttemptRunning"
    using r by (auto simp: complete_attempt_def Let_def split: option.splits if_splits)
  obtain w where "at_id a = wl_attempt_id lease" "dget (worlds s) (at_world_id a) = Some w"
    "tw_id w = at_world_id a"
    using inv a(2) by (rule attempt_world)
  then show thesis using that[OF a(1,3,2,4)] r a
    by (auto simp: complete_attempt_def Let_def replaces_def split: option.splits if_splits)
qed

lemma at_number_bound:
  assumes "world_inv s" "dget (attempts s) k = Some a" "dget (worlds s) (at_world_id a) = Some w"
  shows "at_number a \<le> tw_max_attempts w"
proof -
  obtain as where "world_history w as" "a \<in> set as"
    using assms(1,2) by (rule attempt_invD) (use assms(3) in auto)
  then obtain i where "i < length as" "belongs w (Suc i) a" "int (length as) \<le> tw_max_attempts w"
    by (auto simp: world_history_def in_set_conv_nth)
  then show ?thesis by (simp add: belongs_def)
qed

lemma complete_attempt_effects:
  assumes inv: "world_inv s"
  shows "world_effects s (snd (complete_attempt fr clk lease r now s))"
proof (cases "complete_attempt fr clk lease r now s")
  case (Pair v s')
  show ?thesis
  proof (cases v)
    case (Inl e)
    then have "s' = s" using Pair inv
      by (auto simp: complete_attempt_def Let_def split: option.splits if_splits)
    then show ?thesis using Pair by simp
  next
    case (Inr b)
    then obtain a w where a: "dget (attempts s) (wl_attempt_id lease) = Some a"
      "at_status a = AttemptRunning" "dget (worlds s) (at_world_id a) = Some w"
      "res_passed r \<longrightarrow> has_complete_pass_proof w (res_feedback r)"
      "b = completed_attempt r (current_time now clk) a"
      "replaces s a w b (if res_passed r then WorldPassed
         else if tw_max_attempts w \<le> at_number a then WorldExhausted else WorldFailed)
         (current_time now clk) s'"
      "attempt_claims s' = dpop (attempt_claims s) (wl_attempt_id lease)"
      "attempt_generations s' = attempt_generations s"
      using complete_attempt_cases[OF inv] Pair by metis
    have "at_number a \<le> tw_max_attempts w" by (rule at_number_bound[OF inv a(1,3)])
    then have "world_effect s s'" using a
      by (intro replace_attempt[OF a(1) _ a(3) _ _ a(6)])
        (auto simp: active_def same_attempt_def completed_attempt_def fitting_def status_fits_def
          claim_fits_def generation_of_attempt_def)
    then show ?thesis using Pair by simp
  qed
qed

lemma fail_attempt_cases:
  assumes inv: "world_inv s" and r: "fail_attempt fr clk lease feedback summary is_blocked ms now s = (Inr b, s')"
  obtains a w where "dget (attempt_claims s) (wl_attempt_id lease) = Some lease"
    "dget (attempts s) (wl_attempt_id lease) = Some a"
    "at_status a = AttemptRunning" "dget (worlds s) (at_world_id a) = Some w"
    "b = failed_attempt feedback summary ms (current_time now clk) a"
    "replaces s a w b (if is_blocked then WorldBlocked
       else if tw_max_attempts w \<le> at_number a then WorldExhausted else WorldFailed)
       (current_time now clk) s'"
    "attempt_claims s' = dpop (attempt_claims s) (wl_attempt_id lease)"
    "attempt_generations s' = attempt_generations s"
proof -
  obtain a where a: "dget (attempt_claims s) (wl_attempt_id lease) = Some lease"
    "dget (attempts s) (wl_attempt_id lease) = Some a" "at_status a = AttemptRunning"
    using r by (auto simp: fail_attempt_def Let_def split: option.splits if_splits sum.splits)
  obtain w where "at_id a = wl_attempt_id lease" "dget (worlds s) (at_world_id a) = Some w"
    "tw_id w = at_world_id a"
    using inv a(2) by (rule attempt_world)
  then show thesis using that[OF a] r a
    by (auto simp: fail_attempt_def Let_def replaces_def split: option.splits if_splits sum.splits)
qed

lemma fail_attempt_Inl:
  assumes "world_inv s" "fail_attempt fr clk lease feedback summary is_blocked ms now s = (Inl e, s')"
  shows "s' = s"
proof -
  have "dget (worlds s) (at_world_id a) \<noteq> None" if "dget (attempts s) k = Some a" for k a
    using attempts_invD(2)[OF assms(1) that] .
  then show ?thesis using assms(2)
    by (fastforce simp: fail_attempt_def Let_def split: option.splits if_splits sum.splits)
qed

lemma fail_attempt_effects:
  assumes inv: "world_inv s"
  shows "world_effects s (snd (fail_attempt fr clk lease feedback summary is_blocked ms now s))"
proof (cases "fail_attempt fr clk lease feedback summary is_blocked ms now s")
  case (Pair v s')
  show ?thesis
  proof (cases v)
    case (Inl e)
    then show ?thesis using fail_attempt_Inl[OF inv] Pair by fastforce
  next
    case (Inr b)
    then obtain a w where a: "dget (attempts s) (wl_attempt_id lease) = Some a"
      "at_status a = AttemptRunning" "dget (worlds s) (at_world_id a) = Some w"
      "b = failed_attempt feedback summary ms (current_time now clk) a"
      "replaces s a w b (if is_blocked then WorldBlocked
         else if tw_max_attempts w \<le> at_number a then WorldExhausted else WorldFailed)
         (current_time now clk) s'"
      "attempt_claims s' = dpop (attempt_claims s) (wl_attempt_id lease)"
      "attempt_generations s' = attempt_generations s"
      using fail_attempt_cases[OF inv] Pair by metis
    have "at_number a \<le> tw_max_attempts w" by (rule at_number_bound[OF inv a(1,3)])
    then have "world_effect s s'" using a
      by (intro replace_attempt[OF a(1) _ a(3) _ _ a(5)])
        (auto simp: active_def same_attempt_def failed_attempt_def fitting_def status_fits_def
          claim_fits_def generation_of_attempt_def)
    then show ?thesis using Pair by simp
  qed
qed

subsection \<open>The machine\<close>

lemma world_step_effects:
  assumes "world_inv s" "world_op_ok s x"
  shows "world_effects s (world_step sha fr s x)"
proof (cases x)
  case (Pair clk op)
  then show ?thesis using assms
    by (cases op) (auto intro: create_world_effects enqueue_attempt_effects
        reconcile_active_attempts_effects claim_attempt_effects renew_attempt_effects
        release_attempt_effects complete_attempt_effects fail_attempt_effects)
qed

text \<open>The lease is accepted by the next \<open>complete_attempt\<close> or \<open>renew_attempt\<close>.\<close>

definition holds_attempt :: "world_store \<Rightarrow> world_lease \<Rightarrow> bool" where
  "holds_attempt s l \<longleftrightarrow>
     (\<exists>current. dget (attempt_claims s) (wl_attempt_id l) = Some current \<and> same_claim current l)"

interpretation world_machine: monotone_machine "world_step sha fr" world_op_ok world_inv world_later
  for sha :: "string \<Rightarrow> string" and fr :: "rat \<Rightarrow> string"
proof
  show "world_inv s \<Longrightarrow> world_op_ok s x \<Longrightarrow> world_inv (world_step sha fr s x)" for s x
    by (blast intro: world_effects_inv world_step_effects)
  show "world_inv s \<Longrightarrow> world_op_ok s x \<Longrightarrow> world_later s (world_step sha fr s x)" for s x
    by (blast intro: world_effects_later world_step_effects)
qed (auto intro: world_later_trans)

interpretation world_leases: fencing "world_step sha fr" world_op_ok world_inv world_later
    generation_of_attempt wl_attempt_id wl_generation holds_attempt
  for sha :: "string \<Rightarrow> string" and fr :: "rat \<Rightarrow> string"
proof
  fix s l assume "world_inv s" "holds_attempt s l"
  then show "wl_generation l = generation_of_attempt s (wl_attempt_id l)"
    by (auto simp: holds_attempt_def same_claim_def generation_of_attempt_def elim!: claims_invD)
qed (rule world_laterD(4))

lemma complete_needs_claim:
  "complete_attempt fr clk l r now s = (Inr b, t) \<Longrightarrow> holds_attempt s l"
  by (auto simp: complete_attempt_def holds_attempt_def Let_def split: option.splits if_splits)

lemma fail_needs_claim:
  "fail_attempt fr clk l feedback summary is_blocked ms now s = (Inr b, t) \<Longrightarrow> holds_attempt s l"
  by (auto simp: fail_attempt_def holds_attempt_def same_claim_def Let_def
      split: option.splits if_splits sum.splits)

lemma renew_needs_claim:
  "renew_attempt clk l seconds now s = (Inr b, t) \<Longrightarrow> holds_attempt s l"
  by (auto simp: renew_attempt_def holds_attempt_def Let_def split: option.splits if_splits)

end
