(* ===== verification/TestWorldProps.thy ===== *)
theory TestWorldProps
  imports TestWorldMachine
begin

section \<open>What a caller of the test-world store can rely on\<close>

text \<open>
  The guarantees of the store over arbitrary sequences of operations: the history of a world
  as its methods return it, passes that are judged, closed worlds, superseded leases,
  idempotent enqueueing and the recovery of stranded attempts; and what a renewal does to the
  lease a worker started with.
\<close>

abbreviation world_run :: "(string \<Rightarrow> string) \<Rightarrow> (rat \<Rightarrow> string) \<Rightarrow> world_store
    \<Rightarrow> ((nat \<Rightarrow> time) \<times> world_op) list \<Rightarrow> world_store" where
  "world_run sha fr \<equiv> run (world_step sha fr)"

abbreviation world_run_ok :: "(string \<Rightarrow> string) \<Rightarrow> (rat \<Rightarrow> string) \<Rightarrow> world_store
    \<Rightarrow> ((nat \<Rightarrow> time) \<times> world_op) list \<Rightarrow> bool" where
  "world_run_ok sha fr \<equiv> run_ok (world_step sha fr) world_op_ok"

subsection \<open>A demonstration run\<close>

definition trial_sha :: "string \<Rightarrow> string" where
  "trial_sha s = replicate 64 (CHR ''a'')"

definition trial_fr :: "rat \<Rightarrow> string" where
  "trial_fr q = ''0.0''"

definition trial_clk :: "nat \<Rightarrow> time" where
  "trial_clk i = 0"

definition trial_check :: test_check where
  "trial_check = \<lparr>check_name = ''unit'', check_command = [''make'', ''test''], check_timeout_seconds = 120\<rparr>"

definition trial_create :: "(nat \<Rightarrow> time) \<times> world_op" where
  "trial_create = (trial_clk, CreateWorld ''1'' ''ann'' ''key'' ''name'' ''goal''
     ''https://example.org/r'' (replicate 40 (CHR ''c'')) [trial_check] 2)"

definition trial_enqueue :: "string \<Rightarrow> string \<Rightarrow> (nat \<Rightarrow> time) \<times> world_op" where
  "trial_enqueue i idem = (trial_clk, EnqueueAttempt i ''world:1'' ''ann'' idem ''retry'')"

definition trial_claim :: "string \<Rightarrow> time \<Rightarrow> (nat \<Rightarrow> time) \<times> world_op" where
  "trial_claim i t = (trial_clk, ClaimAttempt (''attempt:'' @ i) ''w'' 60 (Some t))"

definition trial_lease :: "string \<Rightarrow> int \<Rightarrow> time \<Rightarrow> world_lease" where
  "trial_lease i g t = \<lparr>wl_attempt_id = ''attempt:'' @ i, wl_world_id = ''world:1'',
     wl_owner_id = ''ann'', wl_worker_id = ''w'', wl_generation = g, wl_expires_at = t\<rparr>"

definition trial_result :: attempt_result where
  "trial_result = \<lparr>res_passed = True,
     res_feedback = [[(''check'', PStr ''unit''), (''passed'', PBool True)]],
     res_cumulative_patch = ''p'', res_plan = [], res_summary = [], res_tests = [],
     res_model_calls = 1, res_input_tokens = 2, res_output_tokens = 3, res_total_tokens = 5,
     res_duration_ms = 10, res_judge_duration_ms = 5\<rparr>"

definition trial_pass :: "((nat \<Rightarrow> time) \<times> world_op) list" where
  "trial_pass = [trial_create, trial_enqueue ''1'' ''k1'', trial_claim ''1'' 0,
     (trial_clk, CompleteAttempt (trial_lease ''1'' 1 60) trial_result (Some 1))]"

abbreviation trial_run :: "((nat \<Rightarrow> time) \<times> world_op) list \<Rightarrow> world_store" where
  "trial_run \<equiv> world_run trial_sha trial_fr empty_world_store"

lemma trial_inv: "world_run_ok trial_sha trial_fr empty_world_store ops \<Longrightarrow> world_inv (trial_run ops)"
  by (rule world_machine.inv_run[OF world_inv_empty])

lemma attempts_with_ids_stored:
  "\<forall>a \<in> set as. dget (attempts s) (at_id a) = Some a
    \<Longrightarrow> attempts_with_ids s (map at_id as) = Inr as"
  by (induction as) auto

lemma listed_history:
  assumes "world_inv s" "get_world k owner s = Some w"
  obtains as where "list_attempts k owner s = Inr as" "world_history w as"
proof -
  have "dget (worlds s) k = Some w" using assms(2) by (auto simp: get_world_def split: option.splits if_splits)
  then obtain as where "stored_history s k as" "world_history w as"
    using assms(1) by (blast elim: worlds_invD)
  then show thesis using that assms(2) attempts_with_ids_stored[of as s]
    by (simp add: list_attempts_def stored_history_def)
qed

subsection \<open>Histories and passes\<close>

text \<open>C5. In every state that operations reach from the empty store, the attempts that
  \<open>list_attempts\<close> returns for a world are numbered 1, 2, ... within the world's budget, belong
  to its owner and its version of the checks, all but the last ended without a pass, and the
  world's status is the one the last attempt calls for.\<close>

theorem world_history_holds:
  assumes "world_run_ok sha fr empty_world_store ops"
    and "get_world k owner (world_run sha fr empty_world_store ops) = Some w"
  shows "\<exists>as. list_attempts k owner (world_run sha fr empty_world_store ops) = Inr as
    \<and> world_history w as"
  using listed_history[OF world_machine.inv_run[OF world_inv_empty assms(1)] assms(2)] by blast

theorem world_history_holds_witness:
  "\<exists>as. list_attempts ''world:1'' ''ann'' (trial_run trial_pass) = Inr as
     \<and> world_history (the (get_world ''world:1'' ''ann'' (trial_run trial_pass))) as"
  by (rule world_history_holds) code_simp+

text \<open>C6. A world has the status passed only when its last attempt passed, and then the
  feedback of that attempt names every check of the world, in order, and says of each that it
  passed.\<close>

theorem pass_is_judged:
  assumes "world_run_ok sha fr empty_world_store ops"
    and "get_world k owner (world_run sha fr empty_world_store ops) = Some w"
    and "tw_status w = WorldPassed"
  shows "\<exists>as a. list_attempts k owner (world_run sha fr empty_world_store ops) = Inr (as @ [a])
    \<and> at_status a = AttemptPassed
    \<and> map (\<lambda>f. dget f ''check'') (at_feedback a) = map (Some \<circ> PStr \<circ> check_name) (tw_checks w)
    \<and> map (\<lambda>f. dget f ''passed'') (at_feedback a) = replicate (length (tw_checks w)) (Some (PBool True))"
proof -
  obtain as where as: "list_attempts k owner (world_run sha fr empty_world_store ops) = Inr as"
    "world_history w as"
    by (rule listed_history[OF world_machine.inv_run[OF world_inv_empty assms(1)] assms(2)])
  then obtain bs a where a: "as = bs @ [a]" "at_status a = AttemptPassed"
    using assms(3) by (cases as rule: rev_cases)
      (auto simp: world_history_def status_fits_def split: attempt_status.splits if_splits)
  then have "has_complete_pass_proof w (at_feedback a)"
    using as(2) by (simp add: world_history_snoc belongs_def)
  then have "map (\<lambda>f. dget f ''check'') (at_feedback a) = map (Some \<circ> PStr \<circ> check_name) (tw_checks w)"
    "map (\<lambda>f. dget f ''passed'') (at_feedback a) = replicate (length (tw_checks w)) (Some (PBool True))"
    by (auto simp: has_complete_pass_proof_def list_all_length intro!: nth_equalityI)
  then show ?thesis using as(1) a by blast
qed

theorem pass_is_judged_witness:
  "\<exists>as a. list_attempts ''world:1'' ''ann'' (trial_run trial_pass) = Inr (as @ [a])
    \<and> at_status a = AttemptPassed
    \<and> map (\<lambda>f. dget f ''check'') (at_feedback a) = map (Some \<circ> PStr \<circ> check_name)
        (tw_checks (the (get_world ''world:1'' ''ann'' (trial_run trial_pass))))
    \<and> map (\<lambda>f. dget f ''passed'') (at_feedback a) = replicate (length
        (tw_checks (the (get_world ''world:1'' ''ann'' (trial_run trial_pass))))) (Some (PBool True))"
  by (rule pass_is_judged) code_simp+

text \<open>C24. A world that passed, used up its attempts or is blocked is final: whatever happens
  afterwards, the world and the list of its attempts stay as they are.\<close>

theorem closed_world_is_final:
  assumes "world_inv s" and "world_run_ok sha fr s ops"
    and "get_world k owner s = Some w" and "closed_status (tw_status w)"
  shows "get_world k owner (world_run sha fr s ops) = Some w
    \<and> list_attempts k owner (world_run sha fr s ops) = list_attempts k owner s"
proof -
  let ?t = "world_run sha fr s ops"
  have later: "world_later s ?t" and inv: "world_inv ?t"
    using assms(1,2) by (auto intro: world_machine.later_run world_machine.inv_run)
  have w: "dget (worlds s) k = Some w" "tw_owner_id w = owner"
    using assms(3) by (auto simp: get_world_def split: option.splits if_splits)
  then have got: "get_world k owner ?t = Some w"
    using world_laterD(1)[OF later w(1)] assms(4) by (auto simp: get_world_def)
  obtain as where as: "stored_history s k as" "world_history w as"
    using assms(1) w(1) by (rule worlds_invD)
  have "dget (attempts ?t) (at_id a) = Some a" if a: "a \<in> set as" for a
  proof -
    have "dget (attempts s) (at_id a) = Some a" using as(1) a by (simp add: stored_history_def)
    moreover have "\<not> active a"
      using active_world_open(1)[OF assms(1) calculation] assms(4) w(1) as(2) a
        worlds_invD[OF assms(1) w(1)]
      by (metis belongs_def in_set_conv_nth world_history_def)
    ultimately show ?thesis using world_laterD(3)[OF later] by blast
  qed
  moreover have "dget (attempt_ids ?t) k = Some (map at_id as)"
    using world_laterD(2)[OF later, of k "map at_id as"] as(1) w(1) assms(4)
    by (auto simp: stored_history_def)
  ultimately have "list_attempts k owner ?t = Inr as"
    using got attempts_with_ids_stored[of as ?t] by (simp add: list_attempts_def)
  moreover have "list_attempts k owner s = Inr as"
    using assms(3) as(1) attempts_with_ids_stored[of as s]
    by (simp add: list_attempts_def stored_history_def)
  ultimately show ?thesis using got by simp
qed

theorem closed_world_is_final_witness:
  "get_world ''world:1'' ''ann'' (world_run trial_sha trial_fr (trial_run trial_pass)
      [trial_enqueue ''2'' ''k2'', trial_claim ''1'' 500])
    = get_world ''world:1'' ''ann'' (trial_run trial_pass)"
proof -
  have "world_inv (trial_run trial_pass)" by (rule trial_inv) code_simp
  from closed_world_is_final[OF this, of trial_sha trial_fr
      "[trial_enqueue ''2'' ''k2'', trial_claim ''1'' 500]" "''world:1''" "''ann''"
      "the (get_world ''world:1'' ''ann'' (trial_run trial_pass))"]
  show ?thesis by code_simp
qed

subsection \<open>Leases\<close>

lemma claim_grants:
  assumes "world_inv s" "claim_attempt clk i worker seconds now s = (Inr (Some l), t)"
  shows "wl_attempt_id l = i" "wl_generation l = generation_of_attempt t i"
    "wl_generation l = generation_of_attempt s i + 1"
  using assms(2) attempts_invD(1)[OF assms(1)]
  by (auto simp: claim_attempt_def Let_def generation_of_attempt_def split: option.splits if_splits)

lemma complete_attempt_Inl: "complete_attempt fr clk l r now s = (Inl e, t) \<Longrightarrow> t = s"
  by (auto simp: complete_attempt_def Let_def split: option.splits if_splits)

text \<open>C25. Once an attempt has been claimed again, a lease of an earlier generation of it is
  refused for ever: after any further operations, completing, failing or renewing with it raises
  and leaves the store as it is.\<close>

theorem superseded_attempt_lease_is_fenced:
  assumes "world_inv s" and "claim_attempt clk (wl_attempt_id l) worker seconds now s = (Inr (Some l'), t)"
    and "wl_generation l < wl_generation l'" and "world_run_ok sha fr t ops"
    and "u = world_run sha fr t ops"
  shows "(\<exists>e. complete_attempt fr clk' l r now' u = (Inl e, u))
    \<and> (\<exists>e. fail_attempt fr clk' l feedback summary is_blocked ms now' u = (Inl e, u))
    \<and> (\<exists>e. renew_attempt clk' l seconds' now' u = (Inl e, u))"
proof -
  have t: "world_inv t"
    using world_effects_inv[OF claim_attempt_effects[OF assms(1)] assms(1), of clk "wl_attempt_id l" worker seconds now]
      assms(2) by simp
  then have inv: "world_inv u" using assms(4,5) by (auto intro: world_machine.inv_run)
  have no: "\<not> holds_attempt u l"
    unfolding assms(5) by (rule world_leases.fenced[OF t assms(4)])
      (use claim_grants[OF assms(1,2)] assms(3) in simp)
  have "\<exists>e. complete_attempt fr clk' l r now' u = (Inl e, u)"
  proof (cases "complete_attempt fr clk' l r now' u")
    case (Pair v u')
    then show ?thesis using complete_needs_claim[of fr clk' l r now' u] no
        complete_attempt_Inl[of fr clk' l r now' u] by (cases v) auto
  qed
  moreover have "\<exists>e. fail_attempt fr clk' l feedback summary is_blocked ms now' u = (Inl e, u)"
  proof (cases "fail_attempt fr clk' l feedback summary is_blocked ms now' u")
    case (Pair v u')
    then show ?thesis using fail_needs_claim[of fr clk' l feedback summary is_blocked ms now' u] no
        fail_attempt_Inl[OF inv] by (cases v) auto
  qed
  moreover have "\<exists>e. renew_attempt clk' l seconds' now' u = (Inl e, u)"
    using no by (auto simp: renew_attempt_def holds_attempt_def Let_def split: option.splits)
  ultimately show ?thesis by blast
qed

definition trial_reclaimed :: "((nat \<Rightarrow> time) \<times> world_op) list" where
  "trial_reclaimed = [trial_create, trial_enqueue ''1'' ''k1'', trial_claim ''1'' 0,
     (trial_clk, ReconcileAttempts (Some 100) 10)]"

theorem superseded_attempt_lease_is_fenced_witness:
  "\<exists>e. complete_attempt trial_fr trial_clk (trial_lease ''1'' 1 60) trial_result (Some 101)
      (trial_run (trial_reclaimed @ [trial_claim ''1'' 100]))
    = (Inl e, trial_run (trial_reclaimed @ [trial_claim ''1'' 100]))"
proof -
  have inv: "world_inv (trial_run trial_reclaimed)" by (rule trial_inv) code_simp
  have claim: "claim_attempt trial_clk (wl_attempt_id (trial_lease ''1'' 1 60)) ''w'' 60 (Some 100)
      (trial_run trial_reclaimed)
    = (Inr (Some (trial_lease ''1'' 2 160)), trial_run (trial_reclaimed @ [trial_claim ''1'' 100]))"
    by code_simp
  have "trial_run (trial_reclaimed @ [trial_claim ''1'' 100])
    = world_run trial_sha trial_fr (trial_run (trial_reclaimed @ [trial_claim ''1'' 100])) []" by simp
  from superseded_attempt_lease_is_fenced[OF inv claim _ _ this]
  show ?thesis by (simp add: trial_lease_def)
qed

lemma complete_attempt_same:
  assumes "wl_attempt_id l = wl_attempt_id l'" "same_claim l' l"
  shows "complete_attempt fr clk l r now s = complete_attempt fr clk l' r now s"
proof -
  have claim: "same_claim c l = same_claim c l'" for c using assms(2) by (auto simp: same_claim_def)
  show ?thesis unfolding complete_attempt_def assms(1) claim ..
qed

definition trial_renewed :: "((nat \<Rightarrow> time) \<times> world_op) list" where
  "trial_renewed = [trial_create, trial_enqueue ''1'' ''k1'', trial_claim ''1'' 0]"

lemma renewed_claim:
  assumes "world_inv s" and "renew_attempt clk l seconds now s = (Inr l', t)"
  shows "world_inv t" "dget (attempt_claims t) (wl_attempt_id l) = Some l'"
    "wl_attempt_id l' = wl_attempt_id l" "same_claim l' l" "attempts t = attempts s" "worlds t = worlds s"
proof -
  obtain c where c: "dget (attempt_claims s) (wl_attempt_id l) = Some c" "same_claim c l"
    "l' = c\<lparr>wl_expires_at := wl_expires_at l'\<rparr>"
    "t = s\<lparr>attempt_claims := dset (attempt_claims s) (wl_attempt_id l) l'\<rparr>"
    using assms(2) by (auto simp: renew_attempt_def Let_def split: option.splits if_splits)
  show "dget (attempt_claims t) (wl_attempt_id l) = Some l'" "attempts t = attempts s"
    "worlds t = worlds s" using c(4) by simp_all
  have "wl_attempt_id c = wl_attempt_id l" using assms(1) c(1) by (rule claims_invD)
  then show "wl_attempt_id l' = wl_attempt_id l" by (subst c(3)) simp
  show "same_claim l' l" using c(2) by (subst c(3)) (simp add: same_claim_def)
  show "world_inv t"
    using world_effects_inv[OF renew_attempt_effects[OF assms(1)] assms(1), of clk l seconds now] assms(2)
    by simp
qed

lemma fail_after_renewal:
  assumes "world_inv s" and "renew_attempt clk l seconds now s = (Inr l', t)"
    and "wl_expires_at l' \<noteq> wl_expires_at l"
  shows "\<exists>e. fail_attempt fr clk' l feedback summary is_blocked ms now' t = (Inl e, t)"
proof (cases "fail_attempt fr clk' l feedback summary is_blocked ms now' t")
  case (Pair v u)
  note inv = renewed_claim(1)[OF assms(1,2)]
  show ?thesis
  proof (cases v)
    case (Inl e)
    then show ?thesis using Pair fail_attempt_Inl[OF inv] by blast
  next
    case (Inr b)
    then have "dget (attempt_claims t) (wl_attempt_id l) = Some l"
      using fail_attempt_cases[OF inv, of fr clk' l feedback summary is_blocked ms now' b u] Pair
      by blast
    then show ?thesis using renewed_claim(2)[OF assms(1,2)] assms(3) by simp
  qed
qed

text \<open>A renewal makes a new lease, and the store still completes an attempt under the old
  one exactly as under the new one; but \<open>fail_attempt\<close> and \<open>release_attempt\<close> compare the whole
  lease with the stored one, so that with the lease a worker was given at the claim they raise
  and do nothing from the first renewal on that moves the expiry.\<close>

theorem renewal_defeats_fail_and_release:
  assumes "world_inv s" and "renew_attempt clk l seconds now s = (Inr l', t)"
    and "wl_expires_at l' \<noteq> wl_expires_at l"
  shows "complete_attempt fr clk' l r now' t = complete_attempt fr clk' l' r now' t
    \<and> (\<exists>e. fail_attempt fr clk' l feedback summary is_blocked ms now' t = (Inl e, t))
    \<and> release_attempt l t = t"
proof (intro conjI)
  note claim = renewed_claim[OF assms(1,2)]
  show "complete_attempt fr clk' l r now' t = complete_attempt fr clk' l' r now' t"
    by (rule complete_attempt_same[OF claim(3)[symmetric] claim(4)])
  show "\<exists>e. fail_attempt fr clk' l feedback summary is_blocked ms now' t = (Inl e, t)"
    by (rule fail_after_renewal[OF assms])
  show "release_attempt l t = t" using claim(2) assms(3) by (auto simp: release_attempt_def)
qed

theorem renewal_defeats_fail_and_release_witness:
  "\<exists>e. fail_attempt trial_fr trial_clk (trial_lease ''1'' 1 60) [] [] False 5 (Some 31)
      (trial_run (trial_renewed @ [(trial_clk, RenewAttempt (trial_lease ''1'' 1 60) 60 (Some 30))]))
    = (Inl e, trial_run (trial_renewed @ [(trial_clk, RenewAttempt (trial_lease ''1'' 1 60) 60 (Some 30))]))"
proof -
  have inv: "world_inv (trial_run trial_renewed)" by (rule trial_inv) code_simp
  have renew: "renew_attempt trial_clk (trial_lease ''1'' 1 60) 60 (Some 30) (trial_run trial_renewed)
    = (Inr (trial_lease ''1'' 1 90),
       trial_run (trial_renewed @ [(trial_clk, RenewAttempt (trial_lease ''1'' 1 60) 60 (Some 30))]))"
    by code_simp
  from renewal_defeats_fail_and_release[OF inv renew] show ?thesis by (simp add: trial_lease_def)
qed

subsection \<open>Repeated requests\<close>

lemma enqueue_remembers:
  assumes "world_inv s" "enqueue_attempt clk i w owner idem mode s = (Inr a, t)"
  obtains m where "attempt_mode_of mode = Some m"
    "dget (attempt_idempotency t) (owner, idem) = Some (w, at_id a, m)"
    "dget (attempts t) (at_id a) = Some a" "idem \<noteq> []" "utf8_size idem \<le> 200"
proof -
  obtain m j where m: "attempt_mode_of mode = Some m" "idem \<noteq> []" "utf8_size idem \<le> 200"
    "dget (attempt_idempotency t) (owner, idem) = Some (w, j, m)" "dget (attempts t) j = Some a"
    "j = at_id a \<or> t = s"
    using assms(2) by (auto simp: enqueue_attempt_def Let_def split: option.splits if_splits sum.splits)
  have "at_id a = j"
  proof (cases "t = s")
    case True
    then show ?thesis using attempts_invD(1)[OF assms(1)] m(5) by blast
  qed (use m(6) in simp)
  then show thesis using that m by blast
qed

text \<open>Asking again for an attempt with the same key, world and mode, after any operations,
  returns the attempt of the first request (with the status it has by then) and changes
  nothing; with another world or mode it raises.\<close>

theorem enqueue_is_idempotent:
  assumes "world_inv s" and "dget (attempts s) (''attempt:'' @ i) = None"
    and "enqueue_attempt clk i w owner idem mode s = (Inr a, t)"
    and "world_run_ok sha fr t ops" and "u = world_run sha fr t ops"
  shows "(\<exists>b. enqueue_attempt clk' i' w owner idem mode u = (Inr b, u) \<and> same_attempt a b)
    \<and> (\<forall>w' mode'. attempt_mode_of mode' \<noteq> None
         \<and> (w', attempt_mode_of mode') \<noteq> (w, attempt_mode_of mode)
       \<longrightarrow> (\<exists>e. enqueue_attempt clk' i' w' owner idem mode' u = (Inl (TestWorldConflict e), u)))"
proof -
  obtain m where m: "attempt_mode_of mode = Some m"
    "dget (attempt_idempotency t) (owner, idem) = Some (w, at_id a, m)"
    "dget (attempts t) (at_id a) = Some a" "idem \<noteq> []" "utf8_size idem \<le> 200"
    using assms(1,3) by (rule enqueue_remembers)
  have "world_inv t"
    using world_effects_inv[OF enqueue_attempt_effects[OF assms(1,2)] assms(1), of clk w owner idem mode]
      assms(3) by simp
  then have later: "world_later t u" using assms(4,5) by (auto intro: world_machine.later_run)
  have idem: "dget (attempt_idempotency u) (owner, idem) = Some (w, at_id a, m)"
    by (rule world_laterD(6)[OF later m(2)])
  obtain b where "dget (attempts u) (at_id a) = Some b" "same_attempt a b"
    using world_laterD(3)[OF later m(3)] by blast
  then show ?thesis using idem m by (auto simp: enqueue_attempt_def)
qed

theorem enqueue_is_idempotent_witness:
  "\<exists>b. enqueue_attempt trial_clk ''9'' ''world:1'' ''ann'' ''k1'' ''retry''
        (trial_run (trial_renewed @ [])) = (Inr b, trial_run (trial_renewed @ []))
     \<and> at_number b = 1"
proof -
  have inv: "world_inv (trial_run [trial_create])" by (rule trial_inv) code_simp
  have new: "dget (attempts (trial_run [trial_create])) (''attempt:'' @ ''1'') = None" by code_simp
  have first: "enqueue_attempt trial_clk ''1'' ''world:1'' ''ann'' ''k1'' ''retry'' (trial_run [trial_create])
    = (Inr (the (get_attempt ''attempt:1'' ''ann'' (trial_run [trial_create, trial_enqueue ''1'' ''k1'']))),
       trial_run [trial_create, trial_enqueue ''1'' ''k1''])" by code_simp
  have "world_run_ok trial_sha trial_fr (trial_run [trial_create, trial_enqueue ''1'' ''k1''])
    [trial_claim ''1'' 0]" by code_simp
  moreover have "trial_run (trial_renewed @ []) = world_run trial_sha trial_fr
    (trial_run [trial_create, trial_enqueue ''1'' ''k1'']) [trial_claim ''1'' 0]"
    by (simp add: trial_renewed_def)
  moreover have "at_number (the (get_attempt ''attempt:1'' ''ann''
    (trial_run [trial_create, trial_enqueue ''1'' ''k1'']))) = 1" by code_simp
  ultimately show ?thesis
    using enqueue_is_idempotent[OF inv new first] by (fastforce simp: same_attempt_def)
qed

subsection \<open>Recovery of stranded attempts\<close>

definition stranded :: "time \<Rightarrow> world_store \<Rightarrow> world_attempt \<Rightarrow> bool" where
  "stranded current s a \<longleftrightarrow> at_status a = AttemptRunning
     \<and> (case dget (attempt_claims s) (at_id a) of None \<Rightarrow> True | Some c \<Rightarrow> wl_expires_at c \<le> current)"

definition requeued :: "world_attempt \<Rightarrow> world_attempt" where
  "requeued a = a\<lparr>at_status := AttemptQueued, at_started_at := None\<rparr>"

lemma reconcile_attempt_claims:
  "i \<noteq> at_id a \<Longrightarrow> dget (attempt_claims (snd (reconcile_attempt current a s))) i = dget (attempt_claims s) i"
  by (auto simp: reconcile_attempt_def Let_def split: option.splits)

lemma reconcile_attempt_Inr:
  assumes "world_inv s" "dget (attempts s) (at_id a) = Some a"
  shows "\<exists>r. fst (reconcile_attempt current a s) = Inr r"
  using attempts_invD(2)[OF assms]
  by (auto simp: reconcile_attempt_def Let_def split: option.splits if_splits)

lemma reconcile_attempt_stranded:
  assumes "world_inv s" "dget (attempts s) (at_id a) = Some a" "stranded current s a"
  shows "dget (attempts (snd (reconcile_attempt current a s))) (at_id a) = Some (requeued a)
     \<and> dget (attempt_claims (snd (reconcile_attempt current a s))) (at_id a) = None"
  using attempts_invD(2)[OF assms(1,2)] assms(3)
  by (auto simp: reconcile_attempt_def Let_def stranded_def requeued_def split: option.splits if_splits)

lemma reconcile_attempts_others:
  "i \<notin> at_id ` set as \<Longrightarrow>
     dget (attempts (snd (reconcile_attempts current limit as recovered s))) i = dget (attempts s) i
   \<and> dget (attempt_claims (snd (reconcile_attempts current limit as recovered s))) i
       = dget (attempt_claims s) i"
proof (induction as arbitrary: recovered s)
  case (Cons a as)
  then show ?case
    using reconcile_attempt_others[of i a current s] reconcile_attempt_claims[of i a current s]
    by (cases "reconcile_attempt current a s") (auto simp: bind_op_def split: sum.splits)
qed simp

lemma reconcile_attempts_recovers:
  "world_inv s \<Longrightarrow> distinct (map at_id as) \<Longrightarrow> \<forall>a \<in> set as. dget (attempts s) (at_id a) = Some a
    \<Longrightarrow> length recovered + length as \<le> limit \<Longrightarrow> a \<in> set as \<Longrightarrow> stranded current s a
    \<Longrightarrow> dget (attempts (snd (reconcile_attempts current limit as recovered s))) (at_id a) = Some (requeued a)
     \<and> dget (attempt_claims (snd (reconcile_attempts current limit as recovered s))) (at_id a) = None"
proof (induction as arbitrary: recovered s)
  case (Cons b as)
  have b: "dget (attempts s) (at_id b) = Some b" using Cons.prems(3) by simp
  obtain r where r: "fst (reconcile_attempt current b s) = Inr r"
    using reconcile_attempt_Inr[OF Cons.prems(1) b] by blast
  define s' where "s' = snd (reconcile_attempt current b s)"
  define rec where "rec = (case r of None \<Rightarrow> recovered | Some q \<Rightarrow> recovered @ [q])"
  have step: "reconcile_attempts current limit (b # as) recovered s = reconcile_attempts current limit as rec s'"
    using r Cons.prems(4) by (cases "reconcile_attempt current b s") (simp add: s'_def rec_def)
  have "reconcile_attempt current b s = (Inr r, s')" using r by (simp add: s'_def prod_eq_iff)
  note frame = reconcile_attempt_frame[OF Cons.prems(1-3) this]
  have other: "at_id c \<noteq> at_id b" if "c \<in> set as" for c
    using Cons.prems(2) that by (auto simp: image_iff)
  show ?case
  proof (cases "a = b")
    case True
    then have "at_id a \<notin> at_id ` set as" using Cons.prems(2) by simp
    then show ?thesis unfolding step
      using reconcile_attempts_others reconcile_attempt_stranded[OF Cons.prems(1) b] Cons.prems(6) True
      by (simp add: s'_def)
  next
    case False
    then have a: "a \<in> set as" using Cons.prems(5) by simp
    then have "stranded current s' a"
      using Cons.prems(6) other reconcile_attempt_claims[of "at_id a" b current s]
      by (simp add: stranded_def s'_def)
    moreover have "length rec + length as \<le> limit" using Cons.prems(4)
      by (cases r) (auto simp: rec_def)
    ultimately show ?thesis unfolding step using Cons.IH[OF frame(1) _ frame(2)] Cons.prems(2) a by simp
  qed
qed simp



end
