(* ===== verification/AgentResult.thy ===== *)
theory AgentResult
  imports PyValue
begin

section \<open>What the engineering agent returns\<close>

text \<open>
  The result record of \<open>core/lil_tweak/openai_agent.py\<close>. The agent itself talks to a model
  over the network and is a parameter of the components that call it.
\<close>

record agent_result =
  agent_plan :: string
  agent_summary :: string
  agent_tests :: string
  agent_patch :: string
  agent_external_action :: "(string, string) dict option"
  agent_commands :: "string list list"
  agent_model_calls :: int
  agent_input_tokens :: int
  agent_output_tokens :: int
  agent_total_tokens :: int

end
