(* ===== verification/TestWorldRunner.thy ===== *)
theory TestWorldRunner
  imports TestWorldProps AgentResult
begin

section \<open>Running and judging an attempt\<close>

text \<open>
  \<open>TestWorldAttemptRunner\<close> of \<open>core/lil_tweak/test_world_runner.py\<close>. The callables it is
  constructed with (workspace, agent, checks, cleanup) are the fields of \<open>runner_env\<close>: each is
  a function of the environment \<open>'e\<close> and the store, because other threads (the scheduler's
  heartbeat among them) use the store while a callable runs. The readings of the two clocks are
  named by their place in \<open>run_attempt\<close>. \<open>ExternalError\<close> is any exception that is not the
  store's; \<open>BaseException\<close>s are not modelled.
\<close>

datatype runner_error = StoreError world_error | ExternalError

type_synonym ('a, 'e) callable = "'e \<times> world_store \<Rightarrow> (runner_error + 'a) \<times> ('e \<times> world_store)"

text \<open>\<open>run_agent\<close> returns \<open>None\<close> for an object that is not an \<open>AgentResult\<close>.\<close>

record ('w, 'e) runner_env =
  prepare_workspace :: "test_world \<Rightarrow> world_attempt \<Rightarrow> ('w, 'e) callable"
  apply_previous_patch :: "'w \<Rightarrow> string \<Rightarrow> (unit, 'e) callable"
  run_agent :: "'w \<Rightarrow> string \<Rightarrow> (agent_result option, 'e) callable"
  capture_cumulative_patch :: "'w \<Rightarrow> (pyval, 'e) callable"
  run_check :: "'w \<Rightarrow> test_check \<Rightarrow> (pydict, 'e) callable"
  cleanup_workspace :: "'w \<Rightarrow> (unit, 'e) callable"

text \<open>The state of a call: what is outside, and the locals \<open>workspace\<close> and \<open>cleaned\<close>.\<close>

record ('w, 'e) run_state =
  rs_env :: 'e
  rs_store :: world_store
  rs_workspace :: "'w option"
  rs_cleaned :: bool

subsection \<open>The prompt\<close>

definition max_prior_feedback_bytes :: int where
  "max_prior_feedback_bytes = 32 * 1024"

text \<open>\<open>data[:n].decode("utf-8", "ignore")\<close> of the bytes of a text.\<close>

fun utf8_prefix :: "int \<Rightarrow> string \<Rightarrow> string" where
  "utf8_prefix n [] = []"
| "utf8_prefix n (c # s) =
     (if utf8_size [c] \<le> n then c # utf8_prefix (n - utf8_size [c]) s else [])"

definition bounded_feedback_json :: "(rat \<Rightarrow> string) \<Rightarrow> pyval \<Rightarrow> string" where
  "bounded_feedback_json fr v =
     (let encoded = dumps fr False v in
      if utf8_size encoded \<le> max_prior_feedback_bytes then encoded
      else dumps fr False (PDict [(''truncated'', PBool True),
        (''preview'', PStr (utf8_prefix (max_prior_feedback_bytes - 128) encoded))]))"

definition attempt_prompt :: "(rat \<Rightarrow> string) \<Rightarrow> test_world \<Rightarrow> world_attempt option \<Rightarrow> string" where
  "attempt_prompt fr w previous =
     join [CHR 0x0A, CHR 0x0A]
       ([''You are working inside a bounded Tueiq Test World.'',
         ''Objective: '' @ tw_objective w,
         ''The trusted core, not your self-report, decides success by running deterministic judge checks after you finish.'',
         ''Do not attempt external actions. Network access is disabled. Make only changes required by the objective.'']
        @ (case previous of None \<Rightarrow> []
           | Some p \<Rightarrow>
             [''Previous attempt feedback:'',
              bounded_feedback_json fr (PList (map PDict (at_feedback p))),
              ''Continue from the previous accepted cumulative patch and repair the remaining failures.'']))"

subsection \<open>Judging\<close>

definition get_or :: "pydict \<Rightarrow> string \<Rightarrow> pyval \<Rightarrow> pyval" where
  "get_or d k v = (case dget d k of None \<Rightarrow> v | Some x \<Rightarrow> x)"

fun is_bool :: "pyval \<Rightarrow> bool" where
  "is_bool (PBool _) = True"
| "is_bool _ = False"

fun exit_code_ok :: "pyval \<Rightarrow> bool" where
  "exit_code_ok PNone = True"
| "exit_code_ok (PInt _) = True"
| "exit_code_ok _ = False"

definition judge_feedback :: "test_check \<Rightarrow> pydict \<Rightarrow> runner_error + pydict" where
  "judge_feedback c result =
     (let passed = get_or result ''passed'' PNone;
          exit_code = get_or result ''exitCode'' PNone;
          timed_out = get_or result ''timedOut'' PNone;
          truncated = get_or result ''truncated'' PNone;
          stdout = get_or result ''stdout'' (PStr []);
          stderr = get_or result ''stderr'' (PStr [])
      in if \<not> is_bool passed \<or> \<not> exit_code_ok exit_code \<or> \<not> is_bool timed_out
            \<or> \<not> is_bool truncated \<or> \<not> is_str stdout \<or> \<not> is_str stderr
         then Inl ExternalError
         else Inr [(''check'', PStr (check_name c)), (''passed'', passed), (''exitCode'', exit_code),
           (''timedOut'', timed_out), (''truncated'', truncated), (''stdout'', stdout),
           (''stderr'', stderr)])"

text \<open>\<open>round\<close> goes to the even neighbour at a half.\<close>

definition py_round :: "rat \<Rightarrow> int" where
  "py_round q = (let f = \<lfloor>q\<rfloor>; d = q - of_int f in
     if d < 1 / 2 then f else if 1 / 2 < d then f + 1 else if even f then f else f + 1)"

definition elapsed_ms :: "time \<Rightarrow> time \<Rightarrow> int" where
  "elapsed_ms start end = max 0 (min 86400000 (py_round ((end - start) * 1000)))"

definition external :: "('a, 'e) callable \<Rightarrow> ('w, 'e) run_state \<Rightarrow> (runner_error, 'a, ('w, 'e) run_state) outcome" where
  "external f st = (case f (rs_env st, rs_store st) of
     (r, (e, s)) \<Rightarrow> (r, st\<lparr>rs_env := e, rs_store := s\<rparr>))"

definition on_store :: "(world_store \<Rightarrow> (world_error, 'a, world_store) outcome) \<Rightarrow> ('w, 'e) run_state
    \<Rightarrow> (runner_error, 'a, ('w, 'e) run_state) outcome" where
  "on_store f st = (case f (rs_store st) of
     (Inl e, s) \<Rightarrow> (Inl (StoreError e), st\<lparr>rs_store := s\<rparr>)
   | (Inr x, s) \<Rightarrow> (Inr x, st\<lparr>rs_store := s\<rparr>))"

fun judge_checks :: "('w, 'e) runner_env \<Rightarrow> 'w \<Rightarrow> test_check list \<Rightarrow> pydict list \<Rightarrow> bool
    \<Rightarrow> ('w, 'e) run_state \<Rightarrow> (runner_error, pydict list \<times> bool, ('w, 'e) run_state) outcome" where
  "judge_checks env ws [] feedback all_passed st = (Inr (feedback, all_passed), st)"
| "judge_checks env ws (c # cs) feedback all_passed st =
     bind_op (external (run_check env ws c) st) (\<lambda>result st.
       case judge_feedback c result of
         Inl e \<Rightarrow> (Inl e, st)
       | Inr item \<Rightarrow> judge_checks env ws cs (feedback @ [item])
           (all_passed \<and> dget item ''passed'' = Some (PBool True)) st)"

subsection \<open>One attempt\<close>

definition runner_config_ok :: "string \<Rightarrow> int \<Rightarrow> bool" where
  "runner_config_ok worker lease_seconds \<longleftrightarrow> worker \<noteq> [] \<and> 1 \<le> lease_seconds \<and> lease_seconds \<le> 3600"

text \<open>The readings of \<open>monotonic\<close>, by place.\<close>

record stopwatch =
  attempt_started :: time
  judge_started :: time
  judge_finished :: time
  attempt_finished :: time
  failure_observed :: time

text \<open>The attempt whose patch and feedback a retry starts from; its lookup raises inside the
  \<open>try\<close>.\<close>

definition previous_attempt :: "('w, 'e) runner_env \<Rightarrow> 'w \<Rightarrow> world_attempt \<Rightarrow> string
    \<Rightarrow> ('w, 'e) run_state \<Rightarrow> (runner_error, world_attempt option, ('w, 'e) run_state) outcome" where
  "previous_attempt env ws a owner st =
     (case (at_mode a, at_previous_attempt_id a) of
        (ModeRetry, Some i) \<Rightarrow>
          (case get_attempt i owner (rs_store st) of
             None \<Rightarrow> (Inl (StoreError (TestWorldNotFound ''previous attempt not found'')), st)
           | Some p \<Rightarrow>
               if at_cumulative_patch p \<noteq> []
               then bind_op (external (apply_previous_patch env ws (at_cumulative_patch p)) st)
                 (\<lambda>_ st. (Inr (Some p), st))
               else (Inr (Some p), st))
      | _ \<Rightarrow> (Inr None, st))"

definition result_of :: "agent_result \<Rightarrow> string \<Rightarrow> pydict list \<Rightarrow> bool \<Rightarrow> stopwatch \<Rightarrow> attempt_result" where
  "result_of r patch feedback all_passed w =
     \<lparr>res_passed = all_passed, res_feedback = feedback, res_cumulative_patch = patch,
      res_plan = agent_plan r, res_summary = agent_summary r, res_tests = agent_tests r,
      res_model_calls = agent_model_calls r, res_input_tokens = agent_input_tokens r,
      res_output_tokens = agent_output_tokens r, res_total_tokens = agent_total_tokens r,
      res_duration_ms = elapsed_ms (attempt_started w) (attempt_finished w),
      res_judge_duration_ms = elapsed_ms (judge_started w) (judge_finished w)\<rparr>"

text \<open>The body of the \<open>try\<close>.\<close>

definition attempt_body :: "('w, 'e) runner_env \<Rightarrow> (rat \<Rightarrow> string) \<Rightarrow> (nat \<Rightarrow> time) \<Rightarrow> stopwatch
    \<Rightarrow> test_world \<Rightarrow> world_attempt \<Rightarrow> string \<Rightarrow> world_lease \<Rightarrow> ('w, 'e) run_state
    \<Rightarrow> (runner_error, world_attempt, ('w, 'e) run_state) outcome" where
  "attempt_body env fr clk watch w a owner lease st =
     bind_op (external (prepare_workspace env w a) st) (\<lambda>ws st.
     bind_op (previous_attempt env ws a owner (st\<lparr>rs_workspace := Some ws\<rparr>)) (\<lambda>previous st.
     bind_op (external (run_agent env ws (attempt_prompt fr w previous)) st) (\<lambda>agent st.
     case agent of None \<Rightarrow> (Inl ExternalError, st) | Some r \<Rightarrow>
     bind_op (external (capture_cumulative_patch env ws) st) (\<lambda>captured st.
     case captured of PStr patch \<Rightarrow>
       bind_op (judge_checks env ws (tw_checks w) [] True st) (\<lambda>(feedback, all_passed) st.
       bind_op (external (cleanup_workspace env ws) st) (\<lambda>_ st.
       on_store (complete_attempt fr clk lease (result_of r patch feedback all_passed watch) (Some (clk 1)))
         (st\<lparr>rs_cleaned := True\<rparr>)))
     | _ \<Rightarrow> (Inl ExternalError, st)))))"

definition runtime_failed_feedback :: "pydict list" where
  "runtime_failed_feedback = [[(''code'', PStr ''attempt_runtime_failed'')]]"

definition runtime_failed_summary :: string where
  "runtime_failed_summary =
     ''Attempt runtime failed before a trustworthy judge result was produced.''"

definition reraised :: "runner_error \<Rightarrow> bool" where
  "reraised e \<longleftrightarrow> (case e of StoreError (TestWorldConflict _) \<Rightarrow> True
     | StoreError (TestWorldNotFound _) \<Rightarrow> True | _ \<Rightarrow> False)"

text \<open>The \<open>except\<close> clauses; the store has \<open>fail_attempt\<close>.\<close>

definition attempt_guarded :: "('w, 'e) runner_env \<Rightarrow> (rat \<Rightarrow> string) \<Rightarrow> (nat \<Rightarrow> time) \<Rightarrow> stopwatch
    \<Rightarrow> test_world \<Rightarrow> world_attempt \<Rightarrow> string \<Rightarrow> world_lease \<Rightarrow> ('w, 'e) run_state
    \<Rightarrow> (runner_error, world_attempt, ('w, 'e) run_state) outcome" where
  "attempt_guarded env fr clk watch w a owner lease st =
     (case attempt_body env fr clk watch w a owner lease st of
        (Inr b, st) \<Rightarrow> (Inr b, st)
      | (Inl e, st) \<Rightarrow>
          if reraised e then (Inl e, st)
          else on_store (fail_attempt fr clk lease runtime_failed_feedback runtime_failed_summary False
            (elapsed_ms (attempt_started watch) (failure_observed watch)) (Some (clk 2))) st)"

text \<open>The \<open>finally\<close> clause: what the cleanup raises is dropped.\<close>

definition cleanup_if_needed :: "('w, 'e) runner_env \<Rightarrow> ('w, 'e) run_state \<Rightarrow> ('w, 'e) run_state" where
  "cleanup_if_needed env st =
     (case rs_workspace st of
        Some ws \<Rightarrow> if rs_cleaned st then st else snd (external (cleanup_workspace env ws) st)
      | None \<Rightarrow> st)"

definition lease_mismatch :: "world_lease \<Rightarrow> world_attempt \<Rightarrow> string \<Rightarrow> string \<Rightarrow> bool" where
  "lease_mismatch l a owner worker \<longleftrightarrow>
     wl_attempt_id l \<noteq> at_id a \<or> wl_world_id l \<noteq> at_world_id a \<or> wl_owner_id l \<noteq> owner
     \<or> wl_worker_id l \<noteq> worker \<or> wl_generation l \<le> 0 \<or> at_status a \<noteq> AttemptRunning"

text \<open>The lease the attempt runs under, or the attempt that is returned because it has ended.\<close>

definition attempt_lease :: "string \<Rightarrow> int \<Rightarrow> (nat \<Rightarrow> time) \<Rightarrow> string \<Rightarrow> string \<Rightarrow> world_attempt
    \<Rightarrow> world_lease option \<Rightarrow> world_store \<Rightarrow> (world_error, world_lease + world_attempt, world_store) outcome" where
  "attempt_lease worker lease_seconds clk attempt_id owner a lease s =
     (case lease of
        None \<Rightarrow>
          bind_op (claim_attempt clk attempt_id worker lease_seconds (Some (clk 0)) s) (\<lambda>claimed s.
            case claimed of Some l \<Rightarrow> (Inr (Inl l), s)
            | None \<Rightarrow>
              (case get_attempt attempt_id owner s of
                 None \<Rightarrow> (Inl (TestWorldNotFound ''attempt not found''), s)
               | Some current \<Rightarrow>
                   if attempt_status_value (at_status current) \<in> {''passed'', ''failed'', ''error''}
                   then (Inr (Inr current), s)
                   else (Inl (TestWorldConflict ''attempt is already claimed''), s)))
      | Some l \<Rightarrow>
          if lease_mismatch l a owner worker
          then (Inl (TestWorldConflict ''invalid preclaimed attempt lease''), s)
          else (Inr (Inl l), s))"

definition run_attempt :: "('w, 'e) runner_env \<Rightarrow> string \<Rightarrow> int \<Rightarrow> (rat \<Rightarrow> string) \<Rightarrow> (nat \<Rightarrow> time)
    \<Rightarrow> stopwatch \<Rightarrow> string \<Rightarrow> string \<Rightarrow> world_lease option \<Rightarrow> 'e \<times> world_store
    \<Rightarrow> (runner_error + world_attempt) \<times> ('e \<times> world_store)" where
  "run_attempt env worker lease_seconds fr clk watch attempt_id owner lease es =
     (case es of (e, s) \<Rightarrow>
      (case get_attempt attempt_id owner s of
         None \<Rightarrow> (Inl (StoreError (TestWorldNotFound ''attempt not found'')), (e, s))
       | Some a \<Rightarrow>
         (case attempt_lease worker lease_seconds clk attempt_id owner a lease s of
            (Inl err, s) \<Rightarrow> (Inl (StoreError err), (e, s))
          | (Inr (Inr current), s) \<Rightarrow> (Inr current, (e, s))
          | (Inr (Inl l), s) \<Rightarrow>
            (case get_world (at_world_id a) owner s of
               None \<Rightarrow> (Inl (StoreError (TestWorldNotFound ''world not found'')), (e, release_attempt l s))
             | Some w \<Rightarrow>
               (case attempt_guarded env fr clk watch w a owner l
                   \<lparr>rs_env = e, rs_store = s, rs_workspace = None, rs_cleaned = False\<rparr> of
                  (r, st) \<Rightarrow>
                    let st' = cleanup_if_needed env st in (r, (rs_env st', rs_store st')))))))"

subsection \<open>What an attempt's result is worth\<close>

lemma judge_checks_Inr:
  "judge_checks env ws cs feedback all_passed st = (Inr (feedback', all_passed'), st') \<Longrightarrow>
    \<exists>items. feedback' = feedback @ items
      \<and> map (\<lambda>f. dget f ''check'') items = map (Some \<circ> PStr \<circ> check_name) cs
      \<and> (all_passed' \<longleftrightarrow> all_passed \<and> list_all (\<lambda>f. dget f ''passed'' = Some (PBool True)) items)"
proof (induction cs arbitrary: feedback all_passed st)
  case (Cons c cs)
  obtain result st1 where run: "external (run_check env ws c) st = (Inr result, st1)"
    using Cons.prems by (cases "external (run_check env ws c) st"; cases "fst (external (run_check env ws c) st)")
      auto
  obtain item where item: "judge_feedback c result = Inr item"
    using Cons.prems run by (auto split: sum.splits)
  have check: "dget item ''check'' = Some (PStr (check_name c))"
    using item by (auto simp: judge_feedback_def Let_def split: if_splits)
  from Cons.prems run item have "judge_checks env ws cs (feedback @ [item])
      (all_passed \<and> dget item ''passed'' = Some (PBool True)) st1 = (Inr (feedback', all_passed'), st')"
    by simp
  from Cons.IH[OF this] obtain items where "feedback' = (feedback @ [item]) @ items"
    "map (\<lambda>f. dget f ''check'') items = map (Some \<circ> PStr \<circ> check_name) cs"
    "all_passed' \<longleftrightarrow> (all_passed \<and> dget item ''passed'' = Some (PBool True))
      \<and> list_all (\<lambda>f. dget f ''passed'' = Some (PBool True)) items"
    by blast
  then show ?case using check by (intro exI[of _ "item # items"]) auto
qed simp

lemma on_store_Inr:
  "on_store f st = (Inr x, st') \<Longrightarrow> f (rs_store st) = (Inr x, rs_store st')"
  by (auto simp: on_store_def split: prod.splits sum.splits)

lemma external_Inr:
  "external f st = (Inr x, st') \<Longrightarrow> f (rs_env st, rs_store st) = (Inr x, (rs_env st', rs_store st'))"
  by (auto simp: external_def split: prod.splits)

text \<open>A verdict: every check was judged, and it was stored, leaving the store \<open>t\<close>, after a
  successful teardown.\<close>

definition judged_verdict :: "('w, 'e) runner_env \<Rightarrow> (rat \<Rightarrow> string) \<Rightarrow> (nat \<Rightarrow> time) \<Rightarrow> world_lease
    \<Rightarrow> test_world \<Rightarrow> world_attempt \<Rightarrow> world_store \<Rightarrow> bool" where
  "judged_verdict env fr clk l w b t \<longleftrightarrow>
     map (\<lambda>f. dget f ''check'') (at_feedback b) = map (Some \<circ> PStr \<circ> check_name) (tw_checks w)
     \<and> at_status b = (if list_all (\<lambda>f. dget f ''passed'' = Some (PBool True)) (at_feedback b)
         then AttemptPassed else AttemptFailed)
     \<and> (\<exists>ws es e s r. cleanup_workspace env ws es = (Inr (), (e, s))
          \<and> complete_attempt fr clk l r (Some (clk 1)) s = (Inr b, t))"

lemma complete_attempt_result:
  "complete_attempt fr clk l r now s = (Inr b, t) \<Longrightarrow>
     at_feedback b = res_feedback r \<and> at_status b = (if res_passed r then AttemptPassed else AttemptFailed)"
  by (auto simp: complete_attempt_def completed_attempt_def Let_def split: option.splits if_splits)

lemma fail_attempt_result:
  "fail_attempt fr clk l feedback summary is_blocked ms now s = (Inr b, t) \<Longrightarrow>
     at_feedback b = feedback \<and> at_status b = AttemptError"
  by (auto simp: fail_attempt_def failed_attempt_def Let_def split: option.splits if_splits sum.splits)

lemma attempt_body_verdict:
  assumes "attempt_body env fr clk watch w a owner l st = (Inr b, st')"
  shows "judged_verdict env fr clk l w b (rs_store st') \<and> rs_cleaned st'"
proof -
  obtain ws st1 where "bind_op (previous_attempt env ws a owner (st1\<lparr>rs_workspace := Some ws\<rparr>)) (\<lambda>previous st.
     bind_op (external (run_agent env ws (attempt_prompt fr w previous)) st) (\<lambda>agent st.
     case agent of None \<Rightarrow> (Inl ExternalError, st) | Some r \<Rightarrow>
     bind_op (external (capture_cumulative_patch env ws) st) (\<lambda>captured st.
     case captured of PStr patch \<Rightarrow>
       bind_op (judge_checks env ws (tw_checks w) [] True st) (\<lambda>(feedback, all_passed) st.
       bind_op (external (cleanup_workspace env ws) st) (\<lambda>_ st.
       on_store (complete_attempt fr clk l (result_of r patch feedback all_passed watch) (Some (clk 1)))
         (st\<lparr>rs_cleaned := True\<rparr>)))
     | _ \<Rightarrow> (Inl ExternalError, st)))) = (Inr b, st')"
    using bind_op_Inr[OF assms[unfolded attempt_body_def]] by blast
  then obtain agent st2 where "(case agent of None \<Rightarrow> (Inl ExternalError, st2) | Some r \<Rightarrow>
     bind_op (external (capture_cumulative_patch env ws) st2) (\<lambda>captured st.
     case captured of PStr patch \<Rightarrow>
       bind_op (judge_checks env ws (tw_checks w) [] True st) (\<lambda>(feedback, all_passed) st.
       bind_op (external (cleanup_workspace env ws) st) (\<lambda>_ st.
       on_store (complete_attempt fr clk l (result_of r patch feedback all_passed watch) (Some (clk 1)))
         (st\<lparr>rs_cleaned := True\<rparr>)))
     | _ \<Rightarrow> (Inl ExternalError, st))) = (Inr b, st')"
    by (blast dest: bind_op_Inr)
  then obtain r patch st3 where "bind_op (judge_checks env ws (tw_checks w) [] True st3) (\<lambda>(feedback, all_passed) st.
       bind_op (external (cleanup_workspace env ws) st) (\<lambda>_ st.
       on_store (complete_attempt fr clk l (result_of r patch feedback all_passed watch) (Some (clk 1)))
         (st\<lparr>rs_cleaned := True\<rparr>))) = (Inr b, st')"
    by (auto dest!: bind_op_Inr split: option.splits pyval.splits)
  then obtain feedback all_passed st4 st5 where
    judge: "judge_checks env ws (tw_checks w) [] True st3 = (Inr (feedback, all_passed), st4)" and
    clean: "external (cleanup_workspace env ws) st4 = (Inr (), st5)" and
    stored: "on_store (complete_attempt fr clk l (result_of r patch feedback all_passed watch) (Some (clk 1)))
         (st5\<lparr>rs_cleaned := True\<rparr>) = (Inr b, st')"
    by (auto dest!: bind_op_Inr)
  from on_store_Inr[OF stored] have
    c: "complete_attempt fr clk l (result_of r patch feedback all_passed watch) (Some (clk 1))
      (rs_store st5) = (Inr b, rs_store st')" by simp
  have "rs_cleaned st'" using stored by (auto simp: on_store_def split: prod.splits sum.splits)
  moreover have "at_feedback b = feedback" "at_status b = (if all_passed then AttemptPassed else AttemptFailed)"
    using complete_attempt_result[OF c] by (simp_all add: result_of_def)
  ultimately show ?thesis using judge_checks_Inr[OF judge] external_Inr[OF clean] c
    unfolding judged_verdict_def by (metis append_Nil)
qed


definition trial_agent :: agent_result where
  "trial_agent = \<lparr>agent_plan = [], agent_summary = [], agent_tests = [], agent_patch = ''p'',
     agent_external_action = None, agent_commands = [], agent_model_calls = 1,
     agent_input_tokens = 2, agent_output_tokens = 3, agent_total_tokens = 5\<rparr>"

definition trial_judged :: pydict where
  "trial_judged = [(''passed'', PBool True), (''exitCode'', PInt 0), (''timedOut'', PBool False),
     (''truncated'', PBool False)]"

definition trial_env :: "(unit, unit) runner_env" where
  "trial_env = \<lparr>prepare_workspace = (\<lambda>w a es. (Inr (), es)), apply_previous_patch = (\<lambda>ws p es. (Inr (), es)),
     run_agent = (\<lambda>ws p es. (Inr (Some trial_agent), es)),
     capture_cumulative_patch = (\<lambda>ws es. (Inr (PStr ''p''), es)),
     run_check = (\<lambda>ws c es. (Inr trial_judged, es)), cleanup_workspace = (\<lambda>ws es. (Inr (), es))\<rparr>"

definition trial_watch :: stopwatch where
  "trial_watch = \<lparr>attempt_started = 0, judge_started = 1, judge_finished = 2, attempt_finished = 3,
     failure_observed = 3\<rparr>"

definition trial_attempt :: "(runner_error + world_attempt) \<times> (unit \<times> world_store)" where
  "trial_attempt = run_attempt trial_env ''w'' 60 trial_fr trial_clk trial_watch ''attempt:1'' ''ann''
     (Some (trial_lease ''1'' 1 60)) ((), trial_run trial_renewed)"


text \<open>C36. When the heartbeat has renewed the lease while the workspace was prepared and the
  agent then raises, \<open>run_attempt\<close> cannot record the failure: it raises the store's error
  instead, and the attempt it should have ended stays running with a live claim.\<close>

theorem failure_after_heartbeat_is_lost:
  assumes "world_inv s" and "get_attempt i owner s = Some a" and "get_world (at_world_id a) owner s = Some w"
    and "\<not> lease_mismatch l a owner worker" and "at_mode a = ModeFresh"
    and "prepare_workspace env w a (e, s) = (Inr ws, (e1, t))"
    and "renew_attempt clk' l seconds' now s = (Inr l', t)" and "wl_expires_at l' \<noteq> wl_expires_at l"
    and "run_agent env ws (attempt_prompt fr w None) (e1, t) = (Inl ExternalError, (e2, t))"
    and "cleanup_workspace env ws (e2, t) = (r, (e3, t))"
  shows "\<exists>err. run_attempt env worker seconds fr clk watch i owner (Some l) (e, s)
      = (Inl (StoreError err), (e3, t))
    \<and> get_attempt i owner t = Some a \<and> at_status a = AttemptRunning
    \<and> dget (attempt_claims t) (at_id a) = Some l'"
proof -
  have l: "wl_attempt_id l = at_id a" "at_status a = AttemptRunning"
    using assms(4) by (simp_all add: lease_mismatch_def)
  note claim = renewed_claim[OF assms(1,7)]
  obtain err where "fail_attempt fr clk l runtime_failed_feedback runtime_failed_summary False
      (elapsed_ms (attempt_started watch) (failure_observed watch)) (Some (clk 2)) t = (Inl err, t)"
    using fail_after_renewal[OF assms(1,7,8)] by blast
  moreover have "attempt_body env fr clk watch w a owner l
      \<lparr>rs_env = e, rs_store = s, rs_workspace = None, rs_cleaned = False\<rparr>
    = (Inl ExternalError, \<lparr>rs_env = e2, rs_store = t, rs_workspace = Some ws, rs_cleaned = False\<rparr>)"
    using assms(5,6,9) by (simp add: attempt_body_def external_def previous_attempt_def)
  ultimately have "attempt_guarded env fr clk watch w a owner l
      \<lparr>rs_env = e, rs_store = s, rs_workspace = None, rs_cleaned = False\<rparr>
    = (Inl (StoreError err), \<lparr>rs_env = e2, rs_store = t, rs_workspace = Some ws, rs_cleaned = False\<rparr>)"
    by (simp add: attempt_guarded_def reraised_def on_store_def)
  then have "run_attempt env worker seconds fr clk watch i owner (Some l) (e, s)
      = (Inl (StoreError err), (e3, t))"
    using assms(2,3,4,10)
    by (simp add: run_attempt_def attempt_lease_def cleanup_if_needed_def external_def)
  then show ?thesis using claim(2,5) assms(2) l by (simp add: get_attempt_def)
qed

definition trial_fresh :: "((nat \<Rightarrow> time) \<times> world_op) list" where
  "trial_fresh = [trial_create, (trial_clk, EnqueueAttempt ''1'' ''world:1'' ''ann'' ''k1'' ''fresh''),
     trial_claim ''1'' 0]"

definition trial_crash :: "(unit, unit) runner_env" where
  "trial_crash = trial_env\<lparr>
     prepare_workspace := (\<lambda>w a (e, s). (Inr (), (e, snd (renew_attempt trial_clk (trial_lease ''1'' 1 60) 60 (Some 30) s)))),
     run_agent := (\<lambda>ws p es. (Inl ExternalError, es))\<rparr>"

theorem failure_after_heartbeat_is_lost_witness:
  "\<exists>err t. run_attempt trial_crash ''w'' 60 trial_fr trial_clk trial_watch ''attempt:1'' ''ann''
      (Some (trial_lease ''1'' 1 60)) ((), trial_run trial_fresh) = (Inl (StoreError err), ((), t))
    \<and> dget (attempt_claims t) ''attempt:1'' = Some (trial_lease ''1'' 1 90)"
proof -
  have inv: "world_inv (trial_run trial_fresh)" by (rule trial_inv) code_simp
  define a where "a = the (get_attempt ''attempt:1'' ''ann'' (trial_run trial_fresh))"
  define w where "w = the (get_world ''world:1'' ''ann'' (trial_run trial_fresh))"
  define t where "t = snd (renew_attempt trial_clk (trial_lease ''1'' 1 60) 60 (Some 30) (trial_run trial_fresh))"
  have a: "get_attempt ''attempt:1'' ''ann'' (trial_run trial_fresh) = Some a"
    "\<not> lease_mismatch (trial_lease ''1'' 1 60) a ''ann'' ''w''" "at_mode a = ModeFresh"
    "at_id a = ''attempt:1''" "at_world_id a = ''world:1''"
    unfolding a_def by code_simp+
  have w: "get_world (at_world_id a) ''ann'' (trial_run trial_fresh) = Some w"
    unfolding a(5) w_def by code_simp
  have "fst (renew_attempt trial_clk (trial_lease ''1'' 1 60) 60 (Some 30) (trial_run trial_fresh))
    = Inr (trial_lease ''1'' 1 90)" by code_simp
  then have renew: "renew_attempt trial_clk (trial_lease ''1'' 1 60) 60 (Some 30) (trial_run trial_fresh)
    = (Inr (trial_lease ''1'' 1 90), t)" by (simp add: t_def prod_eq_iff)
  have "prepare_workspace trial_crash w a ((), trial_run trial_fresh) = (Inr (), ((), t))"
    "run_agent trial_crash () (attempt_prompt trial_fr w None) ((), t) = (Inl ExternalError, ((), t))"
    "cleanup_workspace trial_crash () ((), t) = (Inr (), ((), t))"
    by (simp_all add: trial_crash_def trial_env_def t_def)
  from failure_after_heartbeat_is_lost[where seconds = 60 and clk = trial_clk and watch = trial_watch,
    OF inv a(1) w a(2,3) this(1) renew _ this(2,3)]
  show ?thesis by (auto simp: trial_lease_def a(4))
qed

end
