(* ===== verification/TestWorldScheduler.thy ===== *)
theory TestWorldScheduler
  imports TestWorldProps
begin

section \<open>Scheduling attempts\<close>

text \<open>
  \<open>TestWorldScheduler\<close> of \<open>core/lil_tweak/test_world_scheduler.py\<close>: a loop that polls the
  store, an executor with one worker that runs the claimed attempt, and a heartbeat thread per
  attempt that renews its lease. The scheduler's state is its store, its flags and the
  submitted attempts that have not finished, each with the lease of the claim and the lease of
  the last renewal. A step is one poll, one tick of a heartbeat, one finished attempt, a
  shutdown, or an operation on the store by anybody else (the runner, the API, another
  instance). The executor is the parameter \<open>accepts\<close> (whether \<open>submit\<close> returns or raises).
\<close>

record world_task =
  task_lease :: world_lease
  task_current :: world_lease

record world_scheduler =
  ws_store :: world_store
  ws_worker_id :: string
  ws_lease_seconds :: int
  ws_active :: bool
  ws_stopped :: bool
  ws_woken :: bool
  ws_tasks :: "world_task list"

text \<open>The constructor; \<open>poll_interval\<close> is the pause of the loop.\<close>

definition scheduler_init :: "world_store \<Rightarrow> string \<Rightarrow> int \<Rightarrow> rat \<Rightarrow> world_error + world_scheduler" where
  "scheduler_init s worker lease_seconds poll_interval =
     (if worker = [] \<or> lease_seconds \<le> 0 \<or> poll_interval \<le> 0
      then Inl (WorldValueError ''invalid Test World scheduler configuration'')
      else Inr \<lparr>ws_store = s, ws_worker_id = worker, ws_lease_seconds = lease_seconds,
        ws_active = False, ws_stopped = False, ws_woken = False, ws_tasks = []\<rparr>)"

definition has_capacity :: "world_scheduler \<Rightarrow> bool" where
  "has_capacity c \<longleftrightarrow> \<not> ws_active c \<and> \<not> ws_stopped c"

definition notify :: "world_scheduler \<Rightarrow> world_scheduler" where
  "notify c = c\<lparr>ws_woken := True\<rparr>"

definition release_active :: "world_scheduler \<Rightarrow> world_scheduler" where
  "release_active c = c\<lparr>ws_active := False\<rparr>"

datatype scheduler_error = SchedulerStore world_error | SubmitError

text \<open>\<open>poll_once\<close>. The store's own clock is not read: the time is passed.\<close>

definition poll_once :: "bool \<Rightarrow> time \<Rightarrow> world_scheduler
    \<Rightarrow> (scheduler_error, int, world_scheduler) outcome" where
  "poll_once accepts now c =
     (case reconcile_active_attempts (\<lambda>i. now) (Some now) 100 (ws_store c) of
        (Inl e, s) \<Rightarrow> (Inl (SchedulerStore e), c\<lparr>ws_store := s\<rparr>)
      | (Inr recovered, s) \<Rightarrow>
        let c = c\<lparr>ws_store := s\<rparr> in
        if ws_active c \<or> ws_stopped c then (Inr 0, c)
        else case list_schedulable_attempts (\<lambda>i. now) (Some now) 1 s of
          Inl e \<Rightarrow> (Inl (SchedulerStore e), c)
        | Inr [] \<Rightarrow> (Inr 0, c)
        | Inr (a # _) \<Rightarrow>
          (case claim_attempt (\<lambda>i. now) (at_id a) (ws_worker_id c) (ws_lease_seconds c) (Some now) s of
             (Inl e, s) \<Rightarrow> (Inl (SchedulerStore e), c\<lparr>ws_store := s\<rparr>)
           | (Inr None, s) \<Rightarrow> (Inr 0, c\<lparr>ws_store := s\<rparr>)
           | (Inr (Some lease), s) \<Rightarrow>
             let c = c\<lparr>ws_store := s, ws_active := True\<rparr> in
             if \<not> accepts
             then (Inl SubmitError, release_active (c\<lparr>ws_store := release_attempt lease (ws_store c)\<rparr>))
             else (Inr 1, c\<lparr>ws_tasks := ws_tasks c @ [\<lparr>task_lease = lease, task_current = lease\<rparr>]\<rparr>)))"

text \<open>One round of \<open>_heartbeat\<close> for the \<open>n\<close>-th task: a conflict ends the thread (the task keeps
  its last lease), another error is retried at the next tick.\<close>

definition heartbeat :: "time \<Rightarrow> nat \<Rightarrow> world_scheduler \<Rightarrow> world_scheduler" where
  "heartbeat now n c =
     (if n < length (ws_tasks c)
      then let task = ws_tasks c ! n in
        (case renew_attempt (\<lambda>i. now) (task_current task) (ws_lease_seconds c) (Some now) (ws_store c) of
           (Inr renewed, s) \<Rightarrow>
             c\<lparr>ws_store := s, ws_tasks := (ws_tasks c)[n := task\<lparr>task_current := renewed\<rparr>]\<rparr>
         | (Inl e, s) \<Rightarrow> c\<lparr>ws_store := s\<rparr>)
      else c)"

text \<open>\<open>_finished\<close>, the callback of the \<open>n\<close>-th task, with the lease of the claim.\<close>

definition finished :: "nat \<Rightarrow> world_scheduler \<Rightarrow> world_scheduler" where
  "finished n c =
     (if n < length (ws_tasks c)
      then notify (release_active (c\<lparr>ws_store := release_attempt (task_lease (ws_tasks c ! n)) (ws_store c),
        ws_tasks := take n (ws_tasks c) @ drop (Suc n) (ws_tasks c)\<rparr>))
      else c)"

definition shutdown :: "world_scheduler \<Rightarrow> world_scheduler" where
  "shutdown c = c\<lparr>ws_stopped := True, ws_woken := True\<rparr>"

datatype scheduler_event = Poll bool time | Heartbeat time nat | Finished nat | Shutdown | Notify
  | StoreOp "(nat \<Rightarrow> time) \<times> world_op"

fun scheduler_step :: "(string \<Rightarrow> string) \<Rightarrow> (rat \<Rightarrow> string) \<Rightarrow> world_scheduler \<Rightarrow> scheduler_event
    \<Rightarrow> world_scheduler" where
  "scheduler_step sha fr c (Poll accepts now) = snd (poll_once accepts now c)"
| "scheduler_step sha fr c (Heartbeat now n) = heartbeat now n c"
| "scheduler_step sha fr c (Finished n) = finished n c"
| "scheduler_step sha fr c Shutdown = shutdown c"
| "scheduler_step sha fr c Notify = notify c"
| "scheduler_step sha fr c (StoreOp x) = c\<lparr>ws_store := world_step sha fr (ws_store c) x\<rparr>"

fun scheduler_event_ok :: "world_scheduler \<Rightarrow> scheduler_event \<Rightarrow> bool" where
  "scheduler_event_ok c (StoreOp x) = world_op_ok (ws_store c) x"
| "scheduler_event_ok c _ = True"

subsection \<open>The invariant\<close>

text \<open>At most one attempt is in flight, \<open>_active\<close> says whether there is one, and the store's
  invariant holds.\<close>

definition scheduler_inv :: "world_scheduler \<Rightarrow> bool" where
  "scheduler_inv c \<longleftrightarrow> world_inv (ws_store c)
     \<and> (ws_tasks c = [] \<and> \<not> ws_active c
        \<or> (\<exists>t. ws_tasks c = [t] \<and> ws_active c
             \<and> wl_worker_id (task_lease t) = ws_worker_id c))"

definition scheduler_later :: "world_scheduler \<Rightarrow> world_scheduler \<Rightarrow> bool" where
  "scheduler_later c d \<longleftrightarrow> world_later (ws_store c) (ws_store d)
     \<and> ws_worker_id d = ws_worker_id c \<and> ws_lease_seconds d = ws_lease_seconds c
     \<and> (ws_stopped c \<longrightarrow> ws_stopped d \<and> length (ws_tasks d) \<le> length (ws_tasks c))"

lemma claim_worker:
  "claim_attempt clk i worker seconds now s = (Inr (Some l), t) \<Longrightarrow> wl_worker_id l = worker"
  by (auto simp: claim_attempt_def Let_def split: option.splits if_splits)

text \<open>What a poll can do: nothing but reconcile and try to claim; start an attempt; or claim,
  fail to submit and release.\<close>

lemma poll_once_cases:
  assumes inv: "world_inv (ws_store c)" and poll: "poll_once accepts now c = (r, d)"
  obtains (idle) s where "world_effects (ws_store c) s" "d = c\<lparr>ws_store := s\<rparr>"
  | (start) s lease where "has_capacity c" "accepts" "r = Inr 1" "world_effects (ws_store c) s"
      "wl_worker_id lease = ws_worker_id c"
      "d = c\<lparr>ws_store := s, ws_active := True,
             ws_tasks := ws_tasks c @ [\<lparr>task_lease = lease, task_current = lease\<rparr>]\<rparr>"
  | (unsent) s where "has_capacity c" "world_effects (ws_store c) s"
      "d = c\<lparr>ws_store := s, ws_active := False\<rparr>"
proof -
  obtain v s1 where rec: "reconcile_active_attempts (\<lambda>i. now) (Some now) 100 (ws_store c) = (v, s1)"
    by (cases "reconcile_active_attempts (\<lambda>i. now) (Some now) 100 (ws_store c)")
  have one: "world_effects (ws_store c) s1"
    using reconcile_active_attempts_effects[OF inv, of "\<lambda>i. now" "Some now" 100] rec by simp
  have inv1: "world_inv s1" by (rule world_effects_inv[OF one inv])
  have two: "world_effects (ws_store c) s2"
    if "claim_attempt (\<lambda>i. now) k (ws_worker_id c) (ws_lease_seconds c) (Some now) s1 = (u, s2)" for k u s2
    using claim_attempt_effects[OF inv1, of "\<lambda>i. now" k "ws_worker_id c" "ws_lease_seconds c" "Some now"]
      that one by (auto intro: rtranclp_trans)
  have three: "world_effects (ws_store c) (release_attempt l s2)"
    if "claim_attempt (\<lambda>i. now) k (ws_worker_id c) (ws_lease_seconds c) (Some now) s1 = (u, s2)" for k u s2 l
    using two[OF that] release_attempt_effects[OF world_effects_inv[OF two[OF that] inv]]
    by (rule rtranclp_trans)
  show thesis
  proof (cases "(\<exists>e. v = Inl e) \<or> ws_active c \<or> ws_stopped c
      \<or> (\<forall>a as. list_schedulable_attempts (\<lambda>i. now) (Some now) 1 s1 \<noteq> Inr (a # as))")
    case True
    then have "d = c\<lparr>ws_store := s1\<rparr>"
      using poll rec by (auto simp: poll_once_def Let_def split: sum.splits list.splits if_splits)
    then show thesis using one by (rule idle[rotated])
  next
    case False
    then obtain w a as where a: "v = Inr w" "has_capacity c"
      "list_schedulable_attempts (\<lambda>i. now) (Some now) 1 s1 = Inr (a # as)"
      by (cases v) (auto simp: has_capacity_def)
    obtain u s2 where claim: "claim_attempt (\<lambda>i. now) (at_id a) (ws_worker_id c) (ws_lease_seconds c)
        (Some now) s1 = (u, s2)" by fastforce
    show thesis
    proof (cases "\<exists>l. u = Inr (Some l)")
      case True
      then obtain l where l: "u = Inr (Some l)" by blast
      show thesis
      proof (cases accepts)
        case True
        then show thesis using poll rec a claim l two[OF claim] claim_worker[of _ _ _ _ _ s1 l s2]
          by (intro start[of s2 l]) (auto simp: poll_once_def Let_def has_capacity_def)
      next
        case False
        then show thesis using poll rec a claim l three[OF claim, of l]
          by (intro unsent[of "release_attempt l s2"])
            (auto simp: poll_once_def Let_def has_capacity_def release_active_def)
      qed
    next
      case False
      then have "d = c\<lparr>ws_store := s2\<rparr>"
        using poll rec a claim by (auto simp: poll_once_def Let_def has_capacity_def split: sum.splits option.splits)
      then show thesis using two[OF claim] by (rule idle[rotated])
    qed
  qed
qed

lemma heartbeat_store:
  assumes "world_inv (ws_store c)"
  shows "world_effects (ws_store c) (ws_store (heartbeat now n c))"
  using renew_attempt_effects[OF assms, of "\<lambda>i. now" "task_current (ws_tasks c ! n)" "ws_lease_seconds c" "Some now"]
  by (auto simp: heartbeat_def Let_def split: prod.splits sum.splits)

lemma finished_store:
  assumes "world_inv (ws_store c)"
  shows "world_effects (ws_store c) (ws_store (finished n c))"
  using release_attempt_effects[OF assms]
  by (auto simp: finished_def notify_def release_active_def)

lemma heartbeat_tasks:
  "ws_active (heartbeat now n c) = ws_active c" "ws_stopped (heartbeat now n c) = ws_stopped c"
  "ws_worker_id (heartbeat now n c) = ws_worker_id c" "ws_lease_seconds (heartbeat now n c) = ws_lease_seconds c"
  "map task_lease (ws_tasks (heartbeat now n c)) = map task_lease (ws_tasks c)"
  by (auto simp: heartbeat_def Let_def map_update list_update_same_conv split: prod.splits sum.splits)

lemma scheduler_step_inv:
  assumes inv: "scheduler_inv c" and ok: "scheduler_event_ok c x"
  shows "scheduler_inv (scheduler_step sha fr c x)"
proof -
  have store: "world_inv (ws_store c)" using inv by (simp add: scheduler_inv_def)
  show ?thesis
  proof (cases x)
    case (Poll accepts now)
    obtain r d where poll: "poll_once accepts now c = (r, d)" by fastforce
    from store poll have "scheduler_inv d"
    proof (cases rule: poll_once_cases)
      case (idle s)
      then show ?thesis using inv world_effects_inv[OF idle(1) store] by (simp add: scheduler_inv_def)
    next
      case (start s lease)
      then show ?thesis using inv world_effects_inv[OF start(4) store]
        by (auto simp: scheduler_inv_def has_capacity_def)
    next
      case (unsent s)
      then show ?thesis using inv world_effects_inv[OF unsent(2) store]
        by (auto simp: scheduler_inv_def has_capacity_def)
    qed
    then show ?thesis using Poll poll by simp
  next
    case (Heartbeat now n)
    have "world_inv (ws_store (heartbeat now n c))"
      by (rule world_effects_inv[OF heartbeat_store[OF store] store])
    moreover have "length (ws_tasks (heartbeat now n c)) = length (ws_tasks c)"
      using heartbeat_tasks(5) by (metis length_map)
    ultimately show ?thesis using inv Heartbeat heartbeat_tasks[of now n c]
      by (auto simp: scheduler_inv_def length_Suc_conv)
  next
    case (Finished n)
    have "world_inv (ws_store (finished n c))"
      by (rule world_effects_inv[OF finished_store[OF store] store])
    then show ?thesis using inv Finished
      by (auto simp: scheduler_inv_def finished_def notify_def release_active_def)
  next
    case (StoreOp y)
    have "world_inv (world_step sha fr (ws_store c) y)"
      by (rule world_effects_inv[OF world_step_effects[OF store] store]) (use ok StoreOp in simp)
    then show ?thesis using inv StoreOp by (simp add: scheduler_inv_def)
  qed (use inv in \<open>auto simp: scheduler_inv_def shutdown_def notify_def\<close>)
qed

lemma scheduler_step_later:
  assumes inv: "scheduler_inv c" and ok: "scheduler_event_ok c x"
  shows "scheduler_later c (scheduler_step sha fr c x)"
proof -
  have store: "world_inv (ws_store c)" using inv by (simp add: scheduler_inv_def)
  show ?thesis
  proof (cases x)
    case (Poll accepts now)
    obtain r d where poll: "poll_once accepts now c = (r, d)" by fastforce
    from store poll have "scheduler_later c d"
      by (cases rule: poll_once_cases)
        (auto simp: scheduler_later_def has_capacity_def intro: world_effects_later[OF _ store])
    then show ?thesis using Poll poll by simp
  next
    case (Heartbeat now n)
    have "length (ws_tasks (heartbeat now n c)) = length (ws_tasks c)"
      using heartbeat_tasks(5) by (metis length_map)
    then show ?thesis using Heartbeat heartbeat_tasks[of now n c]
        world_effects_later[OF heartbeat_store[OF store] store]
      by (simp add: scheduler_later_def)
  next
    case (Finished n)
    then show ?thesis using world_effects_later[OF finished_store[OF store] store, of n]
      by (auto simp: scheduler_later_def finished_def notify_def release_active_def)
  next
    case (StoreOp y)
    then show ?thesis using world_effects_later[OF world_step_effects[OF store] store] ok
      by (simp add: scheduler_later_def)
  qed (auto simp: scheduler_later_def shutdown_def notify_def)
qed

interpretation scheduler_machine: monotone_machine "scheduler_step sha fr" scheduler_event_ok
    scheduler_inv scheduler_later
  for sha :: "string \<Rightarrow> string" and fr :: "rat \<Rightarrow> string"
proof
  show "scheduler_later c d \<Longrightarrow> scheduler_later d e \<Longrightarrow> scheduler_later c e" for c d e
    by (auto simp: scheduler_later_def intro: world_later_trans)
qed (auto simp: scheduler_later_def[of s s for s] intro: scheduler_step_inv scheduler_step_later)

subsection \<open>One attempt at a time\<close>

text \<open>C27. Whatever polls, heartbeats, finished attempts and operations of others happen, the
  scheduler never has more than one attempt in flight, \<open>_active\<close> is set exactly while it has
  one, the store keeps its invariant, and after a shutdown no further attempt is started.\<close>

theorem one_attempt_at_a_time:
  assumes "world_inv s" and "scheduler_init s worker seconds interval = Inr c"
    and "run_ok (scheduler_step sha fr) scheduler_event_ok c (xs @ ys)"
    and "d = run (scheduler_step sha fr) c xs" and "e = run (scheduler_step sha fr) d ys"
  shows "length (ws_tasks d) \<le> 1 \<and> (ws_active d \<longleftrightarrow> ws_tasks d \<noteq> []) \<and> world_inv (ws_store d)
    \<and> (ws_stopped d \<and> ws_tasks d = [] \<longrightarrow> ws_tasks e = [])"
proof -
  have c: "scheduler_inv c" using assms(1,2) by (auto simp: scheduler_init_def scheduler_inv_def split: if_splits)
  have ok: "run_ok (scheduler_step sha fr) scheduler_event_ok c xs"
    "run_ok (scheduler_step sha fr) scheduler_event_ok d ys"
    using assms(3,4) by (simp_all add: run_ok_append)
  have d: "scheduler_inv d" unfolding assms(4) by (rule scheduler_machine.inv_run[OF c ok(1)])
  moreover have "scheduler_later d e" unfolding assms(5) by (rule scheduler_machine.later_run[OF d ok(2)])
  ultimately show ?thesis by (auto simp: scheduler_inv_def scheduler_later_def)
qed

definition trial_scheduler :: world_scheduler where
  "trial_scheduler = projr (scheduler_init (trial_run [trial_create, trial_enqueue ''1'' ''k1'']) ''w'' 60 1)"

theorem one_attempt_at_a_time_witness:
  "length (ws_tasks (run (scheduler_step trial_sha trial_fr) trial_scheduler
      [Poll True 0, Heartbeat 20 0, Poll True 30])) \<le> 1"
proof -
  have inv: "world_inv (trial_run [trial_create, trial_enqueue ''1'' ''k1''])" by (rule trial_inv) code_simp
  have init: "scheduler_init (trial_run [trial_create, trial_enqueue ''1'' ''k1'']) ''w'' 60 1 = Inr trial_scheduler"
    by (simp add: trial_scheduler_def scheduler_init_def)
  have ok: "run_ok (scheduler_step trial_sha trial_fr) scheduler_event_ok trial_scheduler
      ([Poll True 0, Heartbeat 20 0, Poll True 30] @ [])" by simp
  from one_attempt_at_a_time[OF inv init ok refl refl] show ?thesis by simp
qed

subsection \<open>Progress\<close>

lemma reconcile_attempt_queued:
  "at_status a = AttemptQueued \<Longrightarrow> dget (attempts s) i = Some a \<Longrightarrow> dget (attempts s) (at_id b) = Some b
    \<Longrightarrow> dget (attempts (snd (reconcile_attempt current b s))) i = Some a"
  by (cases "i = at_id b") (auto simp: reconcile_attempt_others, simp add: reconcile_attempt_def)

lemma reconcile_attempts_queued:
  "world_inv s \<Longrightarrow> distinct (map at_id bs) \<Longrightarrow> \<forall>b \<in> set bs. dget (attempts s) (at_id b) = Some b
    \<Longrightarrow> at_status a = AttemptQueued \<Longrightarrow> dget (attempts s) i = Some a
    \<Longrightarrow> dget (attempts (snd (reconcile_attempts current limit bs recovered s))) i = Some a"
proof (induction bs arbitrary: recovered s)
  case (Cons b bs)
  have b: "dget (attempts s) (at_id b) = Some b" using Cons.prems(3) by simp
  obtain r s' where r: "reconcile_attempt current b s = (r, s')" by fastforce
  note frame = reconcile_attempt_frame[OF Cons.prems(1-3) r]
  have "dget (attempts s') i = Some a"
    using reconcile_attempt_queued[OF Cons.prems(4,5) b, of current] r by simp
  then show ?case using Cons.IH[OF frame(1) _ frame(2)] Cons.IH[OF Cons.prems(1)] Cons.prems(2-5) r
    by (cases r) auto
qed simp

lemma reconcile_attempts_Inr:
  "world_inv s \<Longrightarrow> distinct (map at_id bs) \<Longrightarrow> \<forall>b \<in> set bs. dget (attempts s) (at_id b) = Some b
    \<Longrightarrow> \<exists>r. fst (reconcile_attempts current limit bs recovered s) = Inr r"
proof (induction bs arbitrary: recovered s)
  case (Cons b bs)
  have b: "dget (attempts s) (at_id b) = Some b" using Cons.prems(3) by simp
  obtain r s' where r: "reconcile_attempt current b s = (Inr r, s')"
    using reconcile_attempt_Inr[OF Cons.prems(1) b, of current] by (metis prod.collapse)
  note frame = reconcile_attempt_frame[OF Cons.prems(1-3) r]
  show ?case using Cons.IH[OF frame(1) _ frame(2)] Cons.IH[OF Cons.prems(1)] Cons.prems(2,3) r by auto
qed simp

lemma schedulable_head:
  assumes inv: "world_inv s" and a: "dget (attempts s) k = Some a" "at_status a = AttemptQueued"
  obtains b where "list_schedulable_attempts clk (Some now) 1 s = Inr [b]" "at_status b = AttemptQueued"
    "dget (attempts s) (at_id b) = Some b" "(at_created_at b, at_id b) \<le> (at_created_at a, at_id a)"
proof -
  have free: "dget (attempt_claims s) j = None" if "dget (attempts s) j = Some c" "at_status c = AttemptQueued" for j c
    using that inv by (cases "dget (attempt_claims s) j") (auto elim: claims_invD)
  let ?P = "\<lambda>a. at_status a = AttemptQueued \<and> (case dget (attempt_claims s) (at_id a) of
    None \<Rightarrow> True | Some claim \<Rightarrow> wl_expires_at claim \<le> now)"
  have mem: "a \<in> set (attempts_in_order s)"
    using dget_in_dvalues[OF a(1)] by (simp add: attempts_in_order_def)
  have "dget (attempts s) (at_id a) = Some a" using a(1) attempts_invD(1)[OF inv a(1)] by simp
  then have "?P a" using a(2) free by simp
  then obtain xs b ys where b: "attempts_in_order s = xs @ b # ys" "?P b" "\<forall>x \<in> set xs. \<not> ?P x"
    using split_list_first_prop[of "attempts_in_order s" ?P] mem by metis
  have "filter ?P (attempts_in_order s) = b # filter ?P ys" using b by (simp add: filter_empty_conv)
  then have "list_schedulable_attempts clk (Some now) 1 s = Inr [b]"
    by (simp add: list_schedulable_attempts_def Let_def current_time_def)
  moreover have "dget (attempts s) (at_id b) = Some b" using attempts_in_order_stored(2)[OF inv] b(1) by simp
  moreover have "(at_created_at b, at_id b) \<le> (at_created_at a, at_id a)"
  proof -
    have "sorted (map (\<lambda>a. (at_created_at a, at_id a)) (xs @ b # ys))"
      unfolding b(1)[symmetric] attempts_in_order_def by (rule sorted_sort_key)
    moreover have "a \<in> set (b # ys)" using mem b(1,3) \<open>?P a\<close> by auto
    ultimately show ?thesis by (auto simp: sorted_append)
  qed
  ultimately show thesis using that b(2) by blast
qed

lemma claim_succeeds:
  assumes inv: "world_inv s" and b: "dget (attempts s) (at_id b) = Some b" "at_status b = AttemptQueued"
    and args: "worker \<noteq> []" "0 < seconds"
  obtains l t where "claim_attempt clk (at_id b) worker seconds (Some now) s = (Inr (Some l), t)"
    "wl_attempt_id l = at_id b" "dget (attempt_claims t) (at_id b) = Some l"
proof -
  have "dget (attempt_claims s) (at_id b) = None"
    using b inv by (cases "dget (attempt_claims s) (at_id b)") (auto elim: claims_invD)
  moreover have "dget (worlds s) (at_world_id b) \<noteq> None" by (rule attempts_invD(2)[OF inv b(1)])
  ultimately show thesis using that b args
    by (auto simp: claim_attempt_def Let_def split: option.splits)
qed

text \<open>A poll makes progress: when the scheduler is free and an attempt is queued, the poll
  claims and starts an attempt, and the one it starts is no younger than that attempt.\<close>

theorem poll_starts_oldest_attempt:
  assumes "scheduler_inv c" and "has_capacity c" and "ws_worker_id c \<noteq> []" and "0 < ws_lease_seconds c"
    and "dget (attempts (ws_store c)) k = Some a" and "at_status a = AttemptQueued"
  shows "\<exists>d t. \<exists>b::world_attempt. poll_once True now c = (Inr 1, d) \<and> ws_tasks d = [t]
    \<and> dget (attempt_claims (ws_store d)) (at_id b) = Some (task_lease t)
    \<and> (at_created_at b, at_id b) \<le> (at_created_at a, at_id a)"
proof -
  have inv: "world_inv (ws_store c)" using assms(1) by (simp add: scheduler_inv_def)
  define s where "s = snd (reconcile_active_attempts (\<lambda>i. now) (Some now) 100 (ws_store c))"
  have "\<exists>r. fst (reconcile_active_attempts (\<lambda>i. now) (Some now) 100 (ws_store c)) = Inr r"
    using reconcile_attempts_Inr[OF inv attempts_in_order_stored[OF inv]]
    by (simp add: reconcile_active_attempts_def Let_def current_time_def)
  then obtain r where rec: "reconcile_active_attempts (\<lambda>i. now) (Some now) 100 (ws_store c) = (Inr r, s)"
    by (auto simp: s_def prod_eq_iff)
  have s: "world_inv s"
    using world_effects_inv[OF reconcile_active_attempts_effects[OF inv] inv, of "\<lambda>i. now" "Some now" 100] rec
    by simp
  have "dget (attempts s) k = Some a"
    using reconcile_attempts_queued[OF inv attempts_in_order_stored[OF inv] assms(6,5)]
    by (simp add: s_def reconcile_active_attempts_def Let_def current_time_def)
  with s obtain b where b: "list_schedulable_attempts (\<lambda>i. now) (Some now) 1 s = Inr [b]"
    "at_status b = AttemptQueued" "dget (attempts s) (at_id b) = Some b"
    "(at_created_at b, at_id b) \<le> (at_created_at a, at_id a)"
    using assms(6) by (rule schedulable_head)
  from s b(3,2) assms(3,4) obtain l t where l: "claim_attempt (\<lambda>i. now) (at_id b) (ws_worker_id c)
      (ws_lease_seconds c) (Some now) s = (Inr (Some l), t)" "dget (attempt_claims t) (at_id b) = Some l"
    by (rule claim_succeeds)
  have "ws_tasks c = []" using assms(1,2) by (auto simp: scheduler_inv_def has_capacity_def)
  then have "poll_once True now c = (Inr 1, c\<lparr>ws_store := t, ws_active := True,
      ws_tasks := [\<lparr>task_lease = l, task_current = l\<rparr>]\<rparr>)"
    using rec b(1) l(1) assms(2) by (simp add: poll_once_def Let_def has_capacity_def)
  moreover have "ws_tasks (c\<lparr>ws_store := t, ws_active := True,
      ws_tasks := [\<lparr>task_lease = l, task_current = l\<rparr>]\<rparr>) = [\<lparr>task_lease = l, task_current = l\<rparr>]" by simp
  moreover have "dget (attempt_claims (ws_store (c\<lparr>ws_store := t, ws_active := True,
      ws_tasks := [\<lparr>task_lease = l, task_current = l\<rparr>]\<rparr>))) (at_id b)
    = Some (task_lease \<lparr>task_lease = l, task_current = l\<rparr>)" using l(2) by simp
  ultimately show ?thesis using b(4) by (intro exI conjI)
qed

theorem poll_starts_oldest_attempt_witness:
  "\<exists>d t. \<exists>b::world_attempt. poll_once True 5 trial_scheduler = (Inr 1, d) \<and> ws_tasks d = [t]
    \<and> dget (attempt_claims (ws_store d)) (at_id b) = Some (task_lease t)
    \<and> (at_created_at b, at_id b) \<le> (0, ''attempt:1'')"
proof -
  have inv: "world_inv (trial_run [trial_create, trial_enqueue ''1'' ''k1''])" by (rule trial_inv) code_simp
  have c: "ws_store trial_scheduler = trial_run [trial_create, trial_enqueue ''1'' ''k1'']"
    "ws_tasks trial_scheduler = []" "\<not> ws_active trial_scheduler" "\<not> ws_stopped trial_scheduler"
    "ws_worker_id trial_scheduler = ''w''" "ws_lease_seconds trial_scheduler = 60"
    by (simp_all add: trial_scheduler_def scheduler_init_def)
  define a where "a = the (dget (attempts (trial_run [trial_create, trial_enqueue ''1'' ''k1''])) ''attempt:1'')"
  have a: "dget (attempts (trial_run [trial_create, trial_enqueue ''1'' ''k1''])) ''attempt:1'' = Some a"
    "at_status a = AttemptQueued" "at_created_at a = 0" "at_id a = ''attempt:1''"
    unfolding a_def by code_simp+
  have "scheduler_inv trial_scheduler" "has_capacity trial_scheduler"
    using inv c by (simp_all add: scheduler_inv_def has_capacity_def)
  from poll_starts_oldest_attempt[OF this, of "''attempt:1''" a 5] show ?thesis using a c by simp
qed

end
