(* ===== verification/Archive.thy ===== *)
theory Archive
  imports JobStore "HOL-Library.Word"
begin

unbundle bit_operations_syntax

section \<open>Source archives\<close>

text \<open>
  \<open>core/lil_tweak/archive.py\<close> and the budgets of \<open>core/lil_tweak/limits.py\<close>: the path contract
  of workspace files, the preflight inspection of ZIP archives, their extraction and the intake
  of uploaded sources. Parameters: \<open>open_zip\<close> (what \<open>zipfile\<close> makes of a byte string: the
  members with the data read from them, a member that cannot be read having none) and
  \<open>fetch\<close> (the object store). The destination is a directory tree without symbolic links.
\<close>

subsection \<open>Budgets\<close>

definition mib :: int where
  "mib = 1024 * 1024"

definition max_evidence_bytes :: int where
  "max_evidence_bytes = 2 * mib"

definition max_expanded_source_bytes :: int where
  "max_expanded_source_bytes = 128 * mib"

definition runner_workspace_bytes :: int where
  "runner_workspace_bytes = 256 * mib"

definition runner_workspace_inodes :: int where
  "runner_workspace_inodes = 65536"

datatype archive_error = ArchiveError string | ArchiveValueError

record archive_limits =
  al_max_entries :: int
  al_max_depth :: int
  al_max_file_bytes :: int
  al_max_total_bytes :: int
  al_max_compression_ratio :: rat

definition default_limits :: archive_limits where
  "default_limits = \<lparr>al_max_entries = 20000, al_max_depth = 32,
     al_max_file_bytes = 25 * 1024 * 1024, al_max_total_bytes = max_expanded_source_bytes,
     al_max_compression_ratio = 100\<rparr>"

subsection \<open>Strings and paths\<close>

text \<open>\<open>str.lower\<close> below code point 256, and \<open>str.casefold\<close>, which also expands the sharp s.
  (The micro sign folds to a character above 255 that nothing else below 256 folds to; it
  stands for it here.)\<close>

definition lower_char :: "char \<Rightarrow> char" where
  "lower_char c =
     (if is_upper c \<or> (CHR 0xC0 \<le> c \<and> c \<le> CHR 0xDE \<and> c \<noteq> CHR 0xD7)
      then char_of ((of_char c :: nat) + 32) else c)"

definition lower :: "string \<Rightarrow> string" where
  "lower s = map lower_char s"

definition fold_char :: "char \<Rightarrow> string" where
  "fold_char c = (if c = CHR 0xDF then ''ss'' else [lower_char c])"

definition casefold :: "string \<Rightarrow> string" where
  "casefold s = concat (map fold_char s)"

definition ends_with :: "string \<Rightarrow> string \<Rightarrow> bool" where
  "ends_with p s \<longleftrightarrow> starts_with (rev p) (rev s)"

fun split_on :: "char \<Rightarrow> string \<Rightarrow> string list" where
  "split_on sep [] = [[]]"
| "split_on sep (c # s) =
     (if c = sep then [] # split_on sep s
      else case split_on sep s of [] \<Rightarrow> [[c]] | p # ps \<Rightarrow> (c # p) # ps)"

text \<open>\<open>PurePosixPath(p).parts\<close> of a relative path and \<open>as_posix()\<close>: empty and \<open>.\<close> components
  disappear, and a path without components is \<open>.\<close>.\<close>

definition posix_parts :: "string \<Rightarrow> string list" where
  "posix_parts p = filter (\<lambda>c. c \<noteq> [] \<and> c \<noteq> ''.'') (split_on (CHR ''/'') p)"

definition as_posix :: "string list \<Rightarrow> string" where
  "as_posix parts = (if parts = [] then ''.'' else join ''/'' parts)"

definition blocked_source_components :: "string list" where
  "blocked_source_components = [''.git'', ''.hg'', ''.svn'', ''.ssh'', ''.aws'', ''.gnupg'',
     ''.npmrc'', ''.pypirc'', ''credentials'', ''id_rsa'', ''id_ed25519'']"

definition blocked_source_component :: "string \<Rightarrow> bool" where
  "blocked_source_component component =
     (let folded = casefold component in
      folded \<in> set blocked_source_components
      \<or> folded = ''.env''
      \<or> (starts_with ''.env.'' folded \<and> folded \<notin> {''.env.example'', ''.env.sample''}))"

definition control_char :: "char \<Rightarrow> bool" where
  "control_char c \<longleftrightarrow> c < CHR 0x20 \<or> c = CHR 0x7F"

fun windows_drive :: "string \<Rightarrow> bool" where
  "windows_drive (c # d # s) = ((is_upper c \<or> is_lower c) \<and> d = CHR '':'')"
| "windows_drive _ = False"

definition rstrip_slash :: "string \<Rightarrow> string" where
  "rstrip_slash s = rev (dropWhile (\<lambda>c. c = CHR ''/'') (rev s))"

definition to_slashes :: "string \<Rightarrow> string" where
  "to_slashes raw = map (\<lambda>c. if c = CHR 0x5C then CHR ''/'' else c) raw"

definition safe_name :: "string \<Rightarrow> archive_limits \<Rightarrow> archive_error + (string \<times> bool)" where
  "safe_name raw limits =
     (if raw = [] \<or> list_ex control_char raw then Inl (ArchiveError ''unsafe_path'')
      else
        let normalized = to_slashes raw in
        if starts_with ''/'' normalized \<or> starts_with [CHR 0x5C, CHR 0x5C] raw \<or> windows_drive normalized
        then Inl (ArchiveError ''unsafe_path'')
        else
          let is_directory = ends_with ''/'' normalized;
              stripped = rstrip_slash normalized;
              parts = posix_parts stripped
          in if stripped = [] \<or> list_ex (\<lambda>p. p \<in> {[], ''.'', ''..''}) parts
             then Inl (ArchiveError ''unsafe_path'')
             else if list_ex (\<lambda>p. 255 < utf8_len p \<or> blocked_source_component p) parts
             then Inl (ArchiveError ''unsafe_path'')
             else if al_max_depth limits < int (length parts)
             then Inl (ArchiveError ''path_too_deep'')
             else Inr (as_posix parts, is_directory))"

definition validate_portable_path :: "string \<Rightarrow> archive_limits \<Rightarrow> archive_error + string" where
  "validate_portable_path raw limits =
     (case safe_name raw limits of Inl e \<Rightarrow> Inl e | Inr (path, is_directory) \<Rightarrow> Inr path)"

subsection \<open>Inspection\<close>

text \<open>The fields of \<open>zipfile.ZipInfo\<close> at the width the format gives them.\<close>

record zip_info =
  zi_filename :: string
  zi_flag_bits :: "16 word"
  zi_external_attr :: "32 word"
  zi_file_size :: int
  zi_compress_size :: int

record archive_entry =
  ae_path :: string
  ae_size :: int
  ae_is_directory :: bool

text \<open>\<open>stat.S_IFMT\<close> of the Unix mode in the upper half of \<open>external_attr\<close>.\<close>

definition member_kind :: "zip_info \<Rightarrow> 32 word" where
  "member_kind i = (drop_bit 16 (zi_external_attr i) AND 0xFFFF) AND 0xF000"

definition validate_info :: "zip_info \<Rightarrow> archive_limits \<Rightarrow> archive_error + (archive_entry \<times> string)" where
  "validate_info i limits =
     (case safe_name (zi_filename i) limits of Inl e \<Rightarrow> Inl e
      | Inr (path, name_is_directory) \<Rightarrow>
        let kind = member_kind i;
            is_directory = ends_with ''/'' (zi_filename i) \<or> name_is_directory \<or> kind = 0x4000
        in if zi_flag_bits i AND 1 \<noteq> 0 then Inl (ArchiveError ''encrypted_entry'')
           else if kind \<notin> {0, 0x8000, 0x4000} then Inl (ArchiveError ''unsupported_type'')
           else if is_directory \<and> zi_file_size i \<noteq> 0 then Inl (ArchiveError ''unsupported_type'')
           else if zi_file_size i < 0 \<or> zi_compress_size i < 0 then Inl (ArchiveError ''invalid_zip'')
           else if al_max_file_bytes limits < zi_file_size i then Inl (ArchiveError ''file_too_large'')
           else if zi_file_size i \<noteq> 0 \<and> zi_compress_size i = 0
             then Inl (ArchiveError ''compression_ratio'')
           else if zi_file_size i \<noteq> 0 \<and> al_max_compression_ratio limits
                < of_int (zi_file_size i) / of_int (zi_compress_size i)
             then Inl (ArchiveError ''compression_ratio'')
           else Inr (\<lparr>ae_path = path, ae_size = zi_file_size i, ae_is_directory = is_directory\<rparr>,
             casefold path))"

text \<open>The proper ancestors of a path that the \<open>while\<close> loop visits, nearest first.\<close>

definition ancestors :: "string list \<Rightarrow> string list list" where
  "ancestors parts = map (\<lambda>n. take n parts) (rev [1..<length parts])"

fun inspect_members :: "archive_limits \<Rightarrow> zip_info list \<Rightarrow> archive_entry list \<Rightarrow> (string, bool) dict
    \<Rightarrow> int \<Rightarrow> archive_error + archive_entry list" where
  "inspect_members limits [] entries types bytes = Inr entries"
| "inspect_members limits (i # is) entries types bytes =
     (case validate_info i limits of Inl e \<Rightarrow> Inl e
      | Inr (entry, folded) \<Rightarrow>
        if dget types folded \<noteq> None then Inl (ArchiveError ''duplicate_path'')
        else if list_ex (\<lambda>p. dget types (casefold (as_posix p)) = Some False)
            (ancestors (posix_parts (ae_path entry)))
        then Inl (ArchiveError ''path_conflict'')
        else if \<not> ae_is_directory entry
            \<and> list_ex (\<lambda>existing. starts_with (folded @ ''/'') existing) (dkeys types)
        then Inl (ArchiveError ''path_conflict'')
        else if al_max_total_bytes limits < bytes + ae_size entry
        then Inl (ArchiveError ''archive_too_large'')
        else inspect_members limits is (entries @ [entry])
          (dset types folded (ae_is_directory entry)) (bytes + ae_size entry))"

text \<open>\<open>infos\<close> is \<open>None\<close> for a byte string that \<open>zipfile\<close> refuses. The set \<open>seen\<close> of the code is
  the set of the keys of \<open>entry_types\<close>.\<close>

definition inspect_zip :: "archive_limits \<Rightarrow> zip_info list option \<Rightarrow> archive_error + archive_entry list" where
  "inspect_zip limits infos =
     (if min (min (al_max_entries limits) (al_max_depth limits))
            (min (al_max_file_bytes limits) (al_max_total_bytes limits)) < 0
         \<or> al_max_compression_ratio limits \<le> 0
      then Inl ArchiveValueError
      else case infos of
        None \<Rightarrow> Inl (ArchiveError ''invalid_zip'')
      | Some is \<Rightarrow>
          if al_max_entries limits < int (length is) then Inl (ArchiveError ''too_many_entries'')
          else inspect_members limits is [] [] 0)"

subsection \<open>Extraction\<close>

text \<open>The destination: what is at each path below it, a path being its list of components. A
  path that is absent from the dictionary does not exist; the root exists as a directory.\<close>

datatype node = DirNode | FileNode string

type_synonym tree = "(string list, node) dict"

text \<open>\<open>mkdir(parents=True, exist_ok=True)\<close>; \<open>None\<close> is the \<open>OSError\<close> when a file is in the way.\<close>

definition make_directories :: "string list \<Rightarrow> tree \<Rightarrow> tree option" where
  "make_directories path t =
     (if list_ex (\<lambda>n. \<exists>d \<in> set_option (dget t (take n path)). d \<noteq> DirNode) [1..<Suc (length path)]
      then None
      else Some (fold (\<lambda>n t. if dget t (take n path) = None then dset t (take n path) DirNode else t)
        [1..<Suc (length path)] t))"

text \<open>\<open>os.open\<close> with \<open>O_CREAT | O_EXCL\<close> and the write of the whole data.\<close>

definition create_file :: "string list \<Rightarrow> string \<Rightarrow> tree \<Rightarrow> tree option" where
  "create_file path data t =
     (if path = [] \<or> dget t path \<noteq> None then None else Some (dset t path (FileNode data)))"

text \<open>A member as \<open>zipfile\<close> has it: its record, and its data or \<open>None\<close> when reading raises one of
  the exceptions that the code names (\<open>OSError\<close>, \<open>BadZipFile\<close>, \<open>RuntimeError\<close>).\<close>

type_synonym member = "zip_info \<times> string option"

text \<open>One round of the loop. A path without components is the root itself, whose parent lies
  outside of the root; any other path stays inside. What was created for a member that cannot
  be read or has another size is removed again, its parents stay.\<close>

definition extract_member :: "string option \<Rightarrow> archive_entry \<Rightarrow> tree
    \<Rightarrow> (archive_error, string list option, tree) outcome" where
  "extract_member data entry t =
     (let path = posix_parts (ae_path entry) in
      if path = [] then (Inl (ArchiveError ''unsafe_path''), t)
      else if ae_is_directory entry then
        (case make_directories path t of
           None \<Rightarrow> (Inl (ArchiveError ''extraction_failed''), t)
         | Some t \<Rightarrow> (Inr None, t))
      else (case make_directories (butlast path) t of
           None \<Rightarrow> (Inl (ArchiveError ''extraction_failed''), t)
         | Some t \<Rightarrow>
           if create_file path [] t = None then (Inl (ArchiveError ''extraction_failed''), t)
           else (case data of
               None \<Rightarrow> (Inl (ArchiveError ''extraction_failed''), t)
             | Some d \<Rightarrow>
               if int (length d) \<noteq> ae_size entry then (Inl (ArchiveError ''invalid_zip''), t)
               else (case create_file path d t of
                   None \<Rightarrow> (Inl (ArchiveError ''extraction_failed''), t)
                 | Some t \<Rightarrow> (Inr (Some path), t)))))"

fun extract_members :: "(string option \<times> archive_entry) list \<Rightarrow> string list list \<Rightarrow> tree
    \<Rightarrow> (archive_error, string list list, tree) outcome" where
  "extract_members [] extracted t = (Inr extracted, t)"
| "extract_members ((data, entry) # rest) extracted t =
     bind_op (extract_member data entry t) (\<lambda>r t.
       extract_members rest (case r of None \<Rightarrow> extracted | Some p \<Rightarrow> extracted @ [p]) t)"

text \<open>\<open>extract_zip\<close> of a byte string; \<open>members\<close> is \<open>None\<close> when \<open>zipfile\<close> refuses it.\<close>

definition extract_zip :: "archive_limits \<Rightarrow> member list option \<Rightarrow> tree
    \<Rightarrow> (archive_error, string list list, tree) outcome" where
  "extract_zip limits members t =
     (case inspect_zip limits (map_option (map fst) members) of
        Inl e \<Rightarrow> (Inl e, t)
      | Inr entries \<Rightarrow> extract_members (zip (map snd (the members)) entries) [] t)"

subsection \<open>Intake of uploaded sources\<close>

datatype intake_error = SourceIntakeError string | IntakeValueError | IntakeTypeError

definition portable_filename :: "string \<Rightarrow> intake_error + string" where
  "portable_filename f =
     (if f = [] \<or> f \<in> {''.'', ''..''} \<or> 255 < length f \<or> CHR ''/'' \<in> set f \<or> CHR 0x5C \<in> set f
         \<or> list_ex control_char f
      then Inl (SourceIntakeError ''unsafe_source_name'')
      else case validate_portable_path f default_limits of
        Inl e \<Rightarrow> Inl (SourceIntakeError ''unsafe_source_name'')
      | Inr _ \<Rightarrow> Inr f)"

record intake_limits =
  il_max_source_bytes :: int
  il_max_total_bytes :: int
  il_max_workspace_bytes :: int
  il_max_workspace_files :: int

definition default_intake_limits :: intake_limits where
  "default_intake_limits = \<lparr>il_max_source_bytes = 25 * 1024 * 1024,
     il_max_total_bytes = 100 * 1024 * 1024, il_max_workspace_bytes = max_expanded_source_bytes,
     il_max_workspace_files = 20000\<rparr>"

record intake =
  in_inventory :: "string list"
  in_total :: int
  in_workspace_bytes :: int
  in_workspace_files :: int
  in_tree :: tree

text \<open>\<open>object_key.rsplit("/", 1)[0] + "/"\<close>.\<close>

definition key_prefix :: "string \<Rightarrow> string" where
  "key_prefix k = (if CHR ''/'' \<in> set k
     then rev (dropWhile (\<lambda>c. c \<noteq> CHR ''/'') (rev k)) else k @ ''/'')"

definition valid_source_key :: "source_spec \<Rightarrow> string option \<Rightarrow> bool" where
  "valid_source_key s expected_prefix \<longleftrightarrow>
     (let prefix = (case expected_prefix of None \<Rightarrow> key_prefix (src_object_key s) | Some p \<Rightarrow> p) in
      starts_with prefix (src_object_key s) \<and> src_object_key s = prefix @ src_source_id s
      \<and> ''..'' \<notin> set (posix_parts (src_object_key s)))"

text \<open>What the object store answers: nothing (an exception), or the declared length and the body
  (\<open>None\<close> when reading it raises).\<close>

type_synonym object_store = "string \<Rightarrow> (int option \<times> string option) option"

definition fetch_source :: "object_store \<Rightarrow> int \<Rightarrow> source_spec \<Rightarrow> intake_error + string" where
  "fetch_source fetch max_source_bytes s =
     (case fetch (src_object_key s) of
        None \<Rightarrow> Inl (SourceIntakeError ''source_unavailable'')
      | Some (declared, body) \<Rightarrow>
          if declared \<noteq> None \<and> declared \<noteq> Some (src_size_bytes s)
          then Inl (SourceIntakeError ''source_size_mismatch'')
          else (case body of
              None \<Rightarrow> Inl (SourceIntakeError ''source_unavailable'')
            | Some b \<Rightarrow>
              let data = take (nat (max_source_bytes + 1)) b in
              if int (length data) \<noteq> src_size_bytes s \<or> max_source_bytes < int (length data)
              then Inl (SourceIntakeError ''source_size_mismatch'')
              else Inr data))"

definition digest_error :: "(string \<Rightarrow> string) \<Rightarrow> string \<Rightarrow> string option \<Rightarrow> intake_error option" where
  "digest_error sha data expected =
     (case expected of None \<Rightarrow> None
      | Some d \<Rightarrow> (case hmac_digest_equal (sha data) d of
            Inl e \<Rightarrow> Some IntakeTypeError
          | Inr equal \<Rightarrow> if equal then None else Some (SourceIntakeError ''source_digest_mismatch'')))"

definition is_zip_source :: "source_spec \<Rightarrow> string \<Rightarrow> bool" where
  "is_zip_source s filename \<longleftrightarrow>
     src_media_type s \<in> {''application/zip'', ''application/x-zip-compressed''}
     \<or> ends_with ''.zip'' (lower filename)"

fun intake_archive_error :: "archive_error \<Rightarrow> intake_error" where
  "intake_archive_error (ArchiveError code) = SourceIntakeError code"
| "intake_archive_error ArchiveValueError = IntakeValueError"

definition expand_source :: "(string \<Rightarrow> member list option) \<Rightarrow> intake_limits \<Rightarrow> string \<Rightarrow> intake
    \<Rightarrow> (intake_error, unit, intake) outcome" where
  "expand_source open_zip limits data st =
     (case inspect_zip default_limits (map_option (map fst) (open_zip data)) of
        Inl e \<Rightarrow> (Inl (intake_archive_error e), st)
      | Inr entries \<Rightarrow>
        let files = filter (\<lambda>e. \<not> ae_is_directory e) entries;
            expanded = sum_list (map ae_size files)
        in if il_max_workspace_bytes limits < in_workspace_bytes st + expanded
              \<or> il_max_workspace_files limits < in_workspace_files st + int (length files)
           then (Inl (SourceIntakeError ''workspace_too_large''), st)
           else (case extract_zip default_limits (open_zip data) (in_tree st) of
               (Inl e, t) \<Rightarrow> (Inl (intake_archive_error e), st\<lparr>in_tree := t\<rparr>)
             | (Inr extracted, t) \<Rightarrow>
               (Inr (), st\<lparr>in_tree := t, in_inventory := in_inventory st @ map as_posix extracted,
                  in_workspace_bytes := in_workspace_bytes st + expanded,
                  in_workspace_files := in_workspace_files st + int (length files)\<rparr>)))"

definition store_source :: "intake_limits \<Rightarrow> string \<Rightarrow> string \<Rightarrow> intake
    \<Rightarrow> (intake_error, unit, intake) outcome" where
  "store_source limits filename data st =
     (if il_max_workspace_bytes limits < in_workspace_bytes st + int (length data)
         \<or> il_max_workspace_files limits < in_workspace_files st + 1
      then (Inl (SourceIntakeError ''workspace_too_large''), st)
      else case create_file [filename] data (in_tree st) of
        None \<Rightarrow> (Inl (SourceIntakeError ''source_path_conflict''), st)
      | Some t \<Rightarrow> (Inr (), st\<lparr>in_tree := t, in_inventory := in_inventory st @ [filename],
          in_workspace_bytes := in_workspace_bytes st + int (length data),
          in_workspace_files := in_workspace_files st + 1\<rparr>))"

definition ingest_source :: "(string \<Rightarrow> string) \<Rightarrow> (string \<Rightarrow> member list option) \<Rightarrow> object_store
    \<Rightarrow> intake_limits \<Rightarrow> string option \<Rightarrow> source_spec \<Rightarrow> intake \<Rightarrow> (intake_error, unit, intake) outcome" where
  "ingest_source sha open_zip fetch limits expected_prefix s st =
     (case portable_filename (src_filename s) of Inl e \<Rightarrow> (Inl e, st)
      | Inr filename \<Rightarrow>
        if src_source_id s = [] \<or> src_size_bytes s < 0 \<or> il_max_source_bytes limits < src_size_bytes s
        then (Inl (SourceIntakeError ''invalid_source_manifest''), st)
        else if \<not> valid_source_key s expected_prefix
        then (Inl (SourceIntakeError ''invalid_source_key''), st)
        else
          let st = st\<lparr>in_total := in_total st + src_size_bytes s\<rparr> in
          if il_max_total_bytes limits < in_total st
          then (Inl (SourceIntakeError ''sources_too_large''), st)
          else (case fetch_source fetch (il_max_source_bytes limits) s of Inl e \<Rightarrow> (Inl e, st)
            | Inr data \<Rightarrow> (case digest_error sha data (src_sha256 s) of Some e \<Rightarrow> (Inl e, st)
              | None \<Rightarrow>
                if is_zip_source s filename then expand_source open_zip limits data st
                else store_source limits filename data st)))"

fun ingest_sources :: "(string \<Rightarrow> string) \<Rightarrow> (string \<Rightarrow> member list option) \<Rightarrow> object_store
    \<Rightarrow> intake_limits \<Rightarrow> string option \<Rightarrow> source_spec list \<Rightarrow> intake \<Rightarrow> (intake_error, unit, intake) outcome" where
  "ingest_sources sha open_zip fetch limits prefix [] st = (Inr (), st)"
| "ingest_sources sha open_zip fetch limits prefix (s # ss) st =
     bind_op (ingest_source sha open_zip fetch limits prefix s st) (\<lambda>_ st.
       ingest_sources sha open_zip fetch limits prefix ss st)"

definition ingest_r2_sources :: "(string \<Rightarrow> string) \<Rightarrow> (string \<Rightarrow> member list option) \<Rightarrow> object_store
    \<Rightarrow> intake_limits \<Rightarrow> string \<Rightarrow> string option \<Rightarrow> source_spec list \<Rightarrow> tree
    \<Rightarrow> (intake_error, string list, tree) outcome" where
  "ingest_r2_sources sha open_zip fetch limits bucket expected_prefix sources t =
     (if bucket = [] \<or> min (min (il_max_source_bytes limits) (il_max_total_bytes limits))
            (min (il_max_workspace_bytes limits) (il_max_workspace_files limits)) \<le> 0
      then (Inl IntakeValueError, t)
      else case ingest_sources sha open_zip fetch limits expected_prefix sources
          \<lparr>in_inventory = [], in_total = 0, in_workspace_bytes = 0, in_workspace_files = 0, in_tree = t\<rparr> of
        (Inl e, st) \<Rightarrow> (Inl e, in_tree st)
      | (Inr _, st) \<Rightarrow> (Inr (sorted_set (in_inventory st)), in_tree st))"

end
