(* ===== verification/Evidence.thy ===== *)
theory Evidence
  imports Archive PyValue
begin

section \<open>Evidence of a run\<close>

text \<open>
  \<open>core/lil_tweak/evidence.py\<close>: snapshots of a workspace and their digest, the patch between two
  snapshots, the journals of edits and commands, the evidence bundle and the local evidence store.

  Text that goes into evidence is represented by its UTF-8 bytes, so that encoding it is the
  identity and JSON text is \<open>dumps fr False\<close>; file names are strings of code points, as in the
  archive model, and are encoded by \<open>utf8\<close>. Parameters: \<open>sha\<close> (SHA-256 in hexadecimal), \<open>fr\<close>
  (\<open>float.__repr__\<close>) and \<open>diff\<close> (\<open>difflib.unified_diff\<close> of two lists of lines under two names).
\<close>

datatype evidence_error = WorkspaceEvidenceError string | EvidenceConflict | EvidenceTooLarge
  | EvidenceValueError string | EvidenceTypeError | EvidenceOSError

record stored_evidence =
  se_key :: string
  se_sha256 :: string
  se_size :: int

record evidence_bundle =
  eb_files :: "(string, string) dict"
  eb_proposal_digest :: string
  eb_artifact_hashes :: "(string, string) dict"

text \<open>A file of a snapshot: its bytes, or a \<open>SnapshotFile\<close> (path, size, digest) of a staged copy.\<close>

datatype snapshot_value = SnapshotBytes string | SnapshotFile "string list" int string

record workspace_snapshot =
  ws_files :: "(string, snapshot_value) dict"
  ws_source_digest :: string

subsection \<open>Capturing a workspace\<close>

text \<open>What the traversal finds under a directory descriptor: entries with their names, regular files
  with their link count and content. The tree does not change during one pass; the second pass
  of the capture may see another tree.\<close>

datatype fs = FsDir "(string \<times> fs) list" | FsFile int string | FsSymlink | FsOther

record capture_limits =
  cl_max_files :: int
  cl_max_inodes :: int
  cl_max_file_bytes :: int
  cl_max_total_bytes :: int

definition default_capture_limits :: capture_limits where
  "default_capture_limits = \<lparr>cl_max_files = 20000, cl_max_inodes = runner_workspace_inodes,
     cl_max_file_bytes = 25 * 1024 * 1024, cl_max_total_bytes = runner_workspace_bytes\<rparr>"

record capture =
  cp_files :: "(string, snapshot_value) dict"
  cp_seen :: "string list"
  cp_total :: int
  cp_inodes :: int
  cp_staged :: "(string list, string) dict"

text \<open>What the loop checks of every name before it looks at the kind of the entry.\<close>

definition enter_name :: "capture_limits \<Rightarrow> string \<Rightarrow> capture \<Rightarrow> evidence_error + capture" where
  "enter_name limits relative st =
     (case validate_portable_path relative default_limits of
        Inl e \<Rightarrow> Inl (WorkspaceEvidenceError ''workspace_unsafe_path'')
      | Inr portable \<Rightarrow>
        if portable \<noteq> relative then Inl (WorkspaceEvidenceError ''workspace_unsafe_path'')
        else if casefold portable \<in> set (cp_seen st)
        then Inl (WorkspaceEvidenceError ''workspace_path_collision'')
        else if cl_max_inodes limits < cp_inodes st + 1
        then Inl (WorkspaceEvidenceError ''workspace_inode_limit'')
        else Inr (st\<lparr>cp_seen := casefold portable # cp_seen st, cp_inodes := cp_inodes st + 1\<rparr>))"

definition capture_file :: "(string \<Rightarrow> string) \<Rightarrow> capture_limits \<Rightarrow> string list option \<Rightarrow> string \<Rightarrow> int
    \<Rightarrow> string \<Rightarrow> capture \<Rightarrow> evidence_error + capture" where
  "capture_file sha limits stage relative links data st =
     (if links \<noteq> 1 then Inl (WorkspaceEvidenceError ''workspace_hardlink'')
      else if cl_max_files limits \<le> int (length (cp_files st))
      then Inl (WorkspaceEvidenceError ''workspace_file_limit'')
      else if cl_max_file_bytes limits < int (length data)
      then Inl (WorkspaceEvidenceError ''workspace_file_too_large'')
      else if cl_max_total_bytes limits < cp_total st + int (length data)
      then Inl (WorkspaceEvidenceError ''workspace_too_large'')
      else
        let st = st\<lparr>cp_total := cp_total st + int (length data)\<rparr> in
        Inr (case stage of
            None \<Rightarrow> st\<lparr>cp_files := dset (cp_files st) relative (SnapshotBytes data)\<rparr>
          | Some stage_root \<Rightarrow>
              let target = stage_root @ posix_parts relative in
              st\<lparr>cp_files := dset (cp_files st) relative (SnapshotFile target (int (length data)) (sha data)),
                 cp_staged := dset (cp_staged st) target data\<rparr>))"

lemma size_sort_entries: "size_list f (sort_key k xs) = size_list f xs"
proof -
  have ins: "size_list f (insort_key k x ys) = f x + Suc (size_list f ys)" for x ys
    by (induction ys) auto
  show ?thesis by (induction xs) (simp_all add: ins)
qed

text \<open>\<open>visit\<close>: the names of a directory in order; \<open>bounded_names\<close> counts them first.\<close>

definition bounded_names :: "(string \<times> fs) list \<Rightarrow> int \<Rightarrow> evidence_error + (string \<times> fs) list" where
  "bounded_names entries allowance =
     (if allowance < int (length entries) then Inl (WorkspaceEvidenceError ''workspace_inode_limit'')
      else Inr (sort_key fst entries))"

function visit :: "(string \<Rightarrow> string) \<Rightarrow> capture_limits \<Rightarrow> string list option \<Rightarrow> string list
    \<Rightarrow> (string \<times> fs) list \<Rightarrow> capture \<Rightarrow> evidence_error + capture" where
  "visit sha limits stage parts [] st = Inr st"
| "visit sha limits stage parts ((name, node) # rest) st =
     (case enter_name limits (as_posix (parts @ [name])) st of Inl e \<Rightarrow> Inl e | Inr st \<Rightarrow>
      (case (case node of
          FsSymlink \<Rightarrow> Inl (WorkspaceEvidenceError ''workspace_symlink'')
        | FsDir entries \<Rightarrow>
            (if cl_max_inodes limits < int (length entries)
                \<or> cl_max_inodes limits - cp_inodes st < int (length entries)
             then Inl (WorkspaceEvidenceError ''workspace_inode_limit'')
             else visit sha limits stage (parts @ [name]) (sort_key fst entries) st)
        | FsOther \<Rightarrow> Inl (WorkspaceEvidenceError ''workspace_unsupported_type'')
        | FsFile links data \<Rightarrow> capture_file sha limits stage (as_posix (parts @ [name])) links data st)
       of Inl e \<Rightarrow> Inl e | Inr st \<Rightarrow> visit sha limits stage parts rest st))"
  by pat_completeness auto
termination
  by (relation "measure (\<lambda>(sha, limits, stage, parts, es, st). size_list (size_prod (\<lambda>_. 0) size) es)")
    (auto simp: size_sort_entries)

text \<open>The digest of a source tree, every path and content framed by its length.\<close>

definition be64 :: "nat \<Rightarrow> string" where
  "be64 n = map (\<lambda>i. char_of (int n div 256 ^ i)) [7, 6, 5, 4, 3, 2, 1, 0]"

definition framed :: "string \<Rightarrow> string" where
  "framed s = be64 (length s) @ s"

definition source_payload :: "(string \<times> string) list \<Rightarrow> string" where
  "source_payload files = ''lil-tweak-source-v1'' @ [CHR 0x00]
     @ concat (map (\<lambda>(name, data). framed (utf8 name) @ framed data) (sort_key fst files))"

fun read_value :: "(string \<Rightarrow> string) \<Rightarrow> (string list, string) dict \<Rightarrow> snapshot_value
    \<Rightarrow> evidence_error + string" where
  "read_value sha staged (SnapshotBytes data) = Inr data"
| "read_value sha staged (SnapshotFile path n digest) =
     (case dget staged path of None \<Rightarrow> Inl EvidenceOSError
      | Some data \<Rightarrow>
          if int (length data) \<noteq> n \<or> sha data \<noteq> digest
          then Inl (WorkspaceEvidenceError ''snapshot_changed'') else Inr data)"

fun read_values :: "(string \<Rightarrow> string) \<Rightarrow> (string list, string) dict \<Rightarrow> (string, snapshot_value) dict
    \<Rightarrow> evidence_error + (string \<times> string) list" where
  "read_values sha staged [] = Inr []"
| "read_values sha staged ((name, v) # rest) =
     (case read_value sha staged v of Inl e \<Rightarrow> Inl e
      | Inr data \<Rightarrow> (case read_values sha staged rest of Inl e \<Rightarrow> Inl e
          | Inr others \<Rightarrow> Inr ((name, data) # others)))"

text \<open>Where a staging directory may be: its resolved components and whether something is in it.\<close>

definition staging_error :: "string list \<Rightarrow> (string list \<times> bool) option \<Rightarrow> evidence_error option" where
  "staging_error base staging =
     (case staging of None \<Rightarrow> None
      | Some (stage, occupied) \<Rightarrow>
          if take (length stage) base = stage \<or> take (length base) stage = base
          then Some (WorkspaceEvidenceError ''invalid_snapshot_staging'')
          else if occupied then Some (WorkspaceEvidenceError ''snapshot_staging_not_empty'')
          else None)"

definition capture_pass :: "(string \<Rightarrow> string) \<Rightarrow> capture_limits \<Rightarrow> string list
    \<Rightarrow> (string list \<times> bool) option \<Rightarrow> fs option
    \<Rightarrow> evidence_error + (workspace_snapshot \<times> (string list, string) dict)" where
  "capture_pass sha limits base staging tree =
     (case tree of
        Some FsSymlink \<Rightarrow> Inl (WorkspaceEvidenceError ''workspace_root_symlink'')
      | Some (FsDir entries) \<Rightarrow>
        if cl_max_inodes limits < 1 then Inl (WorkspaceEvidenceError ''workspace_inode_limit'')
        else (case staging_error base staging of Some e \<Rightarrow> Inl e
        | None \<Rightarrow> (case bounded_names entries (cl_max_inodes limits - 1) of Inl e \<Rightarrow> Inl e
        | Inr names \<Rightarrow> (case visit sha limits (map_option fst staging) [] names
              \<lparr>cp_files = [], cp_seen = [], cp_total = 0, cp_inodes = 1, cp_staged = []\<rparr> of Inl e \<Rightarrow> Inl e
        | Inr st \<Rightarrow> (case read_values sha (cp_staged st) (sort_key fst (cp_files st)) of Inl e \<Rightarrow> Inl e
        | Inr files \<Rightarrow> Inr (\<lparr>ws_files = cp_files st, ws_source_digest = sha (source_payload files)\<rparr>,
            cp_staged st)))))
      | _ \<Rightarrow> Inl (WorkspaceEvidenceError ''workspace_missing''))"

text \<open>\<open>capture_workspace\<close>: the capture and its verification pass.\<close>

definition capture_workspace :: "(string \<Rightarrow> string) \<Rightarrow> capture_limits \<Rightarrow> string list
    \<Rightarrow> (string list \<times> bool) option \<Rightarrow> fs option \<Rightarrow> fs option
    \<Rightarrow> evidence_error + (workspace_snapshot \<times> (string list, string) dict)" where
  "capture_workspace sha limits base staging first second =
     (case capture_pass sha limits base staging first of Inl e \<Rightarrow> Inl e
      | Inr (snapshot, staged) \<Rightarrow> (case capture_pass sha limits base None second of Inl e \<Rightarrow> Inl e
      | Inr (verification, _) \<Rightarrow>
          if ws_source_digest verification \<noteq> ws_source_digest snapshot
          then Inl (WorkspaceEvidenceError ''workspace_changed_during_snapshot'')
          else Inr (snapshot, staged)))"

subsection \<open>Differences of snapshots\<close>

definition snapshot_bytes :: "(string \<Rightarrow> string) \<Rightarrow> (string list, string) dict \<Rightarrow> snapshot_value option
    \<Rightarrow> evidence_error + string option" where
  "snapshot_bytes sha disk value =
     (case value of
        None \<Rightarrow> Inr None
      | Some (SnapshotBytes b) \<Rightarrow> Inr (Some b)
      | Some (SnapshotFile path n digest) \<Rightarrow>
          (case dget disk path of None \<Rightarrow> Inl (WorkspaceEvidenceError ''snapshot_unavailable'')
           | Some data \<Rightarrow>
               if int (length data) \<noteq> n \<or> sha data \<noteq> digest
               then Inl (WorkspaceEvidenceError ''snapshot_changed'') else Inr (Some data)))"

definition snapshot_identity :: "(string \<Rightarrow> string) \<Rightarrow> snapshot_value option \<Rightarrow> (int \<times> string) option" where
  "snapshot_identity sha value =
     (case value of None \<Rightarrow> None
      | Some (SnapshotBytes b) \<Rightarrow> Some (int (length b), sha b)
      | Some (SnapshotFile path n digest) \<Rightarrow> Some (n, digest))"

definition snapshot_names :: "workspace_snapshot \<Rightarrow> workspace_snapshot \<Rightarrow> string list" where
  "snapshot_names prior after = sorted_set (dkeys (ws_files prior) @ dkeys (ws_files after))"

definition workspace_changed_paths :: "(string \<Rightarrow> string) \<Rightarrow> workspace_snapshot \<Rightarrow> workspace_snapshot
    \<Rightarrow> string list" where
  "workspace_changed_paths sha prior after =
     filter (\<lambda>name. snapshot_identity sha (dget (ws_files prior) name)
         \<noteq> snapshot_identity sha (dget (ws_files after) name)) (snapshot_names prior after)"

definition identity_value :: "(int \<times> string) option \<Rightarrow> pyval" where
  "identity_value i = (case i of None \<Rightarrow> PNone | Some (n, digest) \<Rightarrow> PList [PInt n, PStr digest])"

definition workspace_delta_digest :: "(string \<Rightarrow> string) \<Rightarrow> (rat \<Rightarrow> string) \<Rightarrow> workspace_snapshot
    \<Rightarrow> workspace_snapshot \<Rightarrow> string list \<Rightarrow> evidence_error + string" where
  "workspace_delta_digest sha fr prior after paths =
     (if paths \<noteq> sorted_set paths then Inl (WorkspaceEvidenceError ''invalid_delta_paths'')
      else Inr (sha (''lil-tweak-workspace-delta-v1'' @ [CHR 0x00]
        @ dumps fr False (PList (map (\<lambda>name. PDict
            [(''path'', PStr (utf8 name)),
             (''before'', identity_value (snapshot_identity sha (dget (ws_files prior) name))),
             (''after'', identity_value (snapshot_identity sha (dget (ws_files after) name)))]) paths)))))"

end
