(* ===== verification/EvidenceBundle.thy ===== *)
theory EvidenceBundle
  imports Evidence
begin

section \<open>Patches, journals and bundles\<close>

text \<open>
  The rest of \<open>core/lil_tweak/evidence.py\<close>: the patch between two snapshots, the journals of edits
  and commands with their redaction, the key contract, the local evidence store and the bundle
  of a run. Text is UTF-8 bytes throughout, as in the theory before.
\<close>

subsection \<open>The edit journal\<close>

definition edit_journal_fields :: "string list" where
  "edit_journal_fields = [''ordinal'', ''before_source_digest'', ''after_source_digest'',
     ''actual_changed_paths'', ''delta_digest'', ''result'', ''exit_code'', ''timed_out'',
     ''truncated'', ''rejection_code'']"

text \<open>\<open>xs != sorted(set(xs))\<close>: raises a \<open>TypeError\<close> when an element cannot be hashed or two cannot be
  compared.\<close>

fun str_items :: "pyval list \<Rightarrow> string list option" where
  "str_items [] = Some []"
| "str_items (PStr s # vs) = map_option ((#) s) (str_items vs)"
| "str_items (_ # vs) = None"

definition sort_raises :: "pyval list \<Rightarrow> bool" where
  "sort_raises vs \<longleftrightarrow> list_ex (\<lambda>v. case v of PList _ \<Rightarrow> True | PDict _ \<Rightarrow> True | _ \<Rightarrow> False) vs
     \<or> \<not> (list_all is_str vs \<or> list_all is_number vs \<or> list_all (\<lambda>v. v = PNone) vs)"

definition field_hex64 :: "pydict \<Rightarrow> string \<Rightarrow> bool" where
  "field_hex64 item name = field_is hex64_value item name"

definition valid_rejection_code :: "string \<Rightarrow> bool" where
  "valid_rejection_code s \<longleftrightarrow> (case s of [] \<Rightarrow> False | c # r \<Rightarrow> is_lower c \<and> length r \<le> 63
     \<and> list_all (\<lambda>d. is_lower d \<or> is_digit d \<or> d = CHR ''_'') r)"

definition is_none_or :: "(pyval \<Rightarrow> bool) \<Rightarrow> pydict \<Rightarrow> string \<Rightarrow> bool" where
  "is_none_or P item name = (case dget item name of None \<Rightarrow> True | Some PNone \<Rightarrow> True | Some v \<Rightarrow> P v)"

text \<open>The checks of one entry after its fields and ordinal, and the number of its paths.\<close>

definition journal_paths :: "pydict \<Rightarrow> evidence_error + int" where
  "journal_paths item =
     (case dget item ''actual_changed_paths'' of
        Some (PList vs) \<Rightarrow>
          if sort_raises vs then Inl EvidenceTypeError
          else (case str_items vs of
              None \<Rightarrow> Inl (WorkspaceEvidenceError ''invalid_edit_journal'')
            | Some paths \<Rightarrow>
                if paths \<noteq> sorted_set paths then Inl (WorkspaceEvidenceError ''invalid_edit_journal'')
                else Inr (int (length paths)))
      | _ \<Rightarrow> Inl (WorkspaceEvidenceError ''invalid_edit_journal''))"

definition journal_entry_ok :: "pydict \<Rightarrow> bool" where
  "journal_entry_ok item \<longleftrightarrow>
     dget item ''result'' \<in> {Some (PStr ''promoted''), Some (PStr ''rejected'')}
     \<and> list_all (field_hex64 item) [''before_source_digest'', ''after_source_digest'', ''delta_digest'']
     \<and> is_none_or is_int item ''exit_code''
     \<and> field_is (\<lambda>v. \<exists>b. v = PBool b) item ''timed_out''
     \<and> field_is (\<lambda>v. \<exists>b. v = PBool b) item ''truncated''
     \<and> is_none_or (\<lambda>v. case v of PStr s \<Rightarrow> valid_rejection_code s | _ \<Rightarrow> False) item ''rejection_code''"

fun journal_entries :: "int \<Rightarrow> int \<Rightarrow> int \<Rightarrow> pydict list \<Rightarrow> evidence_error + unit" where
  "journal_entries max_paths ordinal path_count [] = Inr ()"
| "journal_entries max_paths ordinal path_count (item # rest) =
     (if set (dkeys item) \<noteq> set edit_journal_fields
         \<or> \<not> field_is (\<lambda>v. py_eq_int v ordinal) item ''ordinal''
      then Inl (WorkspaceEvidenceError ''invalid_edit_journal'')
      else case journal_paths item of Inl e \<Rightarrow> Inl e
      | Inr n \<Rightarrow>
        if max_paths < path_count + n then Inl (WorkspaceEvidenceError ''edit_journal_path_limit'')
        else if \<not> journal_entry_ok item then Inl (WorkspaceEvidenceError ''invalid_edit_journal'')
        else journal_entries max_paths (ordinal + 1) (path_count + n) rest)"

definition build_edit_journal_evidence :: "(string \<Rightarrow> string) \<Rightarrow> (rat \<Rightarrow> string) \<Rightarrow> int \<Rightarrow> int \<Rightarrow> int
    \<Rightarrow> pydict list \<Rightarrow> evidence_error + pydict" where
  "build_edit_journal_evidence sha fr max_entries max_paths max_bytes entries =
     (if max_entries < int (length entries)
      then Inl (WorkspaceEvidenceError ''edit_journal_entry_limit'')
      else case journal_entries max_paths 0 0 entries of Inl e \<Rightarrow> Inl e
      | Inr _ \<Rightarrow>
        let canonical = PList (map PDict entries); encoded = dumps fr False canonical in
        if max_bytes < int (length encoded) then Inl (WorkspaceEvidenceError ''edit_journal_too_large'')
        else Inr [(''edit_journal'', canonical), (''edit_journal_count'', PInt (int (length entries))),
          (''edit_journal_digest'', PStr (sha (''lil-tweak-edit-journal-v1'' @ [CHR 0x00] @ encoded)))])"

subsection \<open>The patch\<close>

text \<open>Whether bytes are UTF-8 (\<open>bytes.decode\<close>): no overlong forms, no surrogates, at most U+10FFFF.\<close>

definition continuation :: "char \<Rightarrow> bool" where
  "continuation c \<longleftrightarrow> CHR 0x80 \<le> c \<and> c \<le> CHR 0xBF"

text \<open>The length of the character at the head of a byte string, 0 when there is none.\<close>

definition utf8_width :: "string \<Rightarrow> nat" where
  "utf8_width s =
     (case s of [] \<Rightarrow> 0 | a # r \<Rightarrow>
        if a < CHR 0x80 then 1
        else if CHR 0xC2 \<le> a \<and> a \<le> CHR 0xDF then
          (case r of b # _ \<Rightarrow> if continuation b then 2 else 0 | _ \<Rightarrow> 0)
        else if CHR 0xE0 \<le> a \<and> a \<le> CHR 0xEF then
          (case r of b # c # _ \<Rightarrow>
             if continuation b \<and> continuation c \<and> (a = CHR 0xE0 \<longrightarrow> CHR 0xA0 \<le> b)
                \<and> (a = CHR 0xED \<longrightarrow> b \<le> CHR 0x9F) then 3 else 0
           | _ \<Rightarrow> 0)
        else if CHR 0xF0 \<le> a \<and> a \<le> CHR 0xF4 then
          (case r of b # c # d # _ \<Rightarrow>
             if continuation b \<and> continuation c \<and> continuation d \<and> (a = CHR 0xF0 \<longrightarrow> CHR 0x90 \<le> b)
                \<and> (a = CHR 0xF4 \<longrightarrow> b \<le> CHR 0x8F) then 4 else 0
           | _ \<Rightarrow> 0)
        else 0)"

function is_utf8 :: "string \<Rightarrow> bool" where
  "is_utf8 s = (if s = [] then True else if utf8_width s = 0 then False
     else is_utf8 (drop (utf8_width s) s))"
  by pat_completeness auto
termination by (relation "measure length") auto

declare is_utf8.simps [simp del]

text \<open>\<open>str.splitlines(keepends=True)\<close>: the width of the line boundary at the head of a text.\<close>

definition boundary :: "string \<Rightarrow> nat" where
  "boundary s =
     (case s of [] \<Rightarrow> 0 | a # r \<Rightarrow>
        if a = CHR 0x0D then (case r of b # _ \<Rightarrow> if b = CHR 0x0A then 2 else 1 | [] \<Rightarrow> 1)
        else if a \<in> {CHR 0x0A, CHR 0x0B, CHR 0x0C, CHR 0x1C, CHR 0x1D, CHR 0x1E} then 1
        else if a = CHR 0xC2 then (case r of b # _ \<Rightarrow> if b = CHR 0x85 then 2 else 0 | [] \<Rightarrow> 0)
        else if a = CHR 0xE2 then
          (case r of b # c # _ \<Rightarrow> if b = CHR 0x80 \<and> c \<in> {CHR 0xA8, CHR 0xA9} then 3 else 0 | _ \<Rightarrow> 0)
        else 0)"

function split_lines :: "string \<Rightarrow> string \<Rightarrow> string list" where
  "split_lines line s =
     (if s = [] then (if line = [] then [] else [line])
      else if boundary s \<noteq> 0
      then (line @ take (boundary s) s) # split_lines [] (drop (boundary s) s)
      else split_lines (line @ [hd s]) (tl s))"
  by pat_completeness auto
termination by (relation "measure (length \<circ> snd)") auto

declare split_lines.simps [simp del]

definition patch_lines :: "string \<Rightarrow> string list" where
  "patch_lines text =
     (if text \<noteq> [] \<and> last text \<notin> {CHR 0x0A, CHR 0x0D}
      then split_lines [] (text @ [CHR 0x00, CHR 0x0A]) else split_lines [] text)"

text \<open>\<open>difflib.unified_diff\<close> of two lists of lines, with the two file names.\<close>

type_synonym line_diff = "string list \<Rightarrow> string list \<Rightarrow> string \<Rightarrow> string \<Rightarrow> string list"

definition append_bounded :: "int \<Rightarrow> string \<Rightarrow> string \<Rightarrow> evidence_error + string" where
  "append_bounded max_bytes chunk encoded =
     (if max_bytes - int (length encoded) < int (length chunk)
      then Inl (WorkspaceEvidenceError ''patch_too_large'') else Inr (encoded @ chunk))"

definition no_newline_marker :: string where
  "no_newline_marker = [CHR 0x5C] @ '' No newline at end of file'' @ [CHR 0x0A]"

fun append_diff :: "int \<Rightarrow> string list \<Rightarrow> string \<Rightarrow> evidence_error + string" where
  "append_diff max_bytes [] encoded = Inr encoded"
| "append_diff max_bytes (line # rest) encoded =
     (case (if CHR 0x00 \<in> set line then
          (case append_bounded max_bytes (filter (\<lambda>c. c \<noteq> CHR 0x00) line) encoded of Inl e \<Rightarrow> Inl e
           | Inr encoded \<Rightarrow> append_bounded max_bytes no_newline_marker encoded)
        else append_bounded max_bytes line encoded)
      of Inl e \<Rightarrow> Inl e | Inr encoded \<Rightarrow> append_diff max_bytes rest encoded)"

definition no_text :: "string option \<Rightarrow> bool" where
  "no_text b \<longleftrightarrow> (case b of None \<Rightarrow> False | Some s \<Rightarrow> \<not> is_utf8 s)"

definition file_patch :: "line_diff \<Rightarrow> int \<Rightarrow> string \<Rightarrow> string option \<Rightarrow> string option \<Rightarrow> string
    \<Rightarrow> evidence_error + string" where
  "file_patch diff max_bytes name prior after encoded =
     (if (case prior of None \<Rightarrow> False | Some b \<Rightarrow> CHR 0x00 \<in> set b)
         \<or> (case after of None \<Rightarrow> False | Some a \<Rightarrow> CHR 0x00 \<in> set a)
         \<or> no_text prior \<or> no_text after
      then Inl (WorkspaceEvidenceError ''binary_change_unsupported'')
      else append_diff max_bytes
        (diff (patch_lines (case prior of None \<Rightarrow> [] | Some b \<Rightarrow> b))
          (patch_lines (case after of None \<Rightarrow> [] | Some a \<Rightarrow> a))
          (if prior = None then ''/dev/null'' else ''a/'' @ utf8 name)
          (if after = None then ''/dev/null'' else ''b/'' @ utf8 name)) encoded)"

fun patch_files :: "(string \<Rightarrow> string) \<Rightarrow> line_diff \<Rightarrow> int \<Rightarrow> (string list, string) dict
    \<Rightarrow> workspace_snapshot \<Rightarrow> workspace_snapshot \<Rightarrow> string list \<Rightarrow> string \<Rightarrow> evidence_error + string" where
  "patch_files sha diff max_bytes disk baseline final [] encoded = Inr encoded"
| "patch_files sha diff max_bytes disk baseline final (name # names) encoded =
     (let before_value = dget (ws_files baseline) name; after_value = dget (ws_files final) name in
      if snapshot_identity sha before_value = snapshot_identity sha after_value
      then patch_files sha diff max_bytes disk baseline final names encoded
      else case snapshot_bytes sha disk before_value of Inl e \<Rightarrow> Inl e
      | Inr prior \<Rightarrow> (case snapshot_bytes sha disk after_value of Inl e \<Rightarrow> Inl e
        | Inr after \<Rightarrow> (case file_patch diff max_bytes name prior after encoded of Inl e \<Rightarrow> Inl e
          | Inr encoded \<Rightarrow> patch_files sha diff max_bytes disk baseline final names encoded)))"

definition build_workspace_patch :: "(string \<Rightarrow> string) \<Rightarrow> line_diff \<Rightarrow> int \<Rightarrow> (string list, string) dict
    \<Rightarrow> workspace_snapshot \<Rightarrow> workspace_snapshot \<Rightarrow> evidence_error + string" where
  "build_workspace_patch sha diff max_bytes disk baseline final =
     (if max_bytes < 0 then Inl (WorkspaceEvidenceError ''patch_too_large'')
      else patch_files sha diff max_bytes disk baseline final (snapshot_names baseline final) [])"

end
