(* ===== verification/EvidenceCommands.thy ===== *)
theory EvidenceCommands
  imports EvidenceBundle
begin

section \<open>Redacted command logs\<close>

text \<open>
  \<open>_redact_text\<close>, \<open>_sanitize_argv\<close> and \<open>build_command_evidence\<close> of \<open>core/lil_tweak/evidence.py\<close>, on
  the UTF-8 bytes of the texts. The regular expressions are written as deterministic matchers: at
  one position only one alternative can match, and no shorter match of a greedy part leads to a
  match that the longest one misses, save for the optional \<open>bearer\<close>, whose two cases are tried
  in order.
\<close>

subsection \<open>Matching\<close>

definition ascii_lower :: "char \<Rightarrow> char" where
  "ascii_lower c = (if is_upper c then char_of ((of_char c :: nat) + 32) else c)"

text \<open>A lower case pattern under \<open>re.IGNORECASE\<close>: beside the ASCII letters the Kelvin sign
  (E2 84 AA) matches k, the long s (C5 BF) matches s, and the dotted capital and the dotless small
  i (C4 B0, C4 B1) match i. The result is what is left.\<close>

fun match_ci :: "string \<Rightarrow> string \<Rightarrow> string option" where
  "match_ci [] s = Some s"
| "match_ci (p # ps) s =
     (if p = CHR ''k'' \<and> take 3 s = [CHR 0xE2, CHR 0x84, CHR 0xAA] then match_ci ps (drop 3 s)
      else if p = CHR ''s'' \<and> take 2 s = [CHR 0xC5, CHR 0xBF] then match_ci ps (drop 2 s)
      else if p = CHR ''i'' \<and> take 2 s \<in> {[CHR 0xC4, CHR 0xB0], [CHR 0xC4, CHR 0xB1]}
      then match_ci ps (drop 2 s)
      else case s of [] \<Rightarrow> None
        | c # r \<Rightarrow> if ascii_lower c = p then match_ci ps r else None)"

text \<open>The width of the white space character (\<open>str.isspace\<close>) at the head of a text.\<close>

definition space_width :: "string \<Rightarrow> nat" where
  "space_width s =
     (case s of [] \<Rightarrow> 0 | a # r \<Rightarrow>
        if (CHR 0x09 \<le> a \<and> a \<le> CHR 0x0D) \<or> (CHR 0x1C \<le> a \<and> a \<le> CHR 0x20) then 1
        else if a = CHR 0xC2 then
          (case r of b # _ \<Rightarrow> if b \<in> {CHR 0x85, CHR 0xA0} then 2 else 0 | [] \<Rightarrow> 0)
        else (case r of b # c # _ \<Rightarrow>
            if (a = CHR 0xE1 \<and> b = CHR 0x9A \<and> c = CHR 0x80)
               \<or> (a = CHR 0xE2 \<and> b = CHR 0x80 \<and> ((CHR 0x80 \<le> c \<and> c \<le> CHR 0x8A)
                    \<or> c \<in> {CHR 0xA8, CHR 0xA9, CHR 0xAF}))
               \<or> (a = CHR 0xE2 \<and> b = CHR 0x81 \<and> c = CHR 0x9F)
               \<or> (a = CHR 0xE3 \<and> b = CHR 0x80 \<and> c = CHR 0x80) then 3 else 0
          | _ \<Rightarrow> 0))"

lemma drop_space: "space_width s \<noteq> 0 \<Longrightarrow> length (drop (space_width s) s) < length s"
  by (cases s) (simp_all add: space_width_def)

function skip_spaces :: "string \<Rightarrow> string" where
  "skip_spaces s = (if space_width s = 0 then s else skip_spaces (drop (space_width s) s))"
  by pat_completeness auto
termination by (relation "measure length") (use drop_space in auto)

declare skip_spaces.simps [simp del]

text \<open>The longest run of characters that are neither white space nor in \<open>stop\<close>, and the rest.\<close>

function token_run :: "char list \<Rightarrow> string \<Rightarrow> string \<times> string" where
  "token_run stop s =
     (if s = [] \<or> space_width s \<noteq> 0 \<or> hd s \<in> set stop then ([], s)
      else (case token_run stop (tl s) of (word, rest) \<Rightarrow> (hd s # word, rest)))"
  by pat_completeness auto
termination by (relation "measure (length \<circ> snd)") auto

declare token_run.simps [simp del]

definition secret_words :: "string list" where
  "secret_words = [''authorization'', ''api_key'', ''api-key'', ''apikey'', ''access_key'', ''access-key'',
     ''accesskey'', ''token'', ''password'', ''secret'']"

fun match_first :: "string list \<Rightarrow> string \<Rightarrow> string option" where
  "match_first [] s = None"
| "match_first (w # ws) s = (case match_ci w s of Some r \<Rightarrow> Some r | None \<Rightarrow> match_first ws s)"

text \<open>The value after the colon or the equals sign, with the optional \<open>bearer\<close>.\<close>

definition secret_value :: "string \<Rightarrow> string option" where
  "secret_value s =
     (let stop = [CHR '','', CHR '';''];
          plain = (case token_run stop s of (word, rest) \<Rightarrow> if word = [] then None else Some rest)
      in case match_ci ''bearer'' s of
           None \<Rightarrow> plain
         | Some r \<Rightarrow>
             if space_width r = 0 then plain
             else (case token_run stop (skip_spaces r) of (word, rest) \<Rightarrow>
                 if word = [] then plain else Some rest))"

text \<open>\<open>_SECRET_ASSIGNMENT\<close> at the head of a text: the word as it is written and what is left.\<close>

definition secret_assignment :: "string \<Rightarrow> (string \<times> string) option" where
  "secret_assignment s =
     (case match_first secret_words s of None \<Rightarrow> None
      | Some r \<Rightarrow>
        (case skip_spaces r of
           c # r2 \<Rightarrow> if c = CHR '':'' \<or> c = CHR ''='' then
               map_option (Pair (take (length s - length r) s)) (secret_value (skip_spaces r2))
             else None
         | [] \<Rightarrow> None))"

text \<open>\<open>_URL_USERINFO\<close> at the head of a text: the scheme as it is written and what is left.\<close>

definition url_userinfo :: "string \<Rightarrow> (string \<times> string) option" where
  "url_userinfo s =
     (case match_first [''https://'', ''http://''] s of None \<Rightarrow> None
      | Some r \<Rightarrow>
        (case token_run [CHR ''/'', CHR ''@'', CHR '':''] r of (user, r2) \<Rightarrow>
           if user = [] then None
           else (case r2 of
               c # r3 \<Rightarrow>
                 if c = CHR ''@'' then Some (take (length s - length r) s, r3)
                 else if c = CHR '':'' then
                   (case snd (token_run [CHR ''/'', CHR ''@''] r3) of
                      d # r4 \<Rightarrow> if d = CHR ''@'' then Some (take (length s - length r) s, r4) else None
                    | [] \<Rightarrow> None)
                 else None
             | [] \<Rightarrow> None)))"

text \<open>\<open>Pattern.sub\<close>: matches from left to right; \<open>n\<close> characters of a match are still to be dropped.\<close>

fun substitute :: "(string \<Rightarrow> (string \<times> string) option) \<Rightarrow> (string \<Rightarrow> string) \<Rightarrow> nat \<Rightarrow> string \<Rightarrow> string" where
  "substitute matcher replace n [] = []"
| "substitute matcher replace (Suc n) (c # s) = substitute matcher replace n s"
| "substitute matcher replace 0 (c # s) =
     (case matcher (c # s) of
        None \<Rightarrow> c # substitute matcher replace 0 s
      | Some (word, rest) \<Rightarrow>
          replace word @ substitute matcher replace (length s - length rest) s)"

definition redact_text :: "string \<Rightarrow> string" where
  "redact_text text =
     substitute url_userinfo (\<lambda>scheme. scheme @ ''[REDACTED]@'') 0
       (substitute secret_assignment (\<lambda>word. word @ ''=[REDACTED]'') 0 text)"

subsection \<open>Command lines\<close>

definition secret_flags :: "string list" where
  "secret_flags = [''--api-key'', ''--access-key'', ''--authorization'', ''--password'', ''--secret'', ''--token'']"

text \<open>\<open>part.casefold()\<close> equals an ASCII flag: beside the characters of \<open>match_ci\<close> the sharp s, small
  (C3 9F) and capital (E1 BA 9E), folds to ss.\<close>

fun folds_to :: "string \<Rightarrow> string \<Rightarrow> bool" where
  "folds_to [] s = (s = [])"
| "folds_to (p # ps) s =
     (if p = CHR ''s'' \<and> take 1 ps = ''s'' \<and> take 2 s = [CHR 0xC3, CHR 0x9F] then folds_to (drop 1 ps) (drop 2 s)
      else if p = CHR ''s'' \<and> take 1 ps = ''s'' \<and> take 3 s = [CHR 0xE1, CHR 0xBA, CHR 0x9E]
      then folds_to (drop 1 ps) (drop 3 s)
      else if p = CHR ''k'' \<and> take 3 s = [CHR 0xE2, CHR 0x84, CHR 0xAA] then folds_to ps (drop 3 s)
      else if p = CHR ''s'' \<and> take 2 s = [CHR 0xC5, CHR 0xBF] then folds_to ps (drop 2 s)
      else case s of [] \<Rightarrow> False | c # r \<Rightarrow> ascii_lower c = p \<and> folds_to ps r)"

text \<open>\<open>encoded[:limit].decode("utf-8", "ignore")\<close> of the bytes of a text.\<close>

function decode_prefix :: "nat \<Rightarrow> string \<Rightarrow> string" where
  "decode_prefix limit s =
     (if s = [] \<or> utf8_width s = 0 \<or> limit < utf8_width s then []
      else take (utf8_width s) s @ decode_prefix (limit - utf8_width s) (drop (utf8_width s) s))"
  by pat_completeness auto
termination by (relation "measure (length \<circ> snd)") auto

declare decode_prefix.simps [simp del]

definition bounded_utf8 :: "string \<Rightarrow> nat \<Rightarrow> string \<times> bool" where
  "bounded_utf8 value limit =
     (if length value \<le> limit then (value, False)
      else (decode_prefix limit value @ [CHR 0xE2, CHR 0x80, CHR 0xA6], True))"

fun sanitize_parts :: "bool \<Rightarrow> string list \<Rightarrow> string list" where
  "sanitize_parts redact_next [] = []"
| "sanitize_parts redact_next (part # parts) =
     (if redact_next then ''[REDACTED]'' # sanitize_parts False parts
      else redact_text part # sanitize_parts (list_ex (\<lambda>flag. folds_to flag part) secret_flags) parts)"

definition json_strings :: "string list \<Rightarrow> string" where
  "json_strings xs = dumps (\<lambda>_. []) False (PList (map PStr xs))"

fun display_parts :: "string list \<Rightarrow> bool \<Rightarrow> string list \<Rightarrow> string list \<times> bool" where
  "display_parts displayed truncated [] = (displayed, truncated)"
| "display_parts displayed truncated (part # parts) =
     (case bounded_utf8 part 256 of (bounded, part_truncated) \<Rightarrow>
        if 2048 < int (length (json_strings (displayed @ [bounded])))
        then (displayed @ [''[TRUNCATED]''], True)
        else display_parts (displayed @ [bounded]) (truncated \<or> part_truncated) parts)"

definition sanitize_argv :: "(string \<Rightarrow> string) \<Rightarrow> string list \<Rightarrow> string list \<times> string \<times> bool" where
  "sanitize_argv sha command =
     (let sanitized = sanitize_parts False command in
      case display_parts [] False sanitized of
        (displayed, truncated) \<Rightarrow> (displayed, sha (json_strings sanitized), truncated))"

subsection \<open>Observed commands\<close>

text \<open>A host-recorded execution: its optional entries. \<open>exit_code\<close> is an integer or \<open>None\<close>.\<close>

record observation =
  ob_operation :: "string option"
  ob_command :: "string list option"
  ob_exit_code :: "int option"
  ob_timed_out :: bool
  ob_truncated :: bool
  ob_stdout :: "string option"
  ob_stderr :: "string option"

definition operation_name :: "observation \<Rightarrow> string" where
  "operation_name ob = (case ob_operation ob of None \<Rightarrow> ''run_command''
     | Some op \<Rightarrow> if op \<in> {''run_command'', ''apply_patch''} then op else ''unknown'')"

definition lower_bool :: "bool \<Rightarrow> string" where
  "lower_bool b = (if b then ''true'' else ''false'')"

definition or_empty :: "string option \<Rightarrow> string" where
  "or_empty s = (case s of None \<Rightarrow> [] | Some t \<Rightarrow> t)"

definition log_entry :: "string list \<Rightarrow> observation \<Rightarrow> string" where
  "log_entry displayed ob =
     ''$ '' @ json_strings displayed @ [CHR 0x0A]
     @ ''exit_code='' @ (case ob_exit_code ob of None \<Rightarrow> ''None'' | Some n \<Rightarrow> show_int n)
     @ '' timed_out='' @ lower_bool (ob_timed_out ob)
     @ '' truncated='' @ lower_bool (ob_truncated ob) @ [CHR 0x0A]
     @ ''[stdout]'' @ [CHR 0x0A] @ redact_text (or_empty (ob_stdout ob)) @ [CHR 0x0A]
     @ ''[stderr]'' @ [CHR 0x0A] @ redact_text (or_empty (ob_stderr ob)) @ [CHR 0x0A]"

record command_log =
  cm_log :: string
  cm_remaining :: int
  cm_commands :: "string list list"
  cm_hashes :: "string list"
  cm_argv_truncated :: "bool list"
  cm_operations :: "string list"
  cm_exit_statuses :: "int option list"
  cm_timeouts :: "bool list"
  cm_truncation :: "bool list"

definition observe :: "(string \<Rightarrow> string) \<Rightarrow> observation \<Rightarrow> command_log \<Rightarrow> evidence_error + command_log" where
  "observe sha ob m =
     (case ob_command ob of None \<Rightarrow> Inl (WorkspaceEvidenceError ''invalid_command_observation'')
      | Some command \<Rightarrow>
        (case sanitize_argv sha command of (displayed, hash, command_truncated) \<Rightarrow>
          let entry = log_entry displayed ob;
              too_long = cm_remaining m < int (length entry);
              cut = (if too_long then take (nat (cm_remaining m)) entry else entry)
          in Inr (m\<lparr>cm_log := cm_log m @ (if too_long then decode_prefix (nat (cm_remaining m)) entry else entry),
              cm_remaining := cm_remaining m - int (length cut),
              cm_commands := cm_commands m @ [displayed], cm_hashes := cm_hashes m @ [hash],
              cm_argv_truncated := cm_argv_truncated m @ [command_truncated],
              cm_operations := cm_operations m @ [operation_name ob],
              cm_exit_statuses := cm_exit_statuses m @ [ob_exit_code ob],
              cm_timeouts := cm_timeouts m @ [ob_timed_out ob],
              cm_truncation := cm_truncation m @ [ob_truncated ob \<or> too_long]\<rparr>)))"

fun observe_all :: "(string \<Rightarrow> string) \<Rightarrow> observation list \<Rightarrow> command_log \<Rightarrow> evidence_error + command_log" where
  "observe_all sha [] m = Inr m"
| "observe_all sha (ob # obs) m = (case observe sha ob m of Inl e \<Rightarrow> Inl e | Inr m \<Rightarrow> observe_all sha obs m)"

definition strings_value :: "string list \<Rightarrow> pyval" where
  "strings_value xs = PList (map PStr xs)"

definition command_metadata :: "(string \<Rightarrow> string) \<Rightarrow> command_log \<Rightarrow> pydict" where
  "command_metadata sha m =
     [(''commands'', PList (map strings_value (cm_commands m))),
      (''command_hashes'', strings_value (cm_hashes m)),
      (''commands_digest'', PStr (sha (json_strings (cm_hashes m)))),
      (''argv_truncated'', PList (map PBool (cm_argv_truncated m))),
      (''operations'', strings_value (cm_operations m)),
      (''exit_statuses'', PList (map (\<lambda>x. case x of None \<Rightarrow> PNone | Some n \<Rightarrow> PInt n) (cm_exit_statuses m))),
      (''timeouts'', PList (map PBool (cm_timeouts m))),
      (''truncation'', PList (map PBool (cm_truncation m)))]"

definition build_command_evidence :: "(string \<Rightarrow> string) \<Rightarrow> int \<Rightarrow> observation list
    \<Rightarrow> evidence_error + (string \<times> command_log)" where
  "build_command_evidence sha max_bytes observations =
     (if 512 < length observations
      then Inl (WorkspaceEvidenceError ''too_many_command_observations'')
      else case observe_all sha observations
          \<lparr>cm_log = [], cm_remaining = max_bytes, cm_commands = [], cm_hashes = [], cm_argv_truncated = [],
           cm_operations = [], cm_exit_statuses = [], cm_timeouts = [], cm_truncation = []\<rparr> of
        Inl e \<Rightarrow> Inl e
      | Inr m \<Rightarrow> Inr (cm_log m, m))"

end
