(* ===== verification/EvidenceStore.thy ===== *)
theory EvidenceStore
  imports EvidenceCommands
begin

section \<open>The evidence stores and the bundle of a run\<close>

text \<open>
  \<open>_key_parts\<close>, \<open>LocalEvidenceStore\<close>, \<open>R2EvidenceStore\<close> and \<open>build_evidence_bundle\<close> of
  \<open>core/lil_tweak/evidence.py\<close>. The root of the local store is a directory tree without symbolic
  links; the R2 client is a parameter.
\<close>

definition key_parts :: "string \<Rightarrow> evidence_error + string list" where
  "key_parts key =
     (if key = [] \<or> CHR 0x5C \<in> set key \<or> CHR 0x00 \<in> set key \<or> starts_with ''/'' key
      then Inl (EvidenceValueError ''invalid evidence key'')
      else
        let parts = posix_parts key in
        if list_ex (\<lambda>part. part \<in> {[], ''.'', ''..''}) parts
        then Inl (EvidenceValueError ''invalid evidence key'') else Inr parts)"

text \<open>\<open>secrets_equal\<close>; \<open>hmac.compare_digest\<close> raises a \<open>TypeError\<close> on non-ASCII text.\<close>

definition secrets_equal :: "string \<Rightarrow> string \<Rightarrow> evidence_error + bool" where
  "secrets_equal left right = (case hmac_digest_equal left right of
     Inl e \<Rightarrow> Inl EvidenceTypeError | Inr equal \<Rightarrow> Inr equal)"

subsection \<open>The local store\<close>

definition local_digest_error :: "string \<Rightarrow> string option \<Rightarrow> evidence_error option" where
  "local_digest_error digest expected =
     (case expected of None \<Rightarrow> None
      | Some e \<Rightarrow>
          if \<not> hex_of_length 64 e then Some (EvidenceValueError ''evidence digest mismatch'')
          else (case secrets_equal digest e of Inl err \<Rightarrow> Some err
              | Inr equal \<Rightarrow> if equal then None else Some (EvidenceValueError ''evidence digest mismatch'')))"

definition local_put :: "(string \<Rightarrow> string) \<Rightarrow> string \<Rightarrow> string \<Rightarrow> string option \<Rightarrow> tree
    \<Rightarrow> (evidence_error, stored_evidence, tree) outcome" where
  "local_put sha key data expected t =
     (case key_parts key of Inl e \<Rightarrow> (Inl e, t)
      | Inr parts \<Rightarrow>
        (case local_digest_error (sha data) expected of Some e \<Rightarrow> (Inl e, t)
         | None \<Rightarrow>
           if parts = [] then (Inl (EvidenceValueError ''invalid evidence key''), t)
           else (case make_directories (butlast parts) t of
               None \<Rightarrow> (Inl EvidenceOSError, t)
             | Some t \<Rightarrow>
               (case create_file parts data t of
                  None \<Rightarrow> (Inl EvidenceConflict, t)
                | Some t \<Rightarrow> (Inr \<lparr>se_key = key, se_sha256 = sha data, se_size = int (length data)\<rparr>, t)))))"

definition local_get :: "string \<Rightarrow> int \<Rightarrow> tree \<Rightarrow> evidence_error + string" where
  "local_get key max_bytes t =
     (if max_bytes < 0 then Inl (EvidenceValueError ''invalid evidence read limit'')
      else case key_parts key of Inl e \<Rightarrow> Inl e
      | Inr parts \<Rightarrow>
        if parts = [] then Inl (EvidenceValueError ''invalid evidence key'')
        else (case dget t parts of
            Some (FileNode data) \<Rightarrow>
              if max_bytes < int (length data) then Inl EvidenceTooLarge else Inr data
          | _ \<Rightarrow> Inl EvidenceOSError))"

subsection \<open>The R2 store\<close>

text \<open>The answers of the client: \<open>put_object\<close> with \<open>IfNoneMatch="*"\<close> succeeds or raises with an HTTP
  status or without one; \<open>get_object\<close> gives the body or raises.\<close>

datatype put_answer = PutDone | PutStatus int | PutFailed

record r2_client =
  r2_put :: "string \<Rightarrow> string \<Rightarrow> put_answer"
  r2_get :: "string \<Rightarrow> string option"

datatype r2_error = R2Evidence evidence_error | R2Failure

definition strip_slashes :: "string \<Rightarrow> string" where
  "strip_slashes s = rstrip_slash (dropWhile (\<lambda>c. c = CHR ''/'') s)"

definition r2_key :: "string \<Rightarrow> string \<Rightarrow> evidence_error + string" where
  "r2_key prefix key =
     (case key_parts key of Inl e \<Rightarrow> Inl e
      | Inr parts \<Rightarrow> Inr (let safe = join ''/'' parts in if prefix \<noteq> [] then prefix @ ''/'' @ safe else safe))"

definition r2_digest_error :: "string \<Rightarrow> string option \<Rightarrow> evidence_error option" where
  "r2_digest_error digest expected =
     (case expected of None \<Rightarrow> None
      | Some e \<Rightarrow> (case secrets_equal digest e of Inl err \<Rightarrow> Some err
          | Inr equal \<Rightarrow> if equal then None else Some (EvidenceValueError ''evidence digest mismatch'')))"

text \<open>A key that is refused raises a \<open>ValueError\<close> without a response inside the \<open>try\<close>, which goes on
  as any failure of the client.\<close>

definition r2_store_put :: "(string \<Rightarrow> string) \<Rightarrow> r2_client \<Rightarrow> string \<Rightarrow> string \<Rightarrow> string \<Rightarrow> string option
    \<Rightarrow> r2_error + stored_evidence" where
  "r2_store_put sha client prefix key data expected =
     (let digest = sha data; stored = \<lparr>se_key = key, se_sha256 = digest, se_size = int (length data)\<rparr> in
      case r2_digest_error digest expected of Some e \<Rightarrow> Inl (R2Evidence e)
      | None \<Rightarrow> (case r2_key prefix key of Inl e \<Rightarrow> Inl (R2Evidence e)
      | Inr object_key \<Rightarrow>
        (case r2_put client object_key data of
           PutDone \<Rightarrow> Inr stored
         | PutFailed \<Rightarrow> Inl R2Failure
         | PutStatus status \<Rightarrow>
             if status \<noteq> 409 \<and> status \<noteq> 412 then Inl R2Failure
             else (case r2_get client object_key of
                 None \<Rightarrow> Inl (R2Evidence EvidenceConflict)
               | Some body \<Rightarrow>
                   if take (length data + 1) body = data then Inr stored
                   else Inl (R2Evidence EvidenceConflict)))))"

definition r2_store_get :: "r2_client \<Rightarrow> string \<Rightarrow> string \<Rightarrow> int \<Rightarrow> r2_error + string" where
  "r2_store_get client prefix key max_bytes =
     (if max_bytes < 0 then Inl (R2Evidence (EvidenceValueError ''invalid evidence read limit''))
      else case r2_key prefix key of Inl e \<Rightarrow> Inl (R2Evidence e)
      | Inr object_key \<Rightarrow> (case r2_get client object_key of None \<Rightarrow> Inl R2Failure
        | Some body \<Rightarrow>
            let data = take (nat (max_bytes + 1)) body in
            if max_bytes < int (length data) then Inl (R2Evidence EvidenceTooLarge) else Inr data))"

subsection \<open>The bundle\<close>

definition artifact_value :: "(string \<Rightarrow> string) \<Rightarrow> string \<Rightarrow> pyval" where
  "artifact_value sha data =
     PDict [(''sha256'', PStr (sha data)), (''bytes'', PInt (int (length data)))]"

definition bundle_files :: "string \<Rightarrow> string \<Rightarrow> string \<Rightarrow> string \<Rightarrow> (string, string) dict" where
  "bundle_files plan patch tests summary =
     [(''plan.md'', plan), (''changes.patch'', patch), (''tests.log'', tests), (''summary.md'', summary)]"

definition proposal_value :: "(string \<Rightarrow> string) \<Rightarrow> (string, string) dict \<Rightarrow> pydict \<Rightarrow> pydict" where
  "proposal_value sha files metadata =
     [(''version'', PInt 1),
      (''artifacts'', PDict (map (\<lambda>(name, data). (name, artifact_value sha data)) (sort_key fst files))),
      (''run'', PDict metadata)]"

definition proposal_digest :: "(string \<Rightarrow> string) \<Rightarrow> (rat \<Rightarrow> string) \<Rightarrow> (string, string) dict \<Rightarrow> pydict
    \<Rightarrow> string" where
  "proposal_digest sha fr files metadata = sha (dumps fr False (PDict (proposal_value sha files metadata)))"

definition manifest_text :: "(string \<Rightarrow> string) \<Rightarrow> (rat \<Rightarrow> string) \<Rightarrow> (string, string) dict \<Rightarrow> pydict
    \<Rightarrow> string" where
  "manifest_text sha fr files metadata =
     dumps fr False (PDict (proposal_value sha files metadata
       @ [(''proposal_digest'', PStr (proposal_digest sha fr files metadata))])) @ [CHR 0x0A]"

definition build_evidence_bundle :: "(string \<Rightarrow> string) \<Rightarrow> (rat \<Rightarrow> string) \<Rightarrow> string \<Rightarrow> string \<Rightarrow> string
    \<Rightarrow> string \<Rightarrow> pydict \<Rightarrow> int \<Rightarrow> evidence_error + evidence_bundle" where
  "build_evidence_bundle sha fr plan patch tests summary metadata max_manifest_bytes =
     (let files = bundle_files plan patch tests summary in
      if list_ex (\<lambda>(name, data). max_evidence_bytes < int (length data)) files
      then Inl (WorkspaceEvidenceError ''evidence_artifact_too_large'')
      else
        let manifest = manifest_text sha fr files metadata in
        if max_manifest_bytes \<le> 0
           \<or> min max_manifest_bytes max_evidence_bytes < int (length manifest)
        then Inl (WorkspaceEvidenceError ''manifest_too_large'')
        else
          let all_files = files @ [(''manifest.json'', manifest)] in
          Inr \<lparr>eb_files = all_files, eb_proposal_digest = proposal_digest sha fr files metadata,
            eb_artifact_hashes = map (\<lambda>(name, data). (name, sha data)) all_files\<rparr>)"

end
