(* ===== verification/ArchiveProps.thy ===== *)
theory ArchiveProps
  imports Archive
begin

section \<open>What the preflight of an archive guarantees\<close>

text \<open>
  The paths that the inspection accepts lie below the destination, are unique up to case and do
  not need a file as a directory; so an archive that passed is extracted completely, and the
  files of the destination are exactly its regular members.
\<close>

subsection \<open>Splitting and joining paths\<close>

lemma split_on_not_Nil [simp]: "split_on c s \<noteq> []"
  by (induction s) (auto split: list.splits)

lemma split_on_single: "c \<notin> set p \<Longrightarrow> split_on c p = [p]"
  by (induction p) auto

lemma split_on_append: "split_on c (x @ c # y) = split_on c x @ split_on c y"
  by (induction x) (auto split: list.splits)

lemma split_on_join:
  "ps \<noteq> [] \<Longrightarrow> \<forall>p \<in> set ps. c \<notin> set p \<Longrightarrow> split_on c (join [c] ps) = ps"
proof (induction "[c]" ps rule: join.induct)
  case (3 p q ps)
  then show ?case by (simp add: split_on_append split_on_single)
qed (auto simp: split_on_single)

lemma split_on_parts: "p \<in> set (split_on c s) \<Longrightarrow> set p \<subseteq> set s \<and> c \<notin> set p"
proof (induction s arbitrary: p)
  case (Cons d s)
  then show ?case by (cases "split_on c s") (fastforce split: if_splits)+
qed simp

lemma posix_parts_join:
  assumes "\<forall>p \<in> set ps. CHR ''/'' \<notin> set p \<and> p \<noteq> [] \<and> p \<noteq> ''.''"
  shows "posix_parts (as_posix ps) = ps"
proof (cases "ps = []")
  case True
  have "split_on (CHR ''/'') ''.'' = [''.'']" by (rule split_on_single) simp
  then show ?thesis using True by (simp add: posix_parts_def as_posix_def)
next
  case False
  then have "split_on (CHR ''/'') (as_posix ps) = ps"
    using assms split_on_join[of ps "CHR ''/''"] by (simp add: as_posix_def)
  then show ?thesis using assms by (simp add: posix_parts_def filter_id_conv)
qed

lemma posix_parts_parts:
  "p \<in> set (posix_parts s) \<Longrightarrow> set p \<subseteq> set s \<and> CHR ''/'' \<notin> set p \<and> p \<noteq> [] \<and> p \<noteq> ''.''"
  using split_on_parts by (fastforce simp: posix_parts_def)

text \<open>The path of an accepted entry, in its normal form.\<close>

definition safe_component :: "string \<Rightarrow> bool" where
  "safe_component p \<longleftrightarrow> p \<noteq> [] \<and> p \<noteq> ''.'' \<and> p \<noteq> ''..'' \<and> CHR ''/'' \<notin> set p \<and> CHR 0x5C \<notin> set p
     \<and> \<not> list_ex control_char p \<and> utf8_len p \<le> 255 \<and> \<not> blocked_source_component p"

definition safe_path :: "archive_limits \<Rightarrow> string \<Rightarrow> bool" where
  "safe_path limits path \<longleftrightarrow> as_posix (posix_parts path) = path
     \<and> list_all safe_component (posix_parts path)
     \<and> int (length (posix_parts path)) \<le> al_max_depth limits"

lemma safe_name_safe:
  assumes "safe_name raw limits = Inr (path, d)"
  shows "safe_path limits path"
proof -
  let ?n = "rstrip_slash (to_slashes raw)"
  have r: "path = as_posix (posix_parts ?n)" "\<not> list_ex control_char raw"
    "\<not> list_ex (\<lambda>p. p \<in> {[], ''.'', ''..''}) (posix_parts ?n)"
    "\<not> list_ex (\<lambda>p. 255 < utf8_len p \<or> blocked_source_component p) (posix_parts ?n)"
    "int (length (posix_parts ?n)) \<le> al_max_depth limits"
    using assms unfolding safe_name_def Let_def
    by (simp_all only: split: if_splits) simp_all
  have "set ?n \<subseteq> set (to_slashes raw)"
    unfolding rstrip_slash_def using set_dropWhileD by fastforce
  moreover have "\<not> control_char c \<and> c \<noteq> CHR 0x5C" if c: "c \<in> set (to_slashes raw)" for c
  proof -
    obtain b where "b \<in> set raw" "c = (if b = CHR 0x5C then CHR ''/'' else b)"
      using c by (auto simp: to_slashes_def)
    moreover have "\<not> control_char (CHR ''/'')" by code_simp
    ultimately show ?thesis using r(2) by (auto simp: list_ex_iff)
  qed
  ultimately have n: "\<not> control_char c \<and> c \<noteq> CHR 0x5C" if "c \<in> set ?n" for c
    using that by blast
  have "\<not> list_ex control_char p \<and> CHR 0x5C \<notin> set p" if "p \<in> set (posix_parts ?n)" for p
    using posix_parts_parts[OF that] n unfolding list_ex_iff by blast
  moreover have "p \<noteq> ''..'' \<and> utf8_len p \<le> 255 \<and> \<not> blocked_source_component p"
    if "p \<in> set (posix_parts ?n)" for p
    using r(3,4) that unfolding list_ex_iff by auto
  ultimately have parts: "safe_component p" if "p \<in> set (posix_parts ?n)" for p
    using posix_parts_parts[OF that] that unfolding safe_component_def by blast
  then have "posix_parts path = posix_parts ?n"
    unfolding r(1) by (intro posix_parts_join) (auto simp: safe_component_def)
  then show ?thesis using parts r(1,5) by (simp add: safe_path_def list_all_iff)
qed

subsection \<open>Case folding\<close>

text \<open>Folding neither makes nor moves a character below the letters, such as the slash and the
  dot.\<close>

lemma lower_char_below:
  assumes "d < CHR ''A''"
  shows "lower_char c = d \<longleftrightarrow> c = d"
proof (cases "is_upper c \<or> (CHR 0xC0 \<le> c \<and> c \<le> CHR 0xDE \<and> c \<noteq> CHR 0xD7)")
  case True
  then have n: "65 \<le> (of_char c :: nat)" "(of_char c :: nat) \<le> 222"
    by (auto simp: is_upper_def less_eq_char_def)
  moreover have "(of_char d :: nat) < 65" using assms by (simp add: less_char_def)
  moreover have "(of_char (lower_char c) :: nat) = of_char c + 32"
    using True n by (simp add: lower_char_def)
  ultimately have "lower_char c \<noteq> d" "c \<noteq> d" by auto
  then show ?thesis by simp
qed (auto simp: lower_char_def)

lemma fold_char_below:
  assumes d: "d < CHR ''A''"
  shows "d \<in> set (fold_char c) \<longleftrightarrow> c = d"
proof (cases "c = CHR 0xDF")
  case True
  then show ?thesis using d by (auto simp: fold_char_def less_char_def)
next
  case False
  then show ?thesis using lower_char_below[OF d, of c] by (auto simp: fold_char_def)
qed

lemma fold_char_id: "d < CHR ''A'' \<Longrightarrow> fold_char d = [d]"
  using lower_char_below[of d d] by (auto simp: fold_char_def less_char_def)

lemma fold_char_not_Nil [simp]: "fold_char c \<noteq> []"
  by (simp add: fold_char_def)

lemma below_A [simp]: "CHR ''/'' < CHR ''A''" "CHR ''.'' < CHR ''A''"
  by (simp_all add: less_char_def)

lemma casefold_slash [simp]: "CHR ''/'' \<in> set (casefold s) \<longleftrightarrow> CHR ''/'' \<in> set s"
  by (simp add: casefold_def fold_char_below)

lemma casefold_Nil [simp]: "casefold [] = []"
  by (simp add: casefold_def)

lemma casefold_append: "casefold (x @ y) = casefold x @ casefold y"
  by (simp add: casefold_def)

lemma casefold_Nil_iff [simp]: "casefold s = [] \<longleftrightarrow> s = []"
  by (cases s) (simp_all add: casefold_def)

lemma casefold_join: "casefold (join ''/'' ps) = join ''/'' (map casefold ps)"
proof (induction "''/''" ps rule: join.induct)
  case (3 x y zs)
  have "casefold ''/'' = ''/''" by (simp add: casefold_def fold_char_id)
  then show ?case using 3 casefold_append[of "''/''" "join ''/'' (y # zs)"]
    by (simp add: casefold_append)
qed simp_all

lemma casefold_dot_iff: "casefold p = ''.'' \<longleftrightarrow> p = ''.''"
proof
  assume a: "casefold p = ''.''"
  then obtain c q where p: "p = c # q" by (cases p) auto
  then have "fold_char c @ casefold q = ''.''" using a by (simp add: casefold_def)
  then have "fold_char c = ''.''" "q = []" by (auto simp: append_eq_Cons_conv)
  then show "p = ''.''" using p fold_char_below[of "CHR ''.''" c] by simp
qed (simp add: casefold_def fold_char_id)

text \<open>A folded path that starts with another folded path and a slash has an ancestor that folds
  to the other one.\<close>

lemma folded_ancestor:
  assumes e: "safe_path l e" and f: "safe_path l' f"
    and pre: "starts_with (casefold e @ ''/'') (casefold f)"
  shows "\<exists>p \<in> set (ancestors (posix_parts f)). casefold (as_posix p) = casefold e"
proof -
  obtain rest where rest: "casefold f = casefold e @ CHR ''/'' # rest"
    using pre by (auto simp: starts_with_def) (metis append.assoc append_Cons append_Nil append_take_drop_id)
  have clean: "CHR ''/'' \<notin> set q" if "safe_path k x" "q \<in> set (posix_parts x)" for k x q
    using that by (auto simp: safe_path_def list_all_iff safe_component_def)
  have parts: "split_on (CHR ''/'') (casefold x) = (if posix_parts x = [] then [''.''] else map casefold (posix_parts x))"
    if x: "safe_path k x" for k x
  proof (cases "posix_parts x = []")
    case True
    then have "x = ''.''" using x by (simp add: safe_path_def as_posix_def)
    then show ?thesis using True casefold_dot_iff[of "''.''"] by (simp add: split_on_single)
  next
    case False
    then have "x = join ''/'' (posix_parts x)" using x by (simp add: safe_path_def as_posix_def)
    then have "casefold x = join ''/'' (map casefold (posix_parts x))" using casefold_join by metis
    then show ?thesis using False clean[OF x] by (simp add: split_on_join)
  qed
  have split: "split_on (CHR ''/'') (casefold f) = split_on (CHR ''/'') (casefold e) @ split_on (CHR ''/'') rest"
    by (simp add: rest split_on_append)
  have "posix_parts f \<noteq> []"
  proof
    assume "posix_parts f = []"
    then have "split_on (CHR ''/'') (casefold e) @ split_on (CHR ''/'') rest = [''.'']"
      using split parts[OF f] by simp
    then show False by (auto simp: append_eq_Cons_conv)
  qed
  then have map: "map casefold (posix_parts f) = split_on (CHR ''/'') (casefold e) @ split_on (CHR ''/'') rest"
    using split parts[OF f] by simp
  define n where "n = length (split_on (CHR ''/'') (casefold e))"
  have n: "0 < n" "n < length (posix_parts f)"
    using arg_cong[OF map, of length] by (simp_all add: n_def)
  have taken: "map casefold (take n (posix_parts f)) = split_on (CHR ''/'') (casefold e)"
    using arg_cong[OF map, of "take n"] by (simp add: n_def take_map)
  have "posix_parts e \<noteq> []"
  proof
    assume "posix_parts e = []"
    then have one: "map casefold (take n (posix_parts f)) = [''.'']" using taken parts[OF e] by simp
    then obtain q where "take n (posix_parts f) = [q]" "casefold q = ''.''" by (auto simp: map_eq_Cons_conv)
    moreover have "q \<in> set (posix_parts f)" using calculation(1) by (metis in_set_takeD list.set_intros(1))
    ultimately show False using casefold_dot_iff posix_parts_parts[of q f] by simp
  qed
  then have "map casefold (take n (posix_parts f)) = map casefold (posix_parts e)"
    using taken parts[OF e] by simp
  moreover have "casefold (as_posix ps) = join ''/'' (map casefold ps)" if "ps \<noteq> []" for ps
    using that by (simp add: as_posix_def casefold_join)
  moreover have "take n (posix_parts f) \<noteq> []" using n by auto
  ultimately have "casefold (as_posix (take n (posix_parts f))) = casefold (as_posix (posix_parts e))"
    using \<open>posix_parts e \<noteq> []\<close> by metis
  moreover have "as_posix (posix_parts e) = e" using e by (simp add: safe_path_def)
  moreover have "take n (posix_parts f) \<in> set (ancestors (posix_parts f))"
    using n by (auto simp: ancestors_def)
  ultimately show ?thesis by (metis)
qed

subsection \<open>The inspection\<close>

definition file_above_none :: "archive_entry list \<Rightarrow> bool" where
  "file_above_none es \<longleftrightarrow> (\<forall>e \<in> set es. \<forall>f \<in> set es.
     ae_is_directory e \<or> \<not> starts_with (casefold (ae_path e) @ ''/'') (casefold (ae_path f)))"

definition safe_inventory :: "archive_limits \<Rightarrow> archive_entry list \<Rightarrow> bool" where
  "safe_inventory limits es \<longleftrightarrow>
     list_all (\<lambda>e. safe_path limits (ae_path e) \<and> 0 \<le> ae_size e \<and> ae_size e \<le> al_max_file_bytes limits) es
     \<and> distinct (map (\<lambda>e. casefold (ae_path e)) es)
     \<and> sum_list (map ae_size es) \<le> al_max_total_bytes limits
     \<and> file_above_none es"

definition inspected :: "archive_limits \<Rightarrow> archive_entry list \<Rightarrow> (string, bool) dict \<Rightarrow> int \<Rightarrow> bool" where
  "inspected limits es types bytes \<longleftrightarrow> safe_inventory limits es
     \<and> bytes = sum_list (map ae_size es)
     \<and> (\<forall>k b. dget types k = Some b
          \<longleftrightarrow> (\<exists>e \<in> set es. casefold (ae_path e) = k \<and> ae_is_directory e = b))"

lemma validate_info_Inr:
  assumes "validate_info i limits = Inr (e, folded)"
  shows "folded = casefold (ae_path e)" "safe_path limits (ae_path e)" "0 \<le> ae_size e"
    "ae_size e \<le> al_max_file_bytes limits" "ae_size e = zi_file_size i"
  using assms safe_name_safe
  by (auto simp: validate_info_def Let_def split: sum.splits if_splits)

lemma inspected_types:
  assumes "inspected limits es types bytes" "f \<in> set es"
  shows "dget types (casefold (ae_path f)) = Some (ae_is_directory f)"
  using assms unfolding inspected_def by blast

lemma inspected_fresh:
  assumes "inspected limits es types bytes" "dget types k = None" "f \<in> set es"
  shows "casefold (ae_path f) \<noteq> k"
  using inspected_types[OF assms(1,3)] assms(2) by auto

lemma file_above_none_snoc:
  assumes ok: "inspected limits es types bytes" and e: "safe_path limits (ae_path e)"
    and fresh: "dget types (casefold (ae_path e)) = None"
    and anc: "\<not> list_ex (\<lambda>p. dget types (casefold (as_posix p)) = Some False) (ancestors (posix_parts (ae_path e)))"
    and below: "ae_is_directory e
      \<or> \<not> list_ex (\<lambda>existing. starts_with (casefold (ae_path e) @ ''/'') existing) (dkeys types)"
  shows "file_above_none (es @ [e])"
proof -
  note types = inspected_types[OF ok]
  have above: "\<not> starts_with (casefold (ae_path f) @ ''/'') (casefold (ae_path e))"
    if f: "f \<in> set es" "\<not> ae_is_directory f" for f
  proof
    assume "starts_with (casefold (ae_path f) @ ''/'') (casefold (ae_path e))"
    moreover have "safe_path limits (ae_path f)"
      using ok f(1) by (auto simp: inspected_def safe_inventory_def list_all_iff)
    ultimately obtain p where "p \<in> set (ancestors (posix_parts (ae_path e)))"
      "casefold (as_posix p) = casefold (ae_path f)"
      using folded_ancestor e by blast
    then show False using anc types[OF f(1)] f(2) by (auto simp: list_ex_iff)
  qed
  have own: "\<not> starts_with (casefold (ae_path e) @ ''/'') (casefold (ae_path e))"
    by (auto simp: starts_with_def dest!: arg_cong[where f = length])
  have "\<not> starts_with (casefold (ae_path e) @ ''/'') (casefold (ae_path f))"
    if "f \<in> set es" "\<not> ae_is_directory e" for f
    using below that types[OF that(1)] by (auto simp: list_ex_iff in_dkeys_iff)
  then show ?thesis using ok above own
    unfolding file_above_none_def inspected_def safe_inventory_def by auto
qed

lemma inspect_members_inspected:
  "inspected limits es types bytes \<Longrightarrow> inspect_members limits is es types bytes = Inr es' \<Longrightarrow>
     \<exists>new types' bytes'. es' = es @ new \<and> inspected limits es' types' bytes'
       \<and> list_all2 (\<lambda>i e. \<exists>k. validate_info i limits = Inr (e, k)) is new"
proof (induction "is" arbitrary: es types bytes)
  case (Cons i "is")
  from Cons.prems(2) obtain e where e: "validate_info i limits = Inr (e, casefold (ae_path e))"
    and fresh: "dget types (casefold (ae_path e)) = None"
    and anc: "\<not> list_ex (\<lambda>p. dget types (casefold (as_posix p)) = Some False) (ancestors (posix_parts (ae_path e)))"
    and below: "ae_is_directory e
      \<or> \<not> list_ex (\<lambda>existing. starts_with (casefold (ae_path e) @ ''/'') existing) (dkeys types)"
    and total: "bytes + ae_size e \<le> al_max_total_bytes limits"
    and rest: "inspect_members limits is (es @ [e]) (dset types (casefold (ae_path e)) (ae_is_directory e))
      (bytes + ae_size e) = Inr es'"
    by (auto dest: validate_info_Inr(1) split: sum.splits if_splits prod.splits)
  note v = validate_info_Inr[OF e]
  have "file_above_none (es @ [e])"
    using Cons.prems(1) v(2) fresh anc below by (rule file_above_none_snoc)
  moreover have "casefold (ae_path e) \<notin> (\<lambda>e. casefold (ae_path e)) ` set es"
    using inspected_fresh[OF Cons.prems(1) fresh] by force
  ultimately have "safe_inventory limits (es @ [e])"
    using Cons.prems(1) v(2-4) total by (simp add: inspected_def safe_inventory_def)
  moreover have "dget (dset types (casefold (ae_path e)) (ae_is_directory e)) k = Some b
      \<longleftrightarrow> (\<exists>f \<in> set (es @ [e]). casefold (ae_path f) = k \<and> ae_is_directory f = b)" for k b
  proof (cases "k = casefold (ae_path e)")
    case True
    then have "\<not> (\<exists>f \<in> set es. casefold (ae_path f) = k)"
      using inspected_fresh[OF Cons.prems(1) fresh] by blast
    then show ?thesis using True by auto
  next
    case False
    then show ?thesis using Cons.prems(1) by (auto simp: inspected_def)
  qed
  ultimately have "inspected limits (es @ [e]) (dset types (casefold (ae_path e)) (ae_is_directory e))
      (bytes + ae_size e)"
    using Cons.prems(1) by (simp add: inspected_def)
  from Cons.IH[OF this rest] e show ?case by auto
qed (auto)

lemma inspect_zip_inventory:
  assumes "inspect_zip limits (Some is) = Inr es"
  shows "safe_inventory limits es" "list_all2 (\<lambda>i e. \<exists>k. validate_info i limits = Inr (e, k)) is es"
    "int (length is) \<le> al_max_entries limits"
proof -
  have l: "inspect_members limits is [] [] 0 = Inr es" "0 \<le> al_max_total_bytes limits"
    "int (length is) \<le> al_max_entries limits"
    using assms by (auto simp: inspect_zip_def split: if_splits)
  have "inspected limits [] [] 0"
    using l(2) by (simp add: inspected_def safe_inventory_def file_above_none_def)
  from inspect_members_inspected[OF this l(1)]
  show "safe_inventory limits es" "list_all2 (\<lambda>i e. \<exists>k. validate_info i limits = Inr (e, k)) is es"
    by (auto simp: inspected_def)
  show "int (length is) \<le> al_max_entries limits" by (rule l(3))
qed

text \<open>C28. An inventory that the inspection accepts is safe: every path is relative, in normal form,
  without empty, dot, dot-dot, blocked or overlong components and within the depth; no two paths
  agree up to case, no regular file is an ancestor of another member, the sizes are within the
  limits, and no member is encrypted, a link or a device.\<close>

theorem accepted_archive_is_safe:
  assumes "inspect_zip limits (Some is) = Inr es"
  shows "safe_inventory limits es \<and> int (length es) \<le> al_max_entries limits
    \<and> list_all2 (\<lambda>i e. ae_size e = zi_file_size i \<and> zi_flag_bits i AND 1 = 0
         \<and> member_kind i \<in> {0, 0x8000, 0x4000}) is es"
proof -
  note z = inspect_zip_inventory[OF assms]
  have "ae_size e = zi_file_size i \<and> zi_flag_bits i AND 1 = 0 \<and> member_kind i \<in> {0, 0x8000, 0x4000}"
    if "\<exists>k. validate_info i limits = Inr (e, k)" for i e
    using that by (auto simp: validate_info_def Let_def split: sum.splits if_splits)
  then have "list_all2 (\<lambda>i e. ae_size e = zi_file_size i \<and> zi_flag_bits i AND 1 = 0
         \<and> member_kind i \<in> {0, 0x8000, 0x4000}) is es"
    using z(2) by (rule list_all2_mono[rotated])
  then show ?thesis using z by (auto dest: list_all2_lengthD)
qed

definition sample_member :: "string \<Rightarrow> int \<Rightarrow> zip_info" where
  "sample_member name n = \<lparr>zi_filename = name, zi_flag_bits = 0, zi_external_attr = 0,
     zi_file_size = n, zi_compress_size = n\<rparr>"

definition sample_archive :: "member list" where
  "sample_archive = [(sample_member ''src/'' 0, None), (sample_member ''src/a.py'' 2, Some ''xy'')]"

theorem accepted_archive_is_safe_witness:
  "safe_inventory default_limits [\<lparr>ae_path = ''src'', ae_size = 0, ae_is_directory = True\<rparr>,
     \<lparr>ae_path = ''src/a.py'', ae_size = 2, ae_is_directory = False\<rparr>]"
proof -
  have "inspect_zip default_limits (Some (map fst sample_archive))
    = Inr [\<lparr>ae_path = ''src'', ae_size = 0, ae_is_directory = True\<rparr>,
     \<lparr>ae_path = ''src/a.py'', ae_size = 2, ae_is_directory = False\<rparr>]" by code_simp
  from accepted_archive_is_safe[OF this] show ?thesis by simp
qed

subsection \<open>The extraction\<close>

lemma make_directories_fold:
  "dget (fold (\<lambda>n t. if dget t (take n path) = None then dset t (take n path) DirNode else t) ns t) p
    = (if dget t p = None \<and> (\<exists>n \<in> set ns. p = take n path) then Some DirNode else dget t p)"
  by (induction ns arbitrary: t) auto

lemma make_directories_Some:
  assumes "make_directories path t = Some t'"
  shows "dget t' p = (if dget t p = None \<and> (\<exists>n. 1 \<le> n \<and> n \<le> length path \<and> p = take n path)
    then Some DirNode else dget t p)"
proof -
  define ns where "ns = [1..<Suc (length path)]"
  have t': "t' = fold (\<lambda>n t. if dget t (take n path) = None then dset t (take n path) DirNode else t) ns t"
    using assms unfolding make_directories_def ns_def[symmetric] by (simp only: option.inject option.distinct split: if_splits)
  have "(\<exists>n \<in> set ns. p = take n path) \<longleftrightarrow> (\<exists>n. 1 \<le> n \<and> n \<le> length path \<and> p = take n path)"
    unfolding ns_def by auto
  then show ?thesis unfolding t' make_directories_fold by simp
qed

lemma make_directories_total:
  assumes "\<And>n b. 1 \<le> n \<Longrightarrow> n \<le> length path \<Longrightarrow> dget t (take n path) \<noteq> Some (FileNode b)"
  shows "\<exists>t'. make_directories path t = Some t'"
proof -
  define ns where "ns = [1..<Suc (length path)]"
  have "d = DirNode" if n: "n \<in> set ns" and d: "dget t (take n path) = Some d" for n d
  proof (cases d)
    case (FileNode b)
    have "1 \<le> n" "n \<le> length path" using n unfolding ns_def by auto
    then show ?thesis using assms[of n b] d FileNode by blast
  qed
  then have "\<not> list_ex (\<lambda>n. \<exists>d \<in> set_option (dget t (take n path)). d \<noteq> DirNode) ns"
    unfolding list_ex_iff by auto
  then show ?thesis unfolding make_directories_def ns_def[symmetric] by simp
qed

lemma as_posix_append: "a \<noteq> [] \<Longrightarrow> b \<noteq> [] \<Longrightarrow> as_posix (a @ b) = as_posix a @ ''/'' @ as_posix b"
proof -
  assume b: "b \<noteq> []" and a: "a \<noteq> []"
  have "join ''/'' (a @ b) = join ''/'' a @ ''/'' @ join ''/'' b" using a
  proof (induction "''/''" a rule: join.induct)
    case (2 x)
    then show ?case using b by (cases b) auto
  qed auto
  then show ?thesis using a b by (simp add: as_posix_def)
qed

lemma distinct_folded:
  assumes "safe_inventory limits (xs @ e # ys)" "f \<in> set xs"
  shows "posix_parts (ae_path f) \<noteq> posix_parts (ae_path e)"
proof
  assume "posix_parts (ae_path f) = posix_parts (ae_path e)"
  moreover have "as_posix (posix_parts (ae_path f)) = ae_path f" "as_posix (posix_parts (ae_path e)) = ae_path e"
    using assms by (auto simp: safe_inventory_def list_all_iff safe_path_def)
  ultimately have "ae_path f = ae_path e" by metis
  moreover have "distinct (map (\<lambda>e. casefold (ae_path e)) (xs @ e # ys))"
    using assms(1) by (simp add: safe_inventory_def)
  moreover have "casefold (ae_path f) \<in> (\<lambda>e. casefold (ae_path e)) ` set xs"
    using assms(2) by (rule imageI)
  ultimately show False by simp
qed

lemma file_not_ancestor:
  assumes "safe_inventory limits es" "e \<in> set es" "f \<in> set es" "\<not> ae_is_directory e"
    "posix_parts (ae_path e) \<noteq> []" "rest \<noteq> []"
  shows "posix_parts (ae_path f) \<noteq> posix_parts (ae_path e) @ rest"
proof
  assume "posix_parts (ae_path f) = posix_parts (ae_path e) @ rest"
  moreover have "as_posix (posix_parts (ae_path f)) = ae_path f" "as_posix (posix_parts (ae_path e)) = ae_path e"
    using assms by (auto simp: safe_inventory_def list_all_iff safe_path_def)
  ultimately have "ae_path f = ae_path e @ ''/'' @ as_posix rest"
    using as_posix_append[OF assms(5,6)] by metis
  moreover have "casefold ''/'' = ''/''" by (simp add: casefold_def fold_char_id)
  ultimately have "casefold (ae_path f) = casefold (ae_path e) @ ''/'' @ casefold (as_posix rest)"
    using casefold_append by metis
  then have "starts_with (casefold (ae_path e) @ ''/'') (casefold (ae_path f))"
    by (simp add: starts_with_def)
  moreover have "file_above_none es" using assms(1) by (simp add: safe_inventory_def)
  ultimately show False using assms(2-4) unfolding file_above_none_def by blast
qed

text \<open>The destination after some entries: their files with their data, and their directories.\<close>

definition unpacked :: "(string option \<times> archive_entry) list \<Rightarrow> tree \<Rightarrow> bool" where
  "unpacked done t \<longleftrightarrow> (\<forall>p d. dget t p = Some d \<longleftrightarrow> p \<noteq> [] \<and> (\<exists>(data, e) \<in> set done. case d of
       FileNode b \<Rightarrow> \<not> ae_is_directory e \<and> posix_parts (ae_path e) = p \<and> data = Some b
     | DirNode \<Rightarrow> \<exists>rest. p @ rest = posix_parts (ae_path e) \<and> (ae_is_directory e \<or> rest \<noteq> [])))"

lemma unpacked_file:
  "unpacked done t \<Longrightarrow> dget t p = Some (FileNode b)
     \<longleftrightarrow> p \<noteq> [] \<and> (\<exists>(data, e) \<in> set done. \<not> ae_is_directory e \<and> posix_parts (ae_path e) = p \<and> data = Some b)"
  by (simp add: unpacked_def)

lemma unpacked_dir:
  "unpacked done t \<Longrightarrow> dget t p = Some DirNode \<longleftrightarrow> p \<noteq> [] \<and> (\<exists>(data, e) \<in> set done.
     \<exists>rest. p @ rest = posix_parts (ae_path e) \<and> (ae_is_directory e \<or> rest \<noteq> []))"
  by (simp add: unpacked_def)

lemma unpackedI:
  assumes "\<And>p b. dget t p = Some (FileNode b)
     \<longleftrightarrow> p \<noteq> [] \<and> (\<exists>(data, e) \<in> set done. \<not> ae_is_directory e \<and> posix_parts (ae_path e) = p \<and> data = Some b)"
    and "\<And>p. dget t p = Some DirNode \<longleftrightarrow> p \<noteq> [] \<and> (\<exists>(data, e) \<in> set done.
     \<exists>rest. p @ rest = posix_parts (ae_path e) \<and> (ae_is_directory e \<or> rest \<noteq> []))"
  shows "unpacked done t"
  unfolding unpacked_def
proof (intro allI)
  fix p d
  show "dget t p = Some d \<longleftrightarrow> p \<noteq> [] \<and> (\<exists>(data, e) \<in> set done. case d of
       FileNode b \<Rightarrow> \<not> ae_is_directory e \<and> posix_parts (ae_path e) = p \<and> data = Some b
     | DirNode \<Rightarrow> \<exists>rest. p @ rest = posix_parts (ae_path e) \<and> (ae_is_directory e \<or> rest \<noteq> []))"
    by (cases d) (simp_all add: assms)
qed

lemma taken_iff: "(\<exists>n. 1 \<le> n \<and> n \<le> length q \<and> p = take n q) \<longleftrightarrow> p \<noteq> [] \<and> (\<exists>rest. p @ rest = q)"
proof
  assume "\<exists>n. 1 \<le> n \<and> n \<le> length q \<and> p = take n q"
  then obtain n where n: "1 \<le> n" "n \<le> length q" "p = take n q" by blast
  then have "p \<noteq> []" by auto
  moreover have "p @ drop n q = q" using n(3) by simp
  ultimately show "p \<noteq> [] \<and> (\<exists>rest. p @ rest = q)" by blast
next
  assume "p \<noteq> [] \<and> (\<exists>rest. p @ rest = q)"
  then obtain rest where r: "p @ rest = q" "p \<noteq> []" by blast
  then have "1 \<le> length p \<and> length p \<le> length q \<and> p = take (length p) q"
    by (cases p) auto
  then show "\<exists>n. 1 \<le> n \<and> n \<le> length q \<and> p = take n q" by blast
qed

text \<open>The directories of a path can be made when none of its prefixes is a file, and then they
  are all that was added.\<close>

lemma make_directories_ok:
  assumes "\<And>p rest b. p @ rest = q \<Longrightarrow> p \<noteq> [] \<Longrightarrow> dget t p \<noteq> Some (FileNode b)"
  obtains t' where "make_directories q t = Some t'"
    "\<And>p b. dget t' p = Some (FileNode b) \<longleftrightarrow> dget t p = Some (FileNode b)"
    "\<And>p. dget t' p = Some DirNode \<longleftrightarrow> dget t p = Some DirNode \<or> p \<noteq> [] \<and> (\<exists>rest. p @ rest = q)"
proof -
  have "dget t (take n q) \<noteq> Some (FileNode b)" if "1 \<le> n" "n \<le> length q" for n b
  proof -
    have "take n q @ drop n q = q" "take n q \<noteq> []" using that by auto
    then show ?thesis by (rule assms)
  qed
  then obtain t' where t': "make_directories q t = Some t'" using make_directories_total by blast
  note get = make_directories_Some[OF t', unfolded taken_iff]
  have 1: "dget t' p = Some (FileNode b) \<longleftrightarrow> dget t p = Some (FileNode b)" for p b
    by (simp add: get)
  have 2: "dget t' p = Some DirNode \<longleftrightarrow> dget t p = Some DirNode \<or> p \<noteq> [] \<and> (\<exists>rest. p @ rest = q)" for p
  proof (cases "dget t p")
    case (Some d)
    then show ?thesis using assms[of p] by (cases d) (auto simp: get)
  qed (simp add: get)
  show thesis by (rule that[OF t' 1 2])
qed

lemma inventory_entry:
  assumes "safe_inventory limits es" "e \<in> set es"
  shows "as_posix (posix_parts (ae_path e)) = ae_path e"
  using assms by (auto simp: safe_inventory_def list_all_iff safe_path_def)

text \<open>One member: no entry before it is a file where it needs a directory, and a file finds its
  own path free.\<close>

lemma no_file_in_the_way:
  assumes inv: "unpacked before t" and safe: "safe_inventory limits (map snd before @ e # rest)"
    and p: "p @ q = posix_parts (ae_path e)" "p \<noteq> []"
  shows "dget t p \<noteq> Some (FileNode b)"
proof
  assume "dget t p = Some (FileNode b)"
  then obtain data f where f: "(data, f) \<in> set before" "\<not> ae_is_directory f" "posix_parts (ae_path f) = p"
    using unpacked_file[OF inv] by auto
  then have mem: "f \<in> set (map snd before)" by force
  show False
  proof (cases "q = []")
    case True
    then show False using distinct_folded[OF safe mem] f(3) p by simp
  next
    case False
    then show False
      using file_not_ancestor[OF safe, of f e q] mem f p by simp
  qed
qed

lemma file_path_free:
  assumes inv: "unpacked before t" and safe: "safe_inventory limits (map snd before @ e # rest)"
    and e: "\<not> ae_is_directory e" "posix_parts (ae_path e) \<noteq> []"
  shows "dget t (posix_parts (ae_path e)) = None"
proof (rule ccontr)
  assume "dget t (posix_parts (ae_path e)) \<noteq> None"
  moreover have "dget t (posix_parts (ae_path e)) \<noteq> Some (FileNode b)" for b
    using no_file_in_the_way[OF inv safe, of "posix_parts (ae_path e)" "[]" b] e(2) by simp
  ultimately have "dget t (posix_parts (ae_path e)) = Some DirNode"
    by (metis node.exhaust option.exhaust)
  then obtain data f r where f: "(data, f) \<in> set before" "posix_parts (ae_path e) @ r = posix_parts (ae_path f)"
    using unpacked_dir[OF inv] by auto
  then have mem: "f \<in> set (map snd before)" by force
  show False
  proof (cases "r = []")
    case True
    then show False using distinct_folded[OF safe mem] f(2) by simp
  next
    case False
    then show False
      using file_not_ancestor[OF safe, of e f r] mem f(2) e by simp
  qed
qed

definition readable :: "string option \<Rightarrow> archive_entry \<Rightarrow> bool" where
  "readable data e \<longleftrightarrow> posix_parts (ae_path e) \<noteq> []
     \<and> (ae_is_directory e \<or> (\<exists>b. data = Some b \<and> int (length b) = ae_size e))"

lemma extract_member_ok:
  assumes inv: "unpacked before t" and safe: "safe_inventory limits (map snd before @ e # rest)"
    and r: "readable data e"
  obtains t' where "extract_member data e t
      = (Inr (if ae_is_directory e then None else Some (posix_parts (ae_path e))), t')"
    "unpacked (before @ [(data, e)]) t'"
proof (cases "ae_is_directory e")
  case dir: True
  define q where "q = posix_parts (ae_path e)"
  have ne: "q \<noteq> []" using r by (simp add: readable_def q_def)
  obtain t' where t': "make_directories q t = Some t'"
    and get: "\<And>p b. dget t' p = Some (FileNode b) \<longleftrightarrow> dget t p = Some (FileNode b)"
    "\<And>p. dget t' p = Some DirNode \<longleftrightarrow> dget t p = Some DirNode \<or> p \<noteq> [] \<and> (\<exists>rest. p @ rest = q)"
    using make_directories_ok[of q t] no_file_in_the_way[OF inv safe] unfolding q_def by blast
  have "unpacked (before @ [(data, e)]) t'"
    by (rule unpackedI)
      (auto simp: get unpacked_file[OF inv] unpacked_dir[OF inv] dir q_def)
  then show thesis using that t' ne dir by (simp add: extract_member_def Let_def q_def)
next
  case reg: False
  define q where "q = posix_parts (ae_path e)"
  have ne: "q \<noteq> []" using r by (simp add: readable_def q_def)
  obtain b where b: "data = Some b" "int (length b) = ae_size e"
    using r reg by (auto simp: readable_def)
  have way: "dget t p \<noteq> Some (FileNode c)" if "p @ s = butlast q" "p \<noteq> []" for p s c
  proof -
    have "p @ (s @ [last q]) = q" using that(1) ne by (metis append.assoc append_butlast_last_id)
    then show ?thesis using no_file_in_the_way[OF inv safe] that(2) unfolding q_def by blast
  qed
  obtain t1 where t1: "make_directories (butlast q) t = Some t1"
    and get: "\<And>p c. dget t1 p = Some (FileNode c) \<longleftrightarrow> dget t p = Some (FileNode c)"
    "\<And>p. dget t1 p = Some DirNode \<longleftrightarrow> dget t p = Some DirNode \<or> p \<noteq> [] \<and> (\<exists>rest. p @ rest = butlast q)"
    using make_directories_ok[of "butlast q" t] way by blast
  have strict: "(\<exists>rest. p @ rest = butlast q) \<longleftrightarrow> (\<exists>rest. p @ rest = q \<and> rest \<noteq> [])" for p
  proof
    assume "\<exists>rest. p @ rest = butlast q"
    then show "\<exists>rest. p @ rest = q \<and> rest \<noteq> []"
      using ne by (metis append.assoc append_butlast_last_id append_is_Nil_conv not_Cons_self2)
  next
    assume "\<exists>rest. p @ rest = q \<and> rest \<noteq> []"
    then show "\<exists>rest. p @ rest = butlast q" by (metis butlast_append)
  qed
  have free: "dget t q = None"
    using file_path_free[OF inv safe reg] ne unfolding q_def by blast
  have free1: "dget t1 q = None"
  proof (cases "dget t1 q")
    case (Some d)
    then show ?thesis using get[of q] free strict[of q] by (cases d) auto
  qed
  have "unpacked (before @ [(data, e)]) (dset t1 q (FileNode b))"
  proof (rule unpackedI)
    fix p c
    show "dget (dset t1 q (FileNode b)) p = Some (FileNode c) \<longleftrightarrow> p \<noteq> [] \<and> (\<exists>(data, e) \<in> set (before @ [(data, e)]).
        \<not> ae_is_directory e \<and> posix_parts (ae_path e) = p \<and> data = Some c)"
      using free get(1)[of p c] unpacked_file[OF inv, of p c] ne b(1) reg
      by (cases "p = q") (auto simp: q_def)
  next
    fix p
    show "dget (dset t1 q (FileNode b)) p = Some DirNode \<longleftrightarrow> p \<noteq> [] \<and> (\<exists>(data, e) \<in> set (before @ [(data, e)]).
        \<exists>rest. p @ rest = posix_parts (ae_path e) \<and> (ae_is_directory e \<or> rest \<noteq> []))"
    proof (cases "p = q")
      case True
      have "dget t q \<noteq> Some DirNode" using free by simp
      then show ?thesis using True reg ne unpacked_dir[OF inv, of q] by (simp add: bex_Un q_def)
    next
      case False
      then have "dget (dset t1 q (FileNode b)) p = Some DirNode
          \<longleftrightarrow> dget t p = Some DirNode \<or> p \<noteq> [] \<and> (\<exists>rest. p @ rest = q \<and> rest \<noteq> [])"
        by (simp add: get(2) strict)
      then show ?thesis using reg unfolding unpacked_dir[OF inv, of p] q_def
        by (simp only: set_append bex_Un list.set bex_simps prod.case simp_thms) blast
    qed
  qed
  then show thesis
    using that t1 ne reg b free1 by (simp add: extract_member_def Let_def create_file_def q_def)
qed

lemma extract_members_ok:
  assumes "unpacked before t" "safe_inventory limits (map snd (before @ todo))"
    "\<forall>(data, e) \<in> set todo. readable data e"
  shows "\<exists>t'. extract_members todo extracted t = (Inr (extracted
      @ map (\<lambda>(data, e). posix_parts (ae_path e)) (filter (\<lambda>(data, e). \<not> ae_is_directory e) todo)), t')
    \<and> unpacked (before @ todo) t'"
  using assms
proof (induction todo arbitrary: before extracted t)
  case (Cons x todo)
  obtain data e where x: "x = (data, e)" by (cases x)
  obtain t1 where t1: "extract_member data e t
      = (Inr (if ae_is_directory e then None else Some (posix_parts (ae_path e))), t1)"
    "unpacked (before @ [x]) t1"
    using extract_member_ok[of before t limits e "map snd todo" data] Cons.prems by (auto simp: x)
  have "safe_inventory limits (map snd ((before @ [x]) @ todo))" "\<forall>(data, e) \<in> set todo. readable data e"
    using Cons.prems(2,3) by simp_all
  then obtain t' where "extract_members todo (if ae_is_directory e then extracted else extracted @ [posix_parts (ae_path e)]) t1
      = (Inr ((if ae_is_directory e then extracted else extracted @ [posix_parts (ae_path e)])
      @ map (\<lambda>(data, e). posix_parts (ae_path e)) (filter (\<lambda>(data, e). \<not> ae_is_directory e) todo)), t')"
    "unpacked ((before @ [x]) @ todo) t'"
    using Cons.IH[OF t1(2)] by blast
  then show ?case
    using t1(1) by (cases "ae_is_directory e") (simp_all add: x)
qed simp



text \<open>The preflight and the extraction disagree about the root: a member whose name is a dot (or
  \<open>./\<close>) passes \<open>inspect_zip\<close>, since the normal form of its path has no components left for the
  dot check to refuse, and \<open>extract_zip\<close> then refuses the archive as unsafe.\<close>

lemma dot_member_passes_inspection_only:
  "inspect_zip default_limits (Some [sample_member ''./'' 0])
     = Inr [\<lparr>ae_path = ''.'', ae_size = 0, ae_is_directory = True\<rparr>]
   \<and> extract_zip default_limits (Some [(sample_member ''./'' 0, None)]) []
     = (Inl (ArchiveError ''unsafe_path''), [])"
  by code_simp

subsection \<open>The intake\<close>

text \<open>What the intake checks of an uploaded source before it is written: its object has the declared
  key and size, and its content has the declared digest.\<close>

definition verified_source :: "(string \<Rightarrow> string) \<Rightarrow> object_store \<Rightarrow> intake_limits \<Rightarrow> string option
    \<Rightarrow> source_spec \<Rightarrow> bool" where
  "verified_source sha fetch limits prefix s \<longleftrightarrow>
     (\<exists>declared body. fetch (src_object_key s) = Some (declared, Some body)
        \<and> int (length body) = src_size_bytes s \<and> src_size_bytes s \<le> il_max_source_bytes limits
        \<and> (src_sha256 s = None \<or> src_sha256 s = Some (sha body)))
     \<and> (\<forall>p. prefix = Some p \<longrightarrow> src_object_key s = p @ src_source_id s)"

lemma fetch_source_Inr:
  assumes "fetch_source fetch limit s = Inr data" "0 < limit"
  shows "\<exists>declared. fetch (src_object_key s) = Some (declared, Some data)"
    "int (length data) = src_size_bytes s" "src_size_bytes s \<le> limit"
proof -
  obtain declared b where b: "fetch (src_object_key s) = Some (declared, Some b)"
    and data: "data = take (nat (limit + 1)) b" "int (length data) = src_size_bytes s" "int (length data) \<le> limit"
    using assms(1) by (auto simp: fetch_source_def Let_def not_less
        split: option.splits prod.splits if_splits)
  have "length data < nat (limit + 1)" using data(3) by linarith
  then have "data = b" using data(1) by simp
  then show "\<exists>declared. fetch (src_object_key s) = Some (declared, Some data)"
    "int (length data) = src_size_bytes s" "src_size_bytes s \<le> limit"
    using b data(2,3) by auto
qed

lemma write_total [simp]:
  "expand_source open_zip limits data st = (Inr u, st') \<Longrightarrow> in_total st' = in_total st"
  "store_source limits filename data st = (Inr u, st') \<Longrightarrow> in_total st' = in_total st"
  by (auto simp: expand_source_def store_source_def Let_def split: sum.splits prod.splits if_splits option.splits)

lemma ingest_source_verified:
  assumes "ingest_source sha open_zip fetch limits prefix s st = (Inr u, st')" "0 < il_max_source_bytes limits"
  shows "verified_source sha fetch limits prefix s" "in_total st' = in_total st + src_size_bytes s"
    "in_total st' \<le> il_max_total_bytes limits"
proof -
  obtain f where f: "portable_filename (src_filename s) = Inr f"
    using assms(1) by (auto simp: ingest_source_def split: sum.splits)
  obtain data where data: "fetch_source fetch (il_max_source_bytes limits) s = Inr data"
    and digest: "digest_error sha data (src_sha256 s) = None"
    and key: "valid_source_key s prefix"
    and written: "(if is_zip_source s f
        then expand_source open_zip limits data (st\<lparr>in_total := in_total st + src_size_bytes s\<rparr>)
        else store_source limits f data (st\<lparr>in_total := in_total st + src_size_bytes s\<rparr>)) = (Inr u, st')"
    and within: "in_total st + src_size_bytes s \<le> il_max_total_bytes limits"
    using assms(1) f by (auto simp: ingest_source_def Let_def not_less simp del: not_None_eq
        split: sum.splits if_split_asm option.splits)
  have "src_sha256 s = None \<or> src_sha256 s = Some (sha data)"
    using digest by (auto simp: digest_error_def hmac_digest_equal_def split: option.splits if_splits)
  moreover have "\<forall>p. prefix = Some p \<longrightarrow> src_object_key s = p @ src_source_id s"
    using key by (cases prefix) (simp_all add: valid_source_key_def Let_def)
  ultimately show "verified_source sha fetch limits prefix s"
    using fetch_source_Inr[OF data assms(2)] unfolding verified_source_def by blast
  show "in_total st' = in_total st + src_size_bytes s" using written by (auto split: if_splits)
  then show "in_total st' \<le> il_max_total_bytes limits" using within by simp
qed

lemma ingest_sources_verified:
  assumes "ingest_sources sha open_zip fetch limits prefix ss st = (Inr u, st')"
    "0 < il_max_source_bytes limits" "in_total st \<le> il_max_total_bytes limits"
  shows "(\<forall>s \<in> set ss. verified_source sha fetch limits prefix s)
    \<and> in_total st + sum_list (map src_size_bytes ss) \<le> il_max_total_bytes limits"
  using assms
proof (induction ss arbitrary: st)
  case (Cons s ss)
  from Cons.prems(1) obtain v st1 where one: "ingest_source sha open_zip fetch limits prefix s st = (Inr v, st1)"
    and rest: "ingest_sources sha open_zip fetch limits prefix ss st1 = (Inr u, st')"
    by (auto simp: bind_op_def split: prod.splits sum.splits)
  note v = ingest_source_verified[OF one Cons.prems(2)]
  show ?case using Cons.IH[OF rest Cons.prems(2) v(3)] v(1,2) by simp
qed simp

text \<open>A completed intake verified every source: the object at the key of the job's prefix exists,
  has the size of the manifest within the limit, and its content has the digest of the manifest
  where there is one; and all sources together are within the total limit.\<close>

theorem ingested_sources_are_verified:
  assumes "ingest_r2_sources sha open_zip fetch limits bucket prefix sources t = (Inr inventory, t')"
  shows "(\<forall>s \<in> set sources. verified_source sha fetch limits prefix s)
    \<and> sum_list (map src_size_bytes sources) \<le> il_max_total_bytes limits"
proof -
  define st where "st = \<lparr>in_inventory = [], in_total = 0, in_workspace_bytes = 0, in_workspace_files = 0, in_tree = t\<rparr>"
  obtain u st' where r: "ingest_sources sha open_zip fetch limits prefix sources st = (Inr u, st')"
    and pos: "0 < il_max_source_bytes limits" "0 < il_max_total_bytes limits"
    using assms unfolding ingest_r2_sources_def st_def[symmetric]
    by (auto split: if_splits sum.splits prod.splits)
  have "in_total st \<le> il_max_total_bytes limits" using pos(2) by (simp add: st_def)
  from ingest_sources_verified[OF r pos(1) this] show ?thesis by (simp add: st_def)
qed

definition sample_source :: source_spec where
  "sample_source = \<lparr>src_source_id = ''a1'', src_filename = ''a.txt'', src_media_type = ''text/plain'',
     src_size_bytes = 2, src_object_key = ''s/a1'', src_sha256 = Some ''d''\<rparr>"

theorem ingested_sources_are_verified_witness:
  "verified_source (\<lambda>_. ''d'') (\<lambda>_. Some (Some 2, Some ''hi''))
     (default_intake_limits\<lparr>il_max_source_bytes := 8\<rparr>) (Some ''s/'') sample_source"
proof -
  have "ingest_r2_sources (\<lambda>_. ''d'') (\<lambda>_. None) (\<lambda>_. Some (Some 2, Some ''hi''))
      (default_intake_limits\<lparr>il_max_source_bytes := 8\<rparr>) ''b'' (Some ''s/'') [sample_source] [] = (Inr [''a.txt''], [([''a.txt''], FileNode ''hi'')])"
    by code_simp
  from ingested_sources_are_verified[OF this] show ?thesis by simp
qed

end
