(* ===== verification/EvidenceProps.thy ===== *)
theory EvidenceProps
  imports EvidenceStore ArchiveProps
begin

section \<open>What snapshots and patches say of a workspace\<close>

text \<open>
  A snapshot holds exactly the regular files of the tree it was taken of, its digest identifies
  them, and the patch between two snapshots is empty exactly when no file but an empty one was
  added, removed or changed.
\<close>

subsection \<open>The framing of the digest\<close>

lemma be64_nat: "be64 n = map (\<lambda>i. char_of (n div 256 ^ i)) [7, 6, 5, 4, 3, 2, 1, 0]"
proof -
  have "(char_of (int n div 256 ^ i) :: char) = char_of (n div 256 ^ i)" for i
    using char_of_nat[of "n div 256 ^ i", where 'a = int] by (simp only: zdiv_int of_nat_power of_nat_numeral)
  then show ?thesis by (simp only: be64_def)
qed

lemma be64_inj:
  assumes "be64 m = be64 n" "m < 2 ^ 64" "n < 2 ^ 64"
  shows "m = n"
proof -
  have digit: "m div 256 ^ i mod 256 = n div 256 ^ i mod 256" if "i < 8" for i
  proof -
    have "\<forall>i \<in> set [7, 6, 5, 4, 3, 2, 1, 0 :: nat]. (char_of (m div 256 ^ i) :: char) = char_of (n div 256 ^ i)"
      using assms(1) unfolding be64_nat map_eq_conv .
    moreover have "i \<in> set [7, 6, 5, 4, 3, 2, 1, 0 :: nat]" using that by auto
    ultimately have "(char_of (m div 256 ^ i) :: char) = char_of (n div 256 ^ i)" by (rule bspec)
    then have "of_char (char_of (m div 256 ^ i) :: char) = (of_char (char_of (n div 256 ^ i) :: char) :: nat)"
      by simp
    then show ?thesis by simp
  qed
  have low: "k < 8 \<Longrightarrow> m mod 256 ^ k = n mod 256 ^ k" for k
  proof (induction k)
    case (Suc k)
    have "x mod 256 ^ Suc k = 256 ^ k * (x div 256 ^ k mod 256) + x mod 256 ^ k" for x :: nat
      using mod_mult2_eq[of x "256 ^ k" 256] by (simp add: mult.commute)
    then show ?case using Suc digit[of k] by simp
  qed simp
  have "m div 256 ^ 7 = n div 256 ^ 7"
  proof -
    have "m div 256 ^ 7 < 256" "n div 256 ^ 7 < 256" using assms(2,3) by (simp_all add: less_mult_imp_div_less)
    then show ?thesis using digit[of 7] by simp
  qed
  moreover have "m mod 256 ^ 7 = n mod 256 ^ 7" by (rule low) simp
  ultimately show ?thesis by (metis div_mult_mod_eq)
qed

lemma length_be64 [simp]: "length (be64 n) = 8"
  by (simp add: be64_def)

lemma framed_prefix:
  assumes "framed a @ r = framed b @ s" "length a < 2 ^ 64" "length b < 2 ^ 64"
  shows "a = b \<and> r = s"
proof -
  have "be64 (length a) = be64 (length b) \<and> a @ r = b @ s"
    using assms(1) by (simp add: framed_def append_eq_append_conv)
  then show ?thesis using be64_inj assms(2,3) by (metis append_eq_append_conv)
qed

lemma utf8_Nil [simp]: "utf8 [] = []"
  by (simp add: utf8_def)

definition utf8_char :: "char \<Rightarrow> string" where
  "utf8_char c = (if is_ascii c then [c]
     else [char_of (192 + of_char c div (64::nat)), char_of (128 + of_char c mod (64::nat))])"

lemma utf8_Cons: "utf8 (c # s) = utf8_char c @ utf8 s"
  by (simp add: utf8_def utf8_char_def)

lemma utf8_char_prefix:
  assumes "utf8_char c @ x = utf8_char d @ y"
  shows "c = d \<and> x = y"
proof -
  have lead: "\<not> is_ascii (char_of (192 + of_char c div (64::nat)))" for c :: char
  proof -
    have "(of_char c :: nat) div 64 < 4" by (rule less_mult_imp_div_less) simp
    then show ?thesis by (simp add: is_ascii_def less_char_def)
  qed
  show ?thesis
  proof (cases "is_ascii c"; cases "is_ascii d")
    assume "\<not> is_ascii c" "\<not> is_ascii d"
    then have h: "(char_of (192 + of_char c div (64::nat)) :: char) = char_of (192 + of_char d div (64::nat))"
      "(char_of (128 + of_char c mod (64::nat)) :: char) = char_of (128 + of_char d mod (64::nat))" "x = y"
      using assms by (simp_all add: utf8_char_def)
    have "(of_char c :: nat) div 64 < 4" "(of_char d :: nat) div 64 < 4"
      by (rule less_mult_imp_div_less, simp)+
    then have "(of_char c :: nat) div 64 = of_char d div 64"
      using arg_cong[OF h(1), of "of_char :: char \<Rightarrow> nat"] by simp
    moreover have "(of_char c :: nat) mod 64 = of_char d mod 64"
      using arg_cong[OF h(2), of "of_char :: char \<Rightarrow> nat"] by simp
    ultimately have "(of_char c :: nat) = of_char d" by (metis div_mult_mod_eq)
    then show ?thesis using h(3) by simp
  qed (use assms lead in \<open>auto simp: utf8_char_def\<close>)
qed

lemma utf8_inj: "utf8 a = utf8 b \<Longrightarrow> a = b"
proof (induction a arbitrary: b)
  case Nil
  then show ?case by (cases b) (simp_all add: utf8_Cons utf8_char_def split: if_splits)
next
  case (Cons c a)
  then show ?case
    by (cases b) (auto simp: utf8_Cons dest!: utf8_char_prefix, simp add: utf8_char_def split: if_splits)
qed

lemma length_utf8: "length (utf8 s) = utf8_len s"
  by (induction s) (auto simp: utf8_Cons utf8_char_def utf8_len_def)

definition frameable :: "string \<times> string \<Rightarrow> bool" where
  "frameable f \<longleftrightarrow> utf8_len (fst f) < 2 ^ 64 \<and> length (snd f) < 2 ^ 64"

lemma payload_inj:
  assumes "list_all frameable xs" "list_all frameable ys"
    "concat (map (\<lambda>(name, data). framed (utf8 name) @ framed data) xs)
      = concat (map (\<lambda>(name, data). framed (utf8 name) @ framed data) ys)"
  shows "xs = ys"
  using assms
proof (induction xs arbitrary: ys)
  case Nil
  then show ?case by (cases ys) (auto simp: framed_def dest!: arg_cong[where f = length])
next
  case (Cons x xs)
  obtain n d where x: "x = (n, d)" by (cases x)
  show ?case
  proof (cases ys)
    case Nil
    then show ?thesis using Cons.prems(3) by (auto simp: x framed_def dest!: arg_cong[where f = length])
  next
    case ys: (Cons y ys')
    obtain m e where y: "y = (m, e)" by (cases y)
    let ?c = "\<lambda>zs. concat (map (\<lambda>(name, data). framed (utf8 name) @ framed data) zs)"
    have f: "utf8_len n < 2 ^ 64" "length d < 2 ^ 64" "utf8_len m < 2 ^ 64" "length e < 2 ^ 64"
      using Cons.prems(1,2) by (simp_all add: x y ys frameable_def)
    have "framed (utf8 n) @ (framed d @ ?c xs) = framed (utf8 m) @ (framed e @ ?c ys')"
      using Cons.prems(3) by (simp add: x y ys)
    from framed_prefix[OF this] have "utf8 n = utf8 m" and "framed d @ ?c xs = framed e @ ?c ys'"
      using f(1,3) by (simp_all add: length_utf8)
    from this(1) have "n = m" by (rule utf8_inj)
    moreover have "d = e \<and> ?c xs = ?c ys'"
      by (rule framed_prefix[OF \<open>framed d @ ?c xs = framed e @ ?c ys'\<close> f(2,4)])
    moreover have "xs = ys'" if "?c xs = ?c ys'"
      using Cons.IH[of ys'] Cons.prems(1,2) that by (simp add: x y ys)
    ultimately show ?thesis unfolding x y ys by blast
  qed
qed

subsection \<open>The traversal\<close>

text \<open>The regular files under a directory, with their paths, and whether all of its entries are
  directories or regular files with one link.\<close>

fun tree_files :: "string list \<Rightarrow> (string \<times> fs) list \<Rightarrow> (string \<times> string) list" where
  "tree_files parts [] = []"
| "tree_files parts ((name, node) # rest) =
     (case node of
        FsFile links data \<Rightarrow> [(as_posix (parts @ [name]), data)]
      | FsDir entries \<Rightarrow> tree_files (parts @ [name]) entries
      | _ \<Rightarrow> []) @ tree_files parts rest"

fun plain_entries :: "(string \<times> fs) list \<Rightarrow> bool" where
  "plain_entries [] = True"
| "plain_entries ((name, node) # rest) =
     ((case node of FsFile links data \<Rightarrow> links = 1 | FsDir entries \<Rightarrow> plain_entries entries | _ \<Rightarrow> False)
      \<and> plain_entries rest)"

lemma set_tree_files: "set (tree_files parts es) = (\<Union>e \<in> set es. set (tree_files parts [e]))"
proof (induction es)
  case (Cons e es)
  have "set (tree_files parts (e # es)) = set (tree_files parts [e]) \<union> set (tree_files parts es)"
    by (cases e) simp
  then show ?case using Cons by simp
qed simp

lemma plain_entries_iff: "plain_entries es \<longleftrightarrow> (\<forall>e \<in> set es. plain_entries [e])"
proof (induction es)
  case (Cons e es)
  have "plain_entries (e # es) \<longleftrightarrow> plain_entries [e] \<and> plain_entries es" by (cases e) auto
  then show ?case using Cons by simp
qed simp

lemma tree_files_sort [simp]: "set (tree_files parts (sort_key k es)) = set (tree_files parts es)"
  by (simp add: set_tree_files[of _ "sort_key k es"] set_tree_files[of _ es])

lemma plain_entries_sort [simp]: "plain_entries (sort_key k es) = plain_entries es"
  by (simp add: plain_entries_iff[of "sort_key k es"] plain_entries_iff[of es])

text \<open>The files captured so far: \<open>F\<close> is the set of their names and contents.\<close>

definition value_of :: "(string \<Rightarrow> string) \<Rightarrow> string list option \<Rightarrow> string \<Rightarrow> string \<Rightarrow> snapshot_value" where
  "value_of sha stage name data = (case stage of None \<Rightarrow> SnapshotBytes data
     | Some stage_root \<Rightarrow> SnapshotFile (stage_root @ posix_parts name) (int (length data)) (sha data))"

definition captured :: "(string \<Rightarrow> string) \<Rightarrow> capture_limits \<Rightarrow> string list option
    \<Rightarrow> (string \<times> string) set \<Rightarrow> capture \<Rightarrow> bool" where
  "captured sha limits stage F st \<longleftrightarrow>
     dict_ok (cp_files st)
     \<and> (\<forall>name v. dget (cp_files st) name = Some v \<longleftrightarrow> (\<exists>data. (name, data) \<in> F \<and> v = value_of sha stage name data))
     \<and> (\<forall>(name, data) \<in> F. casefold name \<in> set (cp_seen st) \<and> as_posix (posix_parts name) = name
          \<and> utf8_len name < 2 ^ 64 \<and> int (length data) \<le> cl_max_total_bytes limits
          \<and> (\<forall>stage_root. stage = Some stage_root
               \<longrightarrow> dget (cp_staged st) (stage_root @ posix_parts name) = Some data))
     \<and> 0 \<le> cp_total st"

lemma capturedD:
  assumes "captured sha limits stage F st" "(name, data) \<in> F"
  shows "dget (cp_files st) name = Some (value_of sha stage name data)"
    "casefold name \<in> set (cp_seen st)" "as_posix (posix_parts name) = name" "utf8_len name < 2 ^ 64"
    "int (length data) \<le> cl_max_total_bytes limits"
    "stage = Some stage_root \<Longrightarrow> dget (cp_staged st) (stage_root @ posix_parts name) = Some data"
  using assms unfolding captured_def by blast+

lemma safe_path_length:
  assumes "safe_path l path" "al_max_depth l \<le> 32"
  shows "utf8_len path < 2 ^ 64"
proof -
  have len: "utf8_len (join ''/'' ps) \<le> 256 * length ps" if "\<forall>p \<in> set ps. utf8_len p \<le> 255" for ps
    using that
  proof (induction "''/''" ps rule: join.induct)
    case (3 p q ps)
    have "utf8_len (x @ y) = utf8_len x + utf8_len y" for x y by (simp add: utf8_len_def)
    moreover have "utf8_len (CHR ''/'' # x) = Suc (utf8_len x)" for x
      by (simp add: utf8_len_def is_ascii_def less_char_def)
    ultimately show ?case using 3 by simp
  qed (auto simp: utf8_len_def)
  have parts: "\<forall>p \<in> set (posix_parts path). utf8_len p \<le> 255" "length (posix_parts path) \<le> 32"
    using assms by (auto simp: safe_path_def list_all_iff safe_component_def)
  have "utf8_len (as_posix (posix_parts path)) \<le> 256 * length (posix_parts path) + 1"
    using len[OF parts(1)] by (auto simp: as_posix_def utf8_len_def is_ascii_def less_char_def)
  also have "\<dots> < 2 ^ 64" using parts(2) by simp
  finally show ?thesis using assms(1) by (simp add: safe_path_def)
qed

lemma enter_name_Inr:
  assumes "enter_name limits relative st = Inr st'"
  shows "casefold relative \<notin> set (cp_seen st)" "as_posix (posix_parts relative) = relative"
    "utf8_len relative < 2 ^ 64"
    "st' = st\<lparr>cp_seen := casefold relative # cp_seen st, cp_inodes := cp_inodes st + 1\<rparr>"
proof -
  obtain d where n: "safe_name relative default_limits = Inr (relative, d)"
    and r: "casefold relative \<notin> set (cp_seen st)"
    "st' = st\<lparr>cp_seen := casefold relative # cp_seen st, cp_inodes := cp_inodes st + 1\<rparr>"
    using assms by (auto simp: enter_name_def validate_portable_path_def split: sum.splits prod.splits if_splits)
  have safe: "safe_path default_limits relative" by (rule safe_name_safe[OF n])
  show "casefold relative \<notin> set (cp_seen st)" by (rule r(1))
  show "as_posix (posix_parts relative) = relative" using safe by (simp add: safe_path_def)
  show "utf8_len relative < 2 ^ 64" using safe by (rule safe_path_length) (simp add: default_limits_def)
  show "st' = st\<lparr>cp_seen := casefold relative # cp_seen st, cp_inodes := cp_inodes st + 1\<rparr>" by (rule r(2))
qed

lemma captured_seen:
  assumes "captured sha limits stage F st"
  shows "captured sha limits stage F (st\<lparr>cp_seen := n # cp_seen st, cp_inodes := i\<rparr>)"
  using assms unfolding captured_def by auto

lemma capture_file_captured:
  assumes ok: "captured sha limits stage F st" and fresh: "name \<notin> fst ` F"
    and seen: "casefold name \<in> set (cp_seen st)" and norm: "as_posix (posix_parts name) = name"
    and short: "utf8_len name < 2 ^ 64"
    and c: "capture_file sha limits stage name links data st = Inr st'"
  shows "captured sha limits stage (insert (name, data) F) st'" "links = 1" "cp_seen st' = cp_seen st"
proof -
  have total: "cp_total st + int (length data) \<le> cl_max_total_bytes limits"
    and st': "cp_files st' = dset (cp_files st) name (value_of sha stage name data)"
      "cp_seen st' = cp_seen st" "cp_total st' = cp_total st + int (length data)"
      "cp_staged st' = (case stage of None \<Rightarrow> cp_staged st
         | Some stage_root \<Rightarrow> dset (cp_staged st) (stage_root @ posix_parts name) data)"
    using c by (auto simp: capture_file_def value_of_def Let_def split: if_splits option.splits)
  show "links = 1" "cp_seen st' = cp_seen st"
    using c st'(2) by (auto simp: capture_file_def split: if_splits)
  note old = capturedD[OF ok]
  have pre: "dict_ok (cp_files st)" "0 \<le> cp_total st" using ok by (auto simp: captured_def)
  have files: "dget (cp_files st') n = Some v
      \<longleftrightarrow> (\<exists>d. (n, d) \<in> insert (name, data) F \<and> v = value_of sha stage n d)" for n v
    using ok fresh by (auto simp: st' captured_def image_iff)
  have staged: "dget (cp_staged st') (stage_root @ posix_parts n) = Some d"
    if "(n, d) \<in> insert (name, data) F" "stage = Some stage_root" for n d stage_root
  proof (cases "n = name")
    case True
    then have "d = data" using that(1) fresh by force
    then show ?thesis using True that(2) by (simp add: st')
  next
    case False
    then have n: "(n, d) \<in> F" using that(1) by auto
    have "posix_parts n \<noteq> posix_parts name" using False old(3)[OF n] norm by metis
    then show ?thesis using old(6)[OF n that(2)] that(2) by (simp add: st')
  qed
  have each: "casefold n \<in> set (cp_seen st') \<and> as_posix (posix_parts n) = n
      \<and> utf8_len n < 2 ^ 64 \<and> int (length d) \<le> cl_max_total_bytes limits"
    if "(n, d) \<in> insert (name, data) F" for n d
  proof (cases "(n, d) \<in> F")
    case True
    then show ?thesis using old(2-5)[OF True] by (simp add: st'(2))
  next
    case False
    then have "n = name" "d = data" using that by auto
    then show ?thesis using total seen norm short \<open>0 \<le> cp_total st\<close> by (simp add: st'(2))
  qed
  have "dict_ok (cp_files st')" "0 \<le> cp_total st'"
    using pre by (simp_all add: st'(1,3))
  then show "captured sha limits stage (insert (name, data) F) st'"
    unfolding captured_def using files each staged by (intro conjI allI ballI; (rule case_prodI2)?) blast+
qed

lemma visit_captured:
  "visit sha limits stage parts es st = Inr st' \<Longrightarrow> captured sha limits stage F st \<Longrightarrow>
     captured sha limits stage (F \<union> set (tree_files parts es)) st' \<and> plain_entries es
     \<and> set (cp_seen st) \<subseteq> set (cp_seen st')"
proof (induction sha limits stage parts es st arbitrary: F st' rule: visit.induct)
  case (2 sha limits stage parts name node rest st)
  let ?path = "as_posix (parts @ [name])"
  obtain st1 where st1: "enter_name limits ?path st = Inr st1"
    using "2.prems"(1) by (auto split: sum.splits)
  note n = enter_name_Inr[OF st1]
  have ok1: "captured sha limits stage F st1" unfolding n(4) by (rule captured_seen[OF "2.prems"(2)])
  have seen1: "set (cp_seen st) \<subseteq> set (cp_seen st1)" "casefold ?path \<in> set (cp_seen st1)"
    by (auto simp: n(4))
  have fresh: "?path \<notin> fst ` F" using capturedD(2)[OF "2.prems"(2)] n(1) by force
  obtain st2 where st2: "(case node of
          FsSymlink \<Rightarrow> Inl (WorkspaceEvidenceError ''workspace_symlink'')
        | FsDir entries \<Rightarrow>
            (if cl_max_inodes limits < int (length entries)
                \<or> cl_max_inodes limits - cp_inodes st1 < int (length entries)
             then Inl (WorkspaceEvidenceError ''workspace_inode_limit'')
             else visit sha limits stage (parts @ [name]) (sort_key fst entries) st1)
        | FsOther \<Rightarrow> Inl (WorkspaceEvidenceError ''workspace_unsupported_type'')
        | FsFile links data \<Rightarrow> capture_file sha limits stage ?path links data st1) = Inr st2"
    and rest: "visit sha limits stage parts rest st2 = Inr st'"
    using "2.prems"(1) st1 by (auto split: sum.splits)
  have "captured sha limits stage (F \<union> set (tree_files parts [(name, node)])) st2
      \<and> plain_entries [(name, node)] \<and> set (cp_seen st1) \<subseteq> set (cp_seen st2)"
  proof (cases node)
    case (FsDir entries)
    then have v: "\<not> (cl_max_inodes limits < int (length entries)
          \<or> cl_max_inodes limits - cp_inodes st1 < int (length entries))"
      "visit sha limits stage (parts @ [name]) (sort_key fst entries) st1 = Inr st2"
      using st2 by (auto split: if_splits)
    from "2.IH"(1)[OF st1 FsDir v(1) v(2) ok1] show ?thesis by (simp add: FsDir)
  next
    case (FsFile links data)
    then have c: "capture_file sha limits stage ?path links data st1 = Inr st2" using st2 by simp
    from capture_file_captured[OF ok1 fresh seen1(2) n(2,3) c] show ?thesis by (simp add: FsFile)
  qed (use st2 in auto)
  then show ?case
    using "2.IH"(2)[OF st1 st2 rest, of "F \<union> set (tree_files parts [(name, node)])"] seen1(1)
    by (cases node) (auto simp: Un_assoc)
qed auto

lemma captured_unique:
  assumes "captured sha limits stage F st" "(name, data) \<in> F" "(name, data') \<in> F"
  shows "data = data'"
proof (cases stage)
  case None
  then show ?thesis using capturedD(1)[OF assms(1,2)] capturedD(1)[OF assms(1,3)] by (simp add: value_of_def)
next
  case (Some r)
  then show ?thesis using capturedD(6)[OF assms(1,2), of r] capturedD(6)[OF assms(1,3), of r] by simp
qed

lemma read_value_captured:
  assumes "captured sha limits stage F st" "(name, data) \<in> F"
  shows "read_value sha (cp_staged st) (value_of sha stage name data) = Inr data"
    "snapshot_bytes sha (cp_staged st) (Some (value_of sha stage name data)) = Inr (Some data)"
  using capturedD(6)[OF assms] by (auto simp: value_of_def snapshot_bytes_def split: option.splits)

lemma read_values_captured:
  assumes ok: "captured sha limits stage F st"
  shows "\<forall>(name, v) \<in> set xs. dget (cp_files st) name = Some v \<Longrightarrow>
    read_values sha (cp_staged st) xs = Inr files \<Longrightarrow> map fst files = map fst xs \<and> set files \<subseteq> F"
proof (induction xs arbitrary: files)
  case (Cons x xs)
  obtain name v where x: "x = (name, v)" by (cases x)
  have "dget (cp_files st) name = Some v" using Cons.prems(1) by (simp add: x)
  then obtain data where d: "(name, data) \<in> F" "v = value_of sha stage name data"
    using ok unfolding captured_def by blast
  then obtain more where m: "read_values sha (cp_staged st) xs = Inr more" "files = (name, data) # more"
    using Cons.prems(2) read_value_captured(1)[OF ok d(1)] by (auto simp: x split: sum.splits)
  then show ?case using Cons.IH[OF _ m(1)] Cons.prems(1) d(1) by (auto simp: x)
qed simp

lemma dget_set: "dict_ok d \<Longrightarrow> dget d k = Some v \<longleftrightarrow> (k, v) \<in> set d"
  by (simp add: dget_def dict_ok_def)

lemma capture_pass_Inr:
  assumes "capture_pass sha limits base staging tree = Inr (snapshot, staged)"
    and bound: "cl_max_total_bytes limits < 2 ^ 64"
  obtains es files where "tree = Some (FsDir es)" "plain_entries es" "set files = set (tree_files [] es)"
    "list_all frameable files" "ws_source_digest snapshot = sha (source_payload files)"
    "\<And>name data. snapshot_bytes sha staged (dget (ws_files snapshot) name) = Inr (Some data)
       \<longleftrightarrow> (name, data) \<in> set (tree_files [] es)"
proof -
  define stage where "stage = map_option fst staging"
  define st0 where "st0 = \<lparr>cp_files = [], cp_seen = [], cp_total = 0, cp_inodes = 1, cp_staged = []\<rparr>"
  obtain es names st files where tree: "tree = Some (FsDir es)"
    and names: "bounded_names es (cl_max_inodes limits - 1) = Inr names"
    and st: "visit sha limits stage [] names st0 = Inr st"
    and files: "read_values sha (cp_staged st) (sort_key fst (cp_files st)) = Inr files"
    and snapshot: "snapshot = \<lparr>ws_files = cp_files st, ws_source_digest = sha (source_payload files)\<rparr>"
    and staged: "staged = cp_staged st"
    using assms(1) by (auto simp: capture_pass_def stage_def st0_def
        split: option.splits fs.splits if_splits sum.splits)
  define F where "F = set (tree_files [] es)"
  have sorted: "names = sort_key fst es" using names by (auto simp: bounded_names_def split: if_splits)
  have "captured sha limits stage {} st0" by (simp add: captured_def st0_def)
  from visit_captured[OF st this] have ok: "captured sha limits stage F st" and plain: "plain_entries es"
    by (simp_all add: sorted F_def)
  have dict: "dict_ok (cp_files st)" using ok by (simp add: captured_def)
  have "\<forall>(name, v) \<in> set (sort_key fst (cp_files st)). dget (cp_files st) name = Some v"
    using dict by (auto simp: dget_set)
  from read_values_captured[OF ok this files]
  have keys: "map fst files = map fst (sort_key fst (cp_files st))" and sub: "set files \<subseteq> F" by simp_all
  have "F \<subseteq> set files"
  proof
    fix x assume x: "x \<in> F"
    obtain name data where xx: "x = (name, data)" by (cases x)
    have "dget (cp_files st) name \<noteq> None" using capturedD(1)[OF ok] x xx by simp
    then obtain v where "(name, v) \<in> set (cp_files st)" by (auto simp: dget_set[OF dict])
    then have "name \<in> fst ` set (cp_files st)" by (rule image_eqI[rotated]) simp
    then have "name \<in> set (map fst files)" unfolding keys by simp
    then obtain d where d: "(name, d) \<in> set files" by auto
    then show "x \<in> set files" using captured_unique[OF ok, of name d data] sub x xx by auto
  qed
  then have set: "set files = F" using sub by blast
  have "list_all frameable files"
    unfolding list_all_iff set
  proof
    fix x assume x: "x \<in> F"
    obtain name data where xx: "x = (name, data)" by (cases x)
    have "int (length data) < 2 ^ 64" using capturedD(5)[OF ok, of name data] x xx bound by simp
    then show "frameable x" using capturedD(4)[OF ok, of name data] x by (simp add: xx frameable_def)
  qed
  moreover have "snapshot_bytes sha staged (dget (ws_files snapshot) name) = Inr (Some data) \<longleftrightarrow> (name, data) \<in> F"
    for name data
  proof
    assume "(name, data) \<in> F"
    then show "snapshot_bytes sha staged (dget (ws_files snapshot) name) = Inr (Some data)"
      using capturedD(1)[OF ok] read_value_captured(2)[OF ok] by (simp add: snapshot staged)
  next
    assume a: "snapshot_bytes sha staged (dget (ws_files snapshot) name) = Inr (Some data)"
    then obtain v where v: "dget (cp_files st) name = Some v"
      by (cases "dget (cp_files st) name") (simp_all add: snapshot snapshot_bytes_def)
    then obtain d where d: "(name, d) \<in> F" "v = value_of sha stage name d"
      using ok unfolding captured_def by blast
    then show "(name, data) \<in> F" using a v read_value_captured(2)[OF ok d(1)] by (simp add: snapshot staged)
  qed
  ultimately show thesis using that[of es files] tree plain set by (simp add: F_def snapshot)
qed

lemma source_payload_inj:
  assumes "source_payload xs = source_payload ys" "list_all frameable xs" "list_all frameable ys"
  shows "set xs = set ys"
proof -
  have "list_all frameable (sort_key fst xs)" "list_all frameable (sort_key fst ys)"
    using assms(2,3) by (simp_all add: list_all_iff)
  moreover have "concat (map (\<lambda>(name, data). framed (utf8 name) @ framed data) (sort_key fst xs))
      = concat (map (\<lambda>(name, data). framed (utf8 name) @ framed data) (sort_key fst ys))"
    using assms(1) by (simp add: source_payload_def)
  ultimately have "sort_key fst xs = sort_key fst ys" by (rule payload_inj)
  then show ?thesis by (metis set_sort)
qed

text \<open>C9. A snapshot is the tree: when \<open>capture_workspace\<close> succeeds, the tree has nothing but directories
  and regular files with one link, the contents that can be read from the snapshot are exactly
  its files, and, SHA-256 being free of collisions, the second pass saw the same files.\<close>

theorem captured_snapshot_is_the_tree:
  assumes "capture_workspace sha limits base staging (Some (FsDir es)) second = Inr (snapshot, staged)"
    and "cl_max_total_bytes limits < 2 ^ 64" and "inj sha"
  shows "plain_entries es
    \<and> (\<forall>name data. snapshot_bytes sha staged (dget (ws_files snapshot) name) = Inr (Some data)
         \<longleftrightarrow> (name, data) \<in> set (tree_files [] es))
    \<and> (\<exists>es2. second = Some (FsDir es2) \<and> plain_entries es2
         \<and> set (tree_files [] es2) = set (tree_files [] es))"
proof -
  obtain verification staged2 where one: "capture_pass sha limits base staging (Some (FsDir es)) = Inr (snapshot, staged)"
    and two: "capture_pass sha limits base None second = Inr (verification, staged2)"
    and same: "ws_source_digest verification = ws_source_digest snapshot"
    using assms(1) by (auto simp: capture_workspace_def split: sum.splits if_splits)
  obtain files where f: "plain_entries es" "set files = set (tree_files [] es)" "list_all frameable files"
    "ws_source_digest snapshot = sha (source_payload files)"
    "\<And>name data. snapshot_bytes sha staged (dget (ws_files snapshot) name) = Inr (Some data)
       \<longleftrightarrow> (name, data) \<in> set (tree_files [] es)"
    using capture_pass_Inr[OF one assms(2)] by (metis fs.inject(1) option.inject)
  obtain es2 files2 where g: "second = Some (FsDir es2)" "plain_entries es2"
    "set files2 = set (tree_files [] es2)" "list_all frameable files2"
    "ws_source_digest verification = sha (source_payload files2)"
    using capture_pass_Inr[OF two assms(2)] by metis
  have "source_payload files = source_payload files2"
    using same f(4) g(5) assms(3) by (metis injD)
  then have "set files2 = set files" using source_payload_inj f(3) g(4) by metis
  then show ?thesis using f(1,2,5) g(1-3) by simp
qed

definition sample_tree :: "(string \<times> fs) list" where
  "sample_tree = [(''src'', FsDir [(''b.py'', FsFile 1 ''y''), (''a.py'', FsFile 1 ''x'')])]"

definition small_limits :: capture_limits where
  "small_limits = \<lparr>cl_max_files = 9, cl_max_inodes = 9, cl_max_file_bytes = 9, cl_max_total_bytes = 9\<rparr>"

theorem captured_snapshot_is_the_tree_witness:
  "\<exists>snapshot. capture_workspace (\<lambda>s. s) small_limits [''w''] None (Some (FsDir sample_tree)) (Some (FsDir sample_tree))
       = Inr (snapshot, [])
     \<and> snapshot_bytes (\<lambda>s. s) [] (dget (ws_files snapshot) ''src/a.py'') = Inr (Some ''x'')"
proof -
  have "\<not> (case capture_workspace (\<lambda>s. s) small_limits [''w''] None (Some (FsDir sample_tree)) (Some (FsDir sample_tree))
      of Inl e \<Rightarrow> True | Inr (snapshot, staged) \<Rightarrow> staged \<noteq> [])" by code_simp
  then obtain snapshot where s: "capture_workspace (\<lambda>s. s) small_limits [''w''] None (Some (FsDir sample_tree))
      (Some (FsDir sample_tree)) = Inr (snapshot, [])" by (auto split: sum.splits prod.splits)
  have "cl_max_total_bytes small_limits < 2 ^ 64" "inj (\<lambda>s :: string. s)" by (simp_all add: small_limits_def)
  from captured_snapshot_is_the_tree[OF s this]
  have "snapshot_bytes (\<lambda>s. s) [] (dget (ws_files snapshot) ''src/a.py'') = Inr (Some ''x'')"
    by (simp add: sample_tree_def as_posix_def)
  then show ?thesis using s by blast
qed

subsection \<open>The patch\<close>

lemma concat_split_lines: "concat (split_lines line s) = line @ s"
proof (induction line s rule: split_lines.induct)
  case (1 line s)
  show ?case
  proof (cases "s = []")
    case True
    then show ?thesis by (subst split_lines.simps) simp
  next
    case False
    then show ?thesis using 1 by (subst split_lines.simps) simp
  qed
qed

lemma patch_lines_inj:
  assumes "patch_lines a = patch_lines b" "CHR 0x00 \<notin> set a" "CHR 0x00 \<notin> set b"
  shows "a = b"
proof -
  have "concat (patch_lines a) = concat (patch_lines b)" by (simp add: assms(1))
  then have "(if a \<noteq> [] \<and> last a \<notin> {CHR 0x0A, CHR 0x0D} then a @ [CHR 0x00, CHR 0x0A] else a)
      = (if b \<noteq> [] \<and> last b \<notin> {CHR 0x0A, CHR 0x0D} then b @ [CHR 0x00, CHR 0x0A] else b)"
    by (simp only: patch_lines_def if_distrib[of concat] concat_split_lines append_Nil cong: if_cong)
  moreover have "a @ [CHR 0x00, CHR 0x0A] \<noteq> b" "b @ [CHR 0x00, CHR 0x0A] \<noteq> a" using assms(2,3) by auto
  ultimately show ?thesis by (auto split: if_splits)
qed

lemma append_bounded_Inr: "append_bounded max_bytes chunk encoded = Inr e \<Longrightarrow> e = encoded @ chunk"
  by (simp add: append_bounded_def split: if_splits)

lemma append_diff_Inr:
  "append_diff max_bytes lines encoded = Inr e \<Longrightarrow> \<exists>s. e = encoded @ s \<and> (s = [] \<longleftrightarrow> concat lines = [])"
proof (induction lines arbitrary: encoded)
  case (Cons line lines)
  obtain e1 where rest: "append_diff max_bytes lines e1 = Inr e"
    and one: "(if CHR 0x00 \<in> set line then
          (case append_bounded max_bytes (filter (\<lambda>c. c \<noteq> CHR 0x00) line) encoded of Inl e \<Rightarrow> Inl e
           | Inr encoded \<Rightarrow> append_bounded max_bytes no_newline_marker encoded)
        else append_bounded max_bytes line encoded) = Inr e1"
    using Cons.prems by (auto split: sum.splits)
  have "\<exists>s. e1 = encoded @ s \<and> (s = [] \<longleftrightarrow> line = [])"
    using one by (auto simp: no_newline_marker_def dest!: append_bounded_Inr split: if_splits sum.splits)
  then show ?case using Cons.IH[OF rest] by auto
qed simp

text \<open>Both contents of a changed file, in the order before, after; a missing file reads as empty text.\<close>

definition as_text :: "string option \<Rightarrow> string" where
  "as_text b = (case b of None \<Rightarrow> [] | Some s \<Rightarrow> s)"

lemma file_patch_Inr:
  assumes "file_patch diff max_bytes name before after encoded = Inr e"
    and "\<forall>xs ys f t. concat (diff xs ys f t) = [] \<longleftrightarrow> xs = ys"
  shows "\<exists>s. e = encoded @ s \<and> (s = [] \<longleftrightarrow> as_text before = as_text after)"
proof -
  have nul: "CHR 0x00 \<notin> set (as_text before)" "CHR 0x00 \<notin> set (as_text after)"
    and d: "append_diff max_bytes (diff (patch_lines (as_text before)) (patch_lines (as_text after))
          (if before = None then ''/dev/null'' else ''a/'' @ utf8 name)
          (if after = None then ''/dev/null'' else ''b/'' @ utf8 name)) encoded = Inr e"
    using assms(1) by (auto simp: file_patch_def as_text_def split: if_splits option.splits)
  from append_diff_Inr[OF d] show ?thesis using assms(2) patch_lines_inj[OF _ nul] by auto
qed

lemma snapshot_bytes_identity:
  assumes "snapshot_bytes sha disk v = Inr (Some b)"
  shows "snapshot_identity sha v = Some (int (length b), sha b)"
  using assms by (auto simp: snapshot_bytes_def snapshot_identity_def
      split: option.splits snapshot_value.splits if_splits)

lemma snapshot_bytes_None: "snapshot_bytes sha disk v = Inr None \<longleftrightarrow> v = None"
  by (auto simp: snapshot_bytes_def split: option.splits snapshot_value.splits if_splits)

definition empty_file_only :: "(string \<Rightarrow> string) \<Rightarrow> (string list, string) dict \<Rightarrow> workspace_snapshot
    \<Rightarrow> workspace_snapshot \<Rightarrow> string \<Rightarrow> bool" where
  "empty_file_only sha disk baseline final name \<longleftrightarrow>
     (snapshot_bytes sha disk (dget (ws_files baseline) name), snapshot_bytes sha disk (dget (ws_files final) name))
       \<in> {(Inr None, Inr (Some [])), (Inr (Some []), Inr None)}"

lemma same_text_changed:
  assumes "snapshot_bytes sha disk v = Inr b" "snapshot_bytes sha disk w = Inr c"
    "snapshot_identity sha v \<noteq> snapshot_identity sha w"
  shows "as_text b = as_text c \<longleftrightarrow> (b, c) \<in> {(None, Some []), (Some [], None)}"
proof (cases b; cases c)
  fix x y assume b: "b = Some x" "c = Some y"
  have "x \<noteq> y"
    using assms(3) snapshot_bytes_identity[OF assms(1)[unfolded b(1)]] snapshot_bytes_identity[OF assms(2)[unfolded b(2)]]
    by auto
  then show ?thesis by (simp add: as_text_def b)
next
  assume "b = None" "c = None"
  then show ?thesis using assms snapshot_bytes_None by metis
qed (auto simp: as_text_def)

lemma patch_files_Inr:
  assumes contract: "\<forall>xs ys f t. concat (diff xs ys f t) = [] \<longleftrightarrow> xs = ys"
  shows "patch_files sha diff max_bytes disk baseline final names encoded = Inr e \<Longrightarrow>
    \<exists>s. e = encoded @ s \<and> (s = [] \<longleftrightarrow> (\<forall>name \<in> set names.
        snapshot_identity sha (dget (ws_files baseline) name) = snapshot_identity sha (dget (ws_files final) name)
        \<or> empty_file_only sha disk baseline final name))"
proof (induction names arbitrary: encoded)
  case (Cons name names)
  let ?v = "dget (ws_files baseline) name" and ?w = "dget (ws_files final) name"
  show ?case
  proof (cases "snapshot_identity sha ?v = snapshot_identity sha ?w")
    case True
    then show ?thesis using Cons by (simp add: Let_def)
  next
    case False
    obtain b c e1 where bc: "snapshot_bytes sha disk ?v = Inr b" "snapshot_bytes sha disk ?w = Inr c"
      and fp: "file_patch diff max_bytes name b c encoded = Inr e1"
      and rest: "patch_files sha diff max_bytes disk baseline final names e1 = Inr e"
      using Cons.prems False by (auto simp: Let_def split: sum.splits)
    have "empty_file_only sha disk baseline final name \<longleftrightarrow> as_text b = as_text c"
      using same_text_changed[OF bc False] by (simp add: empty_file_only_def bc)
    then show ?thesis using file_patch_Inr[OF fp contract] Cons.IH[OF rest] False by auto
  qed
qed simp

text \<open>C37. The patch between two snapshots is empty exactly when every changed file is an empty file
  that was added or removed (under the contract of \<open>difflib.unified_diff\<close>: it prints something
  exactly for two different lists of lines). So a run that changes anything else has a patch,
  which needs approval; and adding an empty file (a Python \<open>__init__.py\<close>) is lost.\<close>

theorem empty_patch_means_only_empty_files:
  assumes "build_workspace_patch sha diff max_bytes disk baseline final = Inr patch"
    and "\<forall>xs ys f t. concat (diff xs ys f t) = [] \<longleftrightarrow> xs = ys"
  shows "patch = [] \<longleftrightarrow> list_all (empty_file_only sha disk baseline final)
    (workspace_changed_paths sha baseline final)"
proof -
  have "patch_files sha diff max_bytes disk baseline final (snapshot_names baseline final) [] = Inr patch"
    using assms(1) by (simp add: build_workspace_patch_def split: if_splits)
  from patch_files_Inr[OF assms(2) this] show ?thesis
    by (auto simp: workspace_changed_paths_def list_all_iff)
qed

definition sample_diff :: line_diff where
  "sample_diff xs ys f t = (if xs = ys then [] else [''--- '' @ f, ''+++ '' @ t])"

definition before_package :: workspace_snapshot where
  "before_package = \<lparr>ws_files = [(''a.py'', SnapshotBytes ''x'')], ws_source_digest = ''d''\<rparr>"

definition after_package :: workspace_snapshot where
  "after_package = \<lparr>ws_files = [(''a.py'', SnapshotBytes ''x''), (''p/__init__.py'', SnapshotBytes [])],
     ws_source_digest = ''e''\<rparr>"

theorem empty_patch_means_only_empty_files_witness:
  "build_workspace_patch (\<lambda>s. s) sample_diff 100 [] before_package after_package = Inr []
   \<and> list_all (empty_file_only (\<lambda>s. s) [] before_package after_package)
       (workspace_changed_paths (\<lambda>s. s) before_package after_package)
   \<and> workspace_changed_paths (\<lambda>s. s) before_package after_package = [''p/__init__.py'']"
proof -
  have p: "build_workspace_patch (\<lambda>s. s) sample_diff 100 [] before_package after_package = Inr []"
    and c: "workspace_changed_paths (\<lambda>s. s) before_package after_package = [''p/__init__.py'']"
    by code_simp+
  have "\<forall>xs ys f t. concat (sample_diff xs ys f t) = [] \<longleftrightarrow> xs = ys"
    by (auto simp: sample_diff_def)
  from empty_patch_means_only_empty_files[OF p this] show ?thesis using p c by simp
qed

text \<open>Two defects that the model shows on small inputs: the lines that go into the diff are cut at form
  feeds and other separators that are not line ends of a patch, and the redaction of an
  authorization header stops at the first space, so that a basic credential stays readable.\<close>

lemma form_feed_cuts_a_patch_line:
  "patch_lines [CHR ''a'', CHR 0x0C, CHR ''b'', CHR 0x0A] = [[CHR ''a'', CHR 0x0C], [CHR ''b'', CHR 0x0A]]"
  by code_simp

lemma basic_credential_not_redacted:
  "redact_text ''Authorization: Basic dXNlcjpwYXNz'' = ''Authorization=[REDACTED] dXNlcjpwYXNz''"
  by code_simp

end
