(* ===== verification/JobScheduler.thy ===== *)
theory JobScheduler
  imports JobStoreMachine
begin

section \<open>Admission and scheduling of engineering jobs\<close>

text \<open>
  \<open>BackgroundJobRunner\<close> and \<open>DurableJobScheduler\<close> of \<open>core/lil_tweak/orchestrator.py\<close>: an executor
  with one worker and a bounded number of admitted jobs, and the scheduler that claims queued
  jobs for it under leases. Parameters: \<open>guard\<close> (the answers of the admission guard, by their
  place; always true where there is no guard) and \<open>accepts\<close> (whether the executor takes a job:
  it does until it is shut down). The state of the scheduler is the store, the runner and the
  leases of the jobs in flight; a step is one poll, a heartbeat, a finished job, a shutdown or
  an operation on the store by anybody else. The callbacks of finished jobs run between polls.
\<close>

subsection \<open>The runner\<close>

record job_runner =
  jr_max_admitted :: int
  jr_admitted :: int

datatype runner_failure = AdmissionUnavailable | ExecutorError | RunnerValueError
  | SchedulerStoreError store_error

definition runner_init :: "int \<Rightarrow> runner_failure + job_runner" where
  "runner_init max_admitted =
     (if max_admitted < 1 then Inl RunnerValueError
      else Inr \<lparr>jr_max_admitted = max_admitted, jr_admitted = 0\<rparr>)"

definition runner_has_capacity :: "bool \<Rightarrow> job_runner \<Rightarrow> bool" where
  "runner_has_capacity guard r \<longleftrightarrow> guard \<and> jr_admitted r < jr_max_admitted r"

definition release_admission :: "job_runner \<Rightarrow> job_runner" where
  "release_admission r = r\<lparr>jr_admitted := jr_admitted r - 1\<rparr>"

definition submit :: "bool \<Rightarrow> bool \<Rightarrow> job_runner \<Rightarrow> (runner_failure, unit, job_runner) outcome" where
  "submit guard accepts r =
     (if \<not> guard \<or> jr_max_admitted r \<le> jr_admitted r then (Inl AdmissionUnavailable, r)
      else
        let r = r\<lparr>jr_admitted := jr_admitted r + 1\<rparr> in
        if \<not> accepts then (Inl ExecutorError, release_admission r) else (Inr (), r))"

text \<open>\<open>_execute\<close>: the intake, where there is one, and the run, within the execution guard, which may
  refuse to be entered. \<open>run_job\<close> gets the inventory and the lease that there are.\<close>

definition execute_job :: "('s \<Rightarrow> ('e, unit, 's) outcome)
    \<Rightarrow> (string \<Rightarrow> string \<Rightarrow> job_lease option \<Rightarrow> 's \<Rightarrow> ('e, 'i, 's) outcome) option
    \<Rightarrow> (string \<Rightarrow> string \<Rightarrow> 'i option \<Rightarrow> job_lease option \<Rightarrow> 's \<Rightarrow> ('e, 'r, 's) outcome)
    \<Rightarrow> string \<Rightarrow> string \<Rightarrow> job_lease option \<Rightarrow> 's \<Rightarrow> ('e, 'r, 's) outcome" where
  "execute_job execution_guard source_intake run_job jid owner lease st =
     bind_op (execution_guard st) (\<lambda>_ st.
       case source_intake of
         None \<Rightarrow> run_job jid owner None lease st
       | Some intake \<Rightarrow> bind_op (intake jid owner lease st) (\<lambda>inventory st.
           run_job jid owner (Some inventory) lease st))"

subsection \<open>The scheduler\<close>

record job_scheduler =
  js_store :: job_store
  js_runner :: job_runner
  js_worker_id :: string
  js_lease_seconds :: int
  js_tasks :: "job_lease list"
  js_stopped :: bool
  js_woken :: bool

definition job_scheduler_init :: "job_store \<Rightarrow> job_runner \<Rightarrow> string \<Rightarrow> int \<Rightarrow> rat
    \<Rightarrow> runner_failure + job_scheduler" where
  "job_scheduler_init s r worker lease_seconds poll_interval =
     (if worker = [] \<or> lease_seconds \<le> 0 \<or> poll_interval \<le> 0 then Inl RunnerValueError
      else Inr \<lparr>js_store = s, js_runner = r, js_worker_id = worker, js_lease_seconds = lease_seconds,
        js_tasks = [], js_stopped = False, js_woken = False\<rparr>)"

definition job_notify :: "job_scheduler \<Rightarrow> job_scheduler" where
  "job_notify c = c\<lparr>js_woken := True\<rparr>"

text \<open>The loop of \<open>poll_once\<close>; \<open>i\<close> counts its rounds, each of which asks the guard twice.\<close>

function poll_jobs :: "(nat \<Rightarrow> bool) \<Rightarrow> (nat \<Rightarrow> bool) \<Rightarrow> time \<Rightarrow> nat \<Rightarrow> job_scheduler
    \<Rightarrow> (runner_failure, int, job_scheduler) outcome" where
  "poll_jobs guard accepts now i c =
     (if \<not> runner_has_capacity (guard (2 * i)) (js_runner c) then (Inr (int i), c)
      else case list_schedulable_jobs (\<lambda>_. now) (js_store c) (Some now) 1 of
        Inl e \<Rightarrow> (Inl (SchedulerStoreError e), c)
      | Inr [] \<Rightarrow> (Inr (int i), c)
      | Inr (job # _) \<Rightarrow>
        (case claim_job (\<lambda>_. now) (js_store c) (job_id job) (job_owner_id job) (js_worker_id c)
            (js_lease_seconds c) (Some now) of
           (Inl e, s) \<Rightarrow> (Inl (SchedulerStoreError e), c\<lparr>js_store := s\<rparr>)
         | (Inr None, s) \<Rightarrow> (Inr (int i), c\<lparr>js_store := s\<rparr>)
         | (Inr (Some lease), s) \<Rightarrow>
           (case submit (guard (2 * i + 1)) (accepts i) (js_runner c) of
              (Inl e, r) \<Rightarrow> (Inl e, c\<lparr>js_store := release_claim s lease, js_runner := r\<rparr>)
            | (Inr _, r) \<Rightarrow> poll_jobs guard accepts now (Suc i)
                (c\<lparr>js_store := s, js_runner := r, js_tasks := js_tasks c @ [lease]\<rparr>))))"
  by pat_completeness auto

text \<open>Every round admits a job, and the number of admitted jobs is bounded.\<close>

lemma submit_Inr:
  "submit guard accepts r = (Inr u, r') \<Longrightarrow> r' = r\<lparr>jr_admitted := jr_admitted r + 1\<rparr>
     \<and> jr_admitted r < jr_max_admitted r"
  by (auto simp: submit_def Let_def split: if_splits)

termination poll_jobs
  by (relation "measure (\<lambda>(guard, accepts, now, i, c). nat (jr_max_admitted (js_runner c) - jr_admitted (js_runner c)))")
    (auto dest!: submit_Inr[OF sym])

declare poll_jobs.simps [simp del]

definition job_poll_once :: "(nat \<Rightarrow> bool) \<Rightarrow> (nat \<Rightarrow> bool) \<Rightarrow> time \<Rightarrow> job_scheduler
    \<Rightarrow> (runner_failure, int, job_scheduler) outcome" where
  "job_poll_once guard accepts now c =
     (case reconcile_active_jobs (\<lambda>_. now) (js_store c) (Some now) 100 of
        (Inl e, s) \<Rightarrow> (Inl (SchedulerStoreError e), c\<lparr>js_store := s\<rparr>)
      | (Inr recovered, s) \<Rightarrow> poll_jobs guard accepts now 0 (c\<lparr>js_store := s\<rparr>))"

text \<open>One round of \<open>_heartbeat\<close> of the \<open>n\<close>-th job in flight, always with the lease of the claim.\<close>

definition job_heartbeat :: "time \<Rightarrow> nat \<Rightarrow> job_scheduler \<Rightarrow> job_scheduler" where
  "job_heartbeat now n c =
     (if n < length (js_tasks c)
      then c\<lparr>js_store := snd (renew_claim (\<lambda>_. now) (js_store c) (js_tasks c ! n) (js_lease_seconds c) (Some now))\<rparr>
      else c)"

text \<open>The callbacks of the \<open>n\<close>-th job: the runner's, then \<open>_finished\<close>.\<close>

definition job_finished :: "nat \<Rightarrow> job_scheduler \<Rightarrow> job_scheduler" where
  "job_finished n c =
     (if n < length (js_tasks c)
      then job_notify (c\<lparr>js_store := release_claim (js_store c) (js_tasks c ! n),
        js_runner := release_admission (js_runner c),
        js_tasks := take n (js_tasks c) @ drop (Suc n) (js_tasks c)\<rparr>)
      else c)"

definition job_shutdown :: "job_scheduler \<Rightarrow> job_scheduler" where
  "job_shutdown c = c\<lparr>js_stopped := True, js_woken := True\<rparr>"

datatype job_event_step = JobPoll "nat \<Rightarrow> bool" "nat \<Rightarrow> bool" time | JobHeartbeat time nat
  | JobFinished nat | JobShutdown | JobNotify | JobStoreOp store_op

fun job_scheduler_step :: "(string \<Rightarrow> string) \<Rightarrow> (rat \<Rightarrow> string) \<Rightarrow> job_scheduler \<Rightarrow> job_event_step
    \<Rightarrow> job_scheduler" where
  "job_scheduler_step sha fr c (JobPoll guard accepts now) =
     (if js_stopped c then c else snd (job_poll_once guard accepts now c))"
| "job_scheduler_step sha fr c (JobHeartbeat now n) = job_heartbeat now n c"
| "job_scheduler_step sha fr c (JobFinished n) = job_finished n c"
| "job_scheduler_step sha fr c JobShutdown = job_shutdown c"
| "job_scheduler_step sha fr c JobNotify = job_notify c"
| "job_scheduler_step sha fr c (JobStoreOp x) = c\<lparr>js_store := store_step sha fr (js_store c) x\<rparr>"

fun job_event_ok :: "job_scheduler \<Rightarrow> job_event_step \<Rightarrow> bool" where
  "job_event_ok c (JobStoreOp x) = store_ok (js_store c) x"
| "job_event_ok c _ = True"

subsection \<open>The invariant\<close>

text \<open>The runner counts the jobs in flight, and never more than it may admit.\<close>

definition job_scheduler_inv :: "job_scheduler \<Rightarrow> bool" where
  "job_scheduler_inv c \<longleftrightarrow> store_inv (js_store c)
     \<and> jr_admitted (js_runner c) = int (length (js_tasks c))
     \<and> jr_admitted (js_runner c) \<le> jr_max_admitted (js_runner c)"

definition job_scheduler_later :: "job_scheduler \<Rightarrow> job_scheduler \<Rightarrow> bool" where
  "job_scheduler_later c d \<longleftrightarrow> store_later (js_store c) (js_store d)
     \<and> jr_max_admitted (js_runner d) = jr_max_admitted (js_runner c)
     \<and> js_worker_id d = js_worker_id c \<and> js_lease_seconds d = js_lease_seconds c
     \<and> (js_stopped c \<longrightarrow> js_stopped d \<and> length (js_tasks d) \<le> length (js_tasks c))"

definition poll_effect :: "job_scheduler \<Rightarrow> job_scheduler \<Rightarrow> bool" where
  "poll_effect c d \<longleftrightarrow> job_scheduler_inv d \<and> store_later (js_store c) (js_store d)
     \<and> jr_max_admitted (js_runner d) = jr_max_admitted (js_runner c)
     \<and> js_stopped d = js_stopped c \<and> js_worker_id d = js_worker_id c
     \<and> js_lease_seconds d = js_lease_seconds c"

lemma poll_effect_store:
  assumes "job_scheduler_inv c" "effects b w (js_store c) s"
  shows "poll_effect c (c\<lparr>js_store := s\<rparr>)"
  using assms effects_inv[OF assms(2)] effects_later[OF assms(2)]
  by (simp add: poll_effect_def job_scheduler_inv_def)

lemma poll_effect_trans: "poll_effect c d \<Longrightarrow> poll_effect d e \<Longrightarrow> poll_effect c e"
  unfolding poll_effect_def by (auto intro: store_later_trans)

lemma poll_effect_refl: "job_scheduler_inv c \<Longrightarrow> poll_effect c c"
  by (simp add: poll_effect_def)

lemma poll_jobs_effect:
  "job_scheduler_inv c \<Longrightarrow> poll_effect c (snd (poll_jobs guard accepts now i c))"
proof (induction guard accepts now i c rule: poll_jobs.induct)
  case (1 guard accepts now i c)
  note inv = "1.prems"
  show ?case
  proof (cases "runner_has_capacity (guard (2 * i)) (js_runner c)")
    case False
    then show ?thesis using poll_effect_refl[OF inv] by (subst poll_jobs.simps) simp
  next
    case cap: True
    show ?thesis
    proof (cases "\<exists>job later_jobs. list_schedulable_jobs (\<lambda>_. now) (js_store c) (Some now) 1 = Inr (job # later_jobs)")
      case False
      then show ?thesis using poll_effect_refl[OF inv]
        by (subst poll_jobs.simps) (auto split: sum.splits list.splits)
    next
      case True
      then obtain job later_jobs where job: "list_schedulable_jobs (\<lambda>_. now) (js_store c) (Some now) 1 = Inr (job # later_jobs)"
        by blast
      obtain u s where claim: "claim_job (\<lambda>_. now) (js_store c) (job_id job) (job_owner_id job) (js_worker_id c)
            (js_lease_seconds c) (Some now) = (u, s)" by fastforce
      have "effects False (\<lambda>_. True) (js_store c) (snd (claim_job (\<lambda>_. now) (js_store c) (job_id job)
            (job_owner_id job) (js_worker_id c) (js_lease_seconds c) (Some now)))"
        by (rule claim_job_effects) simp
      then have es: "effects False (\<lambda>_. True) (js_store c) s" unfolding claim by simp
      note one = poll_effect_store[OF inv es]
      show ?thesis
      proof (cases "\<exists>l. u = Inr (Some l)")
        case False
        then show ?thesis using cap job claim one
          by (subst poll_jobs.simps) (auto split: sum.splits option.splits)
      next
        case True
        then obtain l where l: "u = Inr (Some l)" by blast
        obtain v r where sub: "submit (guard (2 * i + 1)) (accepts i) (js_runner c) = (v, r)" by fastforce
        show ?thesis
        proof (cases v)
          case (Inl e)
          then have r: "r = js_runner c"
            using sub by (auto simp: submit_def Let_def release_admission_def split: if_splits)
          have "effects False (\<lambda>_. True) s (release_claim s l)"
            by (rule release_claim_effects) simp
          then have "poll_effect c (c\<lparr>js_store := release_claim s l\<rparr>)"
            using poll_effect_store[OF inv] es by (meson rtranclp_trans)
          then show ?thesis using cap job claim l sub Inl r by (subst poll_jobs.simps) simp
        next
          case (Inr x)
          let ?d = "c\<lparr>js_store := s, js_runner := r, js_tasks := js_tasks c @ [l]\<rparr>"
          have d: "poll_effect c ?d"
            using one submit_Inr[of "guard (2 * i + 1)" "accepts i" "js_runner c" x r] sub Inr
            by (auto simp: poll_effect_def job_scheduler_inv_def)
          then have "poll_effect ?d (snd (poll_jobs guard accepts now (Suc i) ?d))"
            using "1.IH" cap job claim l sub Inr by (auto simp: poll_effect_def)
          then show ?thesis using cap job claim l sub Inr poll_effect_trans[OF d]
            by (subst poll_jobs.simps) simp
        qed
      qed
    qed
  qed
qed

lemma job_poll_effect:
  assumes "job_scheduler_inv c"
  shows "poll_effect c (snd (job_poll_once guard accepts now c))"
proof -
  obtain v s where rec: "reconcile_active_jobs (\<lambda>_. now) (js_store c) (Some now) 100 = (v, s)" by fastforce
  have "effects False (\<lambda>_. True) (js_store c) (snd (reconcile_active_jobs (\<lambda>_. now) (js_store c) (Some now) 100))"
    using assms by (intro reconcile_active_jobs_effects) (simp_all add: job_scheduler_inv_def)
  then have "effects False (\<lambda>_. True) (js_store c) s" unfolding rec by simp
  note one = poll_effect_store[OF assms this]
  then have "job_scheduler_inv (c\<lparr>js_store := s\<rparr>)" by (simp add: poll_effect_def)
  from poll_jobs_effect[OF this] one poll_effect_trans[OF one] show ?thesis
    by (simp add: job_poll_once_def rec split: sum.splits)
qed

lemma job_store_step:
  assumes "job_scheduler_inv c" "effects b w (js_store c) s"
  shows "job_scheduler_inv (c\<lparr>js_store := s\<rparr>)" "job_scheduler_later c (c\<lparr>js_store := s\<rparr>)"
  using poll_effect_store[OF assms] by (simp_all add: poll_effect_def job_scheduler_later_def)

lemma job_finished_step:
  assumes "job_scheduler_inv c"
  shows "job_scheduler_inv (job_finished n c)" "job_scheduler_later c (job_finished n c)"
proof -
  have "effects False (\<lambda>_. True) (js_store c) (release_claim (js_store c) (js_tasks c ! n))"
    by (rule release_claim_effects) simp
  note one = job_store_step[OF assms this]
  then show "job_scheduler_inv (job_finished n c)" "job_scheduler_later c (job_finished n c)"
    using assms by (auto simp: job_finished_def job_scheduler_inv_def job_scheduler_later_def job_notify_def
        release_admission_def of_nat_diff)
qed

lemma job_step:
  assumes inv: "job_scheduler_inv c" and ok: "job_event_ok c x"
  shows "job_scheduler_inv (job_scheduler_step sha fr c x) \<and> job_scheduler_later c (job_scheduler_step sha fr c x)"
proof (cases x)
  case (JobPoll guard accepts now)
  show ?thesis
    using job_poll_effect[OF inv, of guard accepts now] inv
    by (simp add: JobPoll poll_effect_def job_scheduler_later_def)
next
  case (JobHeartbeat now n)
  have "effects False (\<lambda>_. True) (js_store c)
      (snd (renew_claim (\<lambda>_. now) (js_store c) (js_tasks c ! n) (js_lease_seconds c) (Some now)))"
    by (rule renew_claim_effects) simp
  from job_store_step[OF inv this] show ?thesis using inv
    by (simp add: JobHeartbeat job_heartbeat_def job_scheduler_later_def)
next
  case (JobStoreOp op)
  have "effects (approves op) (acts_for op) (js_store c) (store_step sha fr (js_store c) op)"
    using inv ok by (intro store_step_effects) (simp_all add: job_scheduler_inv_def JobStoreOp)
  from job_store_step[OF inv this] show ?thesis by (simp add: JobStoreOp)
next
  case (JobFinished n)
  then show ?thesis using job_finished_step[OF inv, of n] by simp
qed (use inv in \<open>auto simp: job_scheduler_inv_def job_scheduler_later_def job_shutdown_def job_notify_def\<close>)

interpretation job_machine: monotone_machine "job_scheduler_step sha fr" job_event_ok job_scheduler_inv
    job_scheduler_later for sha fr
proof unfold_locales
  show "job_scheduler_later s u" if "job_scheduler_later s t" "job_scheduler_later t u" for s t u
    using that by (auto simp: job_scheduler_later_def intro: store_later_trans)
qed (use job_step in \<open>auto simp: job_scheduler_later_def\<close>)

subsection \<open>A poll fills the runner\<close>

lemma reconcile_one_Inr:
  assumes "dget (events s) (job_id j) \<noteq> None"
  shows "\<exists>r t. reconcile_one tick tm limit j recovered s = (Inr r, t)
    \<and> (\<forall>k. dget (events s) k \<noteq> None \<longrightarrow> dget (events t) k \<noteq> None)"
  using assms
  by (auto simp: reconcile_one_def append_event_locked_def Let_def split: option.splits)

lemma reconcile_loop_Inr:
  "\<forall>j \<in> set js. dget (events s) (job_id j) \<noteq> None \<Longrightarrow>
     \<exists>r t. reconcile_loop clk i tm limit js recovered s = (Inr r, t)"
proof (induction js arbitrary: i recovered s)
  case (Cons j js)
  then obtain r t where one: "reconcile_one (clk i) tm limit j recovered s = (Inr r, t)"
    "\<forall>k. dget (events s) k \<noteq> None \<longrightarrow> dget (events t) k \<noteq> None"
    using reconcile_one_Inr[of s j "clk i" tm limit recovered] by auto
  then have "\<exists>r' t'. reconcile_loop clk (Suc i) tm limit js r t = (Inr r', t')"
    using Cons by simp
  then show ?case using one(1) by simp
qed simp

lemma reconcile_active_jobs_Inr:
  assumes "store_inv s"
  shows "\<exists>r t. reconcile_active_jobs clk s now limit = (Inr r, t)"
proof -
  have "\<forall>j \<in> set (jobs_in_order s). dget (events s) (job_id j) \<noteq> None"
    using jobs_in_order_stored(2)[OF assms] assms unfolding store_inv_def by (metis option.distinct(1))
  then show ?thesis unfolding reconcile_active_jobs_def by (rule reconcile_loop_Inr)
qed

text \<open>A schedulable job can be claimed; live claims stay as they are.\<close>

lemma schedulable_claim:
  assumes inv: "store_inv s" and ok: "worker \<noteq> []" "0 < secs"
    and job: "list_schedulable_jobs (\<lambda>_. now) s (Some now) 1 = Inr (job # later_jobs)"
  obtains lease t where "claim_job (\<lambda>_. now) s (job_id job) (job_owner_id job) worker secs (Some now)
      = (Inr (Some lease), t)"
    "dget (claims t) (lease_job_id lease) = Some lease" "now < lease_expires_at lease"
    "\<And>k l. dget (claims s) k = Some l \<Longrightarrow> now < lease_expires_at l \<Longrightarrow> dget (claims t) k = Some l"
    "store_inv t"
proof -
  have "job \<in> set (filter (\<lambda>j. job_state j = QUEUED \<and> \<not> unexpired now (dget (claims s) (job_id j))) (jobs_in_order s))"
    using job by (auto simp: list_schedulable_jobs_def current_time_def dest!: arg_cong[where f = set] in_set_takeD
        intro: in_set_takeD)
  then have j: "job \<in> set (jobs_in_order s)" "job_state job = QUEUED" "\<not> unexpired now (dget (claims s) (job_id job))"
    by auto
  have stored: "dget (jobs s) (job_id job) = Some job" using jobs_in_order_stored(2)[OF inv] j(1) by blast
  define lease where "lease = \<lparr>lease_job_id = job_id job, lease_owner_id = job_owner_id job, lease_worker_id = worker,
      lease_generation = generation_of s (job_id job) + 1, lease_expires_at = now + of_int secs\<rparr>"
  define t where "t = s\<lparr>lease_generations := dset (lease_generations s) (job_id job) (generation_of s (job_id job) + 1),
      claims := dset (claims s) (job_id job) lease\<rparr>"
  have c: "claim_job (\<lambda>_. now) s (job_id job) (job_owner_id job) worker secs (Some now) = (Inr (Some lease), t)"
    using stored j(2,3) ok
    by (simp add: claim_job_def current_time_def unclaimable_states_def Let_def lease_def t_def)
  moreover have "store_inv t"
  proof -
    have "effects False (\<lambda>_. True) s (snd (claim_job (\<lambda>_. now) s (job_id job) (job_owner_id job) worker secs (Some now)))"
      by (rule claim_job_effects) simp
    then show ?thesis using effects_inv inv c by fastforce
  qed
  moreover have "dget (claims t) k = Some l" if "dget (claims s) k = Some l" "now < lease_expires_at l" for k l
    using that j(3) by (auto simp: t_def unexpired_def)
  ultimately show thesis using that[of lease t] ok by (simp add: t_def lease_def)
qed

lemma poll_jobs_fills:
  assumes "\<forall>n. guard n" "\<forall>n. accepts n"
  shows "job_scheduler_inv c \<Longrightarrow> js_worker_id c \<noteq> [] \<Longrightarrow> 0 < js_lease_seconds c \<Longrightarrow>
    \<exists>n d new. poll_jobs guard accepts now i c = (Inr n, d) \<and> js_tasks d = js_tasks c @ new \<and> n = int (i + length new)
      \<and> (jr_admitted (js_runner d) = jr_max_admitted (js_runner d)
         \<or> list_schedulable_jobs (\<lambda>_. now) (js_store d) (Some now) 1 = Inr [])
      \<and> (\<forall>l \<in> set new. dget (claims (js_store d)) (lease_job_id l) = Some l)
      \<and> (\<forall>k l. dget (claims (js_store c)) k = Some l \<longrightarrow> now < lease_expires_at l
           \<longrightarrow> dget (claims (js_store d)) k = Some l)"
  using assms
proof (induction guard accepts now i c rule: poll_jobs.induct)
  case (1 guard accepts now i c)
  have inv: "store_inv (js_store c)" "jr_admitted (js_runner c) \<le> jr_max_admitted (js_runner c)"
    using "1.prems"(1) by (simp_all add: job_scheduler_inv_def)
  obtain js where js: "list_schedulable_jobs (\<lambda>_. now) (js_store c) (Some now) 1 = Inr js"
    by (simp add: list_schedulable_jobs_def)
  show ?case
  proof (cases "jr_admitted (js_runner c) < jr_max_admitted (js_runner c) \<and> js \<noteq> []")
    case False
    then have "poll_jobs guard accepts now i c = (Inr (int i), c)"
      using js "1.prems" by (subst poll_jobs.simps) (auto simp: runner_has_capacity_def)
    then show ?thesis using False js inv(2) by auto
  next
    case True
    then obtain job later_jobs where job: "js = job # later_jobs" by (cases js) auto
    have cap: "runner_has_capacity (guard (2 * i)) (js_runner c)"
      using True "1.prems" by (simp add: runner_has_capacity_def)
    obtain lease s where claim: "claim_job (\<lambda>_. now) (js_store c) (job_id job) (job_owner_id job) (js_worker_id c)
          (js_lease_seconds c) (Some now) = (Inr (Some lease), s)"
      and held: "dget (claims s) (lease_job_id lease) = Some lease" "now < lease_expires_at lease"
      and live: "\<And>k l. dget (claims (js_store c)) k = Some l \<Longrightarrow> now < lease_expires_at l \<Longrightarrow> dget (claims s) k = Some l"
      and s: "store_inv s"
      using schedulable_claim[OF inv(1) "1.prems"(2,3) js[unfolded job]] by metis
    define r where "r = (js_runner c)\<lparr>jr_admitted := jr_admitted (js_runner c) + 1\<rparr>"
    have sub: "submit (guard (2 * i + 1)) (accepts i) (js_runner c) = (Inr (), r)"
      using True "1.prems" by (simp add: submit_def Let_def r_def)
    define d where "d = c\<lparr>js_store := s, js_runner := r, js_tasks := js_tasks c @ [lease]\<rparr>"
    have step: "poll_jobs guard accepts now i c = poll_jobs guard accepts now (Suc i) d"
      using cap js job claim sub by (subst poll_jobs.simps) (simp add: d_def)
    have "job_scheduler_inv d"
      using "1.prems"(1) s True by (simp add: job_scheduler_inv_def d_def r_def)
    moreover have "js_worker_id d \<noteq> []" "0 < js_lease_seconds d" using "1.prems"(2,3) by (simp_all add: d_def)
    note d = calculation this
    have "\<exists>n e new. poll_jobs guard accepts now (Suc i) d = (Inr n, e) \<and> js_tasks e = js_tasks d @ new
      \<and> n = int (Suc i + length new)
      \<and> (jr_admitted (js_runner e) = jr_max_admitted (js_runner e)
         \<or> list_schedulable_jobs (\<lambda>_. now) (js_store e) (Some now) 1 = Inr [])
      \<and> (\<forall>l \<in> set new. dget (claims (js_store e)) (lease_job_id l) = Some l)
      \<and> (\<forall>k l. dget (claims (js_store d)) k = Some l \<longrightarrow> now < lease_expires_at l
           \<longrightarrow> dget (claims (js_store e)) k = Some l)"
      by (rule "1.IH"[OF _ js job claim[symmetric] refl refl sub[symmetric] refl, folded d_def])
        (use cap "1.prems"(4,5) d in simp_all)
    then obtain n e new where ih: "poll_jobs guard accepts now (Suc i) d = (Inr n, e)" "js_tasks e = js_tasks d @ new"
      "n = int (Suc i + length new)"
      "jr_admitted (js_runner e) = jr_max_admitted (js_runner e)
         \<or> list_schedulable_jobs (\<lambda>_. now) (js_store e) (Some now) 1 = Inr []"
      "\<forall>l \<in> set new. dget (claims (js_store e)) (lease_job_id l) = Some l"
      "\<forall>k l. dget (claims (js_store d)) k = Some l \<longrightarrow> now < lease_expires_at l
         \<longrightarrow> dget (claims (js_store e)) k = Some l"
      by blast
    have "poll_jobs guard accepts now i c = (Inr n, e)" "js_tasks e = js_tasks c @ (lease # new)"
      "n = int (i + length (lease # new))"
      using ih(1-3) by (simp_all add: step d_def)
    moreover have "\<forall>l \<in> set (lease # new). dget (claims (js_store e)) (lease_job_id l) = Some l"
      using ih(5,6) held by (simp add: d_def)
    moreover have "\<forall>k l. dget (claims (js_store c)) k = Some l \<longrightarrow> now < lease_expires_at l
        \<longrightarrow> dget (claims (js_store e)) k = Some l"
      using ih(6) live by (simp add: d_def)
    ultimately show ?thesis using ih(4) by blast
  qed
qed

lemma job_poll_once_fills:
  assumes inv: "job_scheduler_inv c" and ok: "js_worker_id c \<noteq> []" "0 < js_lease_seconds c"
  shows "\<exists>n d new. job_poll_once (\<lambda>_. True) (\<lambda>_. True) now c = (Inr n, d) \<and> js_tasks d = js_tasks c @ new
      \<and> n = int (length new)
      \<and> (jr_admitted (js_runner d) = jr_max_admitted (js_runner d)
         \<or> list_schedulable_jobs (\<lambda>_. now) (js_store d) (Some now) 1 = Inr [])
      \<and> (\<forall>l \<in> set new. dget (claims (js_store d)) (lease_job_id l) = Some l)"
proof -
  have store: "store_inv (js_store c)" using inv by (simp add: job_scheduler_inv_def)
  obtain recovered s where rec: "reconcile_active_jobs (\<lambda>_. now) (js_store c) (Some now) 100 = (Inr recovered, s)"
    using reconcile_active_jobs_Inr[OF store] by metis
  have "effects False (\<lambda>_. True) (js_store c) (snd (reconcile_active_jobs (\<lambda>_. now) (js_store c) (Some now) 100))"
    using store by (intro reconcile_active_jobs_effects) simp_all
  then have "job_scheduler_inv (c\<lparr>js_store := s\<rparr>)" unfolding rec by (intro job_store_step(1)[OF inv]) simp
  from poll_jobs_fills[of "\<lambda>_. True" "\<lambda>_. True", OF _ _ this, of now 0] ok show ?thesis
    by (simp add: job_poll_once_def rec) blast
qed


definition idle_scheduler :: job_scheduler where
  "idle_scheduler = \<lparr>js_store = demo_run demo_start, js_runner = \<lparr>jr_max_admitted = 2, jr_admitted = 0\<rparr>,
     js_worker_id = ''w'', js_lease_seconds = 60, js_tasks = [], js_stopped = False, js_woken = False\<rparr>"


end
