(* ===== verification/Orchestrator.thy ===== *)
theory Orchestrator
  imports JobScheduler EvidenceStore AgentResult
begin

section \<open>The engineering run\<close>

text \<open>
  \<open>EngineeringOrchestrator\<close> of \<open>core/lil_tweak/orchestrator.py\<close>. The collaborators that it is
  constructed with (agent and its workspace tools, evidence store, project memory, runner
  verifier) and the file system are the fields of \<open>run_env\<close>: functions of an environment \<open>'e\<close> and
  the store, because other threads use the store while they run. \<open>others\<close> is what others do to
  environment and store before each call of the store. Clock readings come from the environment.
  \<open>RunExternal\<close> is any exception of a collaborator without a handler of its own; exceptions that
  are not \<open>Exception\<close>s are not modelled.
\<close>

datatype run_failure = RunStore store_error | RunEvidence evidence_error | RecoveryRequired string
  | AgentDeadline | RunValueError string | RunExternal

type_synonym ('a, 'e) effectful = "'e \<times> job_store \<Rightarrow> (run_failure + 'a) \<times> ('e \<times> job_store)"

subsection \<open>The collaborators\<close>

text \<open>The tools of the agent, as far as the code asks for them with \<open>getattr\<close>.\<close>

record 'e agent_tools =
  capture_final_snapshot :: "(workspace_snapshot \<Rightarrow> string list \<Rightarrow> (workspace_snapshot, 'e) effectful) option"
  recovery_context_exists :: "(bool, 'e) effectful option"
  command_observations :: "'e \<Rightarrow> observation list"
  edit_journal :: "'e \<Rightarrow> pydict list"

record agent_request =
  rq_mode :: job_mode
  rq_prompt :: string
  rq_source_inventory :: "string list"
  rq_project_context :: "pydict option"
  rq_galor_context :: "pydict option"
  rq_deadline :: time

record verification_request =
  vr_job :: job
  vr_patch :: string
  vr_baseline_digest :: string
  vr_final_digest :: string
  vr_source_commit :: "string option"
  vr_source_tree :: "string option"

datatype removal = Removed | NoSuchTree | NotRemoved

record 'e run_env =
  others :: "'e \<times> job_store \<Rightarrow> 'e \<times> job_store"
  clock_of :: "'e \<Rightarrow> nat \<Rightarrow> time"
  monotonic_of :: "'e \<Rightarrow> time"
  tools_of :: "'e agent_tools option"
  agent_run :: "agent_request \<Rightarrow> (agent_result, 'e) effectful"
  galor_fetch :: "(pydict \<Rightarrow> (pydict option \<times> string option, 'e) effectful) option"
  verify_run :: "(verification_request \<Rightarrow> (pyval, 'e) effectful) option"
  put_evidence :: "string \<Rightarrow> string \<Rightarrow> string \<Rightarrow> (stored_evidence, 'e) effectful"
  remove_tree :: "string list \<Rightarrow> 'e \<Rightarrow> removal \<times> 'e"
  trees_seen :: "'e \<Rightarrow> fs option \<times> fs option"
  staging_occupied :: "string list \<Rightarrow> 'e \<Rightarrow> bool"
  stage_files :: "(string list, string) dict \<Rightarrow> 'e \<Rightarrow> 'e"
  disk_files :: "'e \<Rightarrow> (string list, string) dict"

record run_config =
  oc_sha :: "string \<Rightarrow> string"
  oc_fr :: "rat \<Rightarrow> string"
  oc_diff :: line_diff
  oc_iso :: "time \<Rightarrow> string"
  oc_timeout_seconds :: int
  oc_lease_seconds :: int

record 'e engine =
  en_env :: 'e
  en_store :: job_store
  en_lease :: "job_lease option"
  en_roots :: "string list list"
  en_preserve :: bool

type_synonym ('a, 'e) engine_outcome = "(run_failure, 'a, 'e engine) outcome"

definition elsewhere :: "'e run_env \<Rightarrow> 'e engine \<Rightarrow> 'e engine" where
  "elsewhere env st = (case others env (en_env st, en_store st) of
     (e, s) \<Rightarrow> st\<lparr>en_env := e, en_store := s\<rparr>)"

definition store_call :: "'e run_env \<Rightarrow> ((nat \<Rightarrow> time) \<Rightarrow> job_store \<Rightarrow> 'a store_outcome) \<Rightarrow> 'e engine
    \<Rightarrow> ('a, 'e) engine_outcome" where
  "store_call env f st =
     (let st = elsewhere env st in
      case f (clock_of env (en_env st)) (en_store st) of
        (Inl e, s) \<Rightarrow> (Inl (RunStore e), st\<lparr>en_store := s\<rparr>)
      | (Inr x, s) \<Rightarrow> (Inr x, st\<lparr>en_store := s\<rparr>))"

definition outside :: "('a, 'e) effectful \<Rightarrow> 'e engine \<Rightarrow> ('a, 'e) engine_outcome" where
  "outside f st = (case f (en_env st, en_store st) of
     (r, (e, s)) \<Rightarrow> (r, st\<lparr>en_env := e, en_store := s\<rparr>))"

subsection \<open>Moving the job\<close>

definition renew_lease :: "run_config \<Rightarrow> 'e run_env \<Rightarrow> 'e engine \<Rightarrow> (unit, 'e) engine_outcome" where
  "renew_lease cfg env st =
     (case en_lease st of
        None \<Rightarrow> (Inr (), st)
      | Some l \<Rightarrow>
          bind_op (store_call env (\<lambda>clk s. renew_claim clk s l (oc_lease_seconds cfg) None) st)
            (\<lambda>renewed st. (Inr (), st\<lparr>en_lease := Some renewed\<rparr>)))"

definition move_job :: "run_config \<Rightarrow> 'e run_env \<Rightarrow> job \<Rightarrow> job_state \<Rightarrow> job_fields \<Rightarrow> 'e engine
    \<Rightarrow> (job, 'e) engine_outcome" where
  "move_job cfg env job target f st =
     bind_op (renew_lease cfg env st) (\<lambda>_ st.
       store_call env (\<lambda>clk s. transition_job clk s (job_id job) (job_owner_id job) (job_revision job)
         target (job_state_value target) (Some []) (f\<lparr>f_lease := en_lease st\<rparr>)) st)"

definition look_up :: "'e run_env \<Rightarrow> string \<Rightarrow> string \<Rightarrow> 'e engine \<Rightarrow> (job option, 'e) engine_outcome" where
  "look_up env jid owner st = store_call env (\<lambda>clk s. (Inr (get_job s jid owner), s)) st"

definition add_event :: "'e run_env \<Rightarrow> string \<Rightarrow> string \<Rightarrow> string \<Rightarrow> pydict \<Rightarrow> 'e engine
    \<Rightarrow> (unit, 'e) engine_outcome" where
  "add_event env jid owner kind data st =
     bind_op (store_call env (\<lambda>clk s. append_event clk s jid owner kind (Some data)) st) (\<lambda>_ st. (Inr (), st))"

text \<open>The steps of the run either return a job (\<open>Inl\<close>) or go on with it (\<open>Inr\<close>).\<close>

definition cancel_or :: "run_config \<Rightarrow> 'e run_env \<Rightarrow> job \<Rightarrow> 'b \<Rightarrow> 'e engine
    \<Rightarrow> (job + 'b, 'e) engine_outcome" where
  "cancel_or cfg env latest go_on st =
     (if job_cancel_requested latest
      then bind_op (move_job cfg env latest CANCELLED no_fields st) (\<lambda>j st. (Inr (Inl j), st))
      else (Inr (Inr go_on), st))"

definition continue_op :: "(job + 'a, 'e) engine_outcome \<Rightarrow> ('a \<Rightarrow> 'e engine \<Rightarrow> (job, 'e) engine_outcome)
    \<Rightarrow> (job, 'e) engine_outcome" where
  "continue_op r f = bind_op r (\<lambda>x st. case x of Inl j \<Rightarrow> (Inr j, st) | Inr a \<Rightarrow> f a st)"

definition enter_job :: "run_config \<Rightarrow> 'e run_env \<Rightarrow> job \<Rightarrow> 'e engine \<Rightarrow> (job, 'e) engine_outcome" where
  "enter_job cfg env job st =
     bind_op (if job_state job = DRAFT then move_job cfg env job QUEUED no_fields st else (Inr job, st))
       (\<lambda>job st. if job_state job = QUEUED then move_job cfg env job INGESTING no_fields st else (Inr job, st))"

subsection \<open>The snapshots\<close>

definition remove_snapshot_tree :: "'e run_env \<Rightarrow> string list \<Rightarrow> 'e engine \<Rightarrow> (unit, 'e) engine_outcome" where
  "remove_snapshot_tree env path st =
     (case remove_tree env path (en_env st) of
        (NotRemoved, e) \<Rightarrow> (Inl (RecoveryRequired ''patch_cleanup_failed''), st\<lparr>en_env := e\<rparr>)
      | (_, e) \<Rightarrow> (Inr (), st\<lparr>en_env := e\<rparr>))"

definition empty_snapshot :: "(string \<Rightarrow> string) \<Rightarrow> workspace_snapshot" where
  "empty_snapshot sha = \<lparr>ws_files = [], ws_source_digest = sha (''lil-tweak-source-v1'' @ [CHR 0x00])\<rparr>"

definition context_exists :: "bool \<Rightarrow> 'e agent_tools option \<Rightarrow> 'e engine \<Rightarrow> (bool, 'e) engine_outcome" where
  "context_exists missing tools st =
     (case tools of None \<Rightarrow> (Inr missing, st)
      | Some t \<Rightarrow> (case recovery_context_exists t of None \<Rightarrow> (Inr missing, st) | Some f \<Rightarrow> outside f st))"

definition attempt_root :: "job \<Rightarrow> string list \<Rightarrow> 'e engine \<Rightarrow> string list" where
  "attempt_root job workspace st = butlast workspace @ [''.snapshots'', job_id job,
     ''attempt-'' @ show_int (case en_lease st of None \<Rightarrow> job_revision job | Some l \<Rightarrow> lease_generation l)]"

text \<open>The baseline and the directory of the attempt; \<open>workspace\<close> is the resolved path of the workspace,
  where there is one.\<close>

definition take_baseline :: "run_config \<Rightarrow> 'e run_env \<Rightarrow> job \<Rightarrow> string list option \<Rightarrow> 'e engine
    \<Rightarrow> (workspace_snapshot \<times> string list, 'e) engine_outcome" where
  "take_baseline cfg env job workspace st =
     (case workspace of
        None \<Rightarrow> (Inr (empty_snapshot (oc_sha cfg), []), st)
      | Some path \<Rightarrow>
        if (case tools_of env of None \<Rightarrow> True | Some t \<Rightarrow> capture_final_snapshot t = None)
        then (Inl (RecoveryRequired ''patch_reconciliation_required''), st)
        else bind_op (context_exists True (tools_of env) st) (\<lambda>exists st.
          if exists then (Inl (RecoveryRequired ''patch_reconciliation_required''), st)
          else
            let snapshot_root = butlast path @ [''.snapshots'', job_id job];
                attempt = attempt_root job path st;
                stage = attempt @ [''baseline'']
            in bind_op (remove_snapshot_tree env snapshot_root st) (\<lambda>_ st.
              let st = st\<lparr>en_roots := en_roots st @ [snapshot_root]\<rparr> in
              case trees_seen env (en_env st) of (first, second) \<Rightarrow>
              (case capture_workspace (oc_sha cfg) default_capture_limits path
                  (Some (stage, staging_occupied env stage (en_env st))) first second of
                 Inl e \<Rightarrow> (Inl (RunEvidence e), st)
               | Inr (snapshot, staged) \<Rightarrow>
                   (Inr (snapshot, attempt), st\<lparr>en_env := stage_files env staged (en_env st)\<rparr>)))))"

definition take_final :: "'e run_env \<Rightarrow> job \<Rightarrow> string list option \<Rightarrow> workspace_snapshot \<Rightarrow> string list
    \<Rightarrow> 'e engine \<Rightarrow> (workspace_snapshot, 'e) engine_outcome" where
  "take_final env job workspace baseline stage st =
     (case workspace of
        None \<Rightarrow> (Inr baseline, st)
      | Some path \<Rightarrow>
        (case tools_of env of None \<Rightarrow> (Inl RunExternal, st)
         | Some t \<Rightarrow> (case capture_final_snapshot t of None \<Rightarrow> (Inl RunExternal, st)
             | Some f \<Rightarrow> outside (f baseline stage) st)))"

subsection \<open>The proposal\<close>

definition resource_profile :: "run_config \<Rightarrow> pydict" where
  "resource_profile cfg = [(''cpus'', PInt 1), (''memory'', PStr ''1g''), (''pids'', PInt 256),
     (''wallSeconds'', PInt (oc_timeout_seconds cfg))]"

definition export_action :: "(string, string) dict \<Rightarrow> bool" where
  "export_action d \<longleftrightarrow> set (dkeys d) = {''effect'', ''target''}
     \<and> dget d ''effect'' = Some ''export_patch'' \<and> dget d ''target'' = Some ''owner_download''"

definition action_error :: "job_mode \<Rightarrow> (string, string) dict option \<Rightarrow> run_failure option" where
  "action_error mode action =
     (case action of None \<Rightarrow> None
      | Some d \<Rightarrow>
          if mode = CHAT then Some (RunValueError ''chat cannot propose external actions'')
          else if \<not> export_action d then Some (RunValueError ''unsupported external action'') else None)"

definition approval_binding :: "run_config \<Rightarrow> string \<Rightarrow> time \<Rightarrow> pydict" where
  "approval_binding cfg source_digest now =
     [(''action'', PStr ''export_patch''), (''target'', PStr ''owner_download''), (''policyVersion'', PStr ''v1''),
      (''resourceProfile'', PDict (resource_profile cfg)), (''sourceDigest'', PStr source_digest),
      (''expiresAt'', PStr (oc_iso cfg (now + 300)))]"

text \<open>What a run has collected when the bundle is built.\<close>

record collected =
  co_result :: agent_result
  co_baseline_digest :: string
  co_final_digest :: string
  co_patch :: string
  co_tests :: string
  co_commands :: command_log
  co_journal :: pydict
  co_receipt :: pyval
  co_started :: time

definition run_timed_out :: "collected \<Rightarrow> bool" where
  "run_timed_out c \<longleftrightarrow> list_ex id (cm_timeouts (co_commands c))"

definition approval_needed :: "collected \<Rightarrow> bool" where
  "approval_needed c \<longleftrightarrow> \<not> run_timed_out c \<and> (co_patch c \<noteq> [] \<or> agent_external_action (co_result c) \<noteq> None)"

definition binding_value :: "pydict option \<Rightarrow> pyval" where
  "binding_value b = (case b of None \<Rightarrow> PNone | Some d \<Rightarrow> PDict d)"

definition run_metadata :: "run_config \<Rightarrow> collected \<Rightarrow> pydict option \<Rightarrow> time \<Rightarrow> pydict" where
  "run_metadata cfg c binding finished =
     command_metadata (oc_sha cfg) (co_commands c) @ co_journal c @
     [(''source_digest'', PStr (co_baseline_digest c)), (''proposal_source_digest'', PStr (co_final_digest c)),
      (''approval'', binding_value binding),
      (''limits'', PDict [(''network'', PStr ''none''), (''max_tool_rounds'', PInt 40)]),
      (''started_at_epoch'', PFloat (co_started c)), (''finished_at_epoch'', PFloat finished),
      (''model_usage'', PDict [(''calls'', PInt (agent_model_calls (co_result c))),
         (''input_tokens'', PInt (agent_input_tokens (co_result c))),
         (''output_tokens'', PInt (agent_output_tokens (co_result c))),
         (''total_tokens'', PInt (agent_total_tokens (co_result c)))]),
      (''github_runner'', co_receipt c)]"

definition evidence_entry :: "stored_evidence \<Rightarrow> string \<Rightarrow> pyval" where
  "evidence_entry stored key = PDict [(''sha256'', PStr (se_sha256 stored)),
     (''bytes'', PInt (se_size stored)), (''objectKey'', PStr key)]"

text \<open>The loop over \<open>bundle.files\<close>; \<open>prefix\<close> is the key up to the name of the file.\<close>

fun store_files :: "run_config \<Rightarrow> 'e run_env \<Rightarrow> string \<Rightarrow> (string, string) dict \<Rightarrow> pydict \<Rightarrow> 'e engine
    \<Rightarrow> (pydict, 'e) engine_outcome" where
  "store_files cfg env prefix [] manifest st = (Inr manifest, st)"
| "store_files cfg env prefix ((name, data) # rest) manifest st =
     bind_op (renew_lease cfg env st) (\<lambda>_ st.
     bind_op (outside (put_evidence env (prefix @ name) data (oc_sha cfg data)) st) (\<lambda>stored st.
       store_files cfg env prefix rest (dset manifest name (evidence_entry stored (prefix @ name))) st))"

text \<open>The evidence bundle, its upload and the last move of the job.\<close>

definition proposal_fields :: "run_config \<Rightarrow> collected \<Rightarrow> evidence_bundle \<Rightarrow> pydict \<Rightarrow> job_fields" where
  "proposal_fields cfg c bundle manifest = no_fields\<lparr>f_proposal_digest := Some (eb_proposal_digest bundle),
     f_evidence_manifest := Some manifest, f_summary := Some (agent_summary (co_result c)),
     f_source_digest := Some (co_baseline_digest c)\<rparr>"

definition conclude_run :: "run_config \<Rightarrow> 'e run_env \<Rightarrow> string \<Rightarrow> job \<Rightarrow> collected \<Rightarrow> 'e engine
    \<Rightarrow> (job, 'e) engine_outcome" where
  "conclude_run cfg env owner job c st =
     (let now = clock_of env (en_env st);
          binding = (if approval_needed c then Some (approval_binding cfg (co_baseline_digest c) (now 0)) else None)
      in case build_evidence_bundle (oc_sha cfg) (oc_fr cfg) (utf8 (agent_plan (co_result c))) (co_patch c)
            (co_tests c) (utf8 (agent_summary (co_result c))) (run_metadata cfg c binding (now 1)) max_evidence_bytes of
        Inl e \<Rightarrow> (Inl (RunEvidence e), st)
      | Inr bundle \<Rightarrow>
        bind_op (store_files cfg env (oc_sha cfg (utf8 owner) @ ''/'' @ job_id job @ ''/''
            @ eb_proposal_digest bundle @ ''/'') (eb_files bundle) [] st) (\<lambda>manifest st.
          let f = proposal_fields cfg c bundle manifest in
          case binding of
            None \<Rightarrow> move_job cfg env job (if run_timed_out c then TIMED_OUT else COMPLETED) f st
          | Some b \<Rightarrow>
            bind_op (move_job cfg env job AWAITING_APPROVAL
                (f\<lparr>f_approval_proposal := Some (b @ [(''proposalDigest'', PStr (eb_proposal_digest bundle))])\<rparr>) st)
              (\<lambda>job st. bind_op (add_event env (job_id job) owner ''approval_required''
                  [(''action'', PStr ''export_patch''), (''proposal_digest'', PStr (eb_proposal_digest bundle)),
                   (''source_digest'', PStr (co_baseline_digest c)), (''revision'', PInt (job_revision job))] st)
                (\<lambda>_ st. (Inr job, st)))))"

subsection \<open>The run\<close>

record run_arguments =
  ra_job_id :: string
  ra_owner_id :: string
  ra_inventory :: "string list"
  ra_workspace :: "string list option"
  ra_source_commit :: "string option"
  ra_source_tree :: "string option"

text \<open>One round of the loop over planning and executing.\<close>

definition plan_step :: "run_config \<Rightarrow> 'e run_env \<Rightarrow> string \<Rightarrow> job \<Rightarrow> job_state \<Rightarrow> job_fields \<Rightarrow> 'e engine
    \<Rightarrow> (job + job, 'e) engine_outcome" where
  "plan_step cfg env owner job target f st =
     bind_op (move_job cfg env job target f st) (\<lambda>job st.
     bind_op (look_up env (job_id job) owner st) (\<lambda>latest st.
       case latest of None \<Rightarrow> (Inr (Inr job), st)
       | Some l \<Rightarrow> cancel_or cfg env l job st))"

text \<open>The project memory: its context, or an event when it is not available.\<close>

definition fetch_context :: "'e run_env \<Rightarrow> string \<Rightarrow> job \<Rightarrow> 'e engine \<Rightarrow> (pydict option, 'e) engine_outcome" where
  "fetch_context env owner job st =
     (case galor_fetch env of
        None \<Rightarrow> (Inr None, st)
      | Some fetch \<Rightarrow>
          bind_op (outside (fetch (case job_project_context job of None \<Rightarrow> [] | Some d \<Rightarrow> d)) st)
            (\<lambda>(context, error) st.
              if truthy error
              then bind_op (add_event env (job_id job) owner ''galor_unavailable''
                  [(''code'', PStr ''galor_unavailable'')] st) (\<lambda>_ st. (Inr context, st))
              else (Inr context, st)))"

definition request_for :: "job \<Rightarrow> string list \<Rightarrow> pydict option \<Rightarrow> time \<Rightarrow> agent_request" where
  "request_for job inventory context deadline =
     \<lparr>rq_mode = job_mode job, rq_prompt = job_prompt job, rq_source_inventory = inventory,
      rq_project_context = job_project_context job, rq_galor_context = context, rq_deadline = deadline\<rparr>"

text \<open>The agent's run, and the job as it is afterwards.\<close>

definition work_step :: "run_config \<Rightarrow> 'e run_env \<Rightarrow> run_arguments \<Rightarrow> job \<Rightarrow> time \<Rightarrow> 'e engine
    \<Rightarrow> (job + agent_result \<times> job, 'e) engine_outcome" where
  "work_step cfg env a job deadline st =
     bind_op (fetch_context env (ra_owner_id a) job st) (\<lambda>context st.
     bind_op (outside (agent_run env (request_for job (ra_inventory a) context deadline)) st) (\<lambda>result st.
     bind_op (look_up env (job_id job) (ra_owner_id a) st) (\<lambda>latest st.
       case latest of None \<Rightarrow> (Inl (RunStore JobNotFound), st)
       | Some l \<Rightarrow> cancel_or cfg env l (result, l) st)))"

definition run_receipt :: "'e run_env \<Rightarrow> run_arguments \<Rightarrow> job \<Rightarrow> string \<Rightarrow> string \<Rightarrow> string \<Rightarrow> 'e engine
    \<Rightarrow> (pyval, 'e) engine_outcome" where
  "run_receipt env a job patch baseline_digest final_digest st =
     (case verify_run env of
        None \<Rightarrow> (Inr PNone, st)
      | Some verify \<Rightarrow>
          if job_mode job = CHAT then (Inr PNone, st)
          else outside (verify \<lparr>vr_job = job, vr_patch = patch, vr_baseline_digest = baseline_digest,
            vr_final_digest = final_digest, vr_source_commit = ra_source_commit a,
            vr_source_tree = ra_source_tree a\<rparr>) st)"

definition lift_evidence :: "evidence_error + 'a \<Rightarrow> 'e engine \<Rightarrow> ('a, 'e) engine_outcome" where
  "lift_evidence r st = (case r of Inl e \<Rightarrow> (Inl (RunEvidence e), st) | Inr x \<Rightarrow> (Inr x, st))"

text \<open>From the agent's result to the collected evidence.\<close>

definition collect_run :: "run_config \<Rightarrow> 'e run_env \<Rightarrow> run_arguments \<Rightarrow> workspace_snapshot \<Rightarrow> string list
    \<Rightarrow> time \<Rightarrow> agent_result \<Rightarrow> job \<Rightarrow> 'e engine \<Rightarrow> (job \<times> collected, 'e) engine_outcome" where
  "collect_run cfg env a baseline attempt started result job st =
     bind_op (move_job cfg env job TESTING no_fields st) (\<lambda>job st.
     bind_op (move_job cfg env job COLLECTING no_fields st) (\<lambda>job st.
     bind_op (take_final env job (ra_workspace a) baseline (attempt @ [''final'']) st) (\<lambda>final st.
     bind_op (lift_evidence (build_workspace_patch (oc_sha cfg) (oc_diff cfg) max_evidence_bytes
         (disk_files env (en_env st)) baseline final) st) (\<lambda>patch st.
     bind_op (run_receipt env a job patch (ws_source_digest baseline) (ws_source_digest final) st) (\<lambda>receipt st.
     bind_op (lift_evidence (build_command_evidence (oc_sha cfg) max_evidence_bytes
         (case tools_of env of None \<Rightarrow> [] | Some t \<Rightarrow> command_observations t (en_env st))) st) (\<lambda>(tests, commands) st.
     bind_op (lift_evidence (build_edit_journal_evidence (oc_sha cfg) (oc_fr cfg) 128 20000 (64 * 1024)
         (case tools_of env of None \<Rightarrow> [] | Some t \<Rightarrow> edit_journal t (en_env st))) st) (\<lambda>journal st.
       case action_error (job_mode job) (agent_external_action result) of
         Some e \<Rightarrow> (Inl e, st)
       | None \<Rightarrow> (Inr (job, \<lparr>co_result = result, co_baseline_digest = ws_source_digest baseline,
           co_final_digest = ws_source_digest final, co_patch = patch, co_tests = tests, co_commands = commands,
           co_journal = journal, co_receipt = receipt, co_started = started\<rparr>), st))))))))"

text \<open>The body of the \<open>try\<close>.\<close>

definition run_body :: "run_config \<Rightarrow> 'e run_env \<Rightarrow> run_arguments \<Rightarrow> time \<Rightarrow> time \<Rightarrow> job \<Rightarrow> 'e engine
    \<Rightarrow> (job, 'e) engine_outcome" where
  "run_body cfg env a started deadline job st =
     bind_op (enter_job cfg env job st) (\<lambda>job st.
     bind_op (take_baseline cfg env job (ra_workspace a) st) (\<lambda>(baseline, attempt) st.
     continue_op (plan_step cfg env (ra_owner_id a) job PLANNING
         (no_fields\<lparr>f_source_digest := Some (ws_source_digest baseline)\<rparr>) st) (\<lambda>job st.
     continue_op (plan_step cfg env (ra_owner_id a) job EXECUTING no_fields st) (\<lambda>job st.
     continue_op (work_step cfg env a job deadline st) (\<lambda>(result, job) st.
     bind_op (collect_run cfg env a baseline attempt started result job st) (\<lambda>(job, c) st.
       conclude_run cfg env (ra_owner_id a) job c st))))))"

text \<open>The \<open>except\<close> clauses.\<close>

definition settle_failure :: "run_config \<Rightarrow> 'e run_env \<Rightarrow> run_arguments \<Rightarrow> run_failure \<Rightarrow> 'e engine
    \<Rightarrow> (job, 'e) engine_outcome" where
  "settle_failure cfg env a error st =
     bind_op (look_up env (ra_job_id a) (ra_owner_id a) st) (\<lambda>latest st.
       case latest of None \<Rightarrow> (Inl error, st)
       | Some l \<Rightarrow>
           if job_state l \<in> set terminal_states then (Inl error, st)
           else if job_cancel_requested l then move_job cfg env l CANCELLED no_fields st
           else if error = AgentDeadline then move_job cfg env l TIMED_OUT no_fields st
           else bind_op (move_job cfg env l FAILED no_fields st) (\<lambda>failed st.
             bind_op (add_event env (ra_job_id a) (ra_owner_id a) ''engineering_failed''
               [(''code'', PStr ''engineering_failed'')] st) (\<lambda>_ st. (Inr failed, st))))"

definition run_guarded :: "run_config \<Rightarrow> 'e run_env \<Rightarrow> run_arguments \<Rightarrow> time \<Rightarrow> time \<Rightarrow> job \<Rightarrow> 'e engine
    \<Rightarrow> (job, 'e) engine_outcome" where
  "run_guarded cfg env a started deadline job st =
     (case run_body cfg env a started deadline job st of
        (Inr j, st) \<Rightarrow> (Inr j, st)
      | (Inl (RecoveryRequired code), st) \<Rightarrow> (Inl (RecoveryRequired code), st\<lparr>en_preserve := True\<rparr>)
      | (Inl e, st) \<Rightarrow> settle_failure cfg env a e st)"

text \<open>The \<open>finally\<close> clause, whose exceptions replace the outcome.\<close>

fun remove_roots :: "'e run_env \<Rightarrow> string list list \<Rightarrow> 'e engine \<Rightarrow> (unit, 'e) engine_outcome" where
  "remove_roots env [] st = (Inr (), st)"
| "remove_roots env (path # paths) st = bind_op (remove_snapshot_tree env path st) (\<lambda>_ st. remove_roots env paths st)"

definition finish_run :: "'e run_env \<Rightarrow> 'e engine \<Rightarrow> (unit, 'e) engine_outcome" where
  "finish_run env st =
     bind_op (context_exists False (tools_of env) st) (\<lambda>exists st.
       if exists \<or> en_preserve st then (Inr (), st) else remove_roots env (en_roots st) st)"

definition verified_source_missing :: "'e run_env \<Rightarrow> run_arguments \<Rightarrow> job \<Rightarrow> bool" where
  "verified_source_missing env a job \<longleftrightarrow> verify_run env \<noteq> None \<and> job_mode job \<noteq> CHAT
     \<and> (job_git_source job = None \<or> ra_workspace a = None \<or> ra_source_commit a = None \<or> ra_source_tree a = None)"

definition run_job :: "run_config \<Rightarrow> 'e run_env \<Rightarrow> run_arguments \<Rightarrow> 'e engine \<Rightarrow> (job, 'e) engine_outcome" where
  "run_job cfg env a st =
     bind_op (look_up env (ra_job_id a) (ra_owner_id a) st) (\<lambda>found st.
       case found of None \<Rightarrow> (Inl (RunStore JobNotFound), st)
       | Some job \<Rightarrow>
         if job_state job \<in> set terminal_states then (Inr job, st)
         else if job_cancel_requested job then move_job cfg env job CANCELLED no_fields st
         else if verified_source_missing env a job
         then (Inl (RunValueError ''GitHub runner requires verified Git source identity''), st)
         else
           let started = clock_of env (en_env st) 0;
               deadline = monotonic_of env (en_env st) + of_int (oc_timeout_seconds cfg)
           in case run_guarded cfg env a started deadline job st of
               (r, st) \<Rightarrow> (case finish_run env st of
                   (Inl e, st) \<Rightarrow> (Inl e, st)
                 | (Inr _, st) \<Rightarrow> (r, st)))"

text \<open>The orchestrator of a worker, with the lease it was constructed with.\<close>

definition engine_of :: "'e \<Rightarrow> job_store \<Rightarrow> job_lease option \<Rightarrow> 'e engine" where
  "engine_of e s lease = \<lparr>en_env = e, en_store = s, en_lease = lease, en_roots = [], en_preserve = False\<rparr>"

end
