(* ===== verification/OrchestratorProps.thy ===== *)
theory OrchestratorProps
  imports Orchestrator
begin

section \<open>What a finished run has proposed\<close>

text \<open>
  Whatever the collaborators return and whatever others do to the store meanwhile: a run that
  returns a job has left it cancelled, timed out or failed, or has bound it to the evidence it
  stored; it completes a job by itself only with an empty patch, and asks for the owner's approval
  of exactly the stored proposal otherwise.
\<close>

lemma store_call_Inr:
  "store_call env f st = (Inr x, st') \<Longrightarrow> \<exists>clk s s'. f clk s = (Inr x, s')"
  by (auto simp: store_call_def Let_def split: prod.splits sum.splits)

lemma transition_job_Inr:
  assumes "transition_job clk s jid owner rv target k d f = (Inr j, t)"
  shows "\<exists>cur. j = moved_job cur target f (clk 0)"
proof -
  obtain s1 where "update_job clk s jid owner rv target f = (Inr j, s1)"
    using assms by (auto simp: transition_job_def bind_op_def split: sum.splits prod.splits)
  then obtain cur state where "transition (job_state cur) target (f_proposal_digest f) (f_evidence_manifest f)
      (f_approved_digest f) False (f_approval_consumed f) = Inr state" "j = moved_job cur state f (clk 0)"
    by (auto simp: update_job_def Let_def split: option.splits if_splits sum.splits)
  then show ?thesis using transition_target by metis
qed

lemma move_job_Inr:
  assumes "move_job cfg env job target f st = (Inr j, st')"
  shows "\<exists>cur lease t. j = moved_job cur target (f\<lparr>f_lease := lease\<rparr>) t"
  using assms by (auto simp: move_job_def dest!: bind_op_Inr store_call_Inr transition_job_Inr)

lemma move_job_state: "move_job cfg env job target f st = (Inr j, st') \<Longrightarrow> job_state j = target"
  using move_job_Inr by (fastforce simp: moved_job_def)

lemma cancel_or_Inl: "cancel_or cfg env latest x st = (Inr (Inl j), st') \<Longrightarrow> job_state j = CANCELLED"
  by (auto simp: cancel_or_def split: if_splits dest!: bind_op_Inr move_job_state)

lemma continue_op_Inr:
  "continue_op r f = (Inr j, st') \<Longrightarrow> r = (Inr (Inl j), st') \<or> (\<exists>a s. r = (Inr (Inr a), s) \<and> f a s = (Inr j, st'))"
  by (auto simp: continue_op_def split: sum.splits dest!: bind_op_Inr)

lemma plan_step_Inl:
  "plan_step cfg env owner job target f st = (Inr (Inl j), st') \<Longrightarrow> job_state j = CANCELLED"
  by (auto simp: plan_step_def split: option.splits dest!: bind_op_Inr cancel_or_Inl)

lemma work_step_Inl:
  "work_step cfg env a job deadline st = (Inr (Inl j), st') \<Longrightarrow> job_state j = CANCELLED"
  by (auto simp: work_step_def split: option.splits dest!: bind_op_Inr cancel_or_Inl)

lemma take_baseline_digest:
  assumes "take_baseline cfg env job workspace st = (Inr (baseline, attempt), st')"
  shows "ws_source_digest baseline \<in> range (oc_sha cfg)"
proof (cases workspace)
  case None
  then show ?thesis using assms by (auto simp: take_baseline_def empty_snapshot_def)
next
  case (Some path)
  then obtain staging first second staged where
    "capture_workspace (oc_sha cfg) default_capture_limits path staging first second = Inr (baseline, staged)"
    using assms by (auto simp: take_baseline_def Let_def split: if_splits sum.splits prod.splits dest!: bind_op_Inr)
  then show ?thesis
    by (auto simp: capture_workspace_def capture_pass_def
        split: sum.splits if_splits option.splits fs.splits)
qed

lemma collect_run_Inr:
  assumes "collect_run cfg env a baseline attempt started result job st = (Inr (job', c), st')"
  shows "co_baseline_digest c = ws_source_digest baseline"
  using assms by (auto simp: collect_run_def split: option.splits prod.splits dest!: bind_op_Inr)

lemma run_body_Inr:
  assumes "run_body cfg env a started deadline job st = (Inr j, st')"
  shows "job_state j = CANCELLED
    \<or> (\<exists>job c s. conclude_run cfg env (ra_owner_id a) job c s = (Inr j, st') \<and> co_baseline_digest c \<in> range (oc_sha cfg))"
  using assms
  by (fastforce simp: run_body_def split: prod.splits
      dest!: bind_op_Inr continue_op_Inr dest: plan_step_Inl work_step_Inl take_baseline_digest collect_run_Inr)

subsection \<open>The stored evidence\<close>

definition stores_faithfully :: "run_config \<Rightarrow> 'e run_env \<Rightarrow> bool" where
  "stores_faithfully cfg env \<longleftrightarrow> (\<forall>key data digest es r es'. put_evidence env key data digest es = (Inr r, es')
     \<longrightarrow> se_sha256 r = oc_sha cfg data \<and> se_size r = int (length data))"

definition evidence_for :: "(string \<Rightarrow> string) \<Rightarrow> string \<Rightarrow> pyval \<Rightarrow> bool" where
  "evidence_for sha data v \<longleftrightarrow> (\<exists>key. v = PDict [(''sha256'', PStr (sha data)),
     (''bytes'', PInt (int (length data))), (''objectKey'', PStr key)])"

lemma store_files_Inr:
  assumes faithful: "stores_faithfully cfg env"
  shows "store_files cfg env prefix files manifest st = (Inr m, st') \<Longrightarrow> distinct (map fst files) \<Longrightarrow>
    (\<forall>(name, data) \<in> set files. \<exists>v. dget m name = Some v \<and> evidence_for (oc_sha cfg) data v)
    \<and> (\<forall>name. name \<notin> fst ` set files \<longrightarrow> dget m name = dget manifest name)"
proof (induction files arbitrary: manifest st)
  case (Cons f files)
  obtain name data where f: "f = (name, data)" by (cases f)
  obtain s1 s2 stored where put: "outside (put_evidence env (prefix @ name) data (oc_sha cfg data)) s1 = (Inr stored, s2)"
    and rest: "store_files cfg env prefix files (dset manifest name (evidence_entry stored (prefix @ name))) s2 = (Inr m, st')"
    using Cons.prems(1) by (auto simp: f dest!: bind_op_Inr)
  obtain es where "put_evidence env (prefix @ name) data (oc_sha cfg data) (en_env s1, en_store s1) = (Inr stored, es)"
    using put by (auto simp: outside_def split: prod.splits)
  then have "se_sha256 stored = oc_sha cfg data \<and> se_size stored = int (length data)"
    using faithful unfolding stores_faithfully_def by blast
  then have "evidence_for (oc_sha cfg) data (evidence_entry stored (prefix @ name))"
    by (simp add: evidence_for_def evidence_entry_def)
  then show ?case using Cons.IH[OF rest] Cons.prems(2) by (auto simp: f)
qed simp

text \<open>The job is bound to a bundle: its proposal digest is the eb's, and its manifest has the digest
  and the size of every file, the manifest itself included.\<close>

definition evidence_bound :: "(string \<Rightarrow> string) \<Rightarrow> (rat \<Rightarrow> string) \<Rightarrow> job \<Rightarrow> (string, string) dict \<Rightarrow> pydict \<Rightarrow> bool" where
  "evidence_bound sha fr j files metadata \<longleftrightarrow>
     job_proposal_digest j = Some (proposal_digest sha fr files metadata)
     \<and> (\<exists>m. job_evidence_manifest j = Some m
          \<and> (\<forall>(name, data) \<in> set (files @ [(''manifest.json'', manifest_text sha fr files metadata)]).
               \<exists>v. dget m name = Some v \<and> evidence_for sha data v))"

definition approval_bound :: "job \<Rightarrow> bool" where
  "approval_bound j \<longleftrightarrow> (\<exists>p. job_approval_proposal j = Some p
     \<and> dget p ''action'' = Some (PStr ''export_patch'') \<and> dget p ''target'' = Some (PStr ''owner_download'')
     \<and> dget p ''proposalDigest'' = map_option PStr (job_proposal_digest j)
     \<and> dget p ''sourceDigest'' = map_option PStr (job_source_digest j))"

lemma conclude_run_Inr:
  assumes run: "conclude_run cfg env owner job c st = (Inr j, st')"
    and faithful: "stores_faithfully cfg env" and sha: "\<forall>x. oc_sha cfg x \<noteq> []"
    and source: "co_baseline_digest c \<noteq> []"
  shows "job_state j = TIMED_OUT \<or> (\<exists>plan tests summary metadata.
    evidence_bound (oc_sha cfg) (oc_fr cfg) j (bundle_files plan (co_patch c) tests summary) metadata
    \<and> (job_state j = COMPLETED \<and> co_patch c = [] \<or> job_state j = AWAITING_APPROVAL \<and> approval_bound j))"
proof -
  define now where "now = clock_of env (en_env st)"
  define binding where "binding = (if approval_needed c then Some (approval_binding cfg (co_baseline_digest c) (now 0)) else None)"
  define meta where "meta = run_metadata cfg c binding (now 1)"
  define plan where "plan = utf8 (agent_plan (co_result c))"
  define summary where "summary = utf8 (agent_summary (co_result c))"
  define files where "files = bundle_files plan (co_patch c) (co_tests c) summary"
  note body = run[unfolded conclude_run_def Let_def, folded now_def, folded binding_def, folded meta_def plan_def summary_def]
  obtain eb where eb: "build_evidence_bundle (oc_sha cfg) (oc_fr cfg) plan (co_patch c)
      (co_tests c) summary meta max_evidence_bytes = Inr eb"
    using body by (cases "build_evidence_bundle (oc_sha cfg) (oc_fr cfg) plan (co_patch c)
      (co_tests c) summary meta max_evidence_bytes") simp_all
  have b: "eb_files eb = files @ [(''manifest.json'', manifest_text (oc_sha cfg) (oc_fr cfg) files meta)]"
    "eb_proposal_digest eb = proposal_digest (oc_sha cfg) (oc_fr cfg) files meta"
    using eb by (auto simp: build_evidence_bundle_def files_def Let_def split: if_splits)
  obtain m s1 s2 where stored: "store_files cfg env (oc_sha cfg (utf8 owner) @ ''/'' @ job_id job @ ''/''
            @ eb_proposal_digest eb @ ''/'') (eb_files eb) [] s1 = (Inr m, s2)"
    and final: "(case binding of
            None \<Rightarrow> move_job cfg env job (if run_timed_out c then TIMED_OUT else COMPLETED) (proposal_fields cfg c eb m) s2
          | Some b \<Rightarrow>
            bind_op (move_job cfg env job AWAITING_APPROVAL ((proposal_fields cfg c eb m)
                \<lparr>f_approval_proposal := Some (b @ [(''proposalDigest'', PStr (eb_proposal_digest eb))])\<rparr>) s2)
              (\<lambda>job st. bind_op (add_event env (job_id job) owner ''approval_required''
                  [(''action'', PStr ''export_patch''), (''proposal_digest'', PStr (eb_proposal_digest eb)),
                   (''source_digest'', PStr (co_baseline_digest c)), (''revision'', PInt (job_revision job))] st)
                (\<lambda>_ st. (Inr job, st)))) = (Inr j, st')"
    using bind_op_Inr[OF body[unfolded eb, simplified]] by auto
  have "distinct (map fst (eb_files eb))" by (simp add: b(1) files_def bundle_files_def)
  from store_files_Inr[OF faithful stored this]
  have manifest: "\<forall>(name, data) \<in> set (eb_files eb). \<exists>v. dget m name = Some v \<and> evidence_for (oc_sha cfg) data v"
    by blast
  have digest: "truthy (Some (eb_proposal_digest eb))" using sha by (simp add: b(2) proposal_digest_def)
  have bound: "evidence_bound (oc_sha cfg) (oc_fr cfg) (moved_job cur target f t) files meta
      \<and> job_proposal_digest (moved_job cur target f t) = Some (eb_proposal_digest eb)
      \<and> job_source_digest (moved_job cur target f t) = Some (co_baseline_digest c)"
    if "f_proposal_digest f = Some (eb_proposal_digest eb)" "f_evidence_manifest f = Some m"
      "f_source_digest f = Some (co_baseline_digest c)" for cur target f t
    using that manifest digest source by (simp add: evidence_bound_def moved_job_def or_else_def b)
  show ?thesis
  proof (cases binding)
    case None
    then have mv: "move_job cfg env job (if run_timed_out c then TIMED_OUT else COMPLETED) (proposal_fields cfg c eb m) s2
        = (Inr j, st')" using final by simp
    obtain cur l t where j: "j = moved_job cur (if run_timed_out c then TIMED_OUT else COMPLETED)
        ((proposal_fields cfg c eb m)\<lparr>f_lease := l\<rparr>) t"
      using move_job_Inr[OF mv] by blast
    have "evidence_bound (oc_sha cfg) (oc_fr cfg) j files meta"
      unfolding j using bound[of "(proposal_fields cfg c eb m)\<lparr>f_lease := l\<rparr>"] by (simp add: proposal_fields_def)
    moreover have "run_timed_out c \<or> co_patch c = []"
      using None by (auto simp: binding_def approval_needed_def split: if_splits)
    ultimately show ?thesis using move_job_state[OF mv] unfolding files_def by auto
  next
    case (Some bd)
    define f where "f = (proposal_fields cfg c eb m)
        \<lparr>f_approval_proposal := Some (bd @ [(''proposalDigest'', PStr (eb_proposal_digest eb))])\<rparr>"
    obtain s3 where mv: "move_job cfg env job AWAITING_APPROVAL f s2 = (Inr j, s3)"
      using final Some by (auto simp: f_def dest!: bind_op_Inr)
    obtain cur l t where j: "j = moved_job cur AWAITING_APPROVAL (f\<lparr>f_lease := l\<rparr>) t"
      using move_job_Inr[OF mv] by blast
    have bd: "bd = approval_binding cfg (co_baseline_digest c) (now 0)"
      using Some by (auto simp: binding_def split: if_splits)
    have ev: "evidence_bound (oc_sha cfg) (oc_fr cfg) j files meta"
      "job_proposal_digest j = Some (eb_proposal_digest eb)" "job_source_digest j = Some (co_baseline_digest c)"
      unfolding j using bound[of "f\<lparr>f_lease := l\<rparr>"] by (simp_all add: f_def proposal_fields_def)
    have "job_approval_proposal j = Some (bd @ [(''proposalDigest'', PStr (eb_proposal_digest eb))])"
      by (simp add: j f_def moved_job_def)
    then have "approval_bound j" by (simp add: approval_bound_def ev bd approval_binding_def)
    then show ?thesis using move_job_state[OF mv] ev(1) unfolding files_def by auto
  qed
qed

text \<open>C10. A finished run is gated: the job that \<open>run_job\<close> returns had ended before the run, or is cancelled,
  timed out or failed, or it is bound to the evidence that the run stored (the digest of the
  proposal, and digest and size of every file); and then it is completed with an empty patch, or
  awaits the owner's approval of an export of exactly this proposal and source. This holds
  whatever the agent and the other collaborators return and whatever others do to the store, as
  long as the evidence store reports what it stored.\<close>

theorem engineering_run_is_gated:
  assumes "run_job cfg env a st = (Inr j, st')"
    and "stores_faithfully cfg env" and "\<forall>x. oc_sha cfg x \<noteq> []"
  shows "(get_job (en_store (elsewhere env st)) (ra_job_id a) (ra_owner_id a) = Some j
        \<and> job_state j \<in> set terminal_states)
    \<or> job_state j \<in> {CANCELLED, TIMED_OUT, FAILED}
    \<or> (\<exists>plan patch tests summary metadata.
         evidence_bound (oc_sha cfg) (oc_fr cfg) j (bundle_files plan patch tests summary) metadata
         \<and> (job_state j = COMPLETED \<and> patch = [] \<or> job_state j = AWAITING_APPROVAL \<and> approval_bound j))"
proof -
  obtain found s0 where look: "look_up env (ra_job_id a) (ra_owner_id a) st = (Inr found, s0)"
    using assms(1) by (auto simp: run_job_def dest!: bind_op_Inr)
  then have found: "found = get_job (en_store (elsewhere env st)) (ra_job_id a) (ra_owner_id a)"
    by (auto simp: look_up_def store_call_def Let_def)
  obtain job where job: "found = Some job"
    using assms(1) look by (auto simp: run_job_def split: option.splits)
  note run = assms(1)[unfolded run_job_def look bind_op_simps job option.case]
  show ?thesis
  proof (cases "job_state job \<in> set terminal_states \<or> job_cancel_requested job \<or> verified_source_missing env a job")
    case True
    show ?thesis
    proof (cases "job_state job \<in> set terminal_states")
      case True
      then have "j = job" using run by simp
      then have "get_job (en_store (elsewhere env st)) (ra_job_id a) (ra_owner_id a) = Some j"
        using found job by simp
      then show ?thesis using True \<open>j = job\<close> by blast
    next
      case False
      then have "job_state j = CANCELLED"
        using run True by (cases "job_cancel_requested job") (auto dest!: move_job_state)
      then show ?thesis by blast
    qed
  next
    case False
    then obtain started deadline s1 where g: "run_guarded cfg env a started deadline job s0 = (Inr j, s1)"
      using run by (auto simp: Let_def split: prod.splits sum.splits)
    show ?thesis
    proof (cases "fst (run_body cfg env a started deadline job s0)")
      case (Inl e)
      then obtain s2 where "settle_failure cfg env a e s2 = (Inr j, s1)"
        using g by (auto simp: run_guarded_def split: prod.splits sum.splits run_failure.splits)
      then have "job_state j \<in> {CANCELLED, TIMED_OUT, FAILED}"
        by (auto simp: settle_failure_def split: option.splits if_splits dest!: bind_op_Inr move_job_state)
      then show ?thesis by blast
    next
      case (Inr k)
      then have body: "run_body cfg env a started deadline job s0 = (Inr j, s1)"
        using g by (cases "run_body cfg env a started deadline job s0") (simp add: run_guarded_def)
      from run_body_Inr[OF this] show ?thesis
      proof (elim disjE exE conjE)
        fix jb c s
        assume c: "conclude_run cfg env (ra_owner_id a) jb c s = (Inr j, s1)" "co_baseline_digest c \<in> range (oc_sha cfg)"
        obtain x where "co_baseline_digest c = oc_sha cfg x" using c(2) by blast
        then have "co_baseline_digest c \<noteq> []" using assms(3) by simp
        from conclude_run_Inr[OF c(1) assms(2,3) this] show ?thesis by blast
      qed simp
    qed
  qed
qed

subsection \<open>A run on concrete collaborators\<close>

definition demo_result :: agent_result where
  "demo_result = \<lparr>agent_plan = ''plan'', agent_summary = ''done'', agent_tests = [], agent_patch = [],
     agent_external_action = None, agent_commands = [], agent_model_calls = 1, agent_input_tokens = 2,
     agent_output_tokens = 3, agent_total_tokens = 5\<rparr>"

definition demo_env :: "unit run_env" where
  "demo_env = \<lparr>others = id, clock_of = (\<lambda>_ _. 0), monotonic_of = (\<lambda>_. 0), tools_of = None,
     agent_run = (\<lambda>_ es. (Inr demo_result, es)), galor_fetch = None, verify_run = None,
     put_evidence = (\<lambda>key data _ es.
       (Inr \<lparr>se_key = key, se_sha256 = demo_sha data, se_size = int (length data)\<rparr>, es)),
     remove_tree = (\<lambda>_ e. (Removed, e)), trees_seen = (\<lambda>_. (None, None)),
     staging_occupied = (\<lambda>_ _. False), stage_files = (\<lambda>_ e. e), disk_files = (\<lambda>_. [])\<rparr>"

definition demo_config :: run_config where
  "demo_config = \<lparr>oc_sha = demo_sha, oc_fr = demo_fr, oc_diff = (\<lambda>_ _ _ _. []), oc_iso = (\<lambda>_. ''now''),
     oc_timeout_seconds = 1200, oc_lease_seconds = 30\<rparr>"

definition demo_arguments :: run_arguments where
  "demo_arguments = \<lparr>ra_job_id = ''job'', ra_owner_id = ''ann'', ra_inventory = [], ra_workspace = None,
     ra_source_commit = None, ra_source_tree = None\<rparr>"

definition demo_engine :: "unit engine" where
  "demo_engine = engine_of () (demo_run [demo_create]) None"

definition demo_engineering :: "(job, unit) engine_outcome" where
  "demo_engineering = run_job demo_config demo_env demo_arguments demo_engine"

lemma demo_engineering_completes:
  "(case demo_engineering of (Inl _, _) \<Rightarrow> False | (Inr j, _) \<Rightarrow> job_state j = COMPLETED)"
  by code_simp

lemma demo_job_is_drafted:
  "map_option job_state (get_job (en_store (elsewhere demo_env demo_engine)) (ra_job_id demo_arguments)
     (ra_owner_id demo_arguments)) = Some DRAFT"
  by code_simp

lemma demo_stores_faithfully: "stores_faithfully demo_config demo_env"
  by (auto simp: stores_faithfully_def demo_env_def demo_config_def)

theorem engineering_run_is_gated_witness:
  "\<exists>j st plan tests summary metadata. demo_engineering = (Inr j, st) \<and> job_state j = COMPLETED
     \<and> evidence_bound demo_sha demo_fr j (bundle_files plan [] tests summary) metadata"
proof -
  obtain r st where r: "demo_engineering = (r, st)" by (cases demo_engineering)
  obtain j where j: "r = Inr j" and completed: "job_state j = COMPLETED"
    using demo_engineering_completes[unfolded r] by (cases r) simp_all
  have run: "demo_engineering = (Inr j, st)" using r j by simp
  have cfg: "oc_sha demo_config = demo_sha" "oc_fr demo_config = demo_fr" "\<forall>x. oc_sha demo_config x \<noteq> []"
    by (simp_all add: demo_config_def demo_sha_def)
  have old: "get_job (en_store (elsewhere demo_env demo_engine)) (ra_job_id demo_arguments)
      (ra_owner_id demo_arguments) \<noteq> Some j"
    using demo_job_is_drafted completed by (metis job_state.distinct option.map(2) option.inject)
  from engineering_run_is_gated[OF run[unfolded demo_engineering_def] demo_stores_faithfully cfg(3)]
  obtain plan tests summary metadata
    where "evidence_bound demo_sha demo_fr j (bundle_files plan [] tests summary) metadata"
    using old completed unfolding cfg(1,2) by auto
  then show ?thesis using run completed by blast
qed

end
