(* ===== verification/AgentLoop.thy ===== *)
theory AgentLoop
  imports AgentResult EvidenceCommands PyJson
begin

section \<open>The engineering agent\<close>

text \<open>
  \<open>core/lil_tweak/openai_agent.py\<close>, first part: the reviewed prompt, the validation of tool
  arguments, the budget of tool outputs and the loop of \<open>CodeEngineer\<close>. The model service
  (\<open>client.create\<close>) and the tools are functions of an environment \<open>'e\<close>; responses are the values
  that the service's objects dump to. Further parameters are \<open>json.loads\<close>, \<open>str\<close> of a value that
  is not a string, and \<open>float.__repr__\<close>. Text is UTF-8 bytes, as in the evidence theories.
\<close>

subsection \<open>The reviewed prompt\<close>

text \<open>What \<open>lstat\<close> and \<open>read\<close> say of the prompt file; \<open>None\<close> is an \<open>OSError\<close>.\<close>

record prompt_file =
  pf_regular :: bool
  pf_size :: int
  pf_content :: string

definition load_reviewed_instructions :: "prompt_file option \<Rightarrow> int \<Rightarrow> string option" where
  "load_reviewed_instructions prompt max_bytes =
     (if max_bytes \<le> 0 then None
      else case prompt of None \<Rightarrow> None
      | Some f \<Rightarrow>
          if \<not> pf_regular f \<or> max_bytes < pf_size f then None
          else
            let payload = take (nat (max_bytes + 1)) (pf_content f) in
            if \<not> is_utf8 payload then None
            else if skip_spaces payload = [] \<or> max_bytes < int (length payload) then None
            else Some payload)"

subsection \<open>The tools offered to the model\<close>

abbreviation string_type :: pyval where
  "string_type \<equiv> PDict [(''type'', PStr ''string'')]"

definition strict_object :: "pydict \<Rightarrow> pyval" where
  "strict_object entries = PDict [(''type'', PStr ''object''), (''properties'', PDict entries),
     (''required'', PList (map (PStr \<circ> fst) entries)), (''additionalProperties'', PBool False)]"

definition result_format :: pyval where
  "result_format = PDict [(''type'', PStr ''json_schema''), (''name'', PStr ''code_engineer_result''),
     (''strict'', PBool True),
     (''schema'', strict_object
       [(''plan'', string_type), (''summary'', string_type), (''tests'', string_type), (''patch'', string_type),
        (''external_action'', PDict [(''type'', PList [PStr ''object'', PStr ''null'']),
          (''properties'', PDict
            [(''effect'', PDict [(''type'', PStr ''string''), (''enum'', PList [PStr ''export_patch''])]),
             (''target'', PDict [(''type'', PStr ''string''), (''enum'', PList [PStr ''owner_download''])])]),
          (''required'', PList [PStr ''effect'', PStr ''target'']),
          (''additionalProperties'', PBool False)])])]"

definition tool_schema :: "string \<Rightarrow> string \<Rightarrow> pydict \<Rightarrow> pyval" where
  "tool_schema name description entries = PDict [(''type'', PStr ''function''), (''name'', PStr name),
     (''description'', PStr description), (''parameters'', strict_object entries), (''strict'', PBool True)]"

definition nullable_integer :: "int \<Rightarrow> int \<Rightarrow> pyval" where
  "nullable_integer low high = PDict [(''type'', PList [PStr ''integer'', PStr ''null'']),
     (''minimum'', PInt low), (''maximum'', PInt high)]"

definition tool_schemas :: "pyval list" where
  "tool_schemas =
     [tool_schema ''list_files'' ''List source paths inside the isolated workspace.''
        [(''path'', PDict [(''type'', PList [PStr ''string'', PStr ''null''])]),
         (''max_entries'', nullable_integer 1 2000)],
      tool_schema ''read_file'' ''Read a bounded UTF-8 source file inside the workspace.''
        [(''path'', string_type)],
      tool_schema ''apply_patch'' (''Persist a unified diff to the clean proposal with apply_patch; ''
          @ ''run_command writes are scratch-only.'')
        [(''patch'', string_type)],
      tool_schema ''run_command'' (''Run an allowlisted argv command in no-network scratch-only storage; ''
          @ ''writes disappear afterward and persistent edits require apply_patch.'')
        [(''command'', PDict [(''type'', PStr ''array''), (''items'', string_type), (''minItems'', PInt 1),
           (''maxItems'', PInt 128)]),
         (''timeout'', nullable_integer 1 1200)]]"

definition allowed_fields :: "(string, string list) dict" where
  "allowed_fields = [(''list_files'', [''path'', ''max_entries'']), (''read_file'', [''path'']),
     (''apply_patch'', [''patch'']), (''run_command'', [''command'', ''timeout''])]"

text \<open>An optional argument that is present and not \<open>None\<close> has to satisfy the test.\<close>

definition optional_ok :: "pydict \<Rightarrow> string \<Rightarrow> (pyval \<Rightarrow> bool) \<Rightarrow> bool" where
  "optional_ok d k ok \<longleftrightarrow> (case dget d k of None \<Rightarrow> True | Some v \<Rightarrow> v = PNone \<or> ok v)"

text \<open>\<open>isinstance(v, int)\<close> and a range; a bool is an int.\<close>

fun int_within :: "int \<Rightarrow> int \<Rightarrow> pyval \<Rightarrow> bool" where
  "int_within low high (PInt n) = (low \<le> n \<and> n \<le> high)"
| "int_within low high (PBool b) = (low \<le> of_bool b \<and> of_bool b \<le> high)"
| "int_within low high _ = False"

fun nonempty_str :: "pyval \<Rightarrow> bool" where
  "nonempty_str (PStr s) = (s \<noteq> [])"
| "nonempty_str _ = False"

fun argv_ok :: "pyval option \<Rightarrow> bool" where
  "argv_ok (Some (PList parts)) = (1 \<le> length parts \<and> length parts \<le> 128 \<and> list_all nonempty_str parts)"
| "argv_ok _ = False"

text \<open>\<open>_validate_tool_arguments\<close>; \<open>None\<close> is the \<open>ValueError\<close> (or the \<open>TypeError\<close> of a name that cannot
  be hashed), which its caller treats alike.\<close>

definition validate_tool_arguments :: "pyval \<Rightarrow> pyval \<Rightarrow> (string \<times> pydict) option" where
  "validate_tool_arguments name value =
     (case (name, value) of
        (PStr tool, PDict d) \<Rightarrow>
          (case dget allowed_fields tool of None \<Rightarrow> None
           | Some entries \<Rightarrow>
             if \<not> list_all (\<lambda>k. k \<in> set entries) (dkeys d) then None
             else if tool = ''read_file'' \<and> \<not> (case dget d ''path'' of None \<Rightarrow> False | Some v \<Rightarrow> nonempty_str v) then None
             else if tool = ''apply_patch'' \<and> \<not> (case dget d ''patch'' of None \<Rightarrow> False | Some v \<Rightarrow> nonempty_str v) then None
             else if tool = ''list_files'' \<and> \<not> (optional_ok d ''path'' is_str
                 \<and> optional_ok d ''max_entries'' (int_within 1 2000)) then None
             else if tool = ''run_command'' \<and> \<not> (argv_ok (dget d ''command'')
                 \<and> optional_ok d ''timeout'' (int_within 1 1200)) then None
             else Some (tool, d))
      | _ \<Rightarrow> None)"


subsection \<open>The budget of a tool output\<close>

definition truncated_notice :: pyval where
  "truncated_notice = PDict [(''error'', PStr ''tool_output_truncated'')]"

definition preview_text :: "(rat \<Rightarrow> string) \<Rightarrow> string \<Rightarrow> int \<Rightarrow> string" where
  "preview_text fr encoded n = dumps fr False (PDict [(''error'', PStr ''tool_output_truncated''),
     (''preview'', PStr (decode_prefix (nat n) encoded))])"

text \<open>The binary search for the longest preview that fits.\<close>

function search_preview :: "(rat \<Rightarrow> string) \<Rightarrow> string \<Rightarrow> int \<Rightarrow> string \<Rightarrow> int \<Rightarrow> int \<Rightarrow> string" where
  "search_preview fr encoded max_bytes best low high =
     (if high < low then best
      else
        let midpoint = (low + high) div 2;
            candidate = preview_text fr encoded midpoint
        in if int (length candidate) \<le> max_bytes
           then search_preview fr encoded max_bytes candidate (midpoint + 1) high
           else search_preview fr encoded max_bytes best low (midpoint - 1))"
  by pat_completeness auto
termination
  by (relation "measure (\<lambda>(fr, encoded, max_bytes, best, low, high). nat (high + 1 - low))") auto

declare search_preview.simps [simp del]

definition canonical_output :: "(rat \<Rightarrow> string) \<Rightarrow> pyval \<Rightarrow> int \<Rightarrow> string" where
  "canonical_output fr value max_bytes =
     (let output = dumps fr False value; base = dumps fr False truncated_notice in
      if int (length output) \<le> max_bytes then output
      else if max_bytes < int (length base) then (if 1 \<le> max_bytes then ''0'' else [])
      else search_preview fr output max_bytes base 0 (int (length output)))"

definition tool_output_record :: "string \<Rightarrow> string \<Rightarrow> pyval" where
  "tool_output_record call_id output = PDict [(''type'', PStr ''function_call_output''),
     (''call_id'', PStr call_id), (''output'', PStr output)]"

definition item_size :: "(rat \<Rightarrow> string) \<Rightarrow> pyval \<Rightarrow> int" where
  "item_size fr item = int (length (dumps fr False item))"

text \<open>The shares of the calls in the bytes that are left: \<open>plans\<close> are the sizes of the smallest and of
  the largest record of each call, \<open>extra\<close> what is left beyond the smallest ones.\<close>

fun allocate_outputs :: "(int \<times> int) list \<Rightarrow> int \<Rightarrow> int list" where
  "allocate_outputs [] extra = []"
| "allocate_outputs ((minimum, maximum) # plans) extra =
     (let granted = min (maximum - minimum) (extra div int (Suc (length plans)))
      in (minimum + granted) # allocate_outputs plans (extra - granted))"

subsection \<open>Responses of the model\<close>

text \<open>\<open>_get\<close> of a mapping; the other values have no attributes of these names.\<close>

fun get_value :: "pyval \<Rightarrow> string \<Rightarrow> pyval option" where
  "get_value (PDict d) k = dget d k"
| "get_value _ k = None"

fun py_truthy :: "pyval \<Rightarrow> bool" where
  "py_truthy PNone = False"
| "py_truthy (PBool b) = b"
| "py_truthy (PInt n) = (n \<noteq> 0)"
| "py_truthy (PFloat q) = (q \<noteq> 0)"
| "py_truthy (PStr s) = (s \<noteq> [])"
| "py_truthy (PList xs) = (xs \<noteq> [])"
| "py_truthy (PDict kvs) = (kvs \<noteq> [])"

definition usage_value :: "pyval \<Rightarrow> string \<Rightarrow> int" where
  "usage_value response name =
     (case get_value response ''usage'' of None \<Rightarrow> 0
      | Some usage \<Rightarrow>
        (case get_value usage name of Some (PInt n) \<Rightarrow> if 0 \<le> n then n else 0 | _ \<Rightarrow> 0))"

datatype agent_failure = AgentLimit | AgentToolCapacity | AgentDeadlineExceeded | AgentProtocol
  | PromotionRecovery string | ClientFailure | AgentTypeError

text \<open>Iterating over \<open>value or []\<close>: the elements, where a string or a dictionary gives strings;
  \<open>None\<close> is the \<open>TypeError\<close> of a value that cannot be iterated.\<close>

definition py_iter :: "pyval option \<Rightarrow> pyval list option" where
  "py_iter v =
     (case v of None \<Rightarrow> Some []
      | Some x \<Rightarrow>
        if \<not> py_truthy x then Some []
        else (case x of PList xs \<Rightarrow> Some xs | PDict kvs \<Rightarrow> Some (map (PStr \<circ> fst) kvs)
          | PStr s \<Rightarrow> Some (map (\<lambda>c. PStr [c]) s) | _ \<Rightarrow> None))"

text \<open>\<open>_normalize_response_output_item\<close>: the item after a round trip through its canonical text.\<close>

definition normalize_output_item :: "(rat \<Rightarrow> string) \<Rightarrow> pyval \<Rightarrow> (pyval \<times> int) option" where
  "normalize_output_item fr value =
     (case value of PDict d \<Rightarrow> Some (canon (PDict d), item_size fr (PDict d)) | _ \<Rightarrow> None)"

fun normalize_items :: "(rat \<Rightarrow> string) \<Rightarrow> pyval list \<Rightarrow> (pyval \<times> int) list option" where
  "normalize_items fr [] = Some []"
| "normalize_items fr (item # items) =
     (case normalize_output_item fr item of None \<Rightarrow> None
      | Some x \<Rightarrow> (case normalize_items fr items of None \<Rightarrow> None | Some xs \<Rightarrow> Some (x # xs)))"

text \<open>The parameters of the agent: its configuration, the service and the tools.\<close>

datatype create_failure = CreateTimeout | CreateFailed

datatype tool_failure = InvalidArguments | ToolFailed | ToolRecovery string

record model_request =
  mr_model :: string
  mr_instructions :: string
  mr_input :: "pyval list"
  mr_tools :: "pyval list"
  mr_format :: pyval
  mr_timeout :: "time option"

record 'e engineer =
  eg_fr :: "rat \<Rightarrow> string"
  eg_loads :: "pyval \<Rightarrow> tool_failure + pyval"
  eg_str :: "pyval \<Rightarrow> string"
  eg_create :: "model_request \<Rightarrow> 'e \<Rightarrow> (create_failure + pyval) \<times> 'e"
  eg_execute :: "string \<Rightarrow> pydict \<Rightarrow> 'e \<Rightarrow> (tool_failure + pyval) \<times> 'e"
  eg_monotonic :: "'e \<Rightarrow> time"
  eg_model :: string
  eg_max_rounds :: nat
  eg_max_tool_output_bytes :: int
  eg_max_tool_calls :: nat
  eg_max_tool_history_bytes :: int
  eg_instructions :: string

text \<open>The check of \<open>CodeEngineer.__init__\<close>.\<close>

definition engineer_ok :: "'e engineer \<Rightarrow> bool" where
  "engineer_ok g \<longleftrightarrow> eg_model g \<noteq> [] \<and> 1 \<le> eg_max_rounds g \<and> eg_max_rounds g \<le> 40
     \<and> 0 < eg_max_tool_output_bytes g \<and> 1 \<le> eg_max_tool_calls g \<and> eg_max_tool_calls g \<le> 256
     \<and> 0 < eg_max_tool_history_bytes g"

definition str_value :: "'e engineer \<Rightarrow> pyval option \<Rightarrow> string" where
  "str_value g v = (case v of None \<Rightarrow> eg_str g PNone | Some (PStr s) \<Rightarrow> s | Some x \<Rightarrow> eg_str g x)"

definition str_or_empty :: "'e engineer \<Rightarrow> pyval option \<Rightarrow> string" where
  "str_or_empty g v = (case v of None \<Rightarrow> [] | Some x \<Rightarrow> str_value g v)"

fun message_texts :: "'e engineer \<Rightarrow> pyval list \<Rightarrow> agent_failure + string list" where
  "message_texts g [] = Inr []"
| "message_texts g (content # contents) =
     (if get_value content ''type'' = Some (PStr ''refusal'') then Inl AgentProtocol
      else case message_texts g contents of Inl e \<Rightarrow> Inl e
        | Inr texts \<Rightarrow>
            if get_value content ''type'' \<in> {Some (PStr ''output_text''), Some (PStr ''text'')}
            then Inr (str_or_empty g (get_value content ''text'') # texts) else Inr texts)"

text \<open>The function calls and the texts of a response.\<close>

fun scan_items :: "'e engineer \<Rightarrow> bool \<Rightarrow> pyval list \<Rightarrow> agent_failure + (pyval list \<times> string list)" where
  "scan_items g chat [] = Inr ([], [])"
| "scan_items g chat (item # items) =
     (if get_value item ''type'' = Some (PStr ''function_call'') then
        (if chat then Inl AgentProtocol
         else case scan_items g chat items of Inl e \<Rightarrow> Inl e
           | Inr (calls, texts) \<Rightarrow> Inr (item # calls, texts))
      else if get_value item ''type'' = Some (PStr ''message'') then
        (case py_iter (get_value item ''content'') of None \<Rightarrow> Inl AgentTypeError
         | Some contents \<Rightarrow> (case message_texts g contents of Inl e \<Rightarrow> Inl e
           | Inr new \<Rightarrow> (case scan_items g chat items of Inl e \<Rightarrow> Inl e
             | Inr (calls, texts) \<Rightarrow> Inr (calls, new @ texts))))
      else scan_items g chat items)"

subsection \<open>The result\<close>

definition action_ok :: "pydict \<Rightarrow> bool" where
  "action_ok d \<longleftrightarrow> set (dkeys d) = {''effect'', ''target''} \<and> list_all nonempty_str (dvalues d)"

fun str_of_value :: "pyval \<Rightarrow> string" where
  "str_of_value (PStr s) = s"
| "str_of_value _ = []"

text \<open>\<open>_parse_result\<close>.\<close>

definition parse_result :: "'e engineer \<Rightarrow> string \<Rightarrow> agent_failure + agent_result" where
  "parse_result g text =
     (case eg_loads g (PStr text) of
        Inr (PDict d) \<Rightarrow>
          (case (dget d ''plan'', dget d ''summary'', dget d ''tests'') of
             (Some (PStr plan), Some (PStr summary), Some (PStr tests)) \<Rightarrow>
               (case (case dget d ''patch'' of None \<Rightarrow> PStr [] | Some v \<Rightarrow> v) of
                  PStr patch \<Rightarrow>
                    (case (case dget d ''external_action'' of None \<Rightarrow> PNone | Some v \<Rightarrow> v) of
                       PNone \<Rightarrow> Inr \<lparr>agent_plan = plan, agent_summary = summary, agent_tests = tests,
                         agent_patch = patch, agent_external_action = None, agent_commands = [],
                         agent_model_calls = 0, agent_input_tokens = 0, agent_output_tokens = 0,
                         agent_total_tokens = 0\<rparr>
                     | PDict action \<Rightarrow>
                         if \<not> action_ok action then Inl AgentProtocol
                         else Inr \<lparr>agent_plan = plan, agent_summary = summary, agent_tests = tests,
                           agent_patch = patch,
                           agent_external_action = Some (map (\<lambda>(k, v). (k, str_of_value v)) action),
                           agent_commands = [], agent_model_calls = 0, agent_input_tokens = 0,
                           agent_output_tokens = 0, agent_total_tokens = 0\<rparr>
                     | _ \<Rightarrow> Inl AgentProtocol)
                | _ \<Rightarrow> Inl AgentProtocol)
           | _ \<Rightarrow> Inl AgentProtocol)
      | Inl ToolFailed \<Rightarrow> Inl AgentTypeError
      | _ \<Rightarrow> Inl AgentProtocol)"

subsection \<open>The first message\<close>

text \<open>The inventory is cut at the first entry that does not fit.\<close>

fun bound_inventory :: "string list \<Rightarrow> string list \<Rightarrow> int \<Rightarrow> string list \<times> int" where
  "bound_inventory [] included bytes = (included, bytes)"
| "bound_inventory (path # paths) included bytes =
     (let size = int (length path) + 1 in
      if 2000 \<le> length included \<or> 64 * 1024 - bytes < size then (included, bytes)
      else bound_inventory paths (included @ [path]) (bytes + size))"

text \<open>\<open>json.dumps\<close> without \<open>sort_keys\<close>.\<close>

fun dumps_in_order :: "(rat \<Rightarrow> string) \<Rightarrow> pyval \<Rightarrow> string" where
  "dumps_in_order fr (PList xs) = ''['' @ join '','' (map (dumps_in_order fr) xs) @ '']''"
| "dumps_in_order fr (PDict kvs) = ''{'' @ join '','' (map (\<lambda>(k, t). quoted False k @ '':'' @ t)
     (map (\<lambda>(k, v). (k, dumps_in_order fr v)) kvs)) @ ''}''"
| "dumps_in_order fr v = dumps fr False v"

definition initial_message :: "'e engineer \<Rightarrow> job_mode \<Rightarrow> string \<Rightarrow> string list \<Rightarrow> pydict option \<Rightarrow> pydict option
    \<Rightarrow> pyval" where
  "initial_message g mode prompt inventory project_context galor_context =
     (case bound_inventory inventory [] 0 of (included, bytes) \<Rightarrow>
      PDict [(''role'', PStr ''user''), (''content'', PStr (dumps_in_order (eg_fr g) (PDict
        ([(''mode'', PStr (job_mode_value mode)), (''request'', PStr prompt),
          (''source_inventory'', PList (map PStr included)),
          (''source_inventory_meta'', PDict
            [(''providedEntries'', PInt (int (length inventory))), (''includedEntries'', PInt (int (length included))),
             (''includedUtf8Bytes'', PInt bytes), (''truncated'', PBool (length included < length inventory))]),
          (''project_context'', PDict (case project_context of None \<Rightarrow> [] | Some d \<Rightarrow> d)),
          (''policy'', PDict [(''network'', PStr ''disabled''), (''external_actions'', PStr ''proposal_only''),
             (''max_tool_rounds'', PInt (int (eg_max_rounds g))),
             (''max_tool_calls'', PInt (int (eg_max_tool_calls g)))])]
         @ (case galor_context of None \<Rightarrow> [] | Some d \<Rightarrow> [(''galor_context'', PDict d)])))))])"

subsection \<open>The loop\<close>

text \<open>The local variables of \<open>run\<close>.\<close>

record 'e agent_loop =
  lo_env :: 'e
  lo_history :: "pyval list"
  lo_calls :: nat
  lo_input_tokens :: int
  lo_output_tokens :: int
  lo_total_tokens :: int
  lo_tool_calls :: nat
  lo_tool_bytes :: int

type_synonym ('a, 'e) loop_outcome = "(agent_failure, 'a, 'e agent_loop) outcome"

definition request_of :: "'e engineer \<Rightarrow> bool \<Rightarrow> 'e agent_loop \<Rightarrow> time option \<Rightarrow> model_request" where
  "request_of g chat st timeout = \<lparr>mr_model = eg_model g, mr_instructions = eg_instructions g,
     mr_input = lo_history st, mr_tools = (if chat then [] else tool_schemas), mr_format = result_format,
     mr_timeout = timeout\<rparr>"

text \<open>One request: the deadline, the call of the service, the token counts.\<close>

definition ask_model :: "'e engineer \<Rightarrow> bool \<Rightarrow> time option \<Rightarrow> 'e agent_loop \<Rightarrow> (pyval, 'e) loop_outcome" where
  "ask_model g chat deadline st =
     (let remaining = map_option (\<lambda>d. d - eg_monotonic g (lo_env st)) deadline in
      if (case remaining of None \<Rightarrow> False | Some r \<Rightarrow> r \<le> 0) then (Inl AgentDeadlineExceeded, st)
      else case eg_create g (request_of g chat st (map_option (min 1200) remaining)) (lo_env st) of
        (Inl CreateTimeout, e) \<Rightarrow> (Inl AgentDeadlineExceeded, st\<lparr>lo_env := e\<rparr>)
      | (Inl CreateFailed, e) \<Rightarrow> (Inl ClientFailure, st\<lparr>lo_env := e\<rparr>)
      | (Inr response, e) \<Rightarrow> (Inr response, st\<lparr>lo_env := e, lo_calls := lo_calls st + 1,
          lo_input_tokens := lo_input_tokens st + usage_value response ''input_tokens'',
          lo_output_tokens := lo_output_tokens st + usage_value response ''output_tokens'',
          lo_total_tokens := lo_total_tokens st + usage_value response ''total_tokens''\<rparr>))"

text \<open>The items of a complete response with their sizes.\<close>

definition response_items :: "'e engineer \<Rightarrow> pyval \<Rightarrow> agent_failure + (pyval \<times> int) list" where
  "response_items g response =
     (if \<not> (case get_value response ''id'' of None \<Rightarrow> False | Some v \<Rightarrow> nonempty_str v) then Inl AgentProtocol
      else if (case get_value response ''status'' of None \<Rightarrow> False | Some v \<Rightarrow> v \<noteq> PStr ''completed'')
      then Inl AgentProtocol
      else case py_iter (get_value response ''output'') of None \<Rightarrow> Inl AgentProtocol
      | Some items \<Rightarrow> (case normalize_items (eg_fr g) items of None \<Rightarrow> Inl AgentProtocol | Some xs \<Rightarrow> Inr xs))"

text \<open>The sizes of the smallest and of the largest record of a call.\<close>

definition output_plan :: "'e engineer \<Rightarrow> pyval \<Rightarrow> int \<times> int" where
  "output_plan g item =
     (let call_id = str_value g (get_value item ''call_id'')
      in (item_size (eg_fr g) (tool_output_record call_id ''0''),
          item_size (eg_fr g) (tool_output_record call_id []) + 2 * eg_max_tool_output_bytes g))"

definition tool_error :: "string \<Rightarrow> pyval" where
  "tool_error code = PDict [(''error'', PStr code)]"

text \<open>What a call answers; \<open>Inl\<close> is the exception that is not answered.\<close>

definition call_tool :: "'e engineer \<Rightarrow> pyval \<Rightarrow> 'e \<Rightarrow> (agent_failure + pyval) \<times> 'e" where
  "call_tool g item e =
     (case eg_loads g (case get_value item ''arguments'' of None \<Rightarrow> PStr [] | Some v \<Rightarrow> v) of
        Inl ToolFailed \<Rightarrow> (Inr (tool_error ''tool_execution_failed''), e)
      | Inl _ \<Rightarrow> (Inr (tool_error ''invalid_tool_arguments''), e)
      | Inr arguments \<Rightarrow>
        (case validate_tool_arguments (case get_value item ''name'' of None \<Rightarrow> PNone | Some v \<Rightarrow> v) arguments of
           None \<Rightarrow> (Inr (tool_error ''invalid_tool_arguments''), e)
         | Some (tool, d) \<Rightarrow>
           (case eg_execute g tool d e of
              (Inl (ToolRecovery code), e) \<Rightarrow> (Inl (PromotionRecovery code), e)
            | (Inl InvalidArguments, e) \<Rightarrow> (Inr (tool_error ''invalid_tool_arguments''), e)
            | (Inl ToolFailed, e) \<Rightarrow> (Inr (tool_error ''tool_execution_failed''), e)
            | (Inr result, e) \<Rightarrow> (Inr result, e))))"

text \<open>The record of an answer within its allocation.\<close>

definition bounded_output :: "'e engineer \<Rightarrow> string \<Rightarrow> pyval \<Rightarrow> int \<Rightarrow> pyval" where
  "bounded_output g call_id result allocation =
     (let fr = eg_fr g;
          empty_size = item_size fr (tool_output_record call_id []);
          limit = min (eg_max_tool_output_bytes g) (max 1 ((allocation - empty_size) div 2));
          output_record = tool_output_record call_id (canonical_output fr result limit)
      in if allocation < item_size fr output_record then tool_output_record call_id ''0'' else output_record)"

text \<open>The calls in order; the records of the answers and their sizes.\<close>

fun run_calls :: "'e engineer \<Rightarrow> (pyval \<times> int) list \<Rightarrow> 'e \<Rightarrow> (agent_failure + pyval list) \<times> 'e" where
  "run_calls g [] e = (Inr [], e)"
| "run_calls g ((item, allocation) # rest) e =
     (case call_tool g item e of (Inl err, e) \<Rightarrow> (Inl err, e)
      | (Inr result, e) \<Rightarrow>
        (case run_calls g rest e of (Inl err, e) \<Rightarrow> (Inl err, e)
         | (Inr outputs, e) \<Rightarrow>
           (Inr (bounded_output g (str_value g (get_value item ''call_id'')) result allocation # outputs), e)))"

text \<open>The round of a response that calls functions.\<close>

definition answer_calls :: "'e engineer \<Rightarrow> nat \<Rightarrow> (pyval \<times> int) list \<Rightarrow> pyval list \<Rightarrow> 'e agent_loop
    \<Rightarrow> (unit, 'e) loop_outcome" where
  "answer_calls g rounds items calls st =
     (let plans = map (output_plan g) calls;
          assistant_size = sum_list (map snd items);
          capacity = eg_max_tool_history_bytes g - lo_tool_bytes st - assistant_size;
          minimum = sum_list (map fst plans);
          allocations = allocate_outputs plans (capacity - minimum)
      in if rounds \<le> 1 then (Inl AgentLimit, st)
         else if eg_max_tool_calls g < lo_tool_calls st + length calls then (Inl AgentToolCapacity, st)
         else if capacity < minimum then (Inl AgentToolCapacity, st)
         else
           let st = st\<lparr>lo_tool_calls := lo_tool_calls st + length calls\<rparr> in
           case run_calls g (zip calls allocations) (lo_env st) of
             (Inl err, e) \<Rightarrow> (Inl err, st\<lparr>lo_env := e\<rparr>)
           | (Inr outputs, e) \<Rightarrow> (Inr (), st\<lparr>lo_env := e,
               lo_tool_bytes := lo_tool_bytes st + assistant_size
                 + sum_list (map (item_size (eg_fr g)) outputs),
               lo_history := lo_history st @ map fst items @ outputs\<rparr>))"

definition final_result :: "'e engineer \<Rightarrow> string list \<Rightarrow> 'e agent_loop \<Rightarrow> (agent_result, 'e) loop_outcome" where
  "final_result g texts st =
     (if texts = [] then (Inl AgentProtocol, st)
      else case parse_result g (join [CHR 0x0A] texts) of Inl e \<Rightarrow> (Inl e, st)
      | Inr r \<Rightarrow> (Inr (r\<lparr>agent_model_calls := int (lo_calls st), agent_input_tokens := lo_input_tokens st,
          agent_output_tokens := lo_output_tokens st, agent_total_tokens := lo_total_tokens st\<rparr>), st))"

text \<open>The \<open>for\<close> loop; \<open>rounds\<close> are the rounds that are left.\<close>

fun agent_rounds :: "'e engineer \<Rightarrow> bool \<Rightarrow> time option \<Rightarrow> nat \<Rightarrow> 'e agent_loop
    \<Rightarrow> (agent_result, 'e) loop_outcome" where
  "agent_rounds g chat deadline 0 st = (Inl AgentLimit, st)"
| "agent_rounds g chat deadline (Suc rounds) st =
     bind_op (ask_model g chat deadline st) (\<lambda>response st.
       case response_items g response of Inl e \<Rightarrow> (Inl e, st)
       | Inr items \<Rightarrow>
         (case scan_items g chat (map fst items) of Inl e \<Rightarrow> (Inl e, st)
          | Inr (calls, texts) \<Rightarrow>
            if calls = [] then final_result g texts st
            else bind_op (answer_calls g (Suc rounds) items calls st)
              (\<lambda>_ st. agent_rounds g chat deadline rounds st)))"

definition engineer_run :: "'e engineer \<Rightarrow> job_mode \<Rightarrow> string \<Rightarrow> string list \<Rightarrow> pydict option \<Rightarrow> pydict option
    \<Rightarrow> time option \<Rightarrow> 'e \<Rightarrow> (agent_result, 'e) loop_outcome" where
  "engineer_run g mode prompt inventory project_context galor_context deadline e =
     agent_rounds g (mode = CHAT) deadline (eg_max_rounds g)
       \<lparr>lo_env = e, lo_history = [initial_message g mode prompt inventory project_context galor_context],
        lo_calls = 0, lo_input_tokens = 0, lo_output_tokens = 0, lo_total_tokens = 0,
        lo_tool_calls = 0, lo_tool_bytes = 0\<rparr>"

end
