(* ===== verification/AgentLoopProps.thy ===== *)
theory AgentLoopProps
  imports AgentLoop
begin

section \<open>The budgets of the agent loop\<close>

text \<open>
  Whatever the model answers and the tools do, a run stays within its rounds, its tool calls and
  the bytes of its history, and every tool answer is kept in its share of the budget.
\<close>

subsection \<open>Sizes of texts\<close>

lemma dumps_canon: "dumps fr ea (canon v) = dumps fr ea v"
proof (induction v rule: canon.induct)
  case (1 xs)
  then have eq: "map (dumps fr ea \<circ> canon) xs = map (dumps fr ea) xs" by simp
  show ?case by (simp only: canon.simps dumps.simps map_map eq)
next
  case (2 kvs)
  let ?s = "sort_key fst (map (\<lambda>(k, v). (k, dumps fr ea v)) kvs)"
  have "map (\<lambda>(k, v). (k, dumps fr ea v)) (sort_key fst (map (\<lambda>(k, v). (k, canon v)) kvs))
      = sort_key fst (map (\<lambda>(k, v). (k, dumps fr ea v)) (map (\<lambda>(k, v). (k, canon v)) kvs))"
    by (rule sort_key_map_fst[symmetric])
  also have "map (\<lambda>(k, v). (k, dumps fr ea v)) (map (\<lambda>(k, v). (k, canon v)) kvs)
      = map (\<lambda>(k, v). (k, dumps fr ea v)) kvs"
    using 2 by (auto simp: case_prod_unfold)
  finally have "map (\<lambda>(k, v). (k, dumps fr ea v)) (sort_key fst (map (\<lambda>(k, v). (k, canon v)) kvs)) = ?s" .
  moreover have "sort_key fst ?s = ?s" by (rule sort_key_id_if_sorted) simp
  ultimately show ?case by simp
qed simp_all

lemma search_preview_keeps:
  "P best \<Longrightarrow> (\<And>n. int (length (preview_text fr encoded n)) \<le> max_bytes \<Longrightarrow> P (preview_text fr encoded n))
     \<Longrightarrow> P (search_preview fr encoded max_bytes best low high)"
proof (induction fr encoded max_bytes best low high rule: search_preview.induct)
  case (1 fr encoded max_bytes best low high)
  show ?case
    using 1 by (subst search_preview.simps) (simp add: Let_def)
qed

lemma canonical_output_bound:
  assumes "0 \<le> max_bytes"
  shows "int (length (canonical_output fr v max_bytes)) \<le> max_bytes"
proof -
  have "int (length (dumps fr False truncated_notice)) \<le> max_bytes \<Longrightarrow>
      int (length (search_preview fr encoded max_bytes (dumps fr False truncated_notice) low high)) \<le> max_bytes"
    for encoded low high
    by (rule search_preview_keeps)
  then show ?thesis using assms by (simp add: canonical_output_def Let_def)
qed

definition printable :: "char \<Rightarrow> bool" where
  "printable c \<longleftrightarrow> CHR 0x20 \<le> c"

lemma printable_punctuation [simp]:
  "printable (CHR 0x22)" "printable (CHR '','')" "printable (CHR '':'')" "printable (CHR ''['')"
  "printable (CHR '']'')" "printable (CHR ''{'')" "printable (CHR ''}'')"
  "printable (CHR 0x5C)" "printable (CHR ''n'')" "printable (CHR ''r'')" "printable (CHR ''t'')"
  "printable (CHR ''f'')" "printable (CHR ''b'')" "printable (CHR ''u'')" "printable (CHR ''0'')"
  by (simp_all add: printable_def less_eq_char_def)

definition unquoted :: "char \<Rightarrow> bool" where
  "unquoted c \<longleftrightarrow> printable c \<and> c \<noteq> CHR 0x22 \<and> c \<noteq> CHR 0x5C"

lemma escape_unquoted: "list_all unquoted s \<Longrightarrow> escape False s = s"
  by (induction s) (auto simp: escape_def escape_char_def unquoted_def printable_def less_char_def less_eq_char_def)

lemma escape_length: "list_all printable s \<Longrightarrow> length (escape False s) \<le> 2 * length s"
  by (induction s) (auto simp: escape_def escape_char_def printable_def less_char_def less_eq_char_def)

lemma hex_digit_printable: "n < 16 \<Longrightarrow> printable (hex_digit n)"
  by (auto simp: hex_digit_def printable_def less_eq_char_def)

lemma escape_char_printable: "list_all printable (escape_char False c)"
proof -
  have "(of_char c :: nat) < 256" by (rule of_char_bound)
  then have "(of_char c :: nat) div 16 < 16" "(of_char c :: nat) mod 16 < 16" by (simp_all add: less_mult_imp_div_less)
  then show ?thesis
    by (simp add: escape_char_def hex_digit_printable) (simp add: printable_def not_less)
qed

lemma quoted_printable: "list_all printable (quoted False s)"
proof -
  have "list_all printable (escape False s)"
    using escape_char_printable by (induction s) (auto simp: escape_def list_all_iff)
  then show ?thesis by (simp add: quoted_def)
qed

lemma join_printable: "list_all printable sep \<Longrightarrow> list_all (list_all printable) xs \<Longrightarrow> list_all printable (join sep xs)"
  by (induction sep xs rule: join.induct) simp_all

lemma digit_unquoted: "is_digit c \<Longrightarrow> unquoted c"
  by (auto simp: is_digit_def unquoted_def printable_def less_eq_char_def)

lemma show_int_unquoted: "list_all unquoted (show_int n)"
proof -
  have "list_all unquoted (show_nat m)" for m
    using show_nat_digits[of m] digit_unquoted by (auto simp: list_all_iff)
  moreover have "unquoted (CHR ''-'')" by (simp add: unquoted_def printable_def less_eq_char_def)
  ultimately show ?thesis by (simp add: show_int_def)
qed

lemma unquoted_printable: "list_all unquoted s \<Longrightarrow> list_all printable s"
  by (auto simp: list_all_iff unquoted_def)

lemma dumps_printable:
  assumes "\<forall>q. list_all unquoted (fr q)"
  shows "list_all printable (dumps fr False v)"
proof (induction v rule: canon.induct)
  case (1 xs)
  then have "list_all (list_all printable) (map (dumps fr False) xs)" by (auto simp: list_all_iff)
  then show ?case by (simp add: join_printable)
next
  case (2 kvs)
  have "list_all (list_all printable) (map (\<lambda>(k, t). quoted False k @ '':'' @ t)
      (sort_key fst (map (\<lambda>(k, v). (k, dumps fr False v)) kvs)))"
    using 2 quoted_printable by (auto simp: list_all_iff)
  then show ?case by (simp add: join_printable)
qed (auto simp: quoted_printable unquoted_printable show_int_unquoted assms, auto simp: printable_def less_eq_char_def)

lemma short_dumps_unquoted:
  assumes "\<forall>q. list_all unquoted (fr q)" "length (dumps fr False v) \<le> 1"
  shows "list_all unquoted (dumps fr False v)"
  using assms by (cases v) (auto simp: quoted_def show_int_unquoted split: if_splits)

subsection \<open>One answer\<close>

lemma record_size:
  "item_size fr (tool_output_record call_id output)
     = item_size fr (tool_output_record call_id []) + int (length (escape False output))"
  by (simp add: item_size_def tool_output_record_def quoted_def escape_def)

lemma canonical_output_cases:
  "canonical_output fr v n \<in> {''0'', []} \<or> (\<exists>w. canonical_output fr v n = dumps fr False w)"
proof -
  have "\<exists>v. search_preview fr encoded n (dumps fr False truncated_notice) low high = dumps fr False v"
    for encoded low high
    by (rule search_preview_keeps) (unfold preview_text_def, blast+)
  then show ?thesis unfolding canonical_output_def Let_def by auto
qed

lemma canonical_output_text:
  assumes "\<forall>q. list_all unquoted (fr q)"
  shows "list_all printable (canonical_output fr v n)"
    and "length (canonical_output fr v n) \<le> 1 \<Longrightarrow> list_all unquoted (canonical_output fr v n)"
  using canonical_output_cases[of fr v n] dumps_printable[OF assms] short_dumps_unquoted[OF assms]
  by (auto simp: unquoted_def printable_def less_eq_char_def)

lemma output_fits:
  assumes fr: "\<forall>q. list_all unquoted (fr q)" and m: "0 < m"
    and a: "item_size fr (tool_output_record call_id ''0'') \<le> allocation"
  defines "bare \<equiv> item_size fr (tool_output_record call_id [])"
  shows "item_size fr (tool_output_record call_id
      (canonical_output fr v (min m (max 1 ((allocation - bare) div 2))))) \<le> allocation"
proof -
  define n where "n = min m (max 1 ((allocation - bare) div 2))"
  define out where "out = canonical_output fr v n"
  have "1 \<le> n" using m by (simp add: n_def)
  then have len: "int (length out) \<le> n" using canonical_output_bound[of n] by (simp add: out_def)
  have one: "bare + 1 \<le> allocation"
    using a record_size[of fr call_id "''0''"] by (simp add: bare_def escape_unquoted digit_unquoted is_digit_def)
  have esc: "int (length (escape False out)) \<le> allocation - bare"
  proof (cases "(allocation - bare) div 2 < 1")
    case True
    then have "n \<le> 1" by (simp add: n_def)
    then have "length out \<le> 1" using len by simp
    then have "list_all unquoted out" using canonical_output_text(2)[OF fr] by (simp add: out_def)
    then show ?thesis using one \<open>length out \<le> 1\<close> by (simp add: escape_unquoted)
  next
    case False
    then have "2 * n \<le> allocation - bare" by (simp add: n_def)
    moreover have "length (escape False out) \<le> 2 * length out"
      using escape_length canonical_output_text(1)[OF fr] by (simp add: out_def)
    ultimately show ?thesis using len by linarith
  qed
  then show ?thesis using record_size[of fr call_id out] by (simp add: bare_def out_def n_def)
qed

lemma bounded_output_size:
  "fst (output_plan g item) \<le> allocation \<Longrightarrow>
   item_size (eg_fr g) (bounded_output g (str_value g (get_value item ''call_id'')) result allocation) \<le> allocation"
  by (auto simp: bounded_output_def output_plan_def Let_def)

subsection \<open>The shares\<close>

lemma allocate_outputs_length [simp]: "length (allocate_outputs plans extra) = length plans"
  by (induction plans extra rule: allocate_outputs.induct) (simp_all add: Let_def)

lemma allocate_outputs_shares:
  "0 \<le> extra \<Longrightarrow> list_all (\<lambda>(minimum, maximum). minimum \<le> maximum) plans \<Longrightarrow>
   sum_list (allocate_outputs plans extra) \<le> sum_list (map fst plans) + extra
   \<and> list_all2 (\<lambda>plan allocation. fst plan \<le> allocation) plans (allocate_outputs plans extra)"
proof (induction plans extra rule: allocate_outputs.induct)
  case (2 minimum maximum plans extra)
  define granted where "granted = min (maximum - minimum) (extra div int (Suc (length plans)))"
  have "extra div int (Suc (length plans)) \<le> extra div 1"
    using "2.prems"(1) by (intro zdiv_mono2) simp_all
  then have granted: "granted \<le> extra" "0 \<le> granted"
    using "2.prems" pos_imp_zdiv_nonneg_iff[of "int (Suc (length plans))" extra]
    by (simp_all add: granted_def del: of_nat_Suc)
  have "allocate_outputs ((minimum, maximum) # plans) extra
      = (minimum + granted) # allocate_outputs plans (extra - granted)"
    by (simp add: Let_def granted_def)
  moreover have "sum_list (allocate_outputs plans (extra - granted)) \<le> sum_list (map fst plans) + (extra - granted)
      \<and> list_all2 (\<lambda>plan allocation. fst plan \<le> allocation) plans (allocate_outputs plans (extra - granted))"
    using "2.IH"[OF granted_def] granted "2.prems" by simp
  ultimately show ?case using granted by simp
qed simp

text \<open>Every tool answer reaches the model: in the share that the loop allocates to a call the record
  of its answer always fits, so the fallback to the answer \<open>0\<close> is never taken; the answer has at
  most \<open>max_tool_output_bytes\<close>, and it is complete whenever it fits in half of its share
  (\<open>float.__repr__\<close> printing neither quotes nor control characters).\<close>

theorem tool_answers_are_kept:
  assumes "engineer_ok g" and "\<forall>q. list_all unquoted (eg_fr g q)"
    and "fst (output_plan g item) \<le> allocation"
  defines "call_id \<equiv> str_value g (get_value item ''call_id'')"
  shows "\<exists>limit. bounded_output g call_id result allocation
        = tool_output_record call_id (canonical_output (eg_fr g) result limit)
      \<and> 1 \<le> limit \<and> limit \<le> eg_max_tool_output_bytes g
      \<and> int (length (canonical_output (eg_fr g) result limit)) \<le> limit
      \<and> (item_size (eg_fr g) result \<le> limit \<longrightarrow> canonical_output (eg_fr g) result limit = dumps (eg_fr g) False result)"
proof -
  define limit where "limit = min (eg_max_tool_output_bytes g)
      (max 1 ((allocation - item_size (eg_fr g) (tool_output_record call_id [])) div 2))"
  have m: "0 < eg_max_tool_output_bytes g" using assms(1) by (simp add: engineer_ok_def)
  have "item_size (eg_fr g) (tool_output_record call_id ''0'') \<le> allocation"
    using assms(3) by (simp add: output_plan_def Let_def call_id_def)
  from output_fits[OF assms(2) m this, where v = result]
  have "bounded_output g call_id result allocation
      = tool_output_record call_id (canonical_output (eg_fr g) result limit)"
    by (simp add: bounded_output_def Let_def limit_def)
  moreover have "1 \<le> limit" "limit \<le> eg_max_tool_output_bytes g" using m by (simp_all add: limit_def)
  ultimately show ?thesis
    using canonical_output_bound[of limit "eg_fr g" result]
    by (intro exI[of _ limit]) (simp add: canonical_output_def item_size_def)
qed

subsection \<open>The loop\<close>

lemma call_tool_env:
  "(\<And>tool d. P (snd (eg_execute g tool d e))) \<Longrightarrow> P e \<Longrightarrow> P (snd (call_tool g item e))"
  by (auto simp: call_tool_def split: sum.splits option.splits tool_failure.splits prod.splits) (metis snd_conv)+

lemma run_calls_budget:
  assumes step: "\<And>tool d e. used (snd (eg_execute g tool d e)) \<le> used e + 1"
  shows "run_calls g cs e = (r, e') \<Longrightarrow> used e' \<le> used e + length cs
    \<and> (list_all (\<lambda>(item, allocation). fst (output_plan g item) \<le> allocation) cs \<longrightarrow>
       (\<forall>outputs. r = Inr outputs \<longrightarrow> sum_list (map (item_size (eg_fr g)) outputs) \<le> sum_list (map snd cs)))"
proof (induction cs arbitrary: e r e')
  case (Cons c cs)
  obtain item allocation where c: "c = (item, allocation)" by (cases c)
  obtain r1 e1 where one: "call_tool g item e = (r1, e1)" by (cases "call_tool g item e")
  have first: "used e1 \<le> used e + 1"
    using call_tool_env[of "\<lambda>e1. used e1 \<le> used e + 1" g e item] step by (simp add: one)
  show ?case
  proof (cases r1)
    case (Inl err)
    then show ?thesis using Cons.prems first by (auto simp: c one)
  next
    case (Inr result)
    obtain r2 e2 where two: "run_calls g cs e1 = (r2, e2)" by (cases "run_calls g cs e1")
    have e2: "e' = e2" using Cons.prems by (simp add: c one Inr two split: sum.splits)
    have size: "item_size (eg_fr g) (bounded_output g (str_value g (get_value item ''call_id'')) result allocation)
        \<le> allocation" if "fst (output_plan g item) \<le> allocation"
      using that by (rule bounded_output_size)
    show ?thesis
      using Cons.IH[OF two] Cons.prems first size
      by (cases r2) (fastforce simp: c one Inr two e2)+
  qed
qed simp

lemma normalize_items_sizes:
  "normalize_items fr xs = Some ys \<Longrightarrow> \<forall>y \<in> set ys. snd y = item_size fr (fst y)"
proof (induction xs arbitrary: ys)
  case (Cons x xs)
  then show ?case
    by (auto simp: normalize_output_item_def item_size_def dumps_canon simp del: canon.simps
        split: option.splits pyval.splits)
qed simp

lemma response_items_sizes:
  "response_items g response = Inr items \<Longrightarrow> \<forall>y \<in> set items. snd y = item_size (eg_fr g) (fst y)"
  using normalize_items_sizes by (auto simp: response_items_def split: if_splits option.splits)

lemma sum_of_sizes: "\<forall>y \<in> set items. snd y = f (fst y) \<Longrightarrow> sum_list (map f (map fst items)) = sum_list (map snd items)"
  by (induction items) auto

definition history_size :: "'e engineer \<Rightarrow> 'e agent_loop \<Rightarrow> int" where
  "history_size g st = sum_list (map (item_size (eg_fr g)) (tl (lo_history st)))"

definition within_budget :: "'e engineer \<Rightarrow> ('e \<Rightarrow> nat) \<Rightarrow> nat \<Rightarrow> 'e agent_loop \<Rightarrow> bool" where
  "within_budget g used start st \<longleftrightarrow> lo_history st \<noteq> [] \<and> lo_tool_bytes st = history_size g st
     \<and> history_size g st \<le> eg_max_tool_history_bytes g
     \<and> lo_tool_calls st \<le> eg_max_tool_calls g \<and> used (lo_env st) \<le> start + lo_tool_calls st"

lemma answer_calls_budget:
  assumes step: "\<And>tool d e. used (snd (eg_execute g tool d e)) \<le> used e + 1"
    and ok: "engineer_ok g" "within_budget g used start st" "\<forall>y \<in> set items. snd y = item_size (eg_fr g) (fst y)"
    and run: "answer_calls g rounds items calls st = (r, st')"
  shows "within_budget g used start st' \<and> lo_calls st' = lo_calls st"
proof -
  define plans where "plans = map (output_plan g) calls"
  define capacity where "capacity = eg_max_tool_history_bytes g - lo_tool_bytes st - sum_list (map snd items)"
  define allocations where "allocations = allocate_outputs plans (capacity - sum_list (map fst plans))"
  note body = run[unfolded answer_calls_def Let_def, folded plans_def, folded capacity_def, folded allocations_def]
  show ?thesis
  proof (cases "rounds \<le> 1 \<or> eg_max_tool_calls g < lo_tool_calls st + length calls \<or> capacity < sum_list (map fst plans)")
    case True
    then show ?thesis using body ok by (auto split: if_splits)
  next
    case False
    obtain r1 e1 where calls: "run_calls g (zip calls allocations) (lo_env st) = (r1, e1)"
      by (cases "run_calls g (zip calls allocations) (lo_env st)")
    have "list_all (\<lambda>(minimum, maximum). minimum \<le> maximum) plans"
      using ok(1) by (auto simp: plans_def list_all_iff output_plan_def Let_def engineer_ok_def
          record_size[of _ _ "''0''"] escape_unquoted digit_unquoted is_digit_def)
    then have shares: "sum_list allocations \<le> capacity"
      "list_all2 (\<lambda>plan allocation. fst plan \<le> allocation) plans allocations"
      using allocate_outputs_shares[of "capacity - sum_list (map fst plans)" plans] False
      by (simp_all add: allocations_def)
    have len: "length allocations = length calls" by (simp add: allocations_def plans_def)
    have fits: "list_all (\<lambda>(item, allocation). fst (output_plan g item) \<le> allocation) (zip calls allocations)"
      using shares(2) by (auto simp: plans_def list_all_iff list_all2_iff zip_map1)
    from run_calls_budget[of used, OF step calls] fits len shares(1)
    have used: "used e1 \<le> used (lo_env st) + length calls"
      and size: "\<And>outputs. r1 = Inr outputs \<Longrightarrow> sum_list (map (item_size (eg_fr g)) outputs) \<le> capacity"
      by fastforce+
    show ?thesis
    proof (cases r1)
      case (Inl err)
      then show ?thesis using body False calls ok(2) used
        by (auto simp: within_budget_def history_size_def)
    next
      case (Inr outputs)
      have "sum_list (map (item_size (eg_fr g)) (map fst items)) = sum_list (map snd items)"
        using ok(3) by (rule sum_of_sizes)
      then show ?thesis using body False calls ok(2) used size[OF Inr] Inr
        by (auto simp: within_budget_def history_size_def capacity_def simp del: map_map)
    qed
  qed
qed

lemma ask_model_budget:
  assumes "\<And>request e. used (snd (eg_create g request e)) \<le> used e"
    and "within_budget g used start st" and "ask_model g chat deadline st = (r, st')"
  shows "within_budget g used start st' \<and> lo_calls st' \<le> lo_calls st + 1"
  using assms(2,3) assms(1)[of "request_of g chat st (map_option (min 1200)
      (map_option (\<lambda>d. d - eg_monotonic g (lo_env st)) deadline))" "lo_env st"]
  by (auto simp: ask_model_def Let_def within_budget_def history_size_def
      split: if_splits prod.splits sum.splits create_failure.splits)

lemma agent_rounds_budget:
  assumes creates: "\<And>request e. used (snd (eg_create g request e)) \<le> used e"
    and executes: "\<And>tool d e. used (snd (eg_execute g tool d e)) \<le> used e + 1"
    and ok: "engineer_ok g"
  shows "agent_rounds g chat deadline rounds st = (r, st') \<Longrightarrow> within_budget g used start st \<Longrightarrow>
    within_budget g used start st' \<and> lo_calls st' \<le> lo_calls st + rounds"
proof (induction rounds arbitrary: st)
  case (Suc rounds)
  obtain a s1 where ask: "ask_model g chat deadline st = (a, s1)" by (cases "ask_model g chat deadline st")
  note b1 = ask_model_budget[OF creates Suc.prems(2) ask]
  show ?case
  proof (cases "\<exists>response items calls texts. a = Inr response \<and> response_items g response = Inr items
      \<and> scan_items g chat (map fst items) = Inr (calls, texts) \<and> calls \<noteq> []")
    case False
    then have "st' = s1"
      using Suc.prems(1) ask
      by (auto simp: bind_op_def final_result_def split: sum.splits prod.splits if_splits)
    then show ?thesis using b1 by simp
  next
    case True
    then obtain response items calls texts where t: "a = Inr response" "response_items g response = Inr items"
      "scan_items g chat (map fst items) = Inr (calls, texts)" "calls \<noteq> []" by blast
    obtain b s2 where answer: "answer_calls g (Suc rounds) items calls s1 = (b, s2)"
      by (cases "answer_calls g (Suc rounds) items calls s1")
    from answer_calls_budget[OF executes ok _ response_items_sizes[OF t(2)] answer] b1
    have b2: "within_budget g used start s2" "lo_calls s2 = lo_calls s1" by blast+
    show ?thesis
    proof (cases b)
      case (Inl err)
      then show ?thesis using Suc.prems(1) ask t answer b1 b2 by auto
    next
      case (Inr u)
      then have "agent_rounds g chat deadline rounds s2 = (r, st')"
        using Suc.prems(1) ask t answer by simp
      from Suc.IH[OF this b2(1)] b1 b2 show ?thesis by auto
    qed
  qed
qed auto

text \<open>A chat never executes a tool.\<close>

lemma scan_items_chat: "scan_items g True items = Inr (calls, texts) \<Longrightarrow> calls = []"
  by (induction items arbitrary: calls texts) (auto split: if_splits sum.splits option.splits)

lemma agent_rounds_chat:
  assumes creates: "\<And>request e. P e \<Longrightarrow> P (snd (eg_create g request e))"
  shows "agent_rounds g True deadline rounds st = (r, st') \<Longrightarrow> P (lo_env st) \<Longrightarrow> P (lo_env st')"
proof (cases rounds)
  case (Suc n)
  assume run: "agent_rounds g True deadline rounds st = (r, st')" and start: "P (lo_env st)"
  obtain a s1 where ask: "ask_model g True deadline st = (a, s1)" by (cases "ask_model g True deadline st")
  define request where "request = request_of g True st (map_option (min 1200)
      (map_option (\<lambda>d. d - eg_monotonic g (lo_env st)) deadline))"
  obtain x e1 where "eg_create g request (lo_env st) = (x, e1)" by (cases "eg_create g request (lo_env st)")
  then have "s1 = st \<or> lo_env s1 = snd (eg_create g request (lo_env st))"
    using ask by (auto simp: ask_model_def Let_def request_def[symmetric]
        split: if_splits sum.splits create_failure.splits)
  then have "P (lo_env s1)" using creates start by auto
  moreover have "lo_env st' = lo_env s1"
    using run ask by (auto simp: Suc bind_op_def final_result_def dest: scan_items_chat
        split: sum.splits prod.splits if_splits)
  ultimately show ?thesis by simp
qed simp

text \<open>C31. A run of the agent stays within its budgets, whatever the model answers and the tools do: at
  most \<open>max_rounds\<close> requests, at most \<open>max_tool_calls\<close> executed tools (counted by any measure
  \<open>used\<close> of the environment that a tool raises by at most one and the service not at all; by none
  in a chat), and at most \<open>max_tool_history_bytes\<close> of serialized history beyond the first message,
  also when it raises.\<close>

theorem agent_stays_within_budget:
  fixes used :: "'e \<Rightarrow> nat"
  assumes "engineer_run g mode prompt inventory project_context galor_context deadline e = (r, st)"
    and "engineer_ok g"
    and "\<And>request e. used (snd (eg_create g request e)) \<le> used e"
    and "\<And>tool d e. used (snd (eg_execute g tool d e)) \<le> used e + 1"
  shows "lo_calls st \<le> eg_max_rounds g
    \<and> used (lo_env st) \<le> used e + (if mode = CHAT then 0 else eg_max_tool_calls g)
    \<and> sum_list (map (item_size (eg_fr g)) (tl (lo_history st))) \<le> eg_max_tool_history_bytes g"
proof -
  define st0 where "st0 = \<lparr>lo_env = e, lo_history = [initial_message g mode prompt inventory project_context galor_context],
        lo_calls = 0, lo_input_tokens = 0, lo_output_tokens = 0, lo_total_tokens = 0,
        lo_tool_calls = 0, lo_tool_bytes = 0\<rparr>"
  have run: "agent_rounds g (mode = CHAT) deadline (eg_max_rounds g) st0 = (r, st)"
    using assms(1) by (simp add: engineer_run_def st0_def)
  have "within_budget g used (used e) st0"
    using assms(2) by (simp add: within_budget_def history_size_def st0_def engineer_ok_def)
  from agent_rounds_budget[of used, OF assms(3,4,2) run this]
  have budget: "within_budget g used (used e) st" "lo_calls st \<le> eg_max_rounds g" by (simp_all add: st0_def)
  have "used (lo_env st) \<le> used e" if "mode = CHAT"
  proof -
    have "agent_rounds g True deadline (eg_max_rounds g) st0 = (r, st)" using run that by simp
    from agent_rounds_chat[of "\<lambda>x. used x \<le> used e", OF _ this] assms(3) show ?thesis
      by (simp add: st0_def) (meson le_trans)
  qed
  then show ?thesis using budget by (auto simp: within_budget_def history_size_def)
qed

subsection \<open>A run on a concrete model\<close>

text \<open>A model that reads one file and then answers; the environment counts the executed tools.\<close>

definition sample_call :: pyval where
  "sample_call = PDict [(''type'', PStr ''function_call''), (''call_id'', PStr ''c''), (''name'', PStr ''read_file''),
     (''arguments'', PStr ''args'')]"

definition sample_answer :: pyval where
  "sample_answer = PDict [(''type'', PStr ''message''),
     (''content'', PList [PDict [(''type'', PStr ''output_text''), (''text'', PStr ''done'')]])]"

definition sample_engineer :: "nat engineer" where
  "sample_engineer = \<lparr>eg_fr = (\<lambda>_. ''0.5''),
     eg_loads = (\<lambda>v. if v = PStr ''args'' then Inr (PDict [(''path'', PStr ''a.py'')])
       else if v = PStr ''done'' then Inr (PDict [(''plan'', PStr ''p''), (''summary'', PStr ''s''), (''tests'', PStr ''t'')])
       else Inl InvalidArguments),
     eg_str = (\<lambda>_. []),
     eg_create = (\<lambda>request e. (Inr (PDict [(''id'', PStr ''r''),
       (''output'', PList [if length (mr_input request) = 1 then sample_call else sample_answer])]), e)),
     eg_execute = (\<lambda>_ _ e. (Inr (PStr ''text''), Suc e)),
     eg_monotonic = (\<lambda>_. 0), eg_model = ''m'', eg_max_rounds = 3, eg_max_tool_output_bytes = 64,
     eg_max_tool_calls = 2, eg_max_tool_history_bytes = 500, eg_instructions = ''i''\<rparr>"

lemma sample_engineer_ok: "engineer_ok sample_engineer"
  by (simp add: engineer_ok_def sample_engineer_def)

definition sample_run :: "(agent_result, nat) loop_outcome" where
  "sample_run = engineer_run sample_engineer BUILD ''fix'' [''a.py''] None None (Some 10) 0"

lemma sample_run_answers:
  "(case sample_run of (Inl _, _) \<Rightarrow> False | (Inr r, st) \<Rightarrow> agent_plan r = ''p'' \<and> lo_env st = 1 \<and> lo_calls st = 2)"
  by code_simp

theorem agent_stays_within_budget_witness:
  "\<exists>r st. sample_run = (Inr r, st) \<and> lo_env st = 1 \<and> lo_env st \<le> 2 \<and> lo_calls st \<le> 3
     \<and> sum_list (map (item_size (eg_fr sample_engineer)) (tl (lo_history st))) \<le> 500"
proof -
  obtain x st where x: "sample_run = (x, st)" by (cases sample_run)
  obtain r where r: "x = Inr r" and one: "lo_env st = 1"
    using sample_run_answers[unfolded x] by (cases x) simp_all
  have run: "sample_run = (Inr r, st)" using x r by simp
  have "lo_calls st \<le> eg_max_rounds sample_engineer
    \<and> lo_env st \<le> 0 + (if BUILD = CHAT then 0 else eg_max_tool_calls sample_engineer)
    \<and> sum_list (map (item_size (eg_fr sample_engineer)) (tl (lo_history st))) \<le> eg_max_tool_history_bytes sample_engineer"
    by (rule agent_stays_within_budget[of sample_engineer BUILD _ _ _ _ _ 0 "Inr r" st "\<lambda>n. n",
          OF run[unfolded sample_run_def] sample_engineer_ok]) (simp_all add: sample_engineer_def)
  moreover have "eg_max_rounds sample_engineer = 3" "eg_max_tool_calls sample_engineer = 2"
    "eg_max_tool_history_bytes sample_engineer = 500" by (simp_all add: sample_engineer_def)
  ultimately show ?thesis using run one by (intro exI[of _ r] exI[of _ st]) simp
qed

theorem tool_answers_are_kept_witness:
  "\<exists>limit \<ge> 1. bounded_output sample_engineer ''c'' (PStr ''text'') 150
     = tool_output_record ''c'' (canonical_output (eg_fr sample_engineer) (PStr ''text'') limit)"
proof -
  have p: "fst (output_plan sample_engineer sample_call) \<le> 150" and c: "str_value sample_engineer (get_value sample_call ''call_id'') = ''c''"
    by code_simp+
  have "\<forall>q. list_all unquoted (eg_fr sample_engineer q)"
    by (simp add: sample_engineer_def unquoted_def printable_def less_eq_char_def)
  from tool_answers_are_kept[OF sample_engineer_ok this p, of "PStr ''text''"]
  show ?thesis unfolding c by blast
qed

end
