(* ===== verification/JsonLoads.thy ===== *)
theory JsonLoads
  imports JsonStrings
begin

section \<open>Reading JSON\<close>

text \<open>
  \<open>json.loads\<close>: white space, literals, numbers, strings, arrays and objects, where a repeated key
  keeps its place and takes the last value. \<open>fl\<close> is the value of a number that is not an integer
  (and of \<open>NaN\<close> and the infinities, which the decoder accepts). The limits of the interpreter on
  nesting and on the digits of an integer are not modelled. Fuel bounds the nesting; \<open>json_loads\<close>
  takes more than any text needs, and the round trip \<open>json_loads_dumps\<close> shows that it is enough
  for every printed value.
\<close>

definition json_space :: "char \<Rightarrow> bool" where
  "json_space c \<longleftrightarrow> c \<in> {CHR 0x20, CHR 0x09, CHR 0x0A, CHR 0x0D}"

definition skip_ws :: "string \<Rightarrow> string" where
  "skip_ws s = dropWhile json_space s"

text \<open>The fraction and the exponent of a number, empty when there is none.\<close>

definition fraction :: "string \<Rightarrow> string" where
  "fraction s = (case s of [] \<Rightarrow> []
     | c # u \<Rightarrow> if c = CHR ''.'' \<and> takeWhile is_digit u \<noteq> [] then c # takeWhile is_digit u else [])"

definition exponent :: "string \<Rightarrow> string" where
  "exponent s = (case s of [] \<Rightarrow> []
     | c # u \<Rightarrow>
       if c \<noteq> CHR ''e'' \<and> c \<noteq> CHR ''E'' then []
       else
         let sign = takeWhile (\<lambda>d. d = CHR ''+'' \<or> d = CHR ''-'') (take 1 u);
             digits = takeWhile is_digit (drop (length sign) u)
         in if digits = [] then [] else c # sign @ digits)"

definition whole_part :: "string \<Rightarrow> string" where
  "whole_part digits = (if hd digits = CHR ''0'' then ''0'' else digits)"

definition read_number :: "(string \<Rightarrow> pyval) \<Rightarrow> string \<Rightarrow> (pyval \<times> string) option" where
  "read_number fl s =
     (let negative = starts_with ''-'' s;
          t = (if negative then tl s else s);
          digits = takeWhile is_digit t
      in if digits = [] then
           (if negative \<and> starts_with ''Infinity'' t then Some (fl ''-Infinity'', drop 8 t) else None)
         else
           let whole = whole_part digits;
               r = drop (length whole) t;
               frac = fraction r;
               expo = exponent (drop (length frac) r);
               left = drop (length frac + length expo) r
           in if frac = [] \<and> expo = []
              then Some (PInt (if negative then - int (read_nat whole) else int (read_nat whole)), left)
              else Some (fl ((if negative then ''-'' else []) @ whole @ frac @ expo), left))"

fun parse_value :: "(string \<Rightarrow> pyval) \<Rightarrow> nat \<Rightarrow> string \<Rightarrow> (pyval \<times> string) option"
  and parse_items :: "(string \<Rightarrow> pyval) \<Rightarrow> nat \<Rightarrow> string \<Rightarrow> (pyval list \<times> string) option"
  and parse_pairs :: "(string \<Rightarrow> pyval) \<Rightarrow> nat \<Rightarrow> string \<Rightarrow> (pydict \<times> string) option" where
  "parse_value fl 0 s = None"
| "parse_value fl (Suc n) s =
     (case s of [] \<Rightarrow> None
      | c # r \<Rightarrow>
        if c = CHR 0x22 then map_option (\<lambda>(x, t). (PStr x, t)) (unescape r)
        else if c = CHR ''['' then
          (case skip_ws r of [] \<Rightarrow> None
           | d # t \<Rightarrow>
               if d = CHR '']'' then Some (PList [], t)
               else map_option (\<lambda>(xs, u). (PList xs, u)) (parse_items fl n (d # t)))
        else if c = CHR ''{'' then
          (case skip_ws r of [] \<Rightarrow> None
           | d # t \<Rightarrow>
               if d = CHR ''}'' then Some (PDict [], t)
               else map_option (\<lambda>(kvs, u). (PDict (fold (\<lambda>(k, v) m. dset m k v) kvs []), u))
                 (parse_pairs fl n (d # t)))
        else if starts_with ''null'' s then Some (PNone, drop 4 s)
        else if starts_with ''true'' s then Some (PBool True, drop 4 s)
        else if starts_with ''false'' s then Some (PBool False, drop 5 s)
        else if starts_with ''NaN'' s then Some (fl ''NaN'', drop 3 s)
        else if starts_with ''Infinity'' s then Some (fl ''Infinity'', drop 8 s)
        else read_number fl s)"
| "parse_items fl 0 s = None"
| "parse_items fl (Suc n) s =
     (case parse_value fl n s of None \<Rightarrow> None
      | Some (x, t) \<Rightarrow>
        (case skip_ws t of [] \<Rightarrow> None
         | d # u \<Rightarrow>
             if d = CHR '']'' then Some ([x], u)
             else if d = CHR '','' then map_option (\<lambda>(xs, v). (x # xs, v)) (parse_items fl n (skip_ws u))
             else None))"
| "parse_pairs fl 0 s = None"
| "parse_pairs fl (Suc n) s =
     (case s of [] \<Rightarrow> None
      | q # r \<Rightarrow>
        if q \<noteq> CHR 0x22 then None
        else (case unescape r of None \<Rightarrow> None
          | Some (k, t) \<Rightarrow>
            (case skip_ws t of [] \<Rightarrow> None
             | c # u \<Rightarrow>
               if c \<noteq> CHR '':'' then None
               else (case parse_value fl n (skip_ws u) of None \<Rightarrow> None
                 | Some (v, w) \<Rightarrow>
                   (case skip_ws w of [] \<Rightarrow> None
                    | d # y \<Rightarrow>
                      if d = CHR ''}'' then Some ([(k, v)], y)
                      else if d = CHR '','' then map_option (\<lambda>(kvs, z). ((k, v) # kvs, z)) (parse_pairs fl n (skip_ws y))
                      else None)))))"

definition json_loads :: "(string \<Rightarrow> pyval) \<Rightarrow> string \<Rightarrow> pyval option" where
  "json_loads fl s =
     (case parse_value fl (2 * length s + 1) (skip_ws s) of None \<Rightarrow> None
      | Some (v, t) \<Rightarrow> if skip_ws t = [] then Some v else None)"

subsection \<open>The round trip\<close>

lemma show_nat_leading_zero: "hd (show_nat n) = CHR ''0'' \<Longrightarrow> n = 0"
proof (induction n rule: show_nat.induct)
  case (1 n)
  show ?case
  proof (cases "n < 10")
    case True
    then have "(char_of (48 + n) :: char) = CHR ''0''" using 1(2) by (simp add: show_nat.simps[of n])
    then have "(of_char (char_of (48 + n) :: char) :: nat) = of_char (CHR ''0'')" by simp
    then show ?thesis using True by simp
  next
    case False
    then have "hd (show_nat (n div 10)) = CHR ''0''"
      using 1(2) show_nat_not_Nil[of "n div 10"] by (simp add: show_nat.simps[of n])
    then show ?thesis using 1(1)[OF False] False by simp
  qed
qed

lemma whole_part_show_nat [simp]: "whole_part (show_nat n) = show_nat n"
  using show_nat_leading_zero[of n] by (auto simp: whole_part_def show_nat.simps[of 0])

text \<open>What may follow a number.\<close>

definition ends_value :: "string \<Rightarrow> bool" where
  "ends_value r \<longleftrightarrow> r = [] \<or> \<not> (is_digit (hd r) \<or> hd r \<in> {CHR ''.'', CHR ''e'', CHR ''E''})"

lemma ends_value_simps [simp]:
  "ends_value []" "ends_value (CHR '','' # r)" "ends_value (CHR '']'' # r)" "ends_value (CHR ''}'' # r)"
  by (simp_all add: ends_value_def is_digit_def less_eq_char_def)

lemma ends_value_space: "list_all json_space ws \<Longrightarrow> ends_value ws"
  by (cases ws) (auto simp: ends_value_def json_space_def is_digit_def less_eq_char_def)

lemma ends_value_fraction: "ends_value r \<Longrightarrow> fraction r = [] \<and> exponent r = []"
  by (auto simp: ends_value_def fraction_def exponent_def split: list.splits)

lemma takeWhile_show_nat: "ends_value r \<Longrightarrow> takeWhile is_digit (show_nat n @ r) = show_nat n"
  using show_nat_digits[of n]
  by (cases r) (simp_all add: takeWhile_append list_all_iff ends_value_def)

lemma read_number_show_nat:
  assumes "ends_value r"
  shows "read_number fl (show_nat n @ r) = Some (PInt (int n), r)"
proof -
  have d: "is_digit (hd (show_nat n))" using show_nat_hd[of n "[]"] by simp
  then have "\<not> starts_with ''-'' (show_nat n @ r)"
    using show_nat_not_Nil[of n] by (cases "show_nat n") (auto simp: starts_with_def is_digit_def less_eq_char_def)
  then show ?thesis
    using ends_value_fraction[OF assms] show_nat_not_Nil[of n]
    by (simp add: read_number_def takeWhile_show_nat[OF assms] Let_def)
qed

lemma read_number_show_int:
  assumes "ends_value r"
  shows "read_number fl (show_int n @ r) = Some (PInt n, r)"
proof (cases "n < 0")
  case False
  then show ?thesis using read_number_show_nat[OF assms, of fl "nat n"] by (simp add: show_int_def)
next
  case True
  let ?m = "nat (- n)"
  show ?thesis
    using True ends_value_fraction[OF assms] show_nat_not_Nil[of ?m]
    by (simp add: show_int_def read_number_def starts_with_def takeWhile_show_nat[OF assms] Let_def)
qed

lemma not_space [simp]:
  "\<not> json_space (CHR 0x22)" "\<not> json_space (CHR '','')" "\<not> json_space (CHR '':'')" "\<not> json_space (CHR ''['')"
  "\<not> json_space (CHR '']'')" "\<not> json_space (CHR ''{'')" "\<not> json_space (CHR ''}'')" "\<not> json_space (CHR ''n'')"
  "\<not> json_space (CHR ''t'')" "\<not> json_space (CHR ''f'')" "\<not> json_space (CHR ''-'')"
  by (simp_all add: json_space_def)

lemma skip_ws_Cons [simp]: "skip_ws (c # s) = (if json_space c then skip_ws s else c # s)"
  by (simp add: skip_ws_def)

lemma digit_not_space: "is_digit c \<Longrightarrow> \<not> json_space c"
  by (auto simp: is_digit_def json_space_def less_eq_char_def)

lemma show_int_not_Nil: "show_int n \<noteq> []"
  using show_nat_not_Nil by (auto simp: show_int_def)

lemma skip_ws_emit: "plain v \<Longrightarrow> skip_ws (emit ea v @ r) = emit ea v @ r"
proof (cases v)
  case (PInt n)
  show ?thesis
    using PInt show_int_not_Nil[of n] show_int_hd[of n "[]"] digit_not_space by (cases "show_int n") auto
qed (auto simp: quoted_def)


lemma emit_length: "plain v \<Longrightarrow> 1 \<le> length (emit ea v)"
  using emit_hd[of v ea] by (cases "emit ea v") auto

lemma number_start:
  "starts_with p (show_int n @ r) \<Longrightarrow> p \<noteq> [] \<Longrightarrow> hd p = CHR ''-'' \<or> is_digit (hd p)"
  using show_int_hd[of n r] by (cases p; cases "show_int n @ r") (auto simp: starts_with_def)

lemma parse_number:
  assumes "ends_value r"
  shows "parse_value fl (Suc n) (show_int i @ r) = Some (PInt i, r)"
proof -
  obtain c u where cu: "show_int i @ r = c # u" "c = CHR ''-'' \<or> is_digit c"
    using show_int_hd[of i r] show_int_not_Nil[of i] by (cases "show_int i @ r") auto
  have "\<not> starts_with p (c # u)" if "p \<noteq> []" "hd p \<noteq> CHR ''-''" "\<not> is_digit (hd p)" for p
    using number_start[of p i r] that by (auto simp: cu(1))
  then have "\<not> starts_with ''null'' (c # u)" "\<not> starts_with ''true'' (c # u)" "\<not> starts_with ''false'' (c # u)"
    "\<not> starts_with ''NaN'' (c # u)" "\<not> starts_with ''Infinity'' (c # u)"
    by (simp_all add: is_digit_def less_eq_char_def)
  moreover have "c \<noteq> CHR 0x22" "c \<noteq> CHR ''[''" "c \<noteq> CHR ''{''"
    using cu(2) by (auto simp: is_digit_def less_eq_char_def)
  ultimately show ?thesis
    using read_number_show_int[OF assms, of fl i] by (simp add: cu(1))
qed

lemma fold_dset_pairs: "dict_ok (m @ kvs) \<Longrightarrow> fold (\<lambda>(k, v) m. dset m k v) kvs m = m @ kvs"
proof (induction kvs arbitrary: m)
  case (Cons p kvs)
  obtain k v where p: "p = (k, v)" by (cases p)
  have "k \<notin> fst ` set m" using Cons.prems by (auto simp: dict_ok_def p)
  then have "dset m k v = m @ [(k, v)]" by (induction m) auto
  then show ?case using Cons.IH[of "m @ [p]"] Cons.prems by (simp add: p)
qed simp

lemma parse_emit:
  "plain a \<Longrightarrow> ends_value r \<Longrightarrow> 2 * length (emit ea a) \<le> n \<Longrightarrow> parse_value fl n (emit ea a @ r) = Some (a, r)"
  "list_all plain xs \<Longrightarrow> xs \<noteq> [] \<Longrightarrow> 2 * length (emit_items ea xs) \<le> n
     \<Longrightarrow> parse_items fl n (emit_items ea xs @ r) = Some (xs, r)"
  "list_all (\<lambda>(k, v). plain v) ps \<Longrightarrow> ps \<noteq> [] \<Longrightarrow> 2 * length (emit_pairs ea ps) \<le> n
     \<Longrightarrow> parse_pairs fl n (emit_pairs ea ps @ r) = Some (ps, r)"
proof (induction ea a and ea xs and ea ps arbitrary: r n and r n and r n
    rule: emit_emit_items_emit_pairs.induct)
  case (1 ea)
  then show ?case by (cases n) (auto simp: starts_with_def)
next
  case (2 ea b)
  then show ?case by (cases n; cases b) (auto simp: starts_with_def)
next
  case (3 ea i)
  obtain m where "n = Suc m" using 3(3) show_int_not_Nil[of i] by (cases n) auto
  then show ?case using parse_number[OF 3(2)] by simp
next
  case (5 ea s)
  then show ?case by (cases n) (auto simp: quoted_def unescape_escape)
next
  case (6 ea xs)
  then obtain m where m: "n = Suc m" by (cases n) auto
  show ?case
  proof (cases xs)
    case Nil
    then show ?thesis by (simp add: m)
  next
    case (Cons x ys)
    have "parse_items fl m (emit_items ea xs @ r) = Some (xs, r)"
      using 6 Cons by (intro "6.IH") (auto simp: m)
    moreover have "emit_items ea xs @ r = skip_ws (emit_items ea xs @ r)"
      using skip_ws_emit[of x ea] 6(2) Cons by simp
    moreover have "hd (emit_items ea xs @ r) \<noteq> CHR '']''" "emit_items ea xs \<noteq> []"
      using emit_hd[of x ea] 6(2) Cons by (auto simp: opens_def)
    ultimately show ?thesis
      by (cases "emit_items ea xs @ r") (auto simp: m)
  qed
next
  case (7 ea kvs)
  then obtain m where m: "n = Suc m" by (cases n) auto
  show ?case
  proof (cases kvs)
    case Nil
    then show ?thesis by (simp add: m)
  next
    case (Cons p qs)
    have "parse_pairs fl m (emit_pairs ea kvs @ r) = Some (kvs, r)"
      using 7 Cons by (intro "7.IH") (auto simp: m)
    moreover have "fold (\<lambda>(k, v) m. dset m k v) kvs [] = kvs"
      using 7(2) fold_dset_pairs[of "[]" kvs] by simp
    moreover have "\<exists>u. emit_pairs ea kvs @ r = CHR 0x22 # u"
      using Cons by (cases p) (simp add: quoted_def)
    ultimately show ?thesis by (auto simp: m)
  qed
next
  case (9 ea x xs)
  obtain m where m: "n = Suc m" using 9(5) by (cases n) (auto split: if_splits)
  have x: "parse_value fl m (emit ea x @ s) = Some (x, s)" if "ends_value s" for s
    using 9 that by (intro "9.IH"(1)) (auto simp: m split: if_splits)
  show ?case
  proof (cases xs)
    case Nil
    then show ?thesis using x[of "CHR '']'' # r"] by (simp add: m)
  next
    case (Cons y ys)
    have "parse_items fl m (emit_items ea xs @ r) = Some (xs, r)"
      using 9 Cons by (intro "9.IH"(2)) (auto simp: m)
    moreover have "skip_ws (emit_items ea xs @ r) = emit_items ea xs @ r"
      using skip_ws_emit[of y ea] 9(3) Cons by simp
    moreover have "xs \<noteq> []" using Cons by simp
    ultimately show ?thesis using x[of "CHR '','' # emit_items ea xs @ r"] by (simp add: m)
  qed
next
  case (11 ea k v kvs)
  obtain m where m: "n = Suc m" using 11(5) by (cases n) auto
  have v: "parse_value fl m (emit ea v @ s) = Some (v, s)" if "ends_value s" for s
    using 11 that by (intro "11.IH"(1)) (auto simp: m)
  have key: "unescape (escape ea k @ CHR 0x22 # s) = Some (k, s)" for s by (rule unescape_escape)
  have ws: "skip_ws (emit ea v @ s) = emit ea v @ s" for s using 11(3) by (intro skip_ws_emit) simp
  show ?case
  proof (cases kvs)
    case Nil
    then show ?thesis using v[of "CHR ''}'' # r"] by (simp add: m quoted_def key ws)
  next
    case (Cons q qs)
    have "parse_pairs fl m (emit_pairs ea kvs @ r) = Some (kvs, r)"
      using 11 Cons by (intro "11.IH"(2)) (auto simp: m)
    moreover have "skip_ws (emit_pairs ea kvs @ r) = emit_pairs ea kvs @ r"
      using Cons by (cases q) (simp add: quoted_def)
    moreover have "kvs \<noteq> []" using Cons by simp
    ultimately show ?thesis using v[of "CHR '','' # emit_pairs ea kvs @ r"]
      by (simp add: m quoted_def key ws)
  qed
qed simp_all

text \<open>Reading back what was printed gives the value with the keys of its dictionaries in order.\<close>

theorem json_loads_dumps:
  assumes "plain v" and "list_all json_space ws"
  shows "json_loads fl (dumps fr ea v @ ws) = Some (canon v)"
proof -
  let ?e = "emit ea (canon v)"
  have e: "dumps fr ea v = ?e" by (rule dumps_emit[OF assms(1)])
  have p: "plain (canon v)" using assms(1) by (rule plain_canon)
  have "parse_value fl (2 * length (?e @ ws) + 1) (?e @ ws) = Some (canon v, ws)"
    using p ends_value_space[OF assms(2)] by (rule parse_emit(1)) simp
  moreover have "skip_ws (?e @ ws) = ?e @ ws" using p by (rule skip_ws_emit)
  moreover have "skip_ws ws = []" using assms(2) by (simp add: skip_ws_def list_all_iff)
  ultimately show ?thesis by (simp add: json_loads_def e)
qed

end
