(* ===== verification/PatchPaths.thy ===== *)
theory PatchPaths
  imports Archive PyJson
begin

section \<open>The paths that a patch declares\<close>

text \<open>
  \<open>_patch_path\<close> and \<open>_declared_patch_paths\<close> of \<open>core/lil_tweak/openai_agent.py\<close>: the headers of a
  unified diff are read with an account of the lines of every hunk, so that a line of a hunk is
  not taken for a header. The text of the patch is a string of code points below 256.
\<close>

definition sensitive_workspace_components :: "string list" where
  "sensitive_workspace_components = [''.git'', ''.hg'', ''.svn'', ''.ssh'', ''.aws'', ''.gnupg'',
     ''.npmrc'', ''.pypirc'', ''credentials'', ''id_rsa'', ''id_ed25519'']"

definition sensitive_workspace_component :: "string \<Rightarrow> bool" where
  "sensitive_workspace_component component =
     (let v = casefold component in
      if v \<in> set sensitive_workspace_components then True
      else v = ''.env'' \<or> (starts_with ''.env.'' v \<and> v \<notin> {''.env.example'', ''.env.sample''}))"

text \<open>\<open>str.splitlines()\<close> below code point 256; \<open>after_cr\<close> drops the line feed of a pair.\<close>

definition line_break :: "char \<Rightarrow> bool" where
  "line_break c \<longleftrightarrow> c \<in> {CHR 0x0A, CHR 0x0B, CHR 0x0C, CHR 0x0D, CHR 0x1C, CHR 0x1D, CHR 0x1E, CHR 0x85}"

fun text_lines :: "bool \<Rightarrow> string \<Rightarrow> string \<Rightarrow> string list" where
  "text_lines after_cr line [] = (if line = [] then [] else [line])"
| "text_lines after_cr line (c # s) =
     (if after_cr \<and> c = CHR 0x0A then text_lines False [] s
      else if line_break c then line # text_lines (c = CHR 0x0D) [] s
      else text_lines False (line @ [c]) s)"

text \<open>\<open>None\<close> is the \<open>ValueError\<close>; \<open>Some None\<close> is \<open>/dev/null\<close>.\<close>

definition patch_path :: "string \<Rightarrow> string \<Rightarrow> string option option" where
  "patch_path header prefix =
     (let raw = takeWhile (\<lambda>c. c \<noteq> CHR 0x09) (drop 4 header) in
      if raw = ''/dev/null'' then Some None
      else if \<not> starts_with prefix raw then None
      else
        let relative = drop 2 raw in
        case validate_portable_path relative default_limits of
          Inl e \<Rightarrow> None
        | Inr portable \<Rightarrow> if portable \<noteq> relative then None else Some (Some portable))"

text \<open>\<open>_HUNK_HEADER\<close>: the two line counts, where there are any. The range of one side is its first
  line and perhaps a count.\<close>

definition hunk_range :: "string \<Rightarrow> (string option \<times> string) option" where
  "hunk_range s =
     (let first = takeWhile is_digit s; r = dropWhile is_digit s in
      if first = [] then None
      else case r of [] \<Rightarrow> Some (None, r)
      | c # u \<Rightarrow>
          if c = CHR '','' \<and> takeWhile is_digit u \<noteq> []
          then Some (Some (takeWhile is_digit u), dropWhile is_digit u) else Some (None, r))"

definition hunk_header :: "string \<Rightarrow> (string option \<times> string option) option" where
  "hunk_header line =
     (if \<not> starts_with ''@@ -'' line then None
      else case hunk_range (drop 4 line) of None \<Rightarrow> None
      | Some (prior, r) \<Rightarrow>
          if \<not> starts_with '' +'' r then None
          else (case hunk_range (drop 2 r) of None \<Rightarrow> None
            | Some (after, t) \<Rightarrow> if t = '' @@'' \<or> starts_with '' @@ '' t then Some (prior, after) else None))"

definition hunk_count :: "string option \<Rightarrow> int" where
  "hunk_count c = (case c of None \<Rightarrow> 1 | Some digits \<Rightarrow> int (read_nat digits))"

text \<open>The lines of a hunk; the result are the lines after it.\<close>

definition skip_no_newline :: "string list \<Rightarrow> string list" where
  "skip_no_newline rest = (case rest of [] \<Rightarrow> []
     | line # lines \<Rightarrow> if starts_with ([CHR 0x5C] @ '' No newline'') line then lines else rest)"

lemma length_skip_no_newline [simp]: "length (skip_no_newline ls) \<le> length ls"
  by (simp add: skip_no_newline_def split: list.splits)

function hunk_lines :: "int \<Rightarrow> int \<Rightarrow> string list \<Rightarrow> string list option" where
  "hunk_lines prior after lines =
     (if prior = 0 \<and> after = 0 then Some lines
      else if lines = [] then None
      else if hd lines = [] then None
      else
        let marker = hd (hd lines);
            prior' = (if marker = CHR '' '' \<or> marker = CHR ''-'' then prior - 1 else prior);
            after' = (if marker = CHR '' '' \<or> marker = CHR ''+'' then after - 1 else after)
        in if marker \<noteq> CHR '' '' \<and> marker \<noteq> CHR ''-'' \<and> marker \<noteq> CHR ''+'' then None
           else if prior' < 0 \<or> after' < 0 then None
           else hunk_lines prior' after' (skip_no_newline (tl lines)))"
  by pat_completeness auto
termination
  by (relation "measure (\<lambda>(prior, after, ls). length ls)")
    (auto intro: le_less_trans[OF length_skip_no_newline])

declare hunk_lines.simps [simp del]

lemma hunk_lines_shorter: "hunk_lines prior after ls = Some r \<Longrightarrow> length r \<le> length ls"
proof (induction prior after ls rule: hunk_lines.induct)
  case (1 prior after ls)
  have tail: "length (skip_no_newline (tl ls)) \<le> length ls"
    by (rule le_trans[OF length_skip_no_newline]) simp
  define b where "b = (if hd (hd ls) = CHR '' '' \<or> hd (hd ls) = CHR ''-'' then prior - 1 else prior)"
  define a where "a = (if hd (hd ls) = CHR '' '' \<or> hd (hd ls) = CHR ''+'' then after - 1 else after)"
  show ?case
  proof (cases "prior = 0 \<and> after = 0")
    case True
    then show ?thesis using "1.prems" by (simp add: hunk_lines.simps[of 0 0 ls])
  next
    case False
    then have step: "\<not> ls = []" "\<not> hd ls = []"
        "\<not> (hd (hd ls) \<noteq> CHR '' '' \<and> hd (hd ls) \<noteq> CHR ''-'' \<and> hd (hd ls) \<noteq> CHR ''+'')" "\<not> (b < 0 \<or> a < 0)"
        "hunk_lines b a (skip_no_newline (tl ls)) = Some r"
      using "1.prems" unfolding hunk_lines.simps[of prior after ls] Let_def b_def[symmetric] a_def[symmetric]
      by (auto split: if_split_asm)
    from "1.IH"[OF False step(1,2) refl b_def a_def step(3,4) step(5)] tail show ?thesis by simp
  qed
qed

text \<open>The hunks of a file: their number and the lines from the next header on.\<close>

function file_hunks :: "nat \<Rightarrow> string list \<Rightarrow> (nat \<times> string list) option" where
  "file_hunks hunks lines =
     (if lines = [] \<or> starts_with ''--- '' (hd lines) then Some (hunks, lines)
      else if starts_with ''+++ '' (hd lines) then None
      else case hunk_header (hd lines) of
        None \<Rightarrow> file_hunks hunks (tl lines)
      | Some (prior, after) \<Rightarrow>
          (case hunk_lines (hunk_count prior) (hunk_count after) (tl lines) of
             None \<Rightarrow> None
           | Some rest \<Rightarrow> file_hunks (hunks + 1) rest))"
  by pat_completeness auto
termination
  by (relation "measure (\<lambda>(hunks, ls). length ls)") (auto dest!: hunk_lines_shorter simp: le_eq_less_or_eq)

declare file_hunks.simps [simp del]

lemma file_hunks_shorter: "file_hunks hunks ls = Some (n, r) \<Longrightarrow> length r \<le> length ls"
proof (induction hunks ls rule: file_hunks.induct)
  case (1 hunks ls)
  consider "ls = [] \<or> starts_with ''--- '' (hd ls)"
    | "\<not> (ls = [] \<or> starts_with ''--- '' (hd ls))" "starts_with ''+++ '' (hd ls)"
    | "\<not> (ls = [] \<or> starts_with ''--- '' (hd ls))" "\<not> starts_with ''+++ '' (hd ls)" by blast
  then show ?case
  proof cases
    case 1
    then show ?thesis using "1.prems" by (simp add: file_hunks.simps[of hunks ls])
  next
    case 2
    then show ?thesis using "1.prems" by (simp add: file_hunks.simps[of hunks ls])
  next
    case 3
    show ?thesis
    proof (cases "hunk_header (hd ls)")
      case None
      then have "file_hunks hunks (tl ls) = Some (n, r)"
        using "1.prems" 3 by (simp add: file_hunks.simps[of hunks ls])
      from "1.IH"(1)[OF 3 None this] show ?thesis by simp
    next
      case (Some c)
      obtain prior after where c: "c = (prior, after)" by (cases c)
      obtain rest where rest: "hunk_lines (hunk_count prior) (hunk_count after) (tl ls) = Some rest"
        and go: "file_hunks (hunks + 1) rest = Some (n, r)"
        using "1.prems" 3 Some c by (auto simp: file_hunks.simps[of hunks ls] split: option.splits)
      from "1.IH"(2)[OF 3 Some c[symmetric] rest go] hunk_lines_shorter[OF rest] show ?thesis by simp
    qed
  qed
qed

text \<open>The folded paths seen so far with their spelling.\<close>

definition declare_path :: "string option \<Rightarrow> (string, string) dict \<Rightarrow> (string, string) dict option" where
  "declare_path path declared =
     (case path of None \<Rightarrow> Some declared
      | Some p \<Rightarrow>
          (case dget declared (casefold p) of
             Some existing \<Rightarrow> if existing \<noteq> p then None else Some (dset declared (casefold p) p)
           | None \<Rightarrow> Some (dset declared (casefold p) p)))"

definition header_paths :: "string \<Rightarrow> string list \<Rightarrow> (string option \<times> string option) option" where
  "header_paths line rest =
     (case rest of [] \<Rightarrow> None
      | next_line # _ \<Rightarrow>
          if \<not> starts_with ''+++ '' next_line then None
          else (case (patch_path line ''a/'', patch_path next_line ''b/'') of
              (Some prior, Some after) \<Rightarrow>
                if (prior = None) = (after = None) \<and> (prior = None \<or> prior \<noteq> after) then None
                else Some (prior, after)
            | _ \<Rightarrow> None))"

function declare_files :: "(string, string) dict \<Rightarrow> nat \<Rightarrow> string list \<Rightarrow> ((string, string) dict \<times> nat) option" where
  "declare_files declared pairs lines =
     (if lines = [] then Some (declared, pairs)
      else if starts_with ''+++ '' (hd lines) then None
      else if \<not> starts_with ''--- '' (hd lines) then declare_files declared pairs (tl lines)
      else case header_paths (hd lines) (tl lines) of None \<Rightarrow> None
      | Some (prior, after) \<Rightarrow>
          (case declare_path prior declared of None \<Rightarrow> None
           | Some declared1 \<Rightarrow>
             (case declare_path after declared1 of None \<Rightarrow> None
              | Some declared2 \<Rightarrow>
                (case file_hunks 0 (tl (tl lines)) of None \<Rightarrow> None
                 | Some (hunks, rest) \<Rightarrow>
                     if hunks = 0 then None else declare_files declared2 (pairs + 1) rest))))"
  by pat_completeness auto
termination
  by (relation "measure (\<lambda>(declared, pairs, ls). length ls)") (auto dest!: file_hunks_shorter simp: le_eq_less_or_eq)

declare declare_files.simps [simp del]

definition declared_patch_paths :: "string \<Rightarrow> string list option" where
  "declared_patch_paths patch =
     (case declare_files [] 0 (text_lines False [] patch) of None \<Rightarrow> None
      | Some (declared, pairs) \<Rightarrow> if pairs = 0 then None else Some (dvalues declared))"

subsection \<open>Declared paths are portable\<close>

definition declarations :: "(string, string) dict \<Rightarrow> bool" where
  "declarations d \<longleftrightarrow> dict_ok d \<and> (\<forall>(k, p) \<in> set d. k = casefold p \<and> validate_portable_path p default_limits = Inr p)"

lemma set_dset: "set (dset d k v) \<subseteq> insert (k, v) (set d)"
  by (induction d) (auto split: if_split_asm)

lemma patch_path_portable: "patch_path header prefix = Some (Some p) \<Longrightarrow> validate_portable_path p default_limits = Inr p"
  by (auto simp: patch_path_def Let_def split: if_splits sum.splits)

lemma declare_path_declarations:
  assumes "declare_path path declared = Some d" "declarations declared"
    and "\<And>p. path = Some p \<Longrightarrow> validate_portable_path p default_limits = Inr p"
  shows "declarations d \<and> (path \<noteq> None \<or> declared \<noteq> [] \<longrightarrow> d \<noteq> [])"
proof -
  have dset: "declarations (dset declared (casefold p) p)" if "validate_portable_path p default_limits = Inr p" for p
    using assms(2) that set_dset[of declared "casefold p" p] by (fastforce simp: declarations_def)
  have ne: "dset declared k p \<noteq> []" for k p
    by (cases declared) (auto simp: dset_def)
  show ?thesis
    using assms dset ne by (auto simp: declare_path_def split: option.splits if_splits)
qed

lemma header_paths_portable:
  assumes "header_paths line rest = Some (prior, after)"
  shows "(\<forall>p. prior = Some p \<longrightarrow> validate_portable_path p default_limits = Inr p)
    \<and> (\<forall>p. after = Some p \<longrightarrow> validate_portable_path p default_limits = Inr p) \<and> (prior \<noteq> None \<or> after \<noteq> None)"
  using assms patch_path_portable
  by (auto simp: header_paths_def split: list.splits option.splits if_splits)

lemma declare_files_declarations:
  "declare_files declared pairs ls = Some (d, n) \<Longrightarrow> declarations declared \<Longrightarrow> (0 < pairs \<longrightarrow> declared \<noteq> [])
     \<Longrightarrow> declarations d \<and> (0 < n \<longrightarrow> d \<noteq> [])"
proof (induction declared pairs ls rule: declare_files.induct)
  case (1 declared pairs ls)
  show ?case
  proof (cases "ls = [] \<or> starts_with ''+++ '' (hd ls) \<or> \<not> starts_with ''--- '' (hd ls)")
    case True
    then show ?thesis
      using "1.prems" "1.IH"(1) by (auto simp: declare_files.simps[of declared pairs ls] split: if_splits)
  next
    case False
    then obtain prior after d1 d2 hunks rest where
      h: "header_paths (hd ls) (tl ls) = Some (prior, after)" "declare_path prior declared = Some d1"
        "declare_path after d1 = Some d2" "file_hunks 0 (tl (tl ls)) = Some (hunks, rest)" "hunks \<noteq> 0"
        "declare_files d2 (pairs + 1) rest = Some (d, n)"
      using "1.prems"(1) by (auto simp: declare_files.simps[of declared pairs ls] split: option.splits if_splits prod.splits)
    note portable = header_paths_portable[OF h(1)]
    have d1: "declarations d1 \<and> (prior \<noteq> None \<or> declared \<noteq> [] \<longrightarrow> d1 \<noteq> [])"
      using declare_path_declarations[OF h(2) "1.prems"(2)] portable by blast
    then have d2: "declarations d2 \<and> (after \<noteq> None \<or> d1 \<noteq> [] \<longrightarrow> d2 \<noteq> [])"
      using declare_path_declarations[OF h(3)] portable by blast
    show ?thesis
      using "1.IH"(2)[of "(prior, after)" prior after d1 d2 "(hunks, rest)" hunks rest] False h d1 d2 portable by blast
  qed
qed

text \<open>C38. What the parser returns is well formed: at least one path, each of them a portable
  relative path of the source contract, and no two of them equal up to case.\<close>

theorem declared_patch_paths_portable:
  assumes "declared_patch_paths patch = Some ps"
  shows "ps \<noteq> [] \<and> distinct (map casefold ps) \<and> (\<forall>p \<in> set ps. validate_portable_path p default_limits = Inr p)"
proof -
  obtain d n where d: "declare_files [] 0 (text_lines False [] patch) = Some (d, n)" "n \<noteq> 0" "ps = dvalues d"
    using assms by (auto simp: declared_patch_paths_def split: option.splits if_splits)
  from declare_files_declarations[OF d(1)] d(2) have ok: "declarations d" "d \<noteq> []"
    by (simp_all add: declarations_def)
  have "map casefold ps = map fst d"
    using ok(1) by (auto simp: d(3) dvalues_def declarations_def)
  then have "distinct (map casefold ps)" using ok(1) by (simp only: declarations_def dict_ok_def)
  moreover have "\<forall>p \<in> set ps. validate_portable_path p default_limits = Inr p"
    using ok(1) by (auto simp: d(3) dvalues_def declarations_def)
  ultimately show ?thesis using ok(2) by (simp add: d(3) dvalues_def)
qed

definition tiny_diff :: string where
  "tiny_diff = ''--- a/a.txt'' @ [CHR 0x0A] @ ''+++ b/a.txt'' @ [CHR 0x0A] @ ''@@ -1 +1 @@'' @ [CHR 0x0A]
     @ ''-old'' @ [CHR 0x0A] @ ''+new'' @ [CHR 0x0A]"

theorem declared_patch_paths_portable_witness:
  "declared_patch_paths tiny_diff = Some [''a.txt''] \<and> validate_portable_path ''a.txt'' default_limits = Inr ''a.txt''"
proof
  show declared: "declared_patch_paths tiny_diff = Some [''a.txt'']" by code_simp
  show "validate_portable_path ''a.txt'' default_limits = Inr ''a.txt''"
    using declared_patch_paths_portable[OF declared] by simp
qed

end
