(* ===== verification/WorkRoot.thy ===== *)
theory WorkRoot
  imports EvidenceBundle JsonLoads PatchPaths
begin

section \<open>The work root and its promotion markers\<close>

text \<open>
  The file-system side of \<open>core/lil_tweak/openai_agent.py\<close>. A work root is the directory that
  holds the workspace of a job, the candidates of its patches and the promotion marker, a file
  that says how to recover a promotion that was interrupted. Every access is a primitive that
  consults a schedule of faults: it works, it fails (an \<open>OSError\<close>, with part of its effect), or
  the process dies in it. A crash skips every handler and every \<open>finally\<close>. What reached the file
  system before a crash stays there; the order of writes through a power loss is not modelled.

  The work root itself is a real directory. Files have the metadata that the code looks at.
\<close>

subsection \<open>State\<close>

record meta =
  md_dev :: int
  md_ino :: int
  md_uid :: int
  md_gid :: int
  md_nlink :: int
  md_mode :: "12 word"

datatype wnode = WDir meta "(string \<times> fs) list" | WFile meta string | WLink meta | WOther meta

fun node_meta :: "wnode \<Rightarrow> meta" where
  "node_meta (WDir m es) = m"
| "node_meta (WFile m data) = m"
| "node_meta (WLink m) = m"
| "node_meta (WOther m) = m"

record work_root =
  wr_meta :: meta
  wr_nodes :: "(string, wnode) dict"

datatype shop_failure = RecoveryNeeded string | NotFound | SystemError | CaptureError evidence_error
  | ShopValueError | SandboxError | Crashed

datatype fault = Works | Fails nat | Crashes nat

text \<open>\<open>dc_remains n\<close> is what an interrupted \<open>rmtree\<close> leaves of a directory; inode numbers and the random
  parts of names come from the step at which they are drawn.\<close>

record disk_config =
  dc_fault :: "nat \<Rightarrow> fault"
  dc_remains :: "nat \<Rightarrow> (string \<times> fs) list \<Rightarrow> (string \<times> fs) list option"
  dc_sha :: "string \<Rightarrow> string"
  dc_fr :: "rat \<Rightarrow> string"
  dc_float :: "string \<Rightarrow> pyval"
  dc_uid :: int
  dc_gid :: int
  dc_inode :: "nat \<Rightarrow> int"
  dc_suffix :: "nat \<Rightarrow> string"

record shop =
  sh_disk :: work_root
  sh_step :: nat

type_synonym ('a, 's) shop_outcome = "(shop_failure, 'a, 's shop_scheme) outcome"

definition tick :: "'s shop_scheme \<Rightarrow> 's shop_scheme" where
  "tick st = st\<lparr>sh_step := sh_step st + 1\<rparr>"

subsection \<open>Primitives\<close>

definition look :: "'c disk_config_scheme \<Rightarrow> (work_root \<Rightarrow> shop_failure + 'a) \<Rightarrow> 's shop_scheme
    \<Rightarrow> ('a, 's) shop_outcome" where
  "look cfg f st =
     (case dc_fault cfg (sh_step st) of
        Crashes n \<Rightarrow> (Inl Crashed, st)
      | Fails n \<Rightarrow> (Inl SystemError, tick st)
      | Works \<Rightarrow> (f (sh_disk st), tick st))"

text \<open>\<open>part n\<close> is the effect of the operation when it is interrupted.\<close>

definition alter :: "'c disk_config_scheme \<Rightarrow> (work_root \<Rightarrow> shop_failure + work_root)
    \<Rightarrow> (nat \<Rightarrow> work_root \<Rightarrow> work_root) \<Rightarrow> 's shop_scheme \<Rightarrow> (unit, 's) shop_outcome" where
  "alter cfg f part st =
     (case dc_fault cfg (sh_step st) of
        Crashes n \<Rightarrow> (Inl Crashed, st\<lparr>sh_disk := part n (sh_disk st)\<rparr>)
      | Fails n \<Rightarrow> (Inl SystemError, (tick st)\<lparr>sh_disk := part n (sh_disk st)\<rparr>)
      | Works \<Rightarrow> (case f (sh_disk st) of Inl e \<Rightarrow> (Inl e, tick st) | Inr d \<Rightarrow> (Inr (), (tick st)\<lparr>sh_disk := d\<rparr>)))"

definition atomically :: "(work_root \<Rightarrow> shop_failure + work_root) \<Rightarrow> nat \<Rightarrow> work_root \<Rightarrow> work_root" where
  "atomically f n d = (if n = 0 then d else case f d of Inl e \<Rightarrow> d | Inr d' \<Rightarrow> d')"

text \<open>\<open>except OSError\<close>, \<open>except (OSError, WorkspaceEvidenceError)\<close> and \<open>except WorkspaceEvidenceError\<close>.\<close>

definition on_os_error :: "('a, 's) shop_outcome \<Rightarrow> ('s shop_scheme \<Rightarrow> ('a, 's) shop_outcome) \<Rightarrow> ('a, 's) shop_outcome" where
  "on_os_error r h = (case r of (Inl NotFound, s) \<Rightarrow> h s | (Inl SystemError, s) \<Rightarrow> h s | _ \<Rightarrow> r)"

definition on_capture_error :: "('a, 's) shop_outcome \<Rightarrow> ('s shop_scheme \<Rightarrow> ('a, 's) shop_outcome) \<Rightarrow> ('a, 's) shop_outcome" where
  "on_capture_error r h = (case r of (Inl (CaptureError e), s) \<Rightarrow> h s | _ \<Rightarrow> r)"

definition recovery_required :: "'s shop_scheme \<Rightarrow> ('a, 's) shop_outcome" where
  "recovery_required st = (Inl (RecoveryNeeded ''patch_reconciliation_required''), st)"

definition cleanup_required :: "'s shop_scheme \<Rightarrow> ('a, 's) shop_outcome" where
  "cleanup_required st = (Inl (RecoveryNeeded ''patch_cleanup_failed''), st)"

definition lstat :: "'c disk_config_scheme \<Rightarrow> string \<Rightarrow> 's shop_scheme \<Rightarrow> (wnode, 's) shop_outcome" where
  "lstat cfg name = look cfg (\<lambda>d. case dget (wr_nodes d) name of None \<Rightarrow> Inl NotFound | Some n \<Rightarrow> Inr n)"

definition names_in :: "'c disk_config_scheme \<Rightarrow> 's shop_scheme \<Rightarrow> (string list, 's) shop_outcome" where
  "names_in cfg = look cfg (\<lambda>d. Inr (dkeys (wr_nodes d)))"

definition fsync :: "'c disk_config_scheme \<Rightarrow> 's shop_scheme \<Rightarrow> (unit, 's) shop_outcome" where
  "fsync cfg = look cfg (\<lambda>d. Inr ())"

definition put_node :: "string \<Rightarrow> wnode \<Rightarrow> work_root \<Rightarrow> work_root" where
  "put_node name node d = d\<lparr>wr_nodes := dset (wr_nodes d) name node\<rparr>"

definition drop_node :: "string \<Rightarrow> work_root \<Rightarrow> work_root" where
  "drop_node name d = d\<lparr>wr_nodes := dpop (wr_nodes d) name\<rparr>"

definition unlink :: "'c disk_config_scheme \<Rightarrow> string \<Rightarrow> 's shop_scheme \<Rightarrow> (unit, 's) shop_outcome" where
  "unlink cfg name =
     (let f = (\<lambda>d. case dget (wr_nodes d) name of
          None \<Rightarrow> Inl NotFound | Some (WDir m es) \<Rightarrow> Inl SystemError | Some n \<Rightarrow> Inr (drop_node name d))
      in alter cfg f (atomically f))"

definition partly_removed :: "'c disk_config_scheme \<Rightarrow> string \<Rightarrow> nat \<Rightarrow> work_root \<Rightarrow> work_root" where
  "partly_removed cfg name n d =
     (case dget (wr_nodes d) name of
        Some (WDir m es) \<Rightarrow>
          (case dc_remains cfg n es of None \<Rightarrow> drop_node name d | Some es' \<Rightarrow> put_node name (WDir m es') d)
      | _ \<Rightarrow> d)"

definition rmtree :: "'c disk_config_scheme \<Rightarrow> string \<Rightarrow> 's shop_scheme \<Rightarrow> (unit, 's) shop_outcome" where
  "rmtree cfg name = alter cfg
     (\<lambda>d. case dget (wr_nodes d) name of
        None \<Rightarrow> Inl NotFound | Some (WDir m es) \<Rightarrow> Inr (drop_node name d) | Some n \<Rightarrow> Inl SystemError)
     (partly_removed cfg name)"

text \<open>A new file or directory of the process in the work root.\<close>

definition new_meta :: "'c disk_config_scheme \<Rightarrow> nat \<Rightarrow> 12 word \<Rightarrow> work_root \<Rightarrow> meta" where
  "new_meta cfg step mode d = \<lparr>md_dev = md_dev (wr_meta d), md_ino = dc_inode cfg step, md_uid = dc_uid cfg,
     md_gid = dc_gid cfg, md_nlink = 1, md_mode = mode\<rparr>"

definition create_node :: "'c disk_config_scheme \<Rightarrow> string \<Rightarrow> (meta \<Rightarrow> wnode) \<Rightarrow> 12 word \<Rightarrow> 's shop_scheme
    \<Rightarrow> (unit, 's) shop_outcome" where
  "create_node cfg name node mode st =
     (let f = (\<lambda>d. case dget (wr_nodes d) name of
          None \<Rightarrow> Inr (put_node name (node (new_meta cfg (sh_step st) mode d)) d) | Some n \<Rightarrow> Inl SystemError)
      in alter cfg f (atomically f) st)"

definition write_file :: "'c disk_config_scheme \<Rightarrow> string \<Rightarrow> string \<Rightarrow> 's shop_scheme \<Rightarrow> (unit, 's) shop_outcome" where
  "write_file cfg name data =
     (let store = (\<lambda>bytes d. case dget (wr_nodes d) name of
          Some (WFile m old) \<Rightarrow> Inr (put_node name (WFile m bytes) d) | _ \<Rightarrow> Inl SystemError)
      in alter cfg (store data) (\<lambda>n d. case store (take n data) d of Inl e \<Rightarrow> d | Inr d' \<Rightarrow> d'))"

text \<open>\<open>atomic_publish_noreplace\<close> and \<open>atomic_exchange_directories\<close> of \<open>sandbox.py\<close>: \<open>renameat2\<close> with
  \<open>RENAME_NOREPLACE\<close> and \<open>RENAME_EXCHANGE\<close>.\<close>

definition publish :: "'c disk_config_scheme \<Rightarrow> string \<Rightarrow> string \<Rightarrow> 's shop_scheme \<Rightarrow> (unit, 's) shop_outcome" where
  "publish cfg source destination =
     (let f = (\<lambda>d. case (dget (wr_nodes d) source, dget (wr_nodes d) destination) of
          (Some n, None) \<Rightarrow> if source = destination then Inl SystemError else Inr (put_node destination n (drop_node source d))
        | _ \<Rightarrow> Inl SystemError)
      in alter cfg f (atomically f))"

definition exchange :: "'c disk_config_scheme \<Rightarrow> string \<Rightarrow> string \<Rightarrow> 's shop_scheme \<Rightarrow> (unit, 's) shop_outcome" where
  "exchange cfg left right =
     (let f = (\<lambda>d. case (dget (wr_nodes d) left, dget (wr_nodes d) right) of
          (Some (WDir m1 e1), Some (WDir m2 e2)) \<Rightarrow>
            if left = right \<or> md_dev m1 \<noteq> md_dev m2 then Inl SystemError
            else Inr (put_node left (WDir m2 e2) (put_node right (WDir m1 e1) d))
        | _ \<Rightarrow> Inl SystemError)
      in alter cfg f (atomically f))"

fun node_fs :: "wnode \<Rightarrow> fs" where
  "node_fs (WDir m es) = FsDir es"
| "node_fs (WFile m data) = FsFile (md_nlink m) data"
| "node_fs (WLink m) = FsSymlink"
| "node_fs (WOther m) = FsOther"

text \<open>\<open>capture_workspace(path)\<close>; nobody writes to the directory during the two passes.\<close>

definition snapshot_of :: "(string \<Rightarrow> string) \<Rightarrow> wnode option \<Rightarrow> evidence_error + workspace_snapshot" where
  "snapshot_of sha node =
     (case capture_workspace sha default_capture_limits [] None (map_option node_fs node) (map_option node_fs node) of
        Inl e \<Rightarrow> Inl e | Inr (snapshot, staged) \<Rightarrow> Inr snapshot)"

definition take_snapshot :: "'c disk_config_scheme \<Rightarrow> string \<Rightarrow> 's shop_scheme \<Rightarrow> (workspace_snapshot, 's) shop_outcome" where
  "take_snapshot cfg name st =
     on_os_error
       (look cfg (\<lambda>d. case snapshot_of (dc_sha cfg) (dget (wr_nodes d) name) of
          Inl e \<Rightarrow> Inl (CaptureError e) | Inr s \<Rightarrow> Inr s) st)
       (\<lambda>s. (Inl (CaptureError (WorkspaceEvidenceError ''workspace_changed_during_snapshot'')), s))"

subsection \<open>Names\<close>

definition name_char :: "char \<Rightarrow> bool" where
  "name_char c \<longleftrightarrow> is_alnum c \<or> c = CHR ''_'' \<or> c = CHR ''.'' \<or> c = CHR ''-''"

definition safe_workspace_name :: "string \<Rightarrow> bool" where
  "safe_workspace_name s \<longleftrightarrow> s \<noteq> [] \<and> is_alnum (hd s) \<and> length s \<le> 63 \<and> list_all name_char s"

definition random_suffix :: "string \<Rightarrow> bool" where
  "random_suffix s \<longleftrightarrow> 6 \<le> length s \<and> length s \<le> 16 \<and> list_all (\<lambda>c. is_lower c \<or> is_digit c \<or> c = CHR ''_'') s"

definition marker_suffix :: string where
  "marker_suffix = ''-promotion-v1.json''"

definition promotion_marker_name :: "string \<Rightarrow> string option" where
  "promotion_marker_name workspace =
     (if safe_workspace_name workspace then Some (''.'' @ workspace @ marker_suffix) else None)"

text \<open>\<open>_PROMOTION_MARKER.fullmatch\<close>.\<close>

definition is_marker_name :: "string \<Rightarrow> bool" where
  "is_marker_name s \<longleftrightarrow> starts_with ''.'' s \<and> ends_with marker_suffix s
     \<and> safe_workspace_name (drop 1 (take (length s - length marker_suffix) s))"

text \<open>\<open>_PATCH_REMNANT.fullmatch\<close>: the workspace and the kind of the remnant. The random part has
  neither a hyphen nor a full stop, so it is what follows the last hyphen.\<close>

definition remnant_of :: "string \<Rightarrow> (string \<times> string) option" where
  "remnant_of s =
     (if \<not> starts_with ''.'' s then None
      else
        let body = drop 1 s;
            stem = (if ends_with ''.diff'' body then take (length body - 5) body else body);
            suffix = rev (takeWhile (\<lambda>c. c \<noteq> CHR ''-'') (rev stem));
            front = take (length stem - length suffix) stem
        in if \<not> random_suffix suffix then None
           else case filter (\<lambda>what. ends_with (''-'' @ what @ ''-'') front) [''candidate'', ''patch'', ''promotion-tmp''] of
             [] \<Rightarrow> None
           | what # _ \<Rightarrow>
               let workspace = take (length front - (length what + 2)) front
               in if safe_workspace_name workspace then Some (workspace, what) else None)"

subsection \<open>Promotion markers\<close>

definition marker_fields :: "string list" where
  "marker_fields = [''schema'', ''version'', ''workspace'', ''candidate'', ''before'', ''after'', ''delta_digest'',
     ''journal_entry_digest'']"

definition binding_fields :: "string list" where
  "binding_fields = [''dev'', ''ino'', ''source_digest'']"

text \<open>The binding of a root: device, inode and digest.\<close>

definition binding_of :: "pydict \<Rightarrow> string \<Rightarrow> (int \<times> int \<times> string) option" where
  "binding_of d k =
     (case dget d k of
        Some (PDict b) \<Rightarrow>
          if set (dkeys b) \<noteq> set binding_fields then None
          else (case (dget b ''dev'', dget b ''ino'', dget b ''source_digest'') of
              (Some (PInt dev), Some (PInt ino), Some (PStr digest)) \<Rightarrow>
                if 0 \<le> dev \<and> 0 \<le> ino \<and> hex_of_length 64 digest then Some (dev, ino, digest) else None
            | _ \<Rightarrow> None)
      | _ \<Rightarrow> None)"

definition digest_of :: "pydict \<Rightarrow> string \<Rightarrow> string option" where
  "digest_of d k = (case dget d k of Some (PStr s) \<Rightarrow> if hex_of_length 64 s then Some s else None | _ \<Rightarrow> None)"

definition candidate_of :: "string \<Rightarrow> string \<Rightarrow> bool" where
  "candidate_of workspace candidate \<longleftrightarrow>
     (let prefix = ''.'' @ workspace @ ''-candidate-''
      in starts_with prefix candidate \<and> random_suffix (drop (length prefix) candidate))"

text \<open>What a valid marker says.\<close>

record promotion_marker =
  pm_workspace :: string
  pm_candidate :: string
  pm_before :: "int \<times> int \<times> string"
  pm_after :: "int \<times> int \<times> string"
  pm_delta_digest :: string
  pm_journal_digest :: string

definition validate_promotion_marker :: "pyval \<Rightarrow> promotion_marker option" where
  "validate_promotion_marker v =
     (case v of
        PDict d \<Rightarrow>
          if set (dkeys d) \<noteq> set marker_fields then None
          else if dget d ''schema'' \<noteq> Some (PStr ''lil-tweak-promotion'') \<or> dget d ''version'' \<noteq> Some (PInt 1) then None
          else (case (dget d ''workspace'', dget d ''candidate'', binding_of d ''before'', binding_of d ''after'',
                digest_of d ''delta_digest'', digest_of d ''journal_entry_digest'') of
              (Some (PStr workspace), Some (PStr candidate), Some prior, Some after, Some delta, Some journal) \<Rightarrow>
                if \<not> safe_workspace_name workspace \<or> \<not> candidate_of workspace candidate
                   \<or> fst prior \<noteq> fst after \<or> fst (snd prior) = fst (snd after) then None
                else Some \<lparr>pm_workspace = workspace, pm_candidate = candidate, pm_before = prior, pm_after = after,
                  pm_delta_digest = delta, pm_journal_digest = journal\<rparr>
            | _ \<Rightarrow> None)
      | _ \<Rightarrow> None)"

definition canonical_promotion_marker :: "(rat \<Rightarrow> string) \<Rightarrow> pydict \<Rightarrow> string option" where
  "canonical_promotion_marker fr d =
     (if validate_promotion_marker (PDict d) = None then None
      else
        let encoded = dumps fr False (PDict d) @ [CHR 0x0A]
        in if 4096 < int (length encoded) then None else Some encoded)"

definition root_binding :: "meta \<Rightarrow> string \<Rightarrow> pyval" where
  "root_binding m source_digest = PDict [(''dev'', PInt (md_dev m)), (''ino'', PInt (md_ino m)),
     (''source_digest'', PStr source_digest)]"

text \<open>The same owner as the work root.\<close>

definition same_owner :: "meta \<Rightarrow> meta \<Rightarrow> bool" where
  "same_owner m parent \<longleftrightarrow> md_uid m = md_uid parent \<and> md_gid m = md_gid parent"

text \<open>What a marker file that was read says; the name has to be the one of its workspace.\<close>

definition marker_content :: "'c disk_config_scheme \<Rightarrow> string \<Rightarrow> string \<Rightarrow> promotion_marker option" where
  "marker_content cfg name data =
     (case json_loads (dc_float cfg) data of
        Some (PDict d) \<Rightarrow>
          (case validate_promotion_marker (PDict d) of None \<Rightarrow> None
           | Some v \<Rightarrow>
             if canonical_promotion_marker (dc_fr cfg) d \<noteq> Some data then None
             else if promotion_marker_name (pm_workspace v) \<noteq> Some name then None
             else Some v)
      | _ \<Rightarrow> None)"

definition read_promotion_marker :: "'c disk_config_scheme \<Rightarrow> string \<Rightarrow> 's shop_scheme
    \<Rightarrow> (promotion_marker, 's) shop_outcome" where
  "read_promotion_marker cfg name st =
     bind_op (on_os_error (lstat cfg name st) recovery_required) (\<lambda>node st.
       let parent = wr_meta (sh_disk st) in
       case node of
         WFile m data \<Rightarrow>
           if md_nlink m \<noteq> 1 \<or> \<not> same_owner m parent \<or> md_mode m \<noteq> 0x180 \<or> 4096 < int (length data)
           then recovery_required st
           else bind_op (on_os_error (look cfg (\<lambda>d. Inr ()) st) recovery_required) (\<lambda>_ st.
             case marker_content cfg name data of None \<Rightarrow> recovery_required st | Some v \<Rightarrow> (Inr v, st))
       | _ \<Rightarrow> recovery_required st)"

text \<open>The layout that a marker describes: prepared (before the exchange) or committed (after it).\<close>

record promotion_layout =
  pl_marker :: string
  pl_value :: promotion_marker
  pl_committed :: bool

definition identity :: "meta \<Rightarrow> int \<times> int" where
  "identity m = (md_dev m, md_ino m)"

definition bound_to :: "int \<times> int \<times> string \<Rightarrow> meta \<Rightarrow> string \<Rightarrow> bool" where
  "bound_to b m digest \<longleftrightarrow> b = (md_dev m, md_ino m, digest)"

definition ordinary_dir :: "wnode \<Rightarrow> meta \<Rightarrow> bool" where
  "ordinary_dir node parent \<longleftrightarrow>
     (case node of WDir m es \<Rightarrow> same_owner m parent \<and> md_dev m = md_dev parent | _ \<Rightarrow> False)"

definition classify_promotion_marker :: "'c disk_config_scheme \<Rightarrow> string \<Rightarrow> 's shop_scheme
    \<Rightarrow> (promotion_layout, 's) shop_outcome" where
  "classify_promotion_marker cfg name st =
     bind_op (read_promotion_marker cfg name st) (\<lambda>v st.
     bind_op (on_os_error (lstat cfg (pm_workspace v) st) recovery_required) (\<lambda>workspace st.
       if \<not> ordinary_dir workspace (wr_meta (sh_disk st)) then recovery_required st
       else bind_op (on_capture_error (take_snapshot cfg (pm_workspace v) st) recovery_required) (\<lambda>snapshot st.
         let m = node_meta workspace;
             prepared = bound_to (pm_before v) m (ws_source_digest snapshot);
             committed = bound_to (pm_after v) m (ws_source_digest snapshot);
             expected = (if prepared then pm_after v else pm_before v)
         in if \<not> prepared \<and> \<not> committed then recovery_required st
            else bind_op (case lstat cfg (pm_candidate v) st of
                (Inl NotFound, st) \<Rightarrow> (Inr None, st)
              | (Inl SystemError, st) \<Rightarrow> recovery_required st
              | (Inl e, st) \<Rightarrow> (Inl e, st)
              | (Inr node, st) \<Rightarrow> (Inr (Some node), st))
            (\<lambda>candidate st.
              if (case candidate of None \<Rightarrow> False
                  | Some node \<Rightarrow> \<not> ordinary_dir node (wr_meta (sh_disk st))
                      \<or> identity (node_meta node) \<noteq> (fst expected, fst (snd expected)))
              then recovery_required st
              else (Inr \<lparr>pl_marker = name, pl_value = v, pl_committed = \<not> prepared\<rparr>, st)))))"

subsection \<open>Reconciliation\<close>

fun classify_all :: "'c disk_config_scheme \<Rightarrow> string list \<Rightarrow> 's shop_scheme \<Rightarrow> (promotion_layout list, 's) shop_outcome" where
  "classify_all cfg [] st = (Inr [], st)"
| "classify_all cfg (name # names) st =
     bind_op (classify_promotion_marker cfg name st) (\<lambda>l st.
     bind_op (classify_all cfg names st) (\<lambda>ls st. (Inr (l # ls), st)))"

definition distinct_layouts :: "promotion_layout list \<Rightarrow> bool" where
  "distinct_layouts ls \<longleftrightarrow> distinct (map (\<lambda>l. casefold (pm_workspace (pl_value l))) ls)
     \<and> distinct (map (\<lambda>l. casefold (pm_candidate (pl_value l))) ls)"

definition remove_candidate :: "'c disk_config_scheme \<Rightarrow> string \<Rightarrow> 's shop_scheme \<Rightarrow> (unit, 's) shop_outcome" where
  "remove_candidate cfg name st =
     (case lstat cfg name st of
        (Inl NotFound, st) \<Rightarrow> (Inr (), st)
      | (Inl SystemError, st) \<Rightarrow> recovery_required st
      | (Inl e, st) \<Rightarrow> (Inl e, st)
      | (Inr node, st) \<Rightarrow> on_os_error (rmtree cfg name st) recovery_required)"

fun resolve_layouts :: "'c disk_config_scheme \<Rightarrow> promotion_layout list \<Rightarrow> 's shop_scheme \<Rightarrow> (unit, 's) shop_outcome" where
  "resolve_layouts cfg [] st = (Inr (), st)"
| "resolve_layouts cfg (l # ls) st =
     bind_op (remove_candidate cfg (pm_candidate (pl_value l)) st) (\<lambda>_ st.
     bind_op (on_os_error (bind_op (fsync cfg st) (\<lambda>_ st. bind_op (unlink cfg (pl_marker l) st) (\<lambda>_ st. fsync cfg st)))
       recovery_required) (\<lambda>_ st. resolve_layouts cfg ls st))"

definition reconcile_promotion_markers_locked :: "'c disk_config_scheme \<Rightarrow> 's shop_scheme
    \<Rightarrow> (promotion_layout list, 's) shop_outcome" where
  "reconcile_promotion_markers_locked cfg st =
     bind_op (on_os_error (names_in cfg st) recovery_required) (\<lambda>names st.
     bind_op (classify_all cfg (sort (filter is_marker_name names)) st) (\<lambda>layouts st.
       if \<not> distinct_layouts layouts then recovery_required st
       else bind_op (resolve_layouts cfg layouts st) (\<lambda>_ st. (Inr layouts, st))))"

text \<open>\<open>_work_root_lock\<close>: opening, and so perhaps creating, the lock file and its checks. Cooperating
  processes exclude each other; releasing the lock changes nothing.\<close>

definition lock_name :: string where
  "lock_name = ''.promotion.lock''"

definition open_lock :: "'c disk_config_scheme \<Rightarrow> 's shop_scheme \<Rightarrow> (unit, 's) shop_outcome" where
  "open_lock cfg st =
     (let f = (\<lambda>d. case dget (wr_nodes d) lock_name of
          None \<Rightarrow> Inr (put_node lock_name (WFile (new_meta cfg (sh_step st) 0x180 d) []) d)
        | Some (WFile m data) \<Rightarrow> Inr d
        | Some (WOther m) \<Rightarrow> Inr d
        | Some n \<Rightarrow> Inl SystemError)
      in alter cfg f (atomically f) st)"

definition work_root_lock :: "'c disk_config_scheme \<Rightarrow> 's shop_scheme \<Rightarrow> (unit, 's) shop_outcome" where
  "work_root_lock cfg st =
     bind_op (on_os_error (open_lock cfg st) recovery_required) (\<lambda>_ st.
     bind_op (on_os_error (lstat cfg lock_name st) recovery_required) (\<lambda>node st.
       case node of
         WFile m data \<Rightarrow>
           if md_nlink m \<noteq> 1 \<or> \<not> same_owner m (wr_meta (sh_disk st)) \<or> md_mode m \<noteq> 0x180
           then recovery_required st else (Inr (), st)
       | _ \<Rightarrow> recovery_required st))"

definition reconcile_promotion_markers :: "'c disk_config_scheme \<Rightarrow> 's shop_scheme
    \<Rightarrow> (bool list, 's) shop_outcome" where
  "reconcile_promotion_markers cfg st =
     bind_op (work_root_lock cfg st) (\<lambda>_ st.
     bind_op (reconcile_promotion_markers_locked cfg st) (\<lambda>layouts st. (Inr (map pl_committed layouts), st)))"

subsection \<open>Ordinary remnants\<close>

fun read_markers :: "'c disk_config_scheme \<Rightarrow> string list \<Rightarrow> 's shop_scheme \<Rightarrow> (unit, 's) shop_outcome" where
  "read_markers cfg [] st = (Inr (), st)"
| "read_markers cfg (name # names) st =
     bind_op (read_promotion_marker cfg name st) (\<lambda>_ st. read_markers cfg names st)"

definition valid_remnant :: "string \<Rightarrow> wnode \<Rightarrow> meta \<Rightarrow> bool" where
  "valid_remnant what node parent \<longleftrightarrow>
     same_owner (node_meta node) parent \<and> (md_mode (node_meta node) AND 0x12) = 0
     \<and> (case node of
          WDir m es \<Rightarrow> what = ''candidate'' \<and> md_dev m = md_dev parent
        | WFile m data \<Rightarrow> (what = ''patch'' \<or> what = ''promotion-tmp'') \<and> md_nlink m = 1
        | _ \<Rightarrow> False)"

fun select_remnants :: "'c disk_config_scheme \<Rightarrow> string option \<Rightarrow> string list \<Rightarrow> 's shop_scheme
    \<Rightarrow> ((string \<times> string) list, 's) shop_outcome" where
  "select_remnants cfg workspace [] st = (Inr [], st)"
| "select_remnants cfg workspace (name # names) st =
     (case remnant_of name of
        None \<Rightarrow> select_remnants cfg workspace names st
      | Some (w, what) \<Rightarrow>
          if (case workspace of None \<Rightarrow> False | Some x \<Rightarrow> w \<noteq> x) then select_remnants cfg workspace names st
          else bind_op (on_os_error (lstat cfg name st) cleanup_required) (\<lambda>node st.
            if \<not> valid_remnant what node (wr_meta (sh_disk st)) then cleanup_required st
            else bind_op (select_remnants cfg workspace names st) (\<lambda>rest st. (Inr ((name, what) # rest), st))))"

fun remove_remnants :: "'c disk_config_scheme \<Rightarrow> (string \<times> string) list \<Rightarrow> 's shop_scheme \<Rightarrow> (unit, 's) shop_outcome" where
  "remove_remnants cfg [] st = (Inr (), st)"
| "remove_remnants cfg ((name, what) # rest) st =
     bind_op (if what = ''candidate'' then rmtree cfg name st else unlink cfg name st)
       (\<lambda>_ st. remove_remnants cfg rest st)"

definition cleanup_patch_remnants_locked :: "'c disk_config_scheme \<Rightarrow> string option \<Rightarrow> 's shop_scheme
    \<Rightarrow> (unit, 's) shop_outcome" where
  "cleanup_patch_remnants_locked cfg workspace st =
     bind_op (on_os_error (names_in cfg st) cleanup_required) (\<lambda>names st.
       let markers = filter is_marker_name names in
       if markers \<noteq> [] then bind_op (read_markers cfg markers st) (\<lambda>_ st. recovery_required st)
       else bind_op (select_remnants cfg workspace names st) (\<lambda>selected st.
         on_os_error (remove_remnants cfg selected st) cleanup_required))"

definition cleanup_patch_remnants :: "'c disk_config_scheme \<Rightarrow> string option \<Rightarrow> 's shop_scheme \<Rightarrow> (unit, 's) shop_outcome" where
  "cleanup_patch_remnants cfg workspace st =
     bind_op (work_root_lock cfg st) (\<lambda>_ st. cleanup_patch_remnants_locked cfg workspace st)"

end
