(* ===== verification/PatchTools.thy ===== *)
theory PatchTools
  imports WorkRoot AgentLoop
begin

section \<open>The workspace tools\<close>

text \<open>
  \<open>WorkspaceTools\<close> of \<open>core/lil_tweak/openai_agent.py\<close>: the record of the commands and the journal of
  the edits with their capacities, and the promotion of a patch. A patch is applied to a candidate
  copy by the sandbox, the change is compared with the paths that the patch declares, the journal
  entry is fixed, a marker is published, and one atomic exchange makes the candidate the
  workspace. The sandbox is a parameter, and \<open>tc_hook\<close> is what happens at \<open>_pre_exchange_hook\<close>.
\<close>

record command_result =
  cr_exit_code :: "int option"
  cr_stdout :: string
  cr_stderr :: string
  cr_timed_out :: bool
  cr_truncated :: bool

definition plain_result :: "string \<Rightarrow> command_result" where
  "plain_result message = \<lparr>cr_exit_code = None, cr_stdout = [], cr_stderr = message, cr_timed_out = False,
     cr_truncated = False\<rparr>"

text \<open>\<open>sb_stage interrupted patch candidate\<close> is \<open>stage_patch_candidate\<close>: it may write to the work root,
  and \<open>None\<close> is an exception. \<open>interrupted\<close> says where a failure or a crash stops it.\<close>

record 'e sandbox =
  sb_lifecycle_failed :: "'e \<Rightarrow> bool"
  sb_output_limit :: int
  sb_stage :: "nat option \<Rightarrow> string \<Rightarrow> string \<Rightarrow> 'e \<times> work_root \<Rightarrow> command_result option \<times> ('e \<times> work_root)"
  sb_run :: "string list \<Rightarrow> pyval \<Rightarrow> 'e \<Rightarrow> (tool_failure + command_result) \<times> 'e"

record 'e tools_config = disk_config +
  tc_name :: string
  tc_sandbox :: "'e sandbox option"
  tc_hook :: "string \<Rightarrow> work_root \<Rightarrow> work_root"
  tc_max_read_bytes :: int
  tc_max_patch_bytes :: int
  tc_max_observations :: int
  tc_max_observed_output_bytes :: int

text \<open>The attributes of the tools, and the local variables \<open>patch_descriptor\<close> (open or not) and
  \<open>candidate_safe_to_remove\<close> of \<open>_apply_patch\<close>.\<close>

record 'e workshop = shop +
  ws_env :: 'e
  ws_observations :: "observation list"
  ws_observed_bytes :: int
  ws_observations_closed :: bool
  ws_terminal_recorded :: bool
  ws_journal :: "pydict list"
  ws_journal_closed :: bool
  ws_cleanup_failed :: bool
  ws_descriptor_open :: bool
  ws_candidate_safe :: bool

type_synonym ('a, 'e) tool_outcome = "(shop_failure, 'a, 'e workshop) outcome"

definition tools_init :: "'e tools_config \<Rightarrow> 'e \<Rightarrow> work_root \<Rightarrow> nat \<Rightarrow> 'e workshop option" where
  "tools_init cfg e d step =
     (case dget (wr_nodes d) (tc_name cfg) of
        Some (WDir m es) \<Rightarrow>
          if tc_max_observations cfg < 1 \<or> tc_max_observed_output_bytes cfg < 0 then None
          else Some \<lparr>sh_disk = d, sh_step = step, ws_env = e, ws_observations = [], ws_observed_bytes = 0,
            ws_observations_closed = False, ws_terminal_recorded = False, ws_journal = [],
            ws_journal_closed = False, ws_cleanup_failed = False, ws_descriptor_open = False,
            ws_candidate_safe = True\<rparr>
      | _ \<Rightarrow> None)"

definition lifecycle_failed :: "'e tools_config \<Rightarrow> 'e workshop \<Rightarrow> bool" where
  "lifecycle_failed cfg st =
     (case tc_sandbox cfg of None \<Rightarrow> False | Some s \<Rightarrow> sb_lifecycle_failed s (ws_env st))"

subsection \<open>Observed commands\<close>

text \<open>\<open>_observe\<close>: the output is kept up to the bytes that are left.\<close>

definition record_observation :: "'e tools_config \<Rightarrow> string \<Rightarrow> string list \<Rightarrow> command_result \<Rightarrow> 'e workshop \<Rightarrow> 'e workshop" where
  "record_observation cfg operation command result st =
     (if tc_max_observations cfg \<le> int (length (ws_observations st)) then st
      else
        let left = max 0 (tc_max_observed_output_bytes cfg - ws_observed_bytes st);
            out = decode_prefix (nat left) (cr_stdout result);
            err = decode_prefix (nat (left - int (length out))) (cr_stderr result);
            clipped = (out \<noteq> cr_stdout result \<or> err \<noteq> cr_stderr result)
        in st\<lparr>ws_observed_bytes := ws_observed_bytes st + int (length out + length err),
             ws_observations := ws_observations st @
               [\<lparr>ob_operation = Some operation, ob_command = Some command, ob_exit_code = cr_exit_code result,
                 ob_timed_out = cr_timed_out result, ob_truncated = (cr_truncated result \<or> clipped),
                 ob_stdout = Some out, ob_stderr = Some err\<rparr>]\<rparr>)"

text \<open>\<open>_admit_observation\<close>: whether another command fits, with one observation in reserve.\<close>

definition admit_observation :: "'e tools_config \<Rightarrow> 'e workshop \<Rightarrow> bool \<times> 'e workshop" where
  "admit_observation cfg st =
     (if ws_observations_closed st then (False, st)
      else
        let per_execution = (case tc_sandbox cfg of None \<Rightarrow> 2 * 1024 * 1024 | Some s \<Rightarrow> sb_output_limit s)
        in if tc_max_observations cfg \<le> int (length (ws_observations st)) + 1
              \<or> tc_max_observed_output_bytes cfg < ws_observed_bytes st + per_execution
           then (False, st\<lparr>ws_observations_closed := True\<rparr>) else (True, st))"

definition observation_capacity_result :: "'e tools_config \<Rightarrow> string \<Rightarrow> string list \<Rightarrow> 'e workshop
    \<Rightarrow> command_result \<times> 'e workshop" where
  "observation_capacity_result cfg operation command st =
     (let result = plain_result ''observation_capacity'' in
      if ws_terminal_recorded st then (result, st)
      else (result, (record_observation cfg operation command result st)\<lparr>ws_terminal_recorded := True\<rparr>))"

subsection \<open>The journal of edits\<close>

definition opt_int :: "int option \<Rightarrow> pyval" where
  "opt_int n = (case n of None \<Rightarrow> PNone | Some i \<Rightarrow> PInt i)"

definition journal_entry :: "nat \<Rightarrow> string \<Rightarrow> string \<Rightarrow> string list \<Rightarrow> string \<Rightarrow> string \<Rightarrow> command_result
    \<Rightarrow> string option \<Rightarrow> pydict" where
  "journal_entry ordinal prior after paths delta outcome result rejection =
     [(''ordinal'', PInt (int ordinal)), (''before_source_digest'', PStr prior),
      (''after_source_digest'', PStr after), (''actual_changed_paths'', PList (map (PStr \<circ> utf8) paths)),
      (''delta_digest'', PStr delta), (''result'', PStr outcome), (''exit_code'', opt_int (cr_exit_code result)),
      (''timed_out'', PBool (cr_timed_out result)), (''truncated'', PBool (cr_truncated result)),
      (''rejection_code'', case rejection of None \<Rightarrow> PNone | Some c \<Rightarrow> PStr c)]"

definition journal_evidence :: "'e tools_config \<Rightarrow> pydict list \<Rightarrow> evidence_error + pydict" where
  "journal_evidence cfg entries = build_edit_journal_evidence (dc_sha cfg) (dc_fr cfg) 128 20000 (64 * 1024) entries"

definition zero_digest :: string where
  "zero_digest = replicate 64 (CHR ''0'')"

definition sentinel_entry :: "nat \<Rightarrow> pydict" where
  "sentinel_entry ordinal = journal_entry ordinal zero_digest zero_digest [] zero_digest ''rejected''
     (plain_result []) (Some ''edit_journal_capacity'')"

text \<open>\<open>_check_journal_capacity\<close>: \<open>None\<close> when the entry and one last rejection fit.\<close>

definition journal_capacity_error :: "'e tools_config \<Rightarrow> pydict \<Rightarrow> 'e workshop \<Rightarrow> evidence_error option" where
  "journal_capacity_error cfg entry st =
     (if ws_journal_closed st then Some (WorkspaceEvidenceError ''edit_journal_capacity'')
      else case journal_evidence cfg (ws_journal st @ [entry, sentinel_entry (length (ws_journal st) + 1)]) of
        Inl e \<Rightarrow> Some e | Inr _ \<Rightarrow> None)"

definition journal_can_fit_declared :: "'e tools_config \<Rightarrow> workspace_snapshot \<Rightarrow> string list \<Rightarrow> 'e workshop \<Rightarrow> bool" where
  "journal_can_fit_declared cfg prior declared st \<longleftrightarrow>
     journal_capacity_error cfg (journal_entry (length (ws_journal st)) (ws_source_digest prior) zero_digest
       (sort declared) zero_digest ''rejected'' \<lparr>cr_exit_code = Some (- 2147483648), cr_stdout = [], cr_stderr = [],
         cr_timed_out = True, cr_truncated = True\<rparr> (Some (replicate 64 (CHR ''x'')))) st = None"

record patch_reply =
  pr_result :: command_result
  pr_promoted :: bool
  pr_rejection_code :: "string option"

definition delta_of :: "'e tools_config \<Rightarrow> workspace_snapshot \<Rightarrow> workspace_snapshot \<Rightarrow> string list \<Rightarrow> 'e workshop
    \<Rightarrow> (string, 'e) tool_outcome" where
  "delta_of cfg prior after paths st =
     (case workspace_delta_digest (dc_sha cfg) (dc_fr cfg) prior after paths of
        Inl e \<Rightarrow> (Inl (CaptureError e), st) | Inr s \<Rightarrow> (Inr s, st))"

definition close_journal :: "'e tools_config \<Rightarrow> workspace_snapshot \<Rightarrow> 'e workshop \<Rightarrow> (patch_reply, 'e) tool_outcome" where
  "close_journal cfg prior st =
     bind_op (delta_of cfg prior prior [] st) (\<lambda>delta st.
       let result = plain_result ''edit_journal_capacity'';
           entry = journal_entry (length (ws_journal st)) (ws_source_digest prior) (ws_source_digest prior) []
             delta ''rejected'' result (Some ''edit_journal_capacity'')
       in case journal_evidence cfg (ws_journal st @ [entry]) of
            Inl e \<Rightarrow> (Inl (CaptureError e), st)
          | Inr _ \<Rightarrow> (Inr \<lparr>pr_result = result, pr_promoted = False, pr_rejection_code = Some ''edit_journal_capacity''\<rparr>,
              st\<lparr>ws_journal := ws_journal st @ [entry], ws_journal_closed := True\<rparr>))"

text \<open>\<open>_reject_patch\<close>; \<open>known\<close> is the candidate with the changed paths and their digest, if there are any.\<close>

definition reject_patch :: "'e tools_config \<Rightarrow> workspace_snapshot \<Rightarrow> string \<Rightarrow> command_result
    \<Rightarrow> (workspace_snapshot \<times> string list \<times> string) option \<Rightarrow> 'e workshop \<Rightarrow> (patch_reply, 'e) tool_outcome" where
  "reject_patch cfg prior code result known st =
     bind_op (case known of
         None \<Rightarrow> bind_op (delta_of cfg prior prior [] st) (\<lambda>delta st. (Inr (prior, [], delta), st))
       | Some k \<Rightarrow> (Inr k, st))
       (\<lambda>(after, actual, delta) st.
         let entry = journal_entry (length (ws_journal st)) (ws_source_digest prior) (ws_source_digest after)
               actual delta ''rejected'' result (Some code)
         in if journal_capacity_error cfg entry st \<noteq> None then close_journal cfg prior st
            else (Inr \<lparr>pr_result = result, pr_promoted = False, pr_rejection_code = Some code\<rparr>,
              st\<lparr>ws_journal := ws_journal st @ [entry]\<rparr>))"

definition journal_entry_digest :: "'e tools_config \<Rightarrow> pydict \<Rightarrow> string" where
  "journal_entry_digest cfg entry =
     dc_sha cfg (''lil-tweak-edit-entry-v1'' @ [CHR 0x00] @ dumps (dc_fr cfg) False (PDict entry))"

subsection \<open>The recovery marker\<close>

text \<open>\<open>try: r finally: f\<close>; an exception of \<open>f\<close> replaces the outcome.\<close>

definition finally_op :: "('a, 's) shop_outcome \<Rightarrow> ('s shop_scheme \<Rightarrow> (unit, 's) shop_outcome) \<Rightarrow> ('a, 's) shop_outcome" where
  "finally_op r f =
     (case r of
        (Inl Crashed, s) \<Rightarrow> (Inl Crashed, s)
      | (x, s) \<Rightarrow> (case f s of (Inl e, s) \<Rightarrow> (Inl e, s) | (Inr _, s) \<Rightarrow> (x, s)))"

definition unlink_if_there :: "'c disk_config_scheme \<Rightarrow> string \<Rightarrow> 's shop_scheme \<Rightarrow> (unit, 's) shop_outcome" where
  "unlink_if_there cfg name st =
     (case unlink cfg name st of (Inl NotFound, s) \<Rightarrow> (Inr (), s) | r \<Rightarrow> r)"

text \<open>The name of the marker of this workspace.\<close>

definition own_marker :: "'e tools_config \<Rightarrow> string" where
  "own_marker cfg = ''.'' @ tc_name cfg @ marker_suffix"

definition recovery_marker :: "'e tools_config \<Rightarrow> 'e workshop \<Rightarrow> (string, 'e) tool_outcome" where
  "recovery_marker cfg st =
     (if safe_workspace_name (tc_name cfg) then (Inr (own_marker cfg), st) else recovery_required st)"

fun create_secure_marker_temp :: "'e tools_config \<Rightarrow> nat \<Rightarrow> 'e workshop \<Rightarrow> (string, 'e) tool_outcome" where
  "create_secure_marker_temp cfg 0 st = (Inl SystemError, st)"
| "create_secure_marker_temp cfg (Suc attempts) st =
     (let name = ''.'' @ tc_name cfg @ ''-promotion-tmp-'' @ dc_suffix cfg (sh_step st) in
      bind_op (look cfg (\<lambda>d. Inr (dget (wr_nodes d) name = None)) st) (\<lambda>free st.
        if free then bind_op (create_node cfg name (\<lambda>m. WFile m []) 0x180 st) (\<lambda>_ st. (Inr name, st))
        else create_secure_marker_temp cfg attempts st))"

definition create_recovery_marker :: "'e tools_config \<Rightarrow> pydict \<Rightarrow> 'e workshop \<Rightarrow> (unit, 'e) tool_outcome" where
  "create_recovery_marker cfg v st =
     (case canonical_promotion_marker (dc_fr cfg) v of None \<Rightarrow> recovery_required st
      | Some payload \<Rightarrow>
        bind_op (create_secure_marker_temp cfg 16 st) (\<lambda>temporary st.
          finally_op
            (bind_op (write_file cfg temporary payload st) (\<lambda>_ st.
             bind_op (fsync cfg st) (\<lambda>_ st.
             bind_op (recovery_marker cfg st) (\<lambda>marker st.
             bind_op (publish cfg temporary marker st) (\<lambda>_ st. fsync cfg st)))))
            (unlink_if_there cfg temporary)))"

definition remove_recovery_marker :: "'e tools_config \<Rightarrow> 'e workshop \<Rightarrow> (unit, 'e) tool_outcome" where
  "remove_recovery_marker cfg st =
     bind_op (recovery_marker cfg st) (\<lambda>marker st.
     bind_op (unlink cfg marker st) (\<lambda>_ st. fsync cfg st))"

definition marker_value :: "'e tools_config \<Rightarrow> string \<Rightarrow> meta \<Rightarrow> string \<Rightarrow> meta \<Rightarrow> string \<Rightarrow> string \<Rightarrow> string \<Rightarrow> pydict" where
  "marker_value cfg candidate prior before_digest after after_digest delta entry_digest =
     [(''schema'', PStr ''lil-tweak-promotion''), (''version'', PInt 1), (''workspace'', PStr (tc_name cfg)),
      (''candidate'', PStr candidate), (''before'', root_binding prior before_digest),
      (''after'', root_binding after after_digest), (''delta_digest'', PStr delta),
      (''journal_entry_digest'', PStr entry_digest)]"

subsection \<open>The promotion of a candidate\<close>

text \<open>What is fixed once the candidate has been captured.\<close>

record proposal =
  pp_before :: workspace_snapshot
  pp_before_meta :: meta
  pp_candidate :: string
  pp_candidate_meta :: meta
  pp_after :: workspace_snapshot
  pp_actual :: "string list"
  pp_delta :: string
  pp_result :: command_result

definition reject_known :: "'e tools_config \<Rightarrow> proposal \<Rightarrow> string \<Rightarrow> 'e workshop \<Rightarrow> (patch_reply, 'e) tool_outcome" where
  "reject_known cfg p code st =
     reject_patch cfg (pp_before p) code (pp_result p) (Some (pp_after p, pp_actual p, pp_delta p)) st"

definition reject_unknown :: "'e tools_config \<Rightarrow> proposal \<Rightarrow> string \<Rightarrow> 'e workshop \<Rightarrow> (patch_reply, 'e) tool_outcome" where
  "reject_unknown cfg p code st = reject_patch cfg (pp_before p) code (pp_result p) None st"

text \<open>Digest and identity of a root once more; \<open>None\<close> when it cannot be captured.\<close>

definition recheck_root :: "'e tools_config \<Rightarrow> string \<Rightarrow> string \<Rightarrow> meta \<Rightarrow> 'e workshop \<Rightarrow> (bool option, 'e) tool_outcome" where
  "recheck_root cfg name digest m st =
     on_capture_error (on_os_error
       (bind_op (take_snapshot cfg name st) (\<lambda>snapshot st.
        bind_op (lstat cfg name st) (\<lambda>node st.
          (Inr (Some (ws_source_digest snapshot = digest \<and> identity (node_meta node) = identity m)), st))))
       (\<lambda>st. (Inr None, st))) (\<lambda>st. (Inr None, st))"

text \<open>Both roots are still what was captured; otherwise a rejection.\<close>

definition recheck_both :: "'e tools_config \<Rightarrow> proposal \<Rightarrow> ('e workshop \<Rightarrow> (patch_reply, 'e) tool_outcome) \<Rightarrow> 'e workshop
    \<Rightarrow> (patch_reply, 'e) tool_outcome" where
  "recheck_both cfg p go_on st =
     bind_op (recheck_root cfg (tc_name cfg) (ws_source_digest (pp_before p)) (pp_before_meta p) st) (\<lambda>proposal st.
       case proposal of
         None \<Rightarrow> reject_unknown cfg p ''proposal_changed'' st
       | Some same \<Rightarrow>
         if \<not> same then reject_known cfg p ''proposal_changed'' st
         else bind_op (recheck_root cfg (pp_candidate p) (ws_source_digest (pp_after p)) (pp_candidate_meta p) st)
           (\<lambda>candidate st. if candidate \<noteq> Some True then reject_unknown cfg p ''candidate_changed'' st else go_on st))"

text \<open>After the exchange: the check of the new layout and the removal of the old tree and the marker.\<close>

definition verify_exchange :: "'e tools_config \<Rightarrow> proposal \<Rightarrow> 'e workshop \<Rightarrow> (unit, 'e) tool_outcome" where
  "verify_exchange cfg p st =
     on_capture_error (on_os_error
       (bind_op (fsync cfg st) (\<lambda>_ st.
        bind_op (lstat cfg (tc_name cfg) st) (\<lambda>promoted st.
        bind_op (lstat cfg (pp_candidate p) st) (\<lambda>old st.
          if identity (node_meta promoted) \<noteq> identity (pp_candidate_meta p)
             \<or> identity (node_meta old) \<noteq> identity (pp_before_meta p) then recovery_required st
          else bind_op (take_snapshot cfg (tc_name cfg) st) (\<lambda>verified st.
            if ws_source_digest verified \<noteq> ws_source_digest (pp_after p) then recovery_required st
            else bind_op (take_snapshot cfg (pp_candidate p) st) (\<lambda>verified_old st.
              if ws_source_digest verified_old \<noteq> ws_source_digest (pp_before p) then recovery_required st
              else (Inr (), st)))))))
       recovery_required) recovery_required"

definition cleanup_failed :: "'e workshop \<Rightarrow> ('a, 'e) tool_outcome" where
  "cleanup_failed st = recovery_required (st\<lparr>ws_cleanup_failed := True\<rparr>)"

definition finish_promotion :: "'e tools_config \<Rightarrow> proposal \<Rightarrow> pydict \<Rightarrow> 'e workshop \<Rightarrow> (patch_reply, 'e) tool_outcome" where
  "finish_promotion cfg p entry st =
     bind_op (verify_exchange cfg p st) (\<lambda>_ st.
       let st = st\<lparr>ws_journal := ws_journal st @ [entry]\<rparr> in
       bind_op (on_os_error (bind_op (rmtree cfg (pp_candidate p) st) (\<lambda>_ st. fsync cfg st)) cleanup_failed) (\<lambda>_ st.
       bind_op (on_os_error (remove_recovery_marker cfg st) cleanup_failed) (\<lambda>_ st.
         (Inr \<lparr>pr_result = pp_result p, pr_promoted = True, pr_rejection_code = None\<rparr>, st))))"

text \<open>The exchange failed: only the exact original layout is a rejection.\<close>

definition undo_exchange :: "'e tools_config \<Rightarrow> proposal \<Rightarrow> 'e workshop \<Rightarrow> (patch_reply, 'e) tool_outcome" where
  "undo_exchange cfg p st =
     bind_op (recovery_marker cfg st) (\<lambda>marker st.
     bind_op (classify_promotion_marker cfg marker st) (\<lambda>layout st.
       if pl_committed layout then recovery_required st
       else bind_op (on_os_error (bind_op (rmtree cfg (pp_candidate p) st) (\<lambda>_ st.
             bind_op (fsync cfg st) (\<lambda>_ st. remove_recovery_marker cfg st))) recovery_required)
         (\<lambda>_ st. reject_known cfg p ''atomic_exchange_failed'' (st\<lparr>ws_candidate_safe := True\<rparr>))))"

text \<open>The marker could not be published: a rejection only when it is seen to be absent.\<close>

definition undo_marker :: "'e tools_config \<Rightarrow> proposal \<Rightarrow> 'e workshop \<Rightarrow> (patch_reply, 'e) tool_outcome" where
  "undo_marker cfg p st =
     bind_op (recovery_marker cfg st) (\<lambda>marker st.
       case lstat cfg marker st of
         (Inl NotFound, st) \<Rightarrow>
           bind_op (cleanup_patch_remnants_locked cfg (Some (tc_name cfg)) st) (\<lambda>_ st.
             reject_known cfg p ''recovery_marker_failed'' (st\<lparr>ws_candidate_safe := True\<rparr>))
       | (Inl Crashed, st) \<Rightarrow> (Inl Crashed, st)
       | (_, st) \<Rightarrow> recovery_required st)"

definition promote_candidate :: "'e tools_config \<Rightarrow> proposal \<Rightarrow> 'e workshop \<Rightarrow> (patch_reply, 'e) tool_outcome" where
  "promote_candidate cfg p st =
     (let entry = journal_entry (length (ws_journal st)) (ws_source_digest (pp_before p))
            (ws_source_digest (pp_after p)) (pp_actual p) (pp_delta p) ''promoted'' (pp_result p) None
      in case journal_capacity_error cfg entry st of Some e \<Rightarrow> (Inl (CaptureError e), st)
      | None \<Rightarrow>
        (case create_recovery_marker cfg (marker_value cfg (pp_candidate p) (pp_before_meta p)
            (ws_source_digest (pp_before p)) (pp_candidate_meta p) (ws_source_digest (pp_after p)) (pp_delta p)
            (journal_entry_digest cfg entry)) (st\<lparr>ws_candidate_safe := False\<rparr>) of
           (Inr _, st) \<Rightarrow>
             (case exchange cfg (tc_name cfg) (pp_candidate p) st of
                (Inr _, st) \<Rightarrow> finish_promotion cfg p entry st
              | (Inl Crashed, st) \<Rightarrow> (Inl Crashed, st)
              | (Inl _, st) \<Rightarrow> undo_exchange cfg p st)
         | (Inl Crashed, st) \<Rightarrow> (Inl Crashed, st)
         | (Inl (CaptureError e), st) \<Rightarrow> (Inl (CaptureError e), st)
         | (Inl ShopValueError, st) \<Rightarrow> (Inl ShopValueError, st)
         | (Inl SandboxError, st) \<Rightarrow> (Inl SandboxError, st)
         | (Inl _, st) \<Rightarrow> undo_marker cfg p st))"

subsection \<open>Staging and applying a patch\<close>

text \<open>\<open>try: x = r; except E: handle; else: go\<close>.\<close>

definition unless_caught :: "(shop_failure \<Rightarrow> bool) \<Rightarrow> ('a, 's) shop_outcome \<Rightarrow> ('s shop_scheme \<Rightarrow> ('b, 's) shop_outcome)
    \<Rightarrow> ('a \<Rightarrow> 's shop_scheme \<Rightarrow> ('b, 's) shop_outcome) \<Rightarrow> ('b, 's) shop_outcome" where
  "unless_caught catches r handle go =
     (case r of (Inr x, s) \<Rightarrow> go x s | (Inl e, s) \<Rightarrow> if catches e then handle s else (Inl e, s))"

definition is_os_error :: "shop_failure \<Rightarrow> bool" where
  "is_os_error e \<longleftrightarrow> e = NotFound \<or> e = SystemError"

definition is_capture_error :: "shop_failure \<Rightarrow> bool" where
  "is_capture_error e \<longleftrightarrow> (case e of CaptureError x \<Rightarrow> True | _ \<Rightarrow> False)"

definition patch_command :: "string list" where
  "patch_command = [''patch'', ''--batch'', ''--forward'', ''--strip=1'', ''--no-backup-if-mismatch'',
     ''--reject-file=-'', ''--input=/tmp/lil-tweak.patch'']"

text \<open>The call of the sandbox; the candidate is what it left there.\<close>

definition stage :: "'e tools_config \<Rightarrow> string \<Rightarrow> string \<Rightarrow> 'e workshop \<Rightarrow> (command_result, 'e) tool_outcome" where
  "stage cfg pfile candidate st =
     (case tc_sandbox cfg of None \<Rightarrow> (Inl SandboxError, st)
      | Some box \<Rightarrow>
        let act = (\<lambda>interrupted st. case sb_stage box interrupted pfile candidate (ws_env st, sh_disk st) of
              (r, e, d) \<Rightarrow> (r, st\<lparr>ws_env := e, sh_disk := d\<rparr>))
        in case dc_fault cfg (sh_step st) of
             Crashes n \<Rightarrow> (Inl Crashed, snd (act (Some n) st))
           | Fails n \<Rightarrow> (Inl SandboxError, tick (snd (act (Some n) st)))
           | Works \<Rightarrow> (case act None st of (None, st) \<Rightarrow> (Inl SandboxError, tick st) | (Some r, st) \<Rightarrow> (Inr r, tick st)))"

text \<open>The proposal is checked twice, before and after the hook, and promoted.\<close>

definition confirm_proposal :: "'e tools_config \<Rightarrow> proposal \<Rightarrow> 'e workshop \<Rightarrow> (patch_reply, 'e) tool_outcome" where
  "confirm_proposal cfg p st =
     recheck_both cfg p (\<lambda>st.
       recheck_both cfg p (promote_candidate cfg p) (st\<lparr>sh_disk := tc_hook cfg (pp_candidate p) (sh_disk st)\<rparr>)) st"

text \<open>The candidate that the sandbox left is captured and its change compared with the declaration.\<close>

definition judge_candidate :: "'e tools_config \<Rightarrow> workspace_snapshot \<Rightarrow> meta \<Rightarrow> string \<Rightarrow> meta \<Rightarrow> string list
    \<Rightarrow> command_result \<Rightarrow> 'e workshop \<Rightarrow> (patch_reply, 'e) tool_outcome" where
  "judge_candidate cfg prior before_meta candidate m declared result st =
     unless_caught is_os_error (lstat cfg candidate st)
       (reject_patch cfg prior ''candidate_invalid'' result None) (\<lambda>node st.
     if identity (node_meta node) \<noteq> identity m then reject_patch cfg prior ''candidate_root_changed'' result None st
     else unless_caught is_capture_error (take_snapshot cfg candidate st)
       (reject_patch cfg prior ''candidate_invalid'' result None) (\<lambda>after st.
     let actual = workspace_changed_paths (dc_sha cfg) prior after in
     unless_caught is_capture_error (delta_of cfg prior after actual st)
       (reject_patch cfg prior ''candidate_invalid'' result None) (\<lambda>delta st.
     let p = \<lparr>pp_before = prior, pp_before_meta = before_meta, pp_candidate = candidate, pp_candidate_meta = m,
          pp_after = after, pp_actual = actual, pp_delta = delta, pp_result = result\<rparr>
     in if \<not> set actual \<subseteq> set declared then reject_known cfg p ''undeclared_patch_delta'' st
        else confirm_proposal cfg p st)))"

text \<open>What follows the call of the sandbox.\<close>

definition staged_patch :: "'e tools_config \<Rightarrow> workspace_snapshot \<Rightarrow> meta \<Rightarrow> string \<Rightarrow> meta \<Rightarrow> string \<Rightarrow> string list
    \<Rightarrow> command_result \<Rightarrow> 'e workshop \<Rightarrow> (patch_reply, 'e) tool_outcome" where
  "staged_patch cfg prior before_meta candidate m pfile declared result st =
     (let st = record_observation cfg ''apply_patch'' patch_command result st in
      if lifecycle_failed cfg st
      then bind_op (reject_patch cfg prior ''sandbox_lifecycle_failed'' result None st) (\<lambda>_ st. recovery_required st)
      else unless_caught is_os_error (unlink cfg pfile st)
        (reject_patch cfg prior ''patch_cleanup_failed'' result None) (\<lambda>_ st.
        if cr_exit_code result \<noteq> Some 0 \<or> cr_timed_out result \<or> cr_truncated result
        then reject_patch cfg prior
          (if cr_timed_out result then ''patch_timeout''
           else if cr_truncated result then ''patch_output_limit'' else ''patch_exit_nonzero'') result None st
        else judge_candidate cfg prior before_meta candidate m declared result st))"

definition stage_patch :: "'e tools_config \<Rightarrow> workspace_snapshot \<Rightarrow> meta \<Rightarrow> string \<Rightarrow> string \<Rightarrow> string \<Rightarrow> string list
    \<Rightarrow> 'e workshop \<Rightarrow> (patch_reply, 'e) tool_outcome" where
  "stage_patch cfg prior before_meta candidate pfile patch declared st =
     (let failed = reject_patch cfg prior ''patch_staging_failed'' (plain_result []) None in
      unless_caught is_os_error (look cfg (\<lambda>d. Inr ()) st) failed (\<lambda>_ st.
      unless_caught is_os_error
        (bind_op (write_file cfg pfile (utf8 patch) (st\<lparr>ws_descriptor_open := False\<rparr>)) (\<lambda>_ st. fsync cfg st))
        failed (\<lambda>_ st.
      unless_caught is_os_error (lstat cfg candidate st) failed (\<lambda>node st.
      bind_op (stage cfg pfile candidate st) (\<lambda>result st.
        staged_patch cfg prior before_meta candidate (node_meta node) pfile declared result st)))))"

text \<open>The \<open>finally\<close> of \<open>_apply_patch\<close>: every part runs, and \<open>b\<close> says whether one has failed. A symbolic
  link at the candidate counts as existing.\<close>

definition cleaning :: "(unit, 'e) tool_outcome \<Rightarrow> bool \<Rightarrow> (bool \<Rightarrow> 'e workshop \<Rightarrow> (unit, 'e) tool_outcome)
    \<Rightarrow> (unit, 'e) tool_outcome" where
  "cleaning r b go = unless_caught is_os_error r (go True) (\<lambda>_. go b)"

definition stage_cleanup :: "'e tools_config \<Rightarrow> string \<Rightarrow> string \<Rightarrow> 'e workshop \<Rightarrow> (unit, 'e) tool_outcome" where
  "stage_cleanup cfg candidate pfile st =
     cleaning (if ws_descriptor_open st then look cfg (\<lambda>d. Inr ()) st else (Inr (), st)) False (\<lambda>b st.
     cleaning (unlink_if_there cfg pfile (st\<lparr>ws_descriptor_open := False\<rparr>)) b (\<lambda>b st.
     bind_op (if ws_candidate_safe st then look cfg (\<lambda>d. Inr (dget (wr_nodes d) candidate \<noteq> None)) st
              else (Inr False, st)) (\<lambda>present st.
     cleaning (if present then rmtree cfg candidate st else (Inr (), st)) b (\<lambda>b st.
       if b then cleanup_required (st\<lparr>ws_cleanup_failed := True\<rparr>) else (Inr (), st)))))"

text \<open>The two allocations of the staging, under the names that \<open>tempfile\<close> settles on.\<close>

definition allocate_staging :: "'e tools_config \<Rightarrow> 'e workshop \<Rightarrow> (string \<times> string, 'e) tool_outcome" where
  "allocate_staging cfg st =
     (let candidate = ''.'' @ tc_name cfg @ ''-candidate-'' @ dc_suffix cfg (sh_step st) in
      bind_op (create_node cfg candidate (\<lambda>m. WDir m []) 0x1C0 st) (\<lambda>_ st.
      let pfile = ''.'' @ tc_name cfg @ ''-patch-'' @ dc_suffix cfg (sh_step st) @ ''.diff'' in
      bind_op (create_node cfg pfile (\<lambda>m. WFile m []) 0x180 st) (\<lambda>_ st.
        (Inr (candidate, pfile), st\<lparr>ws_descriptor_open := True, ws_candidate_safe := True\<rparr>))))"

definition try_patch :: "'e tools_config \<Rightarrow> workspace_snapshot \<Rightarrow> meta \<Rightarrow> string \<Rightarrow> string list \<Rightarrow> 'e workshop
    \<Rightarrow> (patch_reply, 'e) tool_outcome" where
  "try_patch cfg prior before_meta patch declared st =
     unless_caught is_os_error (allocate_staging cfg st)
       (\<lambda>st. bind_op (cleanup_patch_remnants_locked cfg (Some (tc_name cfg)) st) (\<lambda>_ st.
          reject_patch cfg prior ''patch_staging_failed'' (plain_result []) None st))
       (\<lambda>(candidate, pfile) st.
          finally_op (stage_patch cfg prior before_meta candidate pfile patch declared st)
            (stage_cleanup cfg candidate pfile))"

definition apply_patch :: "'e tools_config \<Rightarrow> string \<Rightarrow> 'e workshop \<Rightarrow> (patch_reply, 'e) tool_outcome" where
  "apply_patch cfg patch st =
     bind_op (work_root_lock cfg st) (\<lambda>_ st.
     if ws_cleanup_failed st \<or> lifecycle_failed cfg st then recovery_required st
     else bind_op (cleanup_patch_remnants_locked cfg (Some (tc_name cfg)) st) (\<lambda>_ st.
     bind_op (lstat cfg (tc_name cfg) st) (\<lambda>root st.
     bind_op (take_snapshot cfg (tc_name cfg) st) (\<lambda>prior st.
     let reject = (\<lambda>code result. reject_patch cfg prior code result None) in
     if ws_journal_closed st
     then (Inr \<lparr>pr_result = plain_result ''edit_journal_capacity'', pr_promoted = False,
            pr_rejection_code = Some ''edit_journal_capacity''\<rparr>, st)
     else if patch = [] \<or> tc_max_patch_bytes cfg < int (length (utf8 patch))
     then reject ''invalid_patch'' (plain_result []) st
     else case declared_patch_paths patch of
       None \<Rightarrow> reject ''invalid_patch_declaration'' (plain_result []) st
     | Some declared \<Rightarrow>
       case tc_sandbox cfg of None \<Rightarrow> reject ''sandbox_unavailable'' (plain_result []) st
       | Some box \<Rightarrow>
         case admit_observation cfg st of
         (False, st) \<Rightarrow>
           (case observation_capacity_result cfg ''apply_patch'' patch_command st of
              (result, st) \<Rightarrow> reject ''observation_capacity'' result st)
       | (True, st) \<Rightarrow>
           if \<not> journal_can_fit_declared cfg prior declared st then close_journal cfg prior st
           else try_patch cfg prior (node_meta root) patch declared st))))"

end
