(* ===== verification/FinalCapture.thy ===== *)
theory FinalCapture
  imports PatchTools
begin

section \<open>The capture of the final proposal\<close>

text \<open>
  \<open>capture_final_snapshot\<close> of \<open>WorkspaceTools\<close> (\<open>core/lil_tweak/openai_agent.py\<close>): the journal of
  edits is followed from the digest of the baseline to the digest that the workspace must have, a
  promotion that was committed and not cleaned up is finished, everything left in the work root is
  swept, and the workspace is captured twice.
\<close>

text \<open>The chain of the journal: the digest after its entries, \<open>None\<close> when they do not follow each other.\<close>

fun follow_journal :: "nat \<Rightarrow> string \<Rightarrow> pydict list \<Rightarrow> string option" where
  "follow_journal ordinal expected [] = Some expected"
| "follow_journal ordinal expected (entry # entries) =
     (if \<not> field_is (\<lambda>v. py_eq_int v (int ordinal)) entry ''ordinal''
         \<or> dget entry ''before_source_digest'' \<noteq> Some (PStr expected) then None
      else if dget entry ''result'' = Some (PStr ''promoted'') then
        (if dget entry ''rejection_code'' \<noteq> Some PNone then None
         else case dget entry ''after_source_digest'' of
           Some (PStr after) \<Rightarrow> follow_journal (Suc ordinal) after entries | _ \<Rightarrow> None)
      else if dget entry ''result'' = Some (PStr ''rejected'') then
        (if dget entry ''rejection_code'' = Some PNone then None
         else follow_journal (Suc ordinal) expected entries)
      else None)"

definition expected_proposal_digest :: "'e tools_config \<Rightarrow> workspace_snapshot \<Rightarrow> 'e workshop \<Rightarrow> (string, 'e) tool_outcome" where
  "expected_proposal_digest cfg baseline st =
     (case journal_evidence cfg (ws_journal st) of
        Inl (WorkspaceEvidenceError c) \<Rightarrow> recovery_required st
      | Inl e \<Rightarrow> (Inl (CaptureError e), st)
      | Inr _ \<Rightarrow>
          if \<not> hex_of_length 64 (ws_source_digest baseline) then recovery_required st
          else case follow_journal 0 (ws_source_digest baseline) (ws_journal st) of
            None \<Rightarrow> recovery_required st | Some expected \<Rightarrow> (Inr expected, st))"

definition finish_committed_marker_locked :: "'e tools_config \<Rightarrow> string \<Rightarrow> 'e workshop \<Rightarrow> (unit, 'e) tool_outcome" where
  "finish_committed_marker_locked cfg expected st =
     bind_op (recovery_marker cfg st) (\<lambda>marker st.
     bind_op (classify_promotion_marker cfg marker st) (\<lambda>layout st.
       let v = pl_value layout in
       if \<not> pl_committed layout \<or> ws_journal st = []
          \<or> dget (last (ws_journal st)) ''result'' \<noteq> Some (PStr ''promoted'')
          \<or> journal_entry_digest cfg (last (ws_journal st)) \<noteq> pm_journal_digest v
          \<or> snd (snd (pm_after v)) \<noteq> expected
       then recovery_required st
       else bind_op (case lstat cfg (pm_candidate v) st of
           (Inl NotFound, st) \<Rightarrow> (Inr (), st)
         | (Inl SystemError, st) \<Rightarrow> recovery_required st
         | (Inl e, st) \<Rightarrow> (Inl e, st)
         | (Inr node, st) \<Rightarrow> on_os_error (rmtree cfg (pm_candidate v) st) cleanup_failed) (\<lambda>_ st.
         bind_op (on_os_error (bind_op (fsync cfg st) (\<lambda>_ st. remove_recovery_marker cfg st)) cleanup_failed) (\<lambda>_ st.
           (Inr (), st\<lparr>ws_cleanup_failed := False\<rparr>)))))"

text \<open>One capture of the workspace that must have the digest; \<open>staging\<close> as for \<open>capture_workspace\<close>.\<close>

definition capture_expected :: "'e tools_config \<Rightarrow> string list \<Rightarrow> (string list \<times> bool) option \<Rightarrow> string \<Rightarrow> 'e workshop
    \<Rightarrow> (workspace_snapshot \<times> (string list, string) dict, 'e) tool_outcome" where
  "capture_expected cfg base staging expected st =
     unless_caught is_os_error
       (look cfg (\<lambda>d. let tree = map_option node_fs (dget (wr_nodes d) (tc_name cfg)) in
          case capture_workspace (dc_sha cfg) default_capture_limits base staging tree tree of
            Inl e \<Rightarrow> Inl (RecoveryNeeded ''patch_reconciliation_required'') | Inr r \<Rightarrow> Inr r) st)
       recovery_required
       (\<lambda>r st. if ws_source_digest (fst r) \<noteq> expected then recovery_required st else (Inr r, st))"

text \<open>A marker that is there is the own one, and is finished.\<close>

definition settle_marker :: "'e tools_config \<Rightarrow> string \<Rightarrow> 'e workshop \<Rightarrow> (unit, 'e) tool_outcome" where
  "settle_marker cfg expected st =
     bind_op (on_os_error (names_in cfg st) recovery_required) (\<lambda>names st.
     bind_op (recovery_marker cfg st) (\<lambda>own st.
     let markers = filter is_marker_name names in
     if (\<exists>m \<in> set markers. m \<noteq> own) \<or> 1 < length markers then recovery_required st
     else if markers \<noteq> [] then finish_committed_marker_locked cfg expected st
     else if ws_cleanup_failed st then recovery_required st else (Inr (), st)))"

definition sweep_and_capture :: "'e tools_config \<Rightarrow> string list \<Rightarrow> string list \<times> bool \<Rightarrow> string \<Rightarrow> 'e workshop
    \<Rightarrow> (workspace_snapshot \<times> (string list, string) dict, 'e) tool_outcome" where
  "sweep_and_capture cfg base staging expected st =
     bind_op (cleanup_patch_remnants_locked cfg None st) (\<lambda>_ st.
     bind_op (on_os_error (names_in cfg st) recovery_required) (\<lambda>names st.
     if list_ex (\<lambda>n. remnant_of n \<noteq> None \<or> is_marker_name n) names then recovery_required st
     else bind_op (capture_expected cfg base None expected st) (\<lambda>current st.
       capture_expected cfg base (Some staging) expected st)))"

definition capture_final_snapshot :: "'e tools_config \<Rightarrow> workspace_snapshot \<Rightarrow> string list \<Rightarrow> string list \<times> bool
    \<Rightarrow> 'e workshop \<Rightarrow> (workspace_snapshot \<times> (string list, string) dict, 'e) tool_outcome" where
  "capture_final_snapshot cfg baseline base staging st =
     bind_op (work_root_lock cfg st) (\<lambda>_ st.
     if lifecycle_failed cfg st then recovery_required st
     else bind_op (expected_proposal_digest cfg baseline st) (\<lambda>expected st.
     bind_op (settle_marker cfg expected st) (\<lambda>_ st.
     sweep_and_capture cfg base staging expected st)))"

definition marker_seen :: "'e tools_config \<Rightarrow> 'e workshop \<Rightarrow> (bool, 'e) tool_outcome" where
  "marker_seen cfg st =
     bind_op (recovery_marker cfg st) (\<lambda>own st.
     case lstat cfg own st of
       (Inr _, st) \<Rightarrow> (Inr True, st) | (Inl NotFound, st) \<Rightarrow> (Inr False, st)
     | (Inl SystemError, st) \<Rightarrow> (Inr True, st) | (Inl e, st) \<Rightarrow> (Inl e, st))"

definition recovery_context_exists :: "'e tools_config \<Rightarrow> 'e workshop \<Rightarrow> (bool, 'e) tool_outcome" where
  "recovery_context_exists cfg st =
     (if ws_cleanup_failed st \<or> lifecycle_failed cfg st then (Inr True, st) else marker_seen cfg st)"

end
