(* ===== verification/PromotionRules.thy ===== *)
theory PromotionRules
  imports FinalCapture
begin

section \<open>Reasoning about the work root\<close>

text \<open>
  The rules for the operations of the work root: \<open>yields Q E r\<close> says that an outcome satisfies \<open>Q\<close>
  when it is a result and \<open>E\<close> when it is a failure or a crash. Every primitive has a rule that
  covers every fault, and the handlers and \<open>finally\<close> have one each, collected in \<open>steps\<close>. Then the
  names of the files that a promotion uses, and the round trip of its marker.
\<close>

named_theorems steps

definition yields :: "('a \<Rightarrow> work_root \<Rightarrow> bool) \<Rightarrow> (shop_failure \<Rightarrow> work_root \<Rightarrow> bool) \<Rightarrow> ('a, 's) shop_outcome \<Rightarrow> bool" where
  "yields Q E r \<longleftrightarrow> (case r of (Inl e, s) \<Rightarrow> E e (sh_disk s) | (Inr x, s) \<Rightarrow> Q x (sh_disk s))"

lemma yields_simps [simp]:
  "yields Q E (Inl e, s) = E e (sh_disk s)" "yields Q E (Inr x, s) = Q x (sh_disk s)"
  by (simp_all add: yields_def)

lemma yields_weaken:
  "yields Q E r \<Longrightarrow> (\<And>x d. Q x d \<Longrightarrow> Q' x d) \<Longrightarrow> (\<And>e d. E e d \<Longrightarrow> E' e d) \<Longrightarrow> yields Q' E' r"
  by (cases r rule: prod.exhaust) (auto simp: yields_def split: sum.splits)

lemma yields_bind [steps]:
  assumes "yields Q' E r" and "\<And>x s. Q' x (sh_disk s) \<Longrightarrow> yields Q E (f x s)"
  shows "yields Q E (bind_op r f)"
proof (cases r)
  case (Pair a s)
  then show ?thesis using assms by (cases a) simp_all
qed

text \<open>An invariant of every result and of every failure.\<close>

abbreviation always :: "(work_root \<Rightarrow> bool) \<Rightarrow> ('a, 's) shop_outcome \<Rightarrow> bool" where
  "always J \<equiv> yields (\<lambda>_. J) (\<lambda>_. J)"

lemma always_bind:
  "always J r \<Longrightarrow> (\<And>x s. J (sh_disk s) \<Longrightarrow> always J (f x s)) \<Longrightarrow> always J (bind_op r f)"
  by (rule yields_bind)

lemma yields_on_os_error [steps]:
  assumes "yields Q E' r" and "\<And>e d. E' e d \<Longrightarrow> \<not> is_os_error e \<Longrightarrow> E e d"
    and "\<And>s e. is_os_error e \<Longrightarrow> E' e (sh_disk s) \<Longrightarrow> yields Q E (h s)"
  shows "yields Q E (on_os_error r h)"
proof (cases r)
  case (Pair a s)
  then show ?thesis using assms(1)[unfolded Pair] assms(2,3)
    by (cases a) (auto simp: on_os_error_def is_os_error_def split: shop_failure.splits)
qed

lemma yields_on_capture_error [steps]:
  assumes "yields Q E' r" and "\<And>e d. E' e d \<Longrightarrow> \<not> is_capture_error e \<Longrightarrow> E e d"
    and "\<And>s e. is_capture_error e \<Longrightarrow> E' e (sh_disk s) \<Longrightarrow> yields Q E (h s)"
  shows "yields Q E (on_capture_error r h)"
proof (cases r)
  case (Pair a s)
  show ?thesis
  proof (cases a)
    case (Inl e)
    then show ?thesis using assms(1)[unfolded Pair Inl] assms(2)[of e] assms(3)[of e s]
      by (cases e) (simp_all add: Pair on_capture_error_def is_capture_error_def)
  qed (use Pair assms(1) in \<open>simp add: on_capture_error_def\<close>)
qed

lemma yields_unless_caught [steps]:
  assumes "yields Q' E' r" and "\<And>e d. E' e d \<Longrightarrow> \<not> catches e \<Longrightarrow> E e d"
    and "\<And>s e. catches e \<Longrightarrow> E' e (sh_disk s) \<Longrightarrow> yields Q E (h s)"
    and "\<And>x s. Q' x (sh_disk s) \<Longrightarrow> yields Q E (go x s)"
  shows "yields Q E (unless_caught catches r h go)"
proof (cases r)
  case (Pair a s)
  then show ?thesis using assms(1)[unfolded Pair] assms(2,3,4)
    by (cases a) (simp_all add: unless_caught_def)
qed

lemma yields_finally [steps]:
  assumes "yields Q E r" and "E = (\<lambda>_. J)" and "\<And>x d. Q x d \<Longrightarrow> J d"
    and "\<And>s x. Q x (sh_disk s) \<Longrightarrow> yields (\<lambda>_. Q x) (\<lambda>_. J) (f s)"
    and "\<And>s. J (sh_disk s) \<Longrightarrow> always J (f s)"
  shows "yields Q E (finally_op r f)"
proof (cases r)
  case (Pair a s)
  note r = assms(1)[unfolded Pair] assms(2)
  show ?thesis
  proof (cases "f s")
    case f: (Pair b t)
    show ?thesis
    proof (cases a)
      case (Inl e)
      then show ?thesis using r assms(5)[of s] f
        by (cases e; cases b) (simp_all add: Pair finally_op_def)
    next
      case (Inr x)
      then show ?thesis using r assms(4)[of x s] f by (cases b) (simp_all add: Pair finally_op_def)
    qed
  qed
qed

subsection \<open>Primitives\<close>

lemma sh_disk_tick [simp]: "sh_disk (tick st) = sh_disk st"
  by (simp add: tick_def)

lemma yields_look:
  assumes "\<And>x. f (sh_disk st) = Inr x \<Longrightarrow> Q x (sh_disk st)" and "\<And>e. E e (sh_disk st)"
  shows "yields Q E (look cfg f st)"
  using assms by (cases "f (sh_disk st)") (simp_all add: look_def split: fault.split)

lemma yields_alter:
  assumes "\<And>d'. f (sh_disk st) = Inr d' \<Longrightarrow> Q () d'" and "\<And>n e. E e (part n (sh_disk st))"
    and "\<And>e. f (sh_disk st) = Inl e \<Longrightarrow> E e (sh_disk st)"
  shows "yields Q E (alter cfg f part st)"
  using assms by (cases "f (sh_disk st)") (simp_all add: alter_def split: fault.split)

lemma yields_alter_atomically:
  assumes "\<And>d'. f (sh_disk st) = Inr d' \<Longrightarrow> Q () d' \<and> (\<forall>e. E e d')" and "\<And>e. E e (sh_disk st)"
  shows "yields Q E (alter cfg f (atomically f) st)"
  using assms by (intro yields_alter) (auto simp: atomically_def split: sum.split)

lemma yields_recovery [steps]:
  "E (RecoveryNeeded ''patch_reconciliation_required'') (sh_disk st) \<Longrightarrow> yields Q E (recovery_required st)"
  "E (RecoveryNeeded ''patch_cleanup_failed'') (sh_disk st) \<Longrightarrow> yields Q E (cleanup_required st)"
  by (simp_all add: recovery_required_def cleanup_required_def)

lemma yields_lstat:
  assumes "\<And>node. dget (wr_nodes (sh_disk st)) name = Some node \<Longrightarrow> Q node (sh_disk st)"
    and "\<And>e. (e = NotFound \<Longrightarrow> dget (wr_nodes (sh_disk st)) name = None) \<Longrightarrow> E e (sh_disk st)"
  shows "yields Q E (lstat cfg name st)"
  using assms by (auto simp: lstat_def look_def split: fault.split option.split)

lemma yields_snapshot:
  assumes "\<And>s. snapshot_of (dc_sha cfg) (dget (wr_nodes (sh_disk st)) name) = Inr s \<Longrightarrow> Q s (sh_disk st)"
    and "\<And>e. E e (sh_disk st)"
  shows "yields Q E (take_snapshot cfg name st)"
  unfolding take_snapshot_def using assms
  by (intro yields_on_os_error[where E' = "\<lambda>e d. d = sh_disk st"] yields_look) (auto split: sum.splits)

lemma yields_fsync: "Q () (sh_disk st) \<Longrightarrow> (\<And>e. E e (sh_disk st)) \<Longrightarrow> yields Q E (fsync cfg st)"
  by (simp add: fsync_def yields_look)

lemma yields_names:
  "Q (dkeys (wr_nodes (sh_disk st))) (sh_disk st) \<Longrightarrow> (\<And>e. E e (sh_disk st)) \<Longrightarrow> yields Q E (names_in cfg st)"
  by (auto simp: names_in_def intro: yields_look)

text \<open>The operations that only read, with any invariant.\<close>

lemma always_reads:
  assumes "J (sh_disk st)"
  shows "always J (look cfg f st)" "always J (lstat cfg name st)" "always J (take_snapshot cfg name st)"
    "always J (fsync cfg st)" "always J (names_in cfg st)"
  using assms by (auto intro: yields_look yields_lstat yields_snapshot yields_fsync yields_names)

lemma yields_unlink:
  assumes "\<And>node. dget (wr_nodes (sh_disk st)) name = Some node \<Longrightarrow> (\<And>m es. node \<noteq> WDir m es) \<Longrightarrow>
      Q () (drop_node name (sh_disk st)) \<and> (\<forall>e. E e (drop_node name (sh_disk st)))"
    and "\<And>e. E e (sh_disk st)"
  shows "yields Q E (unlink cfg name st)"
  unfolding unlink_def Let_def using assms
  by (intro yields_alter_atomically) (auto split: option.splits wnode.splits)

lemma yields_rmtree:
  assumes "\<And>m es. dget (wr_nodes (sh_disk st)) name = Some (WDir m es) \<Longrightarrow>
      Q () (drop_node name (sh_disk st)) \<and> (\<forall>e. E e (drop_node name (sh_disk st)))
      \<and> (\<forall>e es. E e (put_node name (WDir m es) (sh_disk st)))"
    and "\<And>e. E e (sh_disk st)"
  shows "yields Q E (rmtree cfg name st)"
  unfolding rmtree_def using assms
  by (intro yields_alter) (auto simp: partly_removed_def split: option.splits wnode.splits)

lemma yields_create:
  assumes "dget (wr_nodes (sh_disk st)) name = None \<Longrightarrow>
      (let d = put_node name (node (new_meta cfg (sh_step st) mode (sh_disk st))) (sh_disk st) in Q () d \<and> (\<forall>e. E e d))"
    and "\<And>e. E e (sh_disk st)"
  shows "yields Q E (create_node cfg name node mode st)"
  unfolding create_node_def Let_def using assms
  by (intro yields_alter_atomically) (auto simp: Let_def split: option.splits)

lemma yields_write:
  assumes "\<And>m old bytes. dget (wr_nodes (sh_disk st)) name = Some (WFile m old) \<Longrightarrow>
      (bytes = data \<longrightarrow> Q () (put_node name (WFile m bytes) (sh_disk st))) \<and> (\<forall>e. E e (put_node name (WFile m bytes) (sh_disk st)))"
    and "\<And>e. E e (sh_disk st)"
  shows "yields Q E (write_file cfg name data st)"
  unfolding write_file_def Let_def using assms
  by (intro yields_alter) (auto split: option.splits wnode.splits)

lemma yields_publish:
  assumes "\<And>node. dget (wr_nodes (sh_disk st)) source = Some node \<Longrightarrow>
      dget (wr_nodes (sh_disk st)) destination = None \<Longrightarrow> source \<noteq> destination \<Longrightarrow>
      (let d = put_node destination node (drop_node source (sh_disk st)) in Q () d \<and> (\<forall>e. E e d))"
    and "\<And>e. E e (sh_disk st)"
  shows "yields Q E (publish cfg source destination st)"
  unfolding publish_def Let_def using assms
  by (intro yields_alter_atomically) (auto simp: Let_def split: option.splits if_splits)

lemma yields_exchange:
  assumes "\<And>m1 e1 m2 e2. dget (wr_nodes (sh_disk st)) left = Some (WDir m1 e1) \<Longrightarrow>
      dget (wr_nodes (sh_disk st)) right = Some (WDir m2 e2) \<Longrightarrow> left \<noteq> right \<Longrightarrow>
      (let d = put_node left (WDir m2 e2) (put_node right (WDir m1 e1) (sh_disk st)) in Q () d \<and> (\<forall>e. E e d))"
    and "\<And>e. E e (sh_disk st)"
  shows "yields Q E (exchange cfg left right st)"
  unfolding exchange_def Let_def using assms
  by (intro yields_alter_atomically) (auto simp: Let_def split: option.splits wnode.splits if_splits)

subsection \<open>Names\<close>

lemma starts_with_iff: "starts_with p s \<longleftrightarrow> (\<exists>r. s = p @ r)"
  by (metis starts_with_def append_eq_conv_conj append_take_drop_id)

lemma ends_with_iff: "ends_with p s \<longleftrightarrow> (\<exists>r. s = r @ p)"
  by (metis ends_with_def starts_with_iff rev_append rev_rev_ident)

lemma safe_workspace_hd: "safe_workspace_name s \<Longrightarrow> \<exists>c r. s = c # r \<and> is_alnum c \<and> c \<noteq> CHR ''.''"
  by (cases s) (auto simp: safe_workspace_name_def is_alnum_def is_digit_def is_lower_def is_upper_def)

lemma marker_name_iff: "is_marker_name n \<longleftrightarrow> (\<exists>w. safe_workspace_name w \<and> n = ''.'' @ w @ marker_suffix)"
proof
  assume a: "is_marker_name n"
  then obtain r where r: "n = r @ marker_suffix" "safe_workspace_name (drop 1 r)"
    by (auto simp: is_marker_name_def ends_with_iff)
  then have "r \<noteq> []" by (auto simp: safe_workspace_name_def)
  moreover have "hd r = CHR ''.''" using a \<open>r \<noteq> []\<close> r(1) by (cases r) (simp_all add: is_marker_name_def starts_with_iff)
  ultimately show "\<exists>w. safe_workspace_name w \<and> n = ''.'' @ w @ marker_suffix"
    using r by (cases r) auto
next
  assume "\<exists>w. safe_workspace_name w \<and> n = ''.'' @ w @ marker_suffix"
  then show "is_marker_name n"
    by (auto simp: is_marker_name_def starts_with_iff ends_with_iff intro: exI[of _ "''.'' @ _"])
qed

text \<open>The names of the temporary files of a workspace.\<close>

definition scratch_name :: "string \<Rightarrow> string \<Rightarrow> bool" where
  "scratch_name w n \<longleftrightarrow> starts_with (''.'' @ w @ ''-'') n \<and> \<not> is_marker_name n"

lemma scratch_name_not:
  assumes "scratch_name w n" and "safe_workspace_name w"
  shows "n \<noteq> w" "n \<noteq> lock_name" "n \<noteq> ''.'' @ w @ marker_suffix"
proof -
  obtain c r where "w = c # r" "c \<noteq> CHR ''.''" using safe_workspace_hd assms(2) by blast
  then show "n \<noteq> w" using assms(1) by (auto simp: scratch_name_def starts_with_iff)
  have "CHR ''-'' \<in> set n" using assms(1) by (auto simp: scratch_name_def starts_with_iff)
  moreover have "CHR ''-'' \<notin> set lock_name" by (simp add: lock_name_def)
  ultimately show "n \<noteq> lock_name" by metis
  show "n \<noteq> ''.'' @ w @ marker_suffix"
    using assms by (auto simp: scratch_name_def marker_name_iff)
qed

lemma random_suffix_no_stop: "random_suffix s \<Longrightarrow> CHR ''.'' \<notin> set s \<and> CHR ''-'' \<notin> set s"
  by (auto simp: random_suffix_def list_all_iff is_lower_def is_digit_def)

lemma random_end_not_marker: "random_suffix s \<Longrightarrow> \<not> is_marker_name (p @ s)"
proof
  assume s: "random_suffix s" and "is_marker_name (p @ s)"
  then obtain r where r: "p @ s = r @ marker_suffix" by (auto simp: is_marker_name_def ends_with_iff)
  have n: "6 \<le> length s" using s by (simp add: random_suffix_def)
  have "drop (length (p @ s) - 6) (p @ s) = drop (length s - 6) s" using n by simp
  moreover have "drop (length (r @ marker_suffix) - 6) (r @ marker_suffix) = ''1.json''"
    by (simp add: marker_suffix_def)
  ultimately have "drop (length s - 6) s = ''1.json''" using r by metis
  then have "CHR ''.'' \<in> set s" using set_drop_subset by (metis list.set_intros insert_iff subsetD)
  then show False using random_suffix_no_stop[OF s] by blast
qed

lemma scratch_names:
  assumes "random_suffix s"
  shows "scratch_name w (''.'' @ w @ ''-candidate-'' @ s)" "scratch_name w (''.'' @ w @ ''-promotion-tmp-'' @ s)"
    "scratch_name w (''.'' @ w @ ''-patch-'' @ s @ ''.diff'')"
proof -
  show "scratch_name w (''.'' @ w @ ''-candidate-'' @ s)" "scratch_name w (''.'' @ w @ ''-promotion-tmp-'' @ s)"
    using random_end_not_marker[OF assms, of "''.'' @ w @ ''-candidate-''"]
      random_end_not_marker[OF assms, of "''.'' @ w @ ''-promotion-tmp-''"]
    by (simp_all add: scratch_name_def starts_with_iff)
  have "last (''.'' @ w @ ''-patch-'' @ s @ ''.diff'') = CHR ''f''" by simp
  moreover have "last n = CHR ''n''" if "is_marker_name n" for n
    using that by (auto simp: marker_name_iff marker_suffix_def)
  ultimately have "\<not> is_marker_name (''.'' @ w @ ''-patch-'' @ s @ ''.diff'')" by fastforce
  then show "scratch_name w (''.'' @ w @ ''-patch-'' @ s @ ''.diff'')"
    by (simp add: scratch_name_def starts_with_iff)
qed

lemma candidate_of_scratch: "candidate_of w c \<Longrightarrow> scratch_name w c"
  using scratch_names(1) by (fastforce simp: candidate_of_def Let_def starts_with_iff)

lemma remnant_scratch:
  assumes "remnant_of n = Some (w, what)" and "\<not> is_marker_name n"
  shows "scratch_name w n \<and> safe_workspace_name w"
proof -
  define body where "body = drop 1 n"
  define stem where "stem = (if ends_with ''.diff'' body then take (length body - 5) body else body)"
  define suffix where "suffix = rev (takeWhile (\<lambda>c. c \<noteq> CHR ''-'') (rev stem))"
  define front where "front = take (length stem - length suffix) stem"
  define whats where "whats = filter (\<lambda>what. ends_with (''-'' @ what @ ''-'') front) [''candidate'', ''patch'', ''promotion-tmp'']"
  have eq: "remnant_of n = (if \<not> starts_with ''.'' n then None else if \<not> random_suffix suffix then None
      else case whats of [] \<Rightarrow> None | what # _ \<Rightarrow>
        let workspace = take (length front - (length what + 2)) front
        in if safe_workspace_name workspace then Some (workspace, what) else None)"
    by (simp only: remnant_of_def Let_def body_def stem_def suffix_def front_def whats_def)
  then have dot: "starts_with ''.'' n" using assms(1) by (metis option.distinct(1))
  obtain k ks where k: "whats = k # ks" and w: "w = take (length front - (length k + 2)) front" "safe_workspace_name w"
    using assms(1) eq by (cases whats) (auto simp: Let_def split: if_splits)
  have "k \<in> set whats" by (simp only: k list.set_intros)
  then have "ends_with (''-'' @ k @ ''-'') front" by (simp only: whats_def set_filter) simp
  then have front: "front = w @ ''-'' @ k @ ''-''" using w(1) by (auto simp: ends_with_iff)
  obtain r where "stem = front @ r" by (metis append_take_drop_id front_def)
  moreover obtain r' where "body = stem @ r'" by (metis append_take_drop_id append_Nil2 stem_def)
  ultimately have "n = ''.'' @ w @ ''-'' @ k @ ''-'' @ r @ r'"
    using dot front by (auto simp: starts_with_iff body_def)
  then show ?thesis using w(2) assms(2) by (auto simp: scratch_name_def starts_with_iff)
qed

subsection \<open>The round trip of a marker\<close>

lemma dget_canon:
  assumes "dict_ok d"
  shows "dget (sort_key fst (map (\<lambda>(k, v). (k, canon v)) d)) k = map_option canon (dget d k)"
proof -
  let ?m = "map (\<lambda>(k, v). (k, canon v)) d"
  have ok: "dict_ok ?m" using assms by (simp only: dict_ok_def map_fst_map_val)
  then have "dict_ok (sort_key fst ?m)" by (simp only: dict_ok_def distinct_fst_sort)
  then have "dget (sort_key fst ?m) k = dget ?m k"
    using dget_member[OF ok] dget_member[of "sort_key fst ?m"] by (cases "dget ?m k") (metis set_sort option.exhaust)+
  then show ?thesis by (simp add: dget_map_val)
qed

lemma dkeys_canon: "set (dkeys (sort_key fst (map (\<lambda>(k, v). (k, canon v)) d))) = set (dkeys d)"
  by (force simp: dkeys_def)

lemma canon_canon: "plain v \<Longrightarrow> canon (canon v) = canon v"
proof (induction v rule: canon.induct)
  case (2 kvs)
  let ?m = "sort_key fst (map (\<lambda>(k, v). (k, canon v)) kvs)"
  have ok: "dict_ok kvs" using 2(2) by simp
  have okm: "dict_ok ?m" using plain_canon[OF 2(2)] by simp
  have "\<exists>w. dget kvs k = Some w \<and> canon v = canon w" if "(k, v) \<in> set ?m" for k v
  proof -
    from that obtain w where w: "(k, w) \<in> set kvs" "v = canon w" by auto
    then have "canon v = canon w" using 2 by (fastforce simp: list_all_iff)
    then show ?thesis using w(1) dget_member[OF ok] by blast
  qed
  then have "canon (PDict ?m) = canon (PDict kvs)" using dkeys_canon dict_canon_eq[OF okm ok] by blast
  then show ?case by simp
qed (auto simp: list_all_iff)

lemma plain_member: "plain (PDict d) \<Longrightarrow> dget d k = Some v \<Longrightarrow> plain v"
  using dget_member[of d k v] by (fastforce simp: list_all_iff)

lemma binding_of_canon:
  assumes "plain (PDict d)"
  shows "binding_of (sort_key fst (map (\<lambda>(k, v). (k, canon v)) d)) k = binding_of d k"
proof -
  have ok: "dict_ok d" using assms by simp
  show ?thesis
  proof (cases "dget d k")
    case (Some v)
    then have "plain v" using assms plain_member by blast
    then show ?thesis using Some
      by (cases v) (auto simp: binding_of_def dget_canon[OF ok] dget_canon dkeys_canon split: option.splits pyval.splits)
  qed (simp add: binding_of_def dget_canon[OF ok])
qed

lemma digest_of_canon:
  assumes "plain (PDict d)"
  shows "digest_of (sort_key fst (map (\<lambda>(k, v). (k, canon v)) d)) k = digest_of d k"
proof -
  have ok: "dict_ok d" using assms by simp
  show ?thesis by (cases "dget d k"; cases "the (dget d k)") (simp_all add: digest_of_def dget_canon[OF ok])
qed

lemma canon_eq_atom [simp]: "canon v = PStr s \<longleftrightarrow> v = PStr s" "canon v = PInt n \<longleftrightarrow> v = PInt n"
  by (cases v; simp)+

lemma validate_canon:
  assumes "plain v"
  shows "validate_promotion_marker (canon v) = validate_promotion_marker v"
proof (cases v)
  case (PDict d)
  note p = assms[unfolded PDict]
  have ok: "dict_ok d" using p by simp
  show ?thesis
    by (cases "dget d ''workspace''"; cases "dget d ''candidate''"; cases "the (dget d ''workspace'')";
        cases "the (dget d ''candidate'')")
      (simp_all add: PDict validate_promotion_marker_def dkeys_canon dget_canon[OF ok] binding_of_canon[OF p]
        digest_of_canon[OF p])
qed (simp_all add: validate_promotion_marker_def)

text \<open>A marker that was written is read back as what it says.\<close>

lemma marker_round_trip:
  assumes "canonical_promotion_marker (dc_fr cfg) d = Some data" and "plain (PDict d)"
    and "validate_promotion_marker (PDict d) = Some v" and "promotion_marker_name (pm_workspace v) = Some name"
  shows "marker_content cfg name data = Some v \<and> int (length data) \<le> 4096"
proof -
  let ?fr = "dc_fr cfg"
  have data: "data = dumps ?fr False (PDict d) @ [CHR 0x0A]" "int (length data) \<le> 4096"
    using assms(1) by (auto simp: canonical_promotion_marker_def Let_def split: if_splits)
  obtain d' where d': "canon (PDict d) = PDict d'" by simp
  have "list_all json_space [CHR 0x0A]" by (simp add: json_space_def)
  then have loads: "json_loads (dc_float cfg) data = Some (PDict d')"
    using json_loads_dumps[OF assms(2)] by (simp only: data(1) d')
  have valid: "validate_promotion_marker (PDict d') = Some v"
    using validate_canon[OF assms(2)] assms(3) by (simp only: d')
  have p': "plain (PDict d')" using plain_canon[OF assms(2)] by (simp only: d')
  have "canon (PDict d') = canon (PDict d)" using canon_canon[OF assms(2)] by (simp only: d')
  then have "dumps ?fr False (PDict d') = dumps ?fr False (PDict d)"
    using dumps_eq_iff_canon[OF p' assms(2)] by simp
  then have "canonical_promotion_marker ?fr d' = Some data"
    using data by (simp add: canonical_promotion_marker_def valid)
  then show ?thesis using data(2) assms(4) by (simp add: marker_content_def loads valid)
qed

end
