(* ===== verification/PromotionPhases.thy ===== *)
theory PromotionPhases
  imports PromotionRules
begin

section \<open>The phases of a promotion\<close>

text \<open>
  The layouts of a work root while a patch is applied to one workspace, and what keeps them. A
  promotion goes from the original tree, through a layout that is prepared (marker, original tree,
  candidate) and one that is committed (marker, new tree, old tree in the place of the candidate),
  to the promoted tree. Removing temporary files, also half of them, stays in a phase; removing the
  marker ends the prepared phase with the original tree and the committed phase with the new one.
\<close>

lemma node_simps [simp]:
  "wr_nodes (put_node n x d) = dset (wr_nodes d) n x" "wr_meta (put_node n x d) = wr_meta d"
  "wr_nodes (drop_node n d) = dpop (wr_nodes d) n" "wr_meta (drop_node n d) = wr_meta d"
  by (simp_all add: put_node_def drop_node_def)

definition node_at :: "work_root \<Rightarrow> string \<Rightarrow> wnode option" where
  "node_at d n = dget (wr_nodes d) n"

lemma node_at_simps [simp]:
  "node_at (put_node n x d) k = (if k = n then Some x else node_at d k)"
  "node_at (drop_node n d) k = (if k = n then None else node_at d k)"
  by (simp_all add: node_at_def)

text \<open>What the process relies on: its own identity, the names it draws, the sandbox, which writes inside
  the candidate directory only, and no hook.\<close>

definition sandbox_confined :: "'e tools_config \<Rightarrow> bool" where
  "sandbox_confined cfg \<longleftrightarrow> (\<forall>box interrupted p c e d r e' d'. tc_sandbox cfg = Some box
     \<longrightarrow> sb_stage box interrupted p c (e, d) = (r, e', d')
     \<longrightarrow> wr_meta d' = wr_meta d \<and> (dict_ok (wr_nodes d) \<longrightarrow> dict_ok (wr_nodes d'))
       \<and> (\<forall>n. n \<noteq> c \<longrightarrow> node_at d' n = node_at d n)
       \<and> (\<forall>m es. node_at d c = Some (WDir m es) \<longrightarrow> (\<exists>es'. node_at d' c = Some (WDir m es'))))"

definition setting :: "'e tools_config \<Rightarrow> meta \<Rightarrow> bool" where
  "setting cfg parent \<longleftrightarrow> safe_workspace_name (tc_name cfg) \<and> dc_uid cfg = md_uid parent
     \<and> dc_gid cfg = md_gid parent \<and> (\<forall>n. random_suffix (dc_suffix cfg n))
     \<and> (\<forall>c d. tc_hook cfg c d = d) \<and> sandbox_confined cfg"

text \<open>The lock file is absent or as the process makes it.\<close>

definition lock_fine :: "work_root \<Rightarrow> bool" where
  "lock_fine d \<longleftrightarrow> (case node_at d lock_name of None \<Rightarrow> True
     | Some (WFile m data) \<Rightarrow> md_nlink m = 1 \<and> same_owner m (wr_meta d) \<and> md_mode m = 0x180
     | _ \<Rightarrow> False)"

text \<open>Nothing but the workspace, its temporary files and the lock file differs from \<open>d0\<close>, and no other
  workspace has a marker.\<close>

definition own_name :: "string \<Rightarrow> string \<Rightarrow> bool" where
  "own_name w n \<longleftrightarrow> n = lock_name \<or> starts_with (''.'' @ w @ ''-'') n"

definition around :: "'e tools_config \<Rightarrow> work_root \<Rightarrow> work_root \<Rightarrow> bool" where
  "around cfg d0 d \<longleftrightarrow> wr_meta d = wr_meta d0 \<and> dict_ok (wr_nodes d) \<and> lock_fine d
     \<and> (\<forall>n. is_marker_name n \<longrightarrow> n \<noteq> own_marker cfg \<longrightarrow> node_at d n = None)
     \<and> (\<forall>n. n \<noteq> tc_name cfg \<longrightarrow> \<not> own_name (tc_name cfg) n \<longrightarrow> node_at d n = node_at d0 n)"

definition marked :: "'e tools_config \<Rightarrow> promotion_marker \<Rightarrow> work_root \<Rightarrow> bool" where
  "marked cfg v d \<longleftrightarrow> (\<exists>m data. node_at d (own_marker cfg) = Some (WFile m data) \<and> md_nlink m = 1
     \<and> same_owner m (wr_meta d) \<and> md_mode m = 0x180 \<and> int (length data) \<le> 4096
     \<and> marker_content cfg (own_marker cfg) data = Some v)"

text \<open>At the place of the candidate there is nothing, or the directory of the binding, perhaps with less
  in it.\<close>

definition leftover :: "work_root \<Rightarrow> string \<Rightarrow> int \<times> int \<times> string \<Rightarrow> bool" where
  "leftover d c b \<longleftrightarrow> (case node_at d c of None \<Rightarrow> True
     | Some node \<Rightarrow> ordinary_dir node (wr_meta d) \<and> identity (node_meta node) = (fst b, fst (snd b)))"

definition bound_tree :: "'e tools_config \<Rightarrow> int \<times> int \<times> string \<Rightarrow> wnode \<Rightarrow> bool" where
  "bound_tree cfg b node \<longleftrightarrow> (\<exists>s. snapshot_of (dc_sha cfg) (Some node) = Inr s
     \<and> bound_to b (node_meta node) (ws_source_digest s))"

datatype phase = Original | Prepared promotion_marker | Committed promotion_marker wnode | Promoted wnode

text \<open>The tree of the workspace in a phase.\<close>

fun phase_tree :: "wnode \<Rightarrow> phase \<Rightarrow> wnode" where
  "phase_tree old Original = old"
| "phase_tree old (Prepared v) = old"
| "phase_tree old (Committed v new) = new"
| "phase_tree old (Promoted new) = new"

fun phase_layout :: "'e tools_config \<Rightarrow> wnode \<Rightarrow> phase \<Rightarrow> work_root \<Rightarrow> bool" where
  "phase_layout cfg old Original d = (node_at d (own_marker cfg) = None)"
| "phase_layout cfg old (Prepared v) d =
     (marked cfg v d \<and> bound_tree cfg (pm_before v) old \<and> leftover d (pm_candidate v) (pm_after v))"
| "phase_layout cfg old (Committed v new) d =
     (marked cfg v d \<and> ordinary_dir new (wr_meta d) \<and> bound_tree cfg (pm_after v) new
      \<and> leftover d (pm_candidate v) (pm_before v))"
| "phase_layout cfg old (Promoted new) d = (node_at d (own_marker cfg) = None)"

definition at_phase :: "'e tools_config \<Rightarrow> work_root \<Rightarrow> wnode \<Rightarrow> phase \<Rightarrow> work_root \<Rightarrow> bool" where
  "at_phase cfg d0 old ph d \<longleftrightarrow> around cfg d0 d \<and> node_at d (tc_name cfg) = Some (phase_tree old ph)
     \<and> phase_layout cfg old ph d"

lemma at_phase_around: "at_phase cfg d0 old ph d \<Longrightarrow> around cfg d0 d"
  by (simp add: at_phase_def)

subsection \<open>Temporary files\<close>

lemma own_marker_name: "safe_workspace_name (tc_name cfg) \<Longrightarrow> is_marker_name (own_marker cfg)"
  "safe_workspace_name (tc_name cfg) \<Longrightarrow> own_marker cfg \<noteq> tc_name cfg"
  "own_name (tc_name cfg) (own_marker cfg)" "own_marker cfg \<noteq> lock_name"
proof -
  show "safe_workspace_name (tc_name cfg) \<Longrightarrow> is_marker_name (own_marker cfg)"
    by (auto simp: marker_name_iff own_marker_def)
  show "safe_workspace_name (tc_name cfg) \<Longrightarrow> own_marker cfg \<noteq> tc_name cfg"
    using safe_workspace_hd by (fastforce simp: own_marker_def)
  show "own_name (tc_name cfg) (own_marker cfg)"
    by (auto simp: own_name_def starts_with_iff own_marker_def marker_suffix_def)
  have "CHR ''-'' \<in> set (own_marker cfg)" by (simp add: own_marker_def marker_suffix_def)
  moreover have "CHR ''-'' \<notin> set lock_name" by (simp add: lock_name_def)
  ultimately show "own_marker cfg \<noteq> lock_name" by metis
qed

lemma scratch_name_own:
  assumes "scratch_name (tc_name cfg) n" and "safe_workspace_name (tc_name cfg)"
  shows "n \<noteq> tc_name cfg" "n \<noteq> lock_name" "n \<noteq> own_marker cfg" "own_name (tc_name cfg) n" "\<not> is_marker_name n"
  using scratch_name_not[OF assms] assms by (auto simp: own_marker_def own_name_def scratch_name_def)

lemma lock_fine_frame:
  "node_at d' lock_name = node_at d lock_name \<Longrightarrow> wr_meta d' = wr_meta d \<Longrightarrow> lock_fine d' = lock_fine d"
  by (simp add: lock_fine_def split: option.split wnode.split)

lemma leftover_frame:
  "node_at d' c = node_at d c \<Longrightarrow> wr_meta d' = wr_meta d \<Longrightarrow> leftover d' c b = leftover d c b"
  by (simp add: leftover_def split: option.split)

lemma leftover_None: "node_at d c = None \<Longrightarrow> leftover d c b"
  by (simp add: leftover_def)

lemma around_scratch:
  assumes "around cfg d0 d" and "scratch_name (tc_name cfg) n" and "safe_workspace_name (tc_name cfg)"
  shows "around cfg d0 (put_node n x d)" "around cfg d0 (drop_node n d)"
  using assms(1) scratch_name_own[OF assms(2,3)] lock_fine_frame[of "put_node n x d" d]
    lock_fine_frame[of "drop_node n d" d] by (auto simp: around_def)

lemma marked_frame:
  "node_at d' (own_marker cfg) = node_at d (own_marker cfg) \<Longrightarrow> wr_meta d' = wr_meta d \<Longrightarrow> marked cfg v d' = marked cfg v d"
  by (simp add: marked_def)

lemma leftover_drop: "leftover d c b \<Longrightarrow> leftover (drop_node n d) c b"
  by (cases "c = n") (simp_all add: leftover_None leftover_frame[of "drop_node n d" c d])

lemma leftover_shrink:
  assumes "node_at d n = Some (WDir m es)"
  shows "leftover (put_node n (WDir m es') d) c b = leftover d c b"
proof (cases "c = n")
  case True
  then show ?thesis using assms by (simp add: leftover_def ordinary_dir_def)
next
  case False
  then show ?thesis by (intro leftover_frame) simp_all
qed

lemma at_phase_drop:
  assumes "at_phase cfg d0 old ph d" and "scratch_name (tc_name cfg) n" and "safe_workspace_name (tc_name cfg)"
  shows "at_phase cfg d0 old ph (drop_node n d)"
proof -
  note n = scratch_name_own[OF assms(2,3)]
  have m: "marked cfg v (drop_node n d) = marked cfg v d" for v using n(3) by (intro marked_frame) auto
  show ?thesis using assms(1) around_scratch(2)[OF _ assms(2,3)] m n leftover_drop
    by (cases ph) (auto simp: at_phase_def)
qed

lemma at_phase_shrink:
  assumes "at_phase cfg d0 old ph d" and "scratch_name (tc_name cfg) n" and "safe_workspace_name (tc_name cfg)"
    and "node_at d n = Some (WDir m es)"
  shows "at_phase cfg d0 old ph (put_node n (WDir m es') d)"
proof -
  note n = scratch_name_own[OF assms(2,3)]
  have m: "marked cfg v (put_node n (WDir m es') d) = marked cfg v d" for v using n(3) by (intro marked_frame) auto
  show ?thesis using assms(1) around_scratch(1)[OF _ assms(2,3)] m n leftover_shrink[OF assms(4)]
    by (cases ph) (auto simp: at_phase_def)
qed

lemma original_put:
  assumes "at_phase cfg d0 old Original d" and "scratch_name (tc_name cfg) n" and "safe_workspace_name (tc_name cfg)"
  shows "at_phase cfg d0 old Original (put_node n x d)"
  using assms(1) scratch_name_own[OF assms(2,3)] around_scratch(1)[OF _ assms(2,3)]
  by (auto simp: at_phase_def)

text \<open>The phase that the removal of the marker leads to.\<close>

fun unmarked :: "phase \<Rightarrow> phase" where
  "unmarked (Prepared v) = Original"
| "unmarked (Committed v new) = Promoted new"
| "unmarked ph = ph"

lemma phase_tree_unmarked [simp]: "phase_tree old (unmarked ph) = phase_tree old ph"
  by (cases ph) simp_all

lemma at_phase_unmark:
  assumes "at_phase cfg d0 old ph d" and "safe_workspace_name (tc_name cfg)"
  shows "at_phase cfg d0 old (unmarked ph) (drop_node (own_marker cfg) d)"
proof -
  note a = at_phase_around[OF assms(1), unfolded around_def]
  let ?d = "drop_node (own_marker cfg) d"
  have "lock_fine ?d" using a own_marker_name(4)[of cfg] lock_fine_frame[of ?d d] by simp
  moreover have "\<forall>n. n \<noteq> tc_name cfg \<longrightarrow> \<not> own_name (tc_name cfg) n \<longrightarrow> node_at ?d n = node_at d0 n"
    using a own_marker_name(3)[of cfg] by auto
  ultimately have "around cfg d0 ?d" using a by (simp add: around_def)
  then show ?thesis
    using assms own_marker_name(2)[OF assms(2)] by (cases ph) (simp_all add: at_phase_def)
qed

text \<open>A marker that is read belongs to the workspace and binds a candidate of it.\<close>

lemma marker_contentD:
  assumes "marker_content cfg name data = Some v"
  shows "promotion_marker_name (pm_workspace v) = Some name" "candidate_of (pm_workspace v) (pm_candidate v)"
    "fst (pm_before v) = fst (pm_after v)" "fst (snd (pm_before v)) \<noteq> fst (snd (pm_after v))"
proof -
  obtain d where "validate_promotion_marker (PDict d) = Some v" and n: "promotion_marker_name (pm_workspace v) = Some name"
    using assms by (auto simp: marker_content_def split: option.splits pyval.splits if_splits)
  then show "promotion_marker_name (pm_workspace v) = Some name" "candidate_of (pm_workspace v) (pm_candidate v)"
    "fst (pm_before v) = fst (pm_after v)" "fst (snd (pm_before v)) \<noteq> fst (snd (pm_after v))"
    by (auto simp: validate_promotion_marker_def split: option.splits pyval.splits if_splits)
qed

lemma own_marker_workspace: "promotion_marker_name x = Some (own_marker cfg) \<Longrightarrow> x = tc_name cfg"
  by (auto simp: promotion_marker_name_def own_marker_def split: if_splits)

lemma markedD:
  assumes "marked cfg v d"
  shows "pm_workspace v = tc_name cfg" "scratch_name (tc_name cfg) (pm_candidate v)"
    "fst (snd (pm_before v)) \<noteq> fst (snd (pm_after v))"
proof -
  obtain data where data: "marker_content cfg (own_marker cfg) data = Some v" using assms by (auto simp: marked_def)
  show w: "pm_workspace v = tc_name cfg" by (rule own_marker_workspace[OF marker_contentD(1)[OF data]])
  show "scratch_name (tc_name cfg) (pm_candidate v)"
    using candidate_of_scratch[OF marker_contentD(2)[OF data]] by (simp only: w)
  show "fst (snd (pm_before v)) \<noteq> fst (snd (pm_after v))" by (rule marker_contentD(4)[OF data])
qed

end
