(* ===== verification/PromotionRecovery.thy ===== *)
theory PromotionRecovery
  imports PromotionPhases
begin

section \<open>Recovery of a promotion\<close>

text \<open>
  What the operations on the work root do in the phases of a promotion. \<open>recoverable_as\<close> says that the
  work root is in a phase in which the workspace has a given tree: the lock, the sweep of remnants
  and the reconciliation keep it under every fault, and a reconciliation without faults succeeds from
  every phase and leaves no marker behind.
\<close>

definition recoverable_as :: "'e tools_config \<Rightarrow> work_root \<Rightarrow> wnode \<Rightarrow> wnode \<Rightarrow> work_root \<Rightarrow> bool" where
  "recoverable_as cfg d0 old tree d \<longleftrightarrow> (\<exists>ph. at_phase cfg d0 old ph d \<and> phase_tree old ph = tree)"

lemma recoverableI: "at_phase cfg d0 old ph d \<Longrightarrow> recoverable_as cfg d0 old (phase_tree old ph) d"
  by (auto simp: recoverable_as_def)

text \<open>A process that recovers what \<open>cfg\<close> left: the same user, the same hash, printer and parser.\<close>

definition same_process :: "'e tools_config \<Rightarrow> 'c disk_config_scheme \<Rightarrow> bool" where
  "same_process cfg other \<longleftrightarrow> dc_sha other = dc_sha cfg \<and> dc_fr other = dc_fr cfg \<and> dc_float other = dc_float cfg
     \<and> dc_uid other = dc_uid cfg \<and> dc_gid other = dc_gid cfg"

lemma same_process_content: "same_process cfg other \<Longrightarrow> marker_content other = marker_content cfg"
  by (intro ext) (simp add: marker_content_def same_process_def split: option.split pyval.split)

subsection \<open>The lock\<close>

lemma at_phase_lock:
  assumes "at_phase cfg d0 old ph d" and "setting cfg (wr_meta d0)" and "node_at d lock_name = None"
    and "same_process cfg other"
  shows "at_phase cfg d0 old ph (put_node lock_name (WFile (new_meta other step 0x180 d) []) d)"
proof -
  let ?d = "put_node lock_name (WFile (new_meta other step 0x180 d) []) d"
  have safe: "safe_workspace_name (tc_name cfg)" using assms(2) by (simp add: setting_def)
  have not: "lock_name \<noteq> tc_name cfg" "\<not> is_marker_name lock_name" "lock_name \<noteq> own_marker cfg"
    using safe_workspace_hd[OF safe] own_marker_name(4)[of cfg] by (auto simp: lock_name_def is_marker_name_def
      marker_suffix_def ends_with_def starts_with_def)
  have par: "wr_meta d = wr_meta d0" using assms(1) by (simp add: at_phase_def around_def)
  have left: "leftover ?d c b" if "leftover d c b" "scratch_name (tc_name cfg) c" for c b
    using that scratch_name_own(2)[OF that(2) safe] leftover_frame[of ?d c d] by simp
  have "lock_fine ?d"
    using assms(2,4) by (simp add: lock_fine_def new_meta_def same_owner_def setting_def same_process_def par)
  then have "around cfg d0 ?d"
    using at_phase_around[OF assms(1)] not by (auto simp: around_def own_name_def)
  moreover have "marked cfg v ?d = marked cfg v d" for v using not(3) by (intro marked_frame) auto
  ultimately show ?thesis
    using assms(1) not by (cases ph) (auto simp: at_phase_def intro: left markedD(2))
qed

lemma yields_open_lock:
  assumes "at_phase cfg d0 old ph (sh_disk st)" and "setting cfg (wr_meta d0)" and "same_process cfg other"
  shows "always (at_phase cfg d0 old ph) (open_lock other st)"
  unfolding open_lock_def Let_def
  using assms at_phase_lock[OF assms(1,2) _ assms(3)]
  by (intro yields_alter_atomically) (auto simp: node_at_def split: option.splits wnode.splits)

lemma yields_lock:
  assumes "at_phase cfg d0 old ph (sh_disk st)" and "setting cfg (wr_meta d0)" and "same_process cfg other"
  shows "always (at_phase cfg d0 old ph) (work_root_lock other st)"
  unfolding work_root_lock_def
  by (intro always_bind yields_on_os_error[OF yields_open_lock[OF assms]]
      yields_on_os_error[OF always_reads(2)[where J = "at_phase cfg d0 old ph"]] yields_recovery) (auto intro: yields_recovery split: wnode.split)

subsection \<open>Reading a marker\<close>

text \<open>Any predicate of the work root is kept, and what is read is bound to the name of the file.\<close>

definition named_layout :: "string \<Rightarrow> promotion_marker \<Rightarrow> bool" where
  "named_layout name v \<longleftrightarrow> promotion_marker_name (pm_workspace v) = Some name
     \<and> candidate_of (pm_workspace v) (pm_candidate v)"

lemma yields_read_marker:
  assumes "J (sh_disk st)"
  shows "yields (\<lambda>v d. J d \<and> named_layout name v) (\<lambda>_. J) (read_promotion_marker other name st)"
  unfolding read_promotion_marker_def Let_def
  by (intro yields_bind[OF yields_on_os_error[OF always_reads(2)[where J = J, OF assms]]])
    (auto intro!: yields_recovery yields_bind[OF yields_on_os_error[OF always_reads(1)[where J = J]]]
      simp: named_layout_def dest: marker_contentD split: wnode.split option.split)

lemma always_candidate:
  assumes "J (sh_disk s)"
  shows "always J (case lstat other c s of
        (Inl NotFound, st) \<Rightarrow> (Inr None, st) | (Inl SystemError, st) \<Rightarrow> recovery_required st
      | (Inl e, st) \<Rightarrow> (Inl e, st) | (Inr node, st) \<Rightarrow> (Inr (Some node), st))"
proof -
  have "always J (lstat other c s)" by (rule always_reads(2)[where J = J, OF assms])
  then show ?thesis
    by (auto simp: yields_def recovery_required_def split: prod.splits sum.splits shop_failure.splits)
qed

lemma yields_classify:
  assumes "J (sh_disk st)"
  shows "yields (\<lambda>l d. J d \<and> pl_marker l = name \<and> named_layout name (pl_value l)) (\<lambda>_. J)
    (classify_promotion_marker other name st)"
proof -
  show ?thesis
    unfolding classify_promotion_marker_def Let_def
    by (rule yields_bind[OF yields_read_marker[where J = J, OF assms]], rule yields_bind[OF yields_on_os_error[OF always_reads(2)[where J = J]]])
      (auto intro!: yields_recovery yields_bind[OF yields_on_capture_error[OF always_reads(3)[where J = J]]] yields_bind[OF always_candidate])
qed

subsection \<open>Removing files\<close>

lemma yields_rmtree_phase:
  assumes "at_phase cfg d0 old ph (sh_disk st)" and "scratch_name (tc_name cfg) n" and "safe_workspace_name (tc_name cfg)"
  shows "always (at_phase cfg d0 old ph) (rmtree other n st)"
  using assms at_phase_drop[OF assms] at_phase_shrink[OF assms]
  by (intro yields_rmtree) (auto simp: node_at_def)

lemma yields_unlink_phase:
  assumes "at_phase cfg d0 old ph (sh_disk st)" and "scratch_name (tc_name cfg) n" and "safe_workspace_name (tc_name cfg)"
  shows "always (at_phase cfg d0 old ph) (unlink other n st)"
  using assms at_phase_drop[OF assms] by (intro yields_unlink) auto

lemma yields_unlink_marker:
  assumes "at_phase cfg d0 old ph (sh_disk st)" and "safe_workspace_name (tc_name cfg)"
  shows "yields (\<lambda>_. at_phase cfg d0 old (unmarked ph)) (\<lambda>_. recoverable_as cfg d0 old (phase_tree old ph))
    (unlink other (own_marker cfg) st)"
  using recoverableI[OF assms(1)] at_phase_unmark[OF assms] recoverableI[OF at_phase_unmark[OF assms]]
  by (intro yields_unlink) auto

text \<open>The sweep of the remnants of the workspace.\<close>

lemma yields_remove_remnants:
  assumes "at_phase cfg d0 old ph (sh_disk st)" and "list_all (\<lambda>(n, what). scratch_name (tc_name cfg) n) rs"
    and "safe_workspace_name (tc_name cfg)"
  shows "always (at_phase cfg d0 old ph) (remove_remnants other rs st)"
  using assms(1,2)
proof (induction rs arbitrary: st)
  case (Cons r rs)
  obtain n what where r: "r = (n, what)" by (cases r)
  have "scratch_name (tc_name cfg) n" using Cons.prems(2) by (simp add: r)
  then have "always (at_phase cfg d0 old ph) (if what = ''candidate'' then rmtree other n st else unlink other n st)"
    using Cons.prems(1) assms(3) yields_rmtree_phase yields_unlink_phase by auto
  then show ?case using Cons.IH Cons.prems(2) by (simp add: r always_bind)
qed simp

lemma yields_select_remnants:
  fixes st :: "'s shop_scheme"
  assumes "J (sh_disk st)" and "\<And>n. n \<in> set names \<Longrightarrow> \<not> is_marker_name n"
  shows "yields (\<lambda>rs d. J d \<and> list_all (\<lambda>(n, what). scratch_name w n) rs) (\<lambda>_. J)
    (select_remnants other (Some w) names st)"
  using assms
proof (induction names arbitrary: st)
  case (Cons name names)
  have rest: "yields (\<lambda>rs d. J d \<and> list_all (\<lambda>(n, what). scratch_name w n) rs) (\<lambda>_. J)
      (select_remnants other (Some w) names s)" if "J (sh_disk s)" for s :: "'s shop_scheme"
    using Cons.IH[OF that] Cons.prems(2) by simp
  show ?case
  proof (cases "remnant_of name")
    case (Some p)
    obtain x what where p: "p = (x, what)" by (cases p)
    show ?thesis
    proof (cases "x = w")
      case True
      then have "scratch_name w name" using remnant_scratch[of name w what] Some p Cons.prems(2) by simp
      then have add: "yields (\<lambda>rs d. J d \<and> list_all (\<lambda>(n, what). scratch_name w n) rs) (\<lambda>_. J)
          (bind_op (select_remnants other (Some w) names s) (\<lambda>rest st. (Inr ((name, what) # rest), st)))"
        if "J (sh_disk s)" for s :: "'s shop_scheme"
        by (intro yields_bind[OF rest[OF that]]) simp
      show ?thesis using Some p True Cons.prems(1)
        by (auto intro!: yields_bind[OF yields_on_os_error[OF always_reads(2)[where J = J]]] yields_recovery add)
    qed (use Some p rest Cons.prems(1) in simp)
  qed (use rest Cons.prems(1) in simp)
qed simp

lemma yields_read_markers:
  assumes "J (sh_disk st)"
  shows "always J (read_markers other names st)"
  using assms
proof (induction names arbitrary: st)
  case (Cons name names)
  show ?case
    by (simp, rule yields_bind[OF yields_read_marker[where J = J, OF Cons.prems]]) (simp add: Cons.IH)
qed simp

lemma yields_cleanup:
  assumes "at_phase cfg d0 old ph (sh_disk st)" and "safe_workspace_name (tc_name cfg)"
  shows "yields (\<lambda>_. at_phase cfg d0 old ph) (\<lambda>_. at_phase cfg d0 old ph)
    (cleanup_patch_remnants_locked other (Some (tc_name cfg)) st)"
proof -
  let ?J = "at_phase cfg d0 old ph"
  have sweep: "always ?J (let markers = filter is_marker_name names in
       if markers \<noteq> [] then bind_op (read_markers other markers s) (\<lambda>_ st. recovery_required st)
       else bind_op (select_remnants other (Some (tc_name cfg)) names s) (\<lambda>selected st.
         on_os_error (remove_remnants other selected st) cleanup_required))" if s: "?J (sh_disk s)" for names s
  proof (cases "filter is_marker_name names = []")
    case True
    then have none: "\<And>n. n \<in> set names \<Longrightarrow> \<not> is_marker_name n" by (simp add: filter_empty_conv)
    have "always ?J (bind_op (select_remnants other (Some (tc_name cfg)) names s) (\<lambda>selected st.
         on_os_error (remove_remnants other selected st) cleanup_required))"
      by (intro yields_bind[OF yields_select_remnants[where J = ?J, OF s none]])
        (auto intro!: yields_on_os_error[OF yields_remove_remnants] yields_recovery simp: assms(2))
    then show ?thesis using True by simp
  next
    case False
    then show ?thesis by (auto intro!: always_bind yields_read_markers yields_recovery s)
  qed
  show ?thesis
    unfolding cleanup_patch_remnants_locked_def
    by (rule yields_bind[OF yields_on_os_error[OF always_reads(5)[where J = ?J, OF assms(1)]]])
      (simp_all add: sweep yields_recovery)
qed

subsection \<open>Reconciliation under faults\<close>

lemma yields_classify_all:
  fixes st :: "'s shop_scheme"
  assumes "J (sh_disk st)"
  shows "yields (\<lambda>ls d. J d \<and> (\<forall>l \<in> set ls. pl_marker l \<in> set names \<and> named_layout (pl_marker l) (pl_value l))) (\<lambda>_. J)
    (classify_all other names st)"
  using assms
proof (induction names arbitrary: st)
  case (Cons name names)
  show ?case
    by (simp, rule yields_bind[OF yields_classify[where J = J, OF Cons.prems]],
        rule yields_bind[OF Cons.IH]) auto
qed simp

lemma recoverable_keeps:
  assumes "recoverable_as cfg d0 old t d"
    and "\<And>ph. phase_tree old ph = t \<Longrightarrow> at_phase cfg d0 old ph d \<Longrightarrow> yields (\<lambda>_. at_phase cfg d0 old ph) (\<lambda>_. at_phase cfg d0 old ph) r"
  shows "always (recoverable_as cfg d0 old t) r"
proof -
  obtain ph where ph: "at_phase cfg d0 old ph d" "phase_tree old ph = t" using assms(1) by (auto simp: recoverable_as_def)
  show ?thesis using yields_weaken[OF assms(2)[OF ph(2,1)]] recoverableI[of cfg d0 old ph] ph(2) by simp
qed

lemma yields_remove_candidate:
  assumes "at_phase cfg d0 old ph (sh_disk st)" and "scratch_name (tc_name cfg) n" and "safe_workspace_name (tc_name cfg)"
  shows "always (at_phase cfg d0 old ph) (remove_candidate other n st)"
proof -
  let ?J = "at_phase cfg d0 old ph"
  obtain a s where l: "lstat other n st = (a, s)" by (cases "lstat other n st")
  have "always ?J (lstat other n st)" by (rule always_reads(2)[where J = ?J, OF assms(1)])
  then have J: "?J (sh_disk s)" by (cases a) (simp_all add: l)
  have "always ?J (on_os_error (rmtree other n s) recovery_required)"
    by (rule yields_on_os_error[OF yields_rmtree_phase[OF J assms(2,3)]]) (auto intro: yields_recovery)
  moreover have "always ?J (remove_candidate other n st)" if "a = Inl e" for e
    using J that by (cases e) (simp_all add: remove_candidate_def l recovery_required_def)
  ultimately show ?thesis by (cases a) (simp_all add: remove_candidate_def l)
qed

lemma named_layout_own: "named_layout (own_marker cfg) v \<Longrightarrow> scratch_name (tc_name cfg) (pm_candidate v)"
  using own_marker_workspace[of "pm_workspace v" cfg] candidate_of_scratch[of "pm_workspace v"]
  by (simp add: named_layout_def)

lemma yields_resolve:
  fixes st :: "'s shop_scheme"
  assumes "recoverable_as cfg d0 old t (sh_disk st)" and "safe_workspace_name (tc_name cfg)"
    and "\<forall>l \<in> set ls. pl_marker l = own_marker cfg \<and> named_layout (pl_marker l) (pl_value l)"
  shows "always (recoverable_as cfg d0 old t) (resolve_layouts other ls st)"
  using assms(1,3)
proof (induction ls arbitrary: st)
  case (Cons l ls)
  let ?J = "recoverable_as cfg d0 old t"
  have l: "pl_marker l = own_marker cfg" "scratch_name (tc_name cfg) (pm_candidate (pl_value l))"
    using Cons.prems(2) named_layout_own by auto
  have remove: "always ?J (remove_candidate other (pm_candidate (pl_value l)) st)"
    by (rule recoverable_keeps[OF Cons.prems(1)]) (rule yields_remove_candidate[OF _ l(2) assms(2)])
  have unmark: "always ?J (unlink other (pl_marker l) s)" if J: "?J (sh_disk s)" for s :: "'s shop_scheme"
  proof -
    obtain ph where ph: "at_phase cfg d0 old ph (sh_disk s)" "phase_tree old ph = t"
      using J by (auto simp: recoverable_as_def)
    show ?thesis
      using yields_unlink_marker[OF ph(1) assms(2), of other] recoverableI[of cfg d0 old "unmarked ph"] ph(2)
      by (auto simp: l(1) elim!: yields_weaken)
  qed
  have "always ?J (on_os_error (bind_op (fsync other s) (\<lambda>_ st. bind_op (unlink other (pl_marker l) st) (\<lambda>_ st. fsync other st)))
       recovery_required)" if "?J (sh_disk s)" for s :: "'s shop_scheme"
    by (intro yields_on_os_error[where E' = "\<lambda>_. ?J"] always_bind always_reads(4) unmark yields_recovery)
      (auto simp: that)
  moreover have "always ?J (resolve_layouts other ls s)" if "?J (sh_disk s)" for s :: "'s shop_scheme"
    using Cons.prems(2) by (intro Cons.IH[OF that]) auto
  ultimately show ?case unfolding resolve_layouts.simps by (intro always_bind remove)
qed simp

lemma around_markers:
  assumes "around cfg d0 d" and "n \<in> set (filter is_marker_name (dkeys (wr_nodes d)))"
  shows "n = own_marker cfg"
  using assms by (auto simp: around_def node_at_def in_dkeys_iff)

lemma yields_reconcile_locked:
  fixes st :: "'s shop_scheme"
  assumes "recoverable_as cfg d0 old t (sh_disk st)" and "safe_workspace_name (tc_name cfg)"
  shows "always (recoverable_as cfg d0 old t) (reconcile_promotion_markers_locked other st)"
proof -
  let ?J = "recoverable_as cfg d0 old t"
  let ?N = "\<lambda>names. \<forall>n \<in> set (filter is_marker_name names). n = own_marker cfg"
  have around: "around cfg d0 (sh_disk st)" using assms(1) by (auto simp: recoverable_as_def at_phase_def)
  have names: "yields (\<lambda>names d. ?J d \<and> ?N names) (\<lambda>_. ?J) (on_os_error (names_in other st) recovery_required)"
    by (rule yields_on_os_error[where E' = "\<lambda>_. ?J"])
      (auto intro!: yields_names yields_recovery simp: assms(1) around_markers[OF around])
  have rest: "always ?J (bind_op (classify_all other (sort (filter is_marker_name names)) s) (\<lambda>layouts st.
       if \<not> distinct_layouts layouts then recovery_required st
       else bind_op (resolve_layouts other layouts st) (\<lambda>_ st. (Inr layouts, st))))"
    if "?J (sh_disk s) \<and> ?N names" for names and s :: "'s shop_scheme"
  proof (rule yields_bind[OF yields_classify_all[where J = ?J]])
    show "?J (sh_disk s)" using that by simp
    fix ls :: "promotion_layout list" and u :: "'s shop_scheme"
    assume u: "?J (sh_disk u) \<and> (\<forall>l \<in> set ls. pl_marker l \<in> set (sort (filter is_marker_name names))
      \<and> named_layout (pl_marker l) (pl_value l))"
    then have "\<forall>l \<in> set ls. pl_marker l = own_marker cfg \<and> named_layout (pl_marker l) (pl_value l)"
      using that by auto
    then show "always ?J (if \<not> distinct_layouts ls then recovery_required u
       else bind_op (resolve_layouts other ls u) (\<lambda>_ st. (Inr ls, st)))"
      using u by (auto intro!: yields_recovery always_bind yields_resolve[OF _ assms(2)])
  qed
  show ?thesis unfolding reconcile_promotion_markers_locked_def by (rule yields_bind[OF names rest])
qed

lemma yields_reconcile:
  fixes st :: "'s shop_scheme"
  assumes "recoverable_as cfg d0 old t (sh_disk st)" and "setting cfg (wr_meta d0)" and "same_process cfg other"
  shows "always (recoverable_as cfg d0 old t) (reconcile_promotion_markers other st)"
proof -
  have safe: "safe_workspace_name (tc_name cfg)" using assms(2) by (simp add: setting_def)
  have "always (recoverable_as cfg d0 old t) (work_root_lock other st)"
    by (rule recoverable_keeps[OF assms(1)]) (rule yields_lock[OF _ assms(2,3)])
  then show ?thesis unfolding reconcile_promotion_markers_def
    by (auto intro!: always_bind yields_reconcile_locked safe)
qed

subsection \<open>Reconciliation without faults\<close>

definition calm :: "'c disk_config_scheme \<Rightarrow> bool" where
  "calm cfg \<longleftrightarrow> dc_fault cfg = (\<lambda>_. Works)"

lemma calm_look: "calm cfg \<Longrightarrow> look cfg f st = (f (sh_disk st), tick st)"
  by (simp add: look_def calm_def)

lemma calm_alter:
  "calm cfg \<Longrightarrow> f (sh_disk st) = Inr d \<Longrightarrow> alter cfg f part st = (Inr (), (tick st)\<lparr>sh_disk := d\<rparr>)"
  by (simp add: alter_def calm_def)

lemma calm_lstat:
  "calm cfg \<Longrightarrow> lstat cfg n st = (case node_at (sh_disk st) n of None \<Rightarrow> Inl NotFound | Some x \<Rightarrow> Inr x, tick st)"
  by (simp add: lstat_def calm_look node_at_def)

lemma calm_snapshot:
  "calm cfg \<Longrightarrow> node_at (sh_disk st) n = Some x \<Longrightarrow> snapshot_of (dc_sha cfg) (Some x) = Inr s
    \<Longrightarrow> take_snapshot cfg n st = (Inr s, tick st)"
  by (simp add: take_snapshot_def calm_look node_at_def on_os_error_def)

lemma calm_unlink:
  "calm cfg \<Longrightarrow> node_at (sh_disk st) n = Some (WFile m data)
    \<Longrightarrow> unlink cfg n st = (Inr (), (tick st)\<lparr>sh_disk := drop_node n (sh_disk st)\<rparr>)"
  by (simp add: unlink_def Let_def node_at_def calm_alter)

lemma calm_rmtree:
  "calm cfg \<Longrightarrow> node_at (sh_disk st) n = Some (WDir m es)
    \<Longrightarrow> rmtree cfg n st = (Inr (), (tick st)\<lparr>sh_disk := drop_node n (sh_disk st)\<rparr>)"
  by (simp add: rmtree_def node_at_def calm_alter)

lemma on_os_error_Inr [simp]: "on_os_error (Inr x, s) h = (Inr x, s)" "on_capture_error (Inr x, s) g = (Inr x, s)"
  by (simp_all add: on_os_error_def on_capture_error_def)

lemma calm_lock:
  assumes "at_phase cfg d0 old ph (sh_disk st)" and "setting cfg (wr_meta d0)" and "same_process cfg other" and "calm other"
  shows "\<exists>s. work_root_lock other st = (Inr (), s) \<and> at_phase cfg d0 old ph (sh_disk s)"
proof -
  have fine: "lock_fine (sh_disk st)" using at_phase_around[OF assms(1)] by (simp add: around_def)
  have "\<exists>u m data. open_lock other st = (Inr (), u) \<and> at_phase cfg d0 old ph (sh_disk u)
      \<and> node_at (sh_disk u) lock_name = Some (WFile m data)"
  proof (cases "node_at (sh_disk st) lock_name")
    case None
    then show ?thesis using at_phase_lock[OF assms(1,2) None assms(3)] assms(4)
      by (simp add: open_lock_def calm_alter node_at_def)
  next
    case (Some x)
    then obtain m data where "x = WFile m data" using fine by (auto simp: lock_fine_def split: wnode.splits)
    then show ?thesis using Some assms(1,4) by (simp add: open_lock_def calm_alter node_at_def)
  qed
  then obtain u m data where u: "open_lock other st = (Inr (), u)" "at_phase cfg d0 old ph (sh_disk u)"
    "node_at (sh_disk u) lock_name = Some (WFile m data)" by blast
  have "lock_fine (sh_disk u)" using at_phase_around[OF u(2)] by (simp add: around_def)
  then show ?thesis using u assms(4) by (simp add: work_root_lock_def calm_lstat lock_fine_def)
qed

lemma calm_read_marker:
  assumes "marked cfg v (sh_disk st)" and "same_process cfg other" and "calm other"
  shows "read_promotion_marker other (own_marker cfg) st = (Inr v, tick (tick st))"
  using assms by (auto simp: marked_def read_promotion_marker_def calm_lstat calm_look same_process_content)

text \<open>The marker of a prepared or committed phase, and how it is classified.\<close>

lemma calm_classify:
  assumes "at_phase cfg d0 old ph (sh_disk st)" and "ordinary_dir old (wr_meta d0)" and "same_process cfg other" and "calm other"
    and "ph = Prepared v \<and> committed = False \<or> ph = Committed v new \<and> committed = True"
  shows "\<exists>s. classify_promotion_marker other (own_marker cfg) st
      = (Inr \<lparr>pl_marker = own_marker cfg, pl_value = v, pl_committed = committed\<rparr>, s) \<and> sh_disk s = sh_disk st"
proof -
  let ?d = "sh_disk st"
  let ?tree = "phase_tree old ph"
  have m: "marked cfg v ?d" and tree: "node_at ?d (tc_name cfg) = Some ?tree" and par: "wr_meta ?d = wr_meta d0"
    using assms(1,5) by (auto simp: at_phase_def around_def)
  note mv = markedD(1,3)[OF m]
  have ord: "ordinary_dir ?tree (wr_meta ?d)" using assms(1,2,5) par by (auto simp: at_phase_def)
  let ?own = "if committed then pm_after v else pm_before v"
  let ?other = "if committed then pm_before v else pm_after v"
  obtain s where s: "snapshot_of (dc_sha cfg) (Some ?tree) = Inr s" "bound_to ?own (node_meta ?tree) (ws_source_digest s)"
    using assms(1,5) by (auto simp: at_phase_def bound_tree_def)
  then have prep: "bound_to (pm_before v) (node_meta ?tree) (ws_source_digest s) \<longleftrightarrow> \<not> committed"
    using mv(2) by (auto simp: bound_to_def)
  have "leftover ?d (pm_candidate v) ?other" using assms(1,5) by (auto simp: at_phase_def)
  then consider "node_at ?d (pm_candidate v) = None"
    | x where "node_at ?d (pm_candidate v) = Some x" "ordinary_dir x (wr_meta ?d)"
        "identity (node_meta x) = (fst ?other, fst (snd ?other))"
    by (cases "node_at ?d (pm_candidate v)") (auto simp: leftover_def)
  note candidate = this
  have snap: "take_snapshot other (tc_name cfg) (tick (tick (tick st))) = (Inr s, tick (tick (tick (tick st))))"
    using s(1) tree assms(3,4) by (intro calm_snapshot) (simp_all add: same_process_def)
  note simps = classify_promotion_marker_def Let_def calm_read_marker[OF m assms(3,4)] calm_lstat[OF assms(4)]
    mv(1) tree ord snap
  show ?thesis
  proof (cases committed)
    case True
    from candidate show ?thesis by cases (use s(2) prep True in \<open>simp_all add: simps\<close>)
  next
    case False
    from candidate show ?thesis by cases (use s(2) prep False in \<open>simp_all add: simps\<close>)
  qed
qed

lemma distinct_singleton: "distinct xs \<Longrightarrow> set xs = {a} \<Longrightarrow> xs = [a]"
  by (cases xs; cases "tl xs") auto

lemma leftover_dir:
  "leftover d c b \<Longrightarrow> node_at d c = None \<or> (\<exists>m es. node_at d c = Some (WDir m es))"
  by (auto simp: leftover_def ordinary_dir_def split: option.splits wnode.splits)

lemma marker_names:
  assumes "around cfg d0 d" and "safe_workspace_name (tc_name cfg)"
  shows "filter is_marker_name (dkeys (wr_nodes d)) = (if node_at d (own_marker cfg) = None then [] else [own_marker cfg])"
proof -
  let ?names = "filter is_marker_name (dkeys (wr_nodes d))"
  have "distinct ?names" using assms(1) by (simp add: around_def dict_ok_def dkeys_def)
  moreover have "n \<in> set ?names \<longleftrightarrow> n = own_marker cfg \<and> node_at d (own_marker cfg) \<noteq> None" for n
  proof
    assume n: "n \<in> set ?names"
    then have "n = own_marker cfg" by (rule around_markers[OF assms(1)])
    then show "n = own_marker cfg \<and> node_at d (own_marker cfg) \<noteq> None"
      using n by (simp add: node_at_def in_dkeys_iff)
  qed (use own_marker_name(1)[OF assms(2)] in \<open>simp add: node_at_def in_dkeys_iff\<close>)
  then have "set ?names = (if node_at d (own_marker cfg) = None then {} else {own_marker cfg})" by auto
  ultimately show ?thesis using distinct_singleton[of ?names "own_marker cfg"] set_empty[of ?names]
    by (cases "node_at d (own_marker cfg) = None") (simp_all del: set_filter set_empty)
qed

lemma calm_resolve:
  assumes "at_phase cfg d0 old ph (sh_disk st)" and "safe_workspace_name (tc_name cfg)" and "calm other"
    and "marked cfg v (sh_disk st)" and "node_at (sh_disk st) (pm_candidate v) = None
      \<or> (\<exists>m es. node_at (sh_disk st) (pm_candidate v) = Some (WDir m es))"
  shows "\<exists>s. resolve_layouts other [\<lparr>pl_marker = own_marker cfg, pl_value = v, pl_committed = c\<rparr>] st = (Inr (), s)
    \<and> at_phase cfg d0 old (unmarked ph) (sh_disk s)"
proof -
  let ?c = "pm_candidate v"
  obtain m data where own: "node_at (sh_disk st) (own_marker cfg) = Some (WFile m data)"
    using assms(4) by (auto simp: marked_def)
  have scratch: "scratch_name (tc_name cfg) ?c" by (rule markedD(2)[OF assms(4)])
  have "\<exists>u. remove_candidate other ?c st = (Inr (), u) \<and> at_phase cfg d0 old ph (sh_disk u)
      \<and> node_at (sh_disk u) (own_marker cfg) = Some (WFile m data)"
    using assms(1,3,5) own at_phase_drop[OF assms(1) scratch assms(2)] scratch_name_own(3)[OF scratch assms(2)]
    by (auto simp: remove_candidate_def calm_lstat calm_rmtree)
  then obtain u where u: "remove_candidate other ?c st = (Inr (), u)" "at_phase cfg d0 old ph (sh_disk u)"
    "node_at (sh_disk u) (own_marker cfg) = Some (WFile m data)" by blast
  then show ?thesis using assms(3) at_phase_unmark[OF u(2) assms(2)]
    by (simp add: fsync_def calm_look calm_unlink)
qed

text \<open>From every phase the reconciliation succeeds; the tree stays and the marker is gone.\<close>

lemma calm_reconcile:
  assumes "at_phase cfg d0 old ph (sh_disk st)" and "setting cfg (wr_meta d0)" and "ordinary_dir old (wr_meta d0)"
    and "same_process cfg other" and "calm other"
  shows "\<exists>states s. reconcile_promotion_markers other st = (Inr states, s) \<and> at_phase cfg d0 old (unmarked ph) (sh_disk s)"
proof -
  have safe: "safe_workspace_name (tc_name cfg)" using assms(2) by (simp add: setting_def)
  obtain u where u: "work_root_lock other st = (Inr (), u)" "at_phase cfg d0 old ph (sh_disk u)"
    using calm_lock[OF assms(1,2,4,5)] by blast
  let ?d = "sh_disk u"
  have names: "names_in other u = (Inr (dkeys (wr_nodes ?d)), tick u)" by (simp add: names_in_def calm_look assms(5))
  note markers = marker_names[OF at_phase_around[OF u(2)] safe]
  have u': "at_phase cfg d0 old ph (sh_disk (tick u))" using u(2) by simp
  show ?thesis
  proof (cases "node_at ?d (own_marker cfg)")
    case None
    then have "unmarked ph = ph" using u(2) by (cases ph) (auto simp: at_phase_def marked_def)
    then show ?thesis using u(2) None
      by (simp add: reconcile_promotion_markers_def reconcile_promotion_markers_locked_def u(1) names markers
          distinct_layouts_def)
  next
    case (Some x)
    then obtain v committed new where v: "ph = Prepared v \<and> committed = False \<or> ph = Committed v new \<and> committed = True"
      using u(2) by (cases ph) (auto simp: at_phase_def)
    then have m: "marked cfg v ?d" using u(2) by (auto simp: at_phase_def)
    have cand: "node_at ?d (pm_candidate v) = None \<or> (\<exists>m es. node_at ?d (pm_candidate v) = Some (WDir m es))"
      using v u(2) leftover_dir[of ?d "pm_candidate v" "pm_after v"] leftover_dir[of ?d "pm_candidate v" "pm_before v"]
      by (elim disjE conjE) (simp_all add: at_phase_def)
    obtain s where s: "classify_promotion_marker other (own_marker cfg) (tick u)
        = (Inr \<lparr>pl_marker = own_marker cfg, pl_value = v, pl_committed = committed\<rparr>, s)" "sh_disk s = ?d"
      using calm_classify[OF u' assms(3-5) v] by auto
    obtain t where t: "resolve_layouts other [\<lparr>pl_marker = own_marker cfg, pl_value = v, pl_committed = committed\<rparr>] s = (Inr (), t)"
      "at_phase cfg d0 old (unmarked ph) (sh_disk t)"
      using calm_resolve[of cfg d0 old ph s other v committed] u(2) s(2) safe assms(5) m cand by auto
    show ?thesis using t Some
      by (simp add: reconcile_promotion_markers_def reconcile_promotion_markers_locked_def u(1) names markers
          s(1) distinct_layouts_def del: resolve_layouts.simps)
  qed
qed

end
