(* ===== verification/PromotionSafety.thy ===== *)
theory PromotionSafety
  imports PromotionRecovery
begin

section \<open>Applying a patch is safe under faults and crashes\<close>

text \<open>
  The steps of \<open>_apply_patch\<close> from the staging of the candidate to the end of the promotion, each
  with the phases that it can leave behind. A reply that says promoted leaves the new tree and no
  marker, every other reply the original tree and no marker, and a failure or a crash some phase of
  one of the two trees.
\<close>

definition accepted :: "'e tools_config \<Rightarrow> wnode \<Rightarrow> string \<Rightarrow> wnode \<Rightarrow> bool" where
  "accepted cfg old patch new \<longleftrightarrow> (\<exists>declared before after.
     declared_patch_paths patch = Some declared \<and> snapshot_of (dc_sha cfg) (Some old) = Inr before
     \<and> snapshot_of (dc_sha cfg) (Some new) = Inr after
     \<and> set (workspace_changed_paths (dc_sha cfg) before after) \<subseteq> set declared)"

definition settled :: "'e tools_config \<Rightarrow> work_root \<Rightarrow> wnode \<Rightarrow> string \<Rightarrow> patch_reply \<Rightarrow> work_root \<Rightarrow> bool" where
  "settled cfg d0 old patch reply d \<longleftrightarrow>
     (if pr_promoted reply then \<exists>new. accepted cfg old patch new \<and> at_phase cfg d0 old (Promoted new) d
      else at_phase cfg d0 old Original d)"

definition unsettled :: "'e tools_config \<Rightarrow> work_root \<Rightarrow> wnode \<Rightarrow> string \<Rightarrow> work_root \<Rightarrow> bool" where
  "unsettled cfg d0 old patch d \<longleftrightarrow>
     (\<exists>tree. recoverable_as cfg d0 old tree d \<and> (tree = old \<or> accepted cfg old patch tree))"

abbreviation ends :: "'e tools_config \<Rightarrow> work_root \<Rightarrow> wnode \<Rightarrow> string \<Rightarrow> (patch_reply, 'e) tool_outcome \<Rightarrow> bool" where
  "ends cfg d0 old patch \<equiv> yields (settled cfg d0 old patch) (\<lambda>_. unsettled cfg d0 old patch)"

lemma unsettled_old: "recoverable_as cfg d0 old old d \<Longrightarrow> unsettled cfg d0 old patch d"
  by (auto simp: unsettled_def)

lemma unsettled_phase:
  "at_phase cfg d0 old ph d \<Longrightarrow> phase_tree old ph = old \<or> accepted cfg old patch (phase_tree old ph)
    \<Longrightarrow> unsettled cfg d0 old patch d"
  unfolding unsettled_def using recoverableI by blast

lemma original_unsettled: "at_phase cfg d0 old Original d \<Longrightarrow> unsettled cfg d0 old patch d"
  by (rule unsettled_phase[where ph = Original]) simp_all

lemma unmarked_original:
  assumes "recoverable_as cfg d0 old old d" and "node_at d (own_marker cfg) = None"
  shows "at_phase cfg d0 old Original d"
proof -
  obtain ph where "at_phase cfg d0 old ph d" "phase_tree old ph = old" using assms(1) by (auto simp: recoverable_as_def)
  then show ?thesis using assms(2) by (cases ph) (auto simp: at_phase_def marked_def)
qed

subsection \<open>Rejections\<close>

lemma yields_delta: "J (sh_disk st) \<Longrightarrow> always J (delta_of cfg before after paths st)"
  by (simp add: delta_of_def split: sum.split)

lemma ends_close_journal:
  assumes "at_phase cfg d0 old Original (sh_disk st)"
  shows "ends cfg d0 old patch (close_journal cfg before st)"
proof -
  let ?J = "at_phase cfg d0 old Original"
  have "yields (\<lambda>_. ?J) (\<lambda>_. unsettled cfg d0 old patch) (delta_of cfg before before [] st)"
    by (rule yields_weaken[OF yields_delta[where J = ?J, OF assms]]) (simp_all add: original_unsettled)
  then show ?thesis unfolding close_journal_def
    by (rule yields_bind) (auto simp: settled_def original_unsettled Let_def split: sum.split)
qed

lemma ends_reject:
  assumes "at_phase cfg d0 old Original (sh_disk st)"
  shows "ends cfg d0 old patch (reject_patch cfg before code result known st)"
proof -
  let ?J = "at_phase cfg d0 old Original"
  have "yields (\<lambda>_. ?J) (\<lambda>_. unsettled cfg d0 old patch) (case known of None \<Rightarrow> bind_op (delta_of cfg before before [] st) (\<lambda>delta st. (Inr (before, [], delta), st))
       | Some k \<Rightarrow> (Inr k, st))"
    by (rule yields_weaken[where Q = "\<lambda>_. ?J" and E = "\<lambda>_. ?J"], cases known)
      (auto simp: assms original_unsettled intro!: always_bind yields_delta)
  then show ?thesis
    unfolding reject_patch_def
    by (rule yields_bind) (auto simp: settled_def original_unsettled Let_def ends_close_journal)
qed

lemma ends_recovery: "unsettled cfg d0 old patch (sh_disk st) \<Longrightarrow> yields Q (\<lambda>_. unsettled cfg d0 old patch) (recovery_required st)"
  by (rule yields_recovery)

subsection \<open>The marker\<close>

text \<open>The candidate is in place and the workspace is as it was.\<close>

definition holding :: "'e tools_config \<Rightarrow> work_root \<Rightarrow> wnode \<Rightarrow> string \<Rightarrow> wnode \<Rightarrow> work_root \<Rightarrow> bool" where
  "holding cfg d0 old c new d \<longleftrightarrow> at_phase cfg d0 old Original d \<and> node_at d c = Some new"

definition ready :: "'e tools_config \<Rightarrow> work_root \<Rightarrow> wnode \<Rightarrow> string \<Rightarrow> wnode \<Rightarrow> work_root \<Rightarrow> bool" where
  "ready cfg d0 old c new d \<longleftrightarrow> (\<exists>v. at_phase cfg d0 old (Prepared v) d \<and> pm_candidate v = c
     \<and> ordinary_dir new (wr_meta d) \<and> bound_tree cfg (pm_after v) new) \<and> node_at d c = Some new"

lemma holding_recoverable: "holding cfg d0 old c new d \<Longrightarrow> recoverable_as cfg d0 old old d"
  using recoverableI[of cfg d0 old Original] by (auto simp: holding_def)

lemma ready_recoverable: "ready cfg d0 old c new d \<Longrightarrow> recoverable_as cfg d0 old old d"
  using recoverableI[of cfg d0 old "Prepared _"] by (auto simp: ready_def)

text \<open>A temporary marker of the process with a content.\<close>

definition temporary :: "work_root \<Rightarrow> string \<Rightarrow> string \<Rightarrow> bool" where
  "temporary d n data \<longleftrightarrow> (\<exists>m. node_at d n = Some (WFile m data) \<and> md_nlink m = 1 \<and> same_owner m (wr_meta d)
     \<and> md_mode m = 0x180)"

lemma holding_put:
  assumes "holding cfg d0 old c new d" and "scratch_name (tc_name cfg) n" and "safe_workspace_name (tc_name cfg)" and "n \<noteq> c"
  shows "holding cfg d0 old c new (put_node n x d)"
  using assms original_put[OF _ assms(2,3)] by (simp add: holding_def)

lemma yields_marker_temp:
  fixes st :: "'e workshop"
  assumes "holding cfg d0 old c new (sh_disk st)" and "setting cfg (wr_meta d0)"
  shows "yields (\<lambda>n d. holding cfg d0 old c new d \<and> scratch_name (tc_name cfg) n \<and> n \<noteq> c \<and> temporary d n [])
    (\<lambda>_. holding cfg d0 old c new) (create_secure_marker_temp cfg attempts st)"
  using assms(1)
proof (induction attempts arbitrary: st)
  case (Suc attempts)
  let ?H = "holding cfg d0 old c new"
  let ?n = "''.'' @ tc_name cfg @ ''-promotion-tmp-'' @ dc_suffix cfg (sh_step st)"
  have safe: "safe_workspace_name (tc_name cfg)" using assms(2) by (simp add: setting_def)
  have scratch: "scratch_name (tc_name cfg) ?n" using assms(2) by (intro scratch_names) (simp add: setting_def)
  have look: "yields (\<lambda>free d. ?H d) (\<lambda>_. ?H) (look cfg (\<lambda>d. Inr (dget (wr_nodes d) ?n = None)) st)"
    by (rule always_reads(1)[where J = ?H, OF Suc.prems])
  have create: "yields (\<lambda>_ d. ?H d \<and> ?n \<noteq> c \<and> temporary d ?n []) (\<lambda>_. ?H) (create_node cfg ?n (\<lambda>m. WFile m []) 0x180 s)"
    if "?H (sh_disk s)" for s :: "'e workshop"
  proof (rule yields_create)
    assume "dget (wr_nodes (sh_disk s)) ?n = None"
    then have "?n \<noteq> c" using that by (auto simp: holding_def node_at_def)
    moreover have "wr_meta (sh_disk s) = wr_meta d0" using that by (simp add: holding_def at_phase_def around_def)
    ultimately show "let d = put_node ?n (WFile (new_meta cfg (sh_step s) 0x180 (sh_disk s)) []) (sh_disk s)
        in (?H d \<and> ?n \<noteq> c \<and> temporary d ?n []) \<and> (\<forall>e. ?H d)"
      using holding_put[OF that scratch safe] assms(2)
      by (simp add: temporary_def new_meta_def same_owner_def setting_def)
  qed (rule that)
  have "yields (\<lambda>n d. ?H d \<and> scratch_name (tc_name cfg) n \<and> n \<noteq> c \<and> temporary d n []) (\<lambda>_. ?H)
      (bind_op (create_node cfg ?n (\<lambda>m. WFile m []) 0x180 s) (\<lambda>_ st. (Inr ?n, st)))" if "?H (sh_disk s)" for s :: "'e workshop"
    using scratch by (intro yields_bind[OF create[OF that]]) simp
  then show ?case
    unfolding create_secure_marker_temp.simps Let_def
    by (intro yields_bind[OF look]) (simp add: Suc.IH)
qed simp

text \<open>What a marker that the process writes says.\<close>

lemma marker_value_says:
  assumes "validate_promotion_marker (PDict (marker_value cfg c bm bd am ad delta ed)) = Some v"
  shows "pm_workspace v = tc_name cfg \<and> pm_candidate v = c \<and> pm_before v = (md_dev bm, md_ino bm, bd)
    \<and> pm_after v = (md_dev am, md_ino am, ad)"
  using assms
  by (auto simp: validate_promotion_marker_def marker_value_def binding_of_def root_binding_def
      split: option.splits if_splits)

lemma plain_marker_value: "plain (PDict (marker_value cfg c bm bd am ad delta ed))"
  by (simp add: marker_value_def root_binding_def dict_ok_def)

text \<open>The candidate and the workspace are the trees that the proposal has captured.\<close>

definition as_captured :: "'e tools_config \<Rightarrow> wnode \<Rightarrow> wnode \<Rightarrow> proposal \<Rightarrow> bool" where
  "as_captured cfg old new p \<longleftrightarrow> node_meta old = pp_before_meta p \<and> node_meta new = pp_candidate_meta p
     \<and> snapshot_of (dc_sha cfg) (Some old) = Inr (pp_before p) \<and> snapshot_of (dc_sha cfg) (Some new) = Inr (pp_after p)"

lemma publish_ready:
  assumes "holding cfg d0 old c new d" and "setting cfg (wr_meta d0)" and "ordinary_dir new (wr_meta d0)"
    and "as_captured cfg old new p" and "temporary d n data" and "n \<noteq> c"
    and "canonical_promotion_marker (dc_fr cfg) (marker_value cfg c (pp_before_meta p) (ws_source_digest (pp_before p))
      (pp_candidate_meta p) (ws_source_digest (pp_after p)) delta ed) = Some data"
    and "node_at d n = Some node" and "scratch_name (tc_name cfg) n" and "scratch_name (tc_name cfg) c"
  shows "ready cfg d0 old c new (put_node (own_marker cfg) node (drop_node n d))"
proof -
  let ?d = "put_node (own_marker cfg) node (drop_node n d)"
  let ?says = "marker_value cfg c (pp_before_meta p) (ws_source_digest (pp_before p))
      (pp_candidate_meta p) (ws_source_digest (pp_after p)) delta ed"
  have safe: "safe_workspace_name (tc_name cfg)" using assms(2) by (simp add: setting_def)
  have orig: "at_phase cfg d0 old Original d" and cand: "node_at d c = Some new" using assms(1) by (simp_all add: holding_def)
  have par: "wr_meta d = wr_meta d0" using orig by (simp add: at_phase_def around_def)
  have "validate_promotion_marker (PDict ?says) \<noteq> None"
    using assms(7) by (auto simp: canonical_promotion_marker_def split: if_splits)
  then obtain v where v: "validate_promotion_marker (PDict ?says) = Some v" by blast
  note says = marker_value_says[OF v]
  have "marker_content cfg (own_marker cfg) data = Some v \<and> int (length data) \<le> 4096"
    using marker_round_trip[OF assms(7) plain_marker_value v] says safe
    by (simp add: promotion_marker_name_def own_marker_def)
  then have marked: "marked cfg v ?d"
    using assms(5,8) by (auto simp: temporary_def marked_def)
  have "around cfg d0 (drop_node n d)" using around_scratch(2)[OF at_phase_around[OF orig] assms(9) safe] .
  then have "around cfg d0 ?d"
    using own_marker_name(2)[OF safe] own_marker_name(3,4)[of cfg] lock_fine_frame[of ?d "drop_node n d"]
    by (auto simp: around_def)
  moreover have "node_at ?d (tc_name cfg) = Some old"
    using orig own_marker_name(2)[OF safe] scratch_name_own(1)[OF assms(9) safe] by (auto simp: at_phase_def)
  moreover have new: "node_at ?d c = Some new"
    using cand scratch_name_own(3)[OF assms(10) safe] assms(6) by auto
  moreover have "leftover ?d c (pm_after v)"
    using new assms(3,4) says par by (simp add: leftover_def identity_def as_captured_def)
  moreover have "bound_tree cfg (pm_before v) old" "bound_tree cfg (pm_after v) new"
    using assms(4) says by (auto simp: bound_tree_def as_captured_def bound_to_def)
  ultimately show ?thesis
    using marked says assms(3) par by (auto simp: ready_def at_phase_def intro!: exI[of _ v])
qed

lemma yields_recovery_marker:
  assumes "safe_workspace_name (tc_name cfg)" and "J (sh_disk st)"
  shows "yields (\<lambda>n d. n = own_marker cfg \<and> J d) E (recovery_marker cfg st)"
  using assms by (simp add: recovery_marker_def)

lemma always_unlink_if_there: "always J (unlink cfg n st) \<Longrightarrow> always J (unlink_if_there cfg n st)"
  by (auto simp: unlink_if_there_def yields_def split: prod.splits sum.splits shop_failure.splits)

lemma ready_unlink:
  assumes "ready cfg d0 old c new (sh_disk st)" and "scratch_name (tc_name cfg) n" and "safe_workspace_name (tc_name cfg)" and "n \<noteq> c"
  shows "always (ready cfg d0 old c new) (unlink cfg n st)"
proof (rule yields_unlink)
  have "ready cfg d0 old c new (drop_node n (sh_disk st))"
    using assms(1,4) at_phase_drop[OF _ assms(2,3)] by (fastforce simp: ready_def)
  then show "ready cfg d0 old c new (drop_node n (sh_disk st)) \<and> (\<forall>e. ready cfg d0 old c new (drop_node n (sh_disk st)))"
    by simp
qed (rule assms(1))

text \<open>After a failure of the marker the workspace still has the original tree; the marker may be there.\<close>

lemma yields_create_marker:
  fixes st :: "'e workshop"
  assumes "holding cfg d0 old (pp_candidate p) new (sh_disk st)" and "setting cfg (wr_meta d0)"
    and "ordinary_dir new (wr_meta d0)" and "as_captured cfg old new p" and "scratch_name (tc_name cfg) (pp_candidate p)"
  shows "yields (\<lambda>_. ready cfg d0 old (pp_candidate p) new) (\<lambda>_. recoverable_as cfg d0 old old)
    (create_recovery_marker cfg (marker_value cfg (pp_candidate p) (pp_before_meta p) (ws_source_digest (pp_before p))
      (pp_candidate_meta p) (ws_source_digest (pp_after p)) delta ed) st)"
proof -
  let ?c = "pp_candidate p"
  let ?H = "holding cfg d0 old ?c new" and ?R = "ready cfg d0 old ?c new" and ?E = "recoverable_as cfg d0 old old"
  let ?says = "marker_value cfg ?c (pp_before_meta p) (ws_source_digest (pp_before p))
      (pp_candidate_meta p) (ws_source_digest (pp_after p)) delta ed"
  have safe: "safe_workspace_name (tc_name cfg)" using assms(2) by (simp add: setting_def)
  have H: "?H d \<Longrightarrow> ?E d" for d by (rule holding_recoverable)
  have R: "?R d \<Longrightarrow> ?E d" for d by (rule ready_recoverable)
  have body: "yields (\<lambda>_. ?R) (\<lambda>_. ?E)
      (bind_op (write_file cfg n payload s) (\<lambda>_ st. bind_op (fsync cfg st) (\<lambda>_ st.
       bind_op (recovery_marker cfg st) (\<lambda>marker st. bind_op (publish cfg n marker st) (\<lambda>_ st. fsync cfg st)))))"
    if s: "?H (sh_disk s)" "scratch_name (tc_name cfg) n" "n \<noteq> ?c" "temporary (sh_disk s) n []"
      and payload: "canonical_promotion_marker (dc_fr cfg) ?says = Some payload" for s :: "'e workshop" and n payload
  proof -
    let ?T = "\<lambda>d. ?H d \<and> temporary d n payload"
    have wrote: "yields (\<lambda>_. ?T) (\<lambda>_. ?E) (write_file cfg n payload s)"
      using s holding_put[OF s(1,2) safe s(3)] H
      by (intro yields_write) (auto simp: temporary_def node_at_def[symmetric])
    have publish: "yields (\<lambda>_. ?R) (\<lambda>_. ?E) (publish cfg n (own_marker cfg) u)" if "?T (sh_disk u)" for u :: "'e workshop"
      using publish_ready[OF _ assms(2-4) _ s(3) payload _ s(2) assms(5), of "sh_disk u"] that H R
      by (intro yields_publish) (auto simp: Let_def node_at_def)
    have fs1: "yields (\<lambda>_. ?T) (\<lambda>_. ?E) (fsync cfg u)" if "?T (sh_disk u)" for u :: "'e workshop"
      using that H by (intro yields_fsync) auto
    have fs2: "yields (\<lambda>_. ?R) (\<lambda>_. ?E) (fsync cfg u)" if "?R (sh_disk u)" for u :: "'e workshop"
      using that R by (intro yields_fsync) auto
    show ?thesis
      by (rule yields_bind[OF wrote], rule yields_bind[OF fs1], assumption,
          rule yields_bind[OF yields_recovery_marker[where J = ?T, OF safe]], assumption)
        (auto intro!: yields_bind[OF publish] fs2)
  qed
  have clean: "yields (\<lambda>_. ?R) (\<lambda>_. ?E) (unlink_if_there cfg n s)"
    if "?R (sh_disk s)" "scratch_name (tc_name cfg) n" "n \<noteq> ?c" for s :: "'e workshop" and n
    using always_unlink_if_there[OF ready_unlink[OF that(1,2) safe that(3)]] by (rule yields_weaken) (simp_all add: R)
  have clean': "always ?E (unlink_if_there cfg n s)"
    if "?E (sh_disk s)" "scratch_name (tc_name cfg) n" for s :: "'e workshop" and n
    by (rule always_unlink_if_there, rule recoverable_keeps[OF that(1)]) (rule yields_unlink_phase[OF _ that(2) safe])
  have temp: "yields (\<lambda>n d. ?H d \<and> scratch_name (tc_name cfg) n \<and> n \<noteq> ?c \<and> temporary d n []) (\<lambda>_. ?E)
      (create_secure_marker_temp cfg 16 st)"
    by (rule yields_weaken[OF yields_marker_temp[OF assms(1,2)]]) (auto dest: H)
  show ?thesis
  proof (cases "canonical_promotion_marker (dc_fr cfg) ?says")
    case None
    then show ?thesis by (simp add: create_recovery_marker_def recovery_required_def H assms(1))
  next
    case (Some payload)
    show ?thesis
      unfolding create_recovery_marker_def Some option.case
      by (rule yields_bind[OF temp], rule yields_finally[OF body[OF _ _ _ _ Some] refl])
        (auto intro: R clean clean')
  qed
qed

subsection \<open>The exchange\<close>

lemma ready_exchange:
  assumes "ready cfg d0 old c new d" and "setting cfg (wr_meta d0)" and "ordinary_dir old (wr_meta d0)"
  shows "\<exists>v. at_phase cfg d0 old (Committed v new) (put_node (tc_name cfg) new (put_node c old d)) \<and> pm_candidate v = c"
proof -
  let ?d = "put_node (tc_name cfg) new (put_node c old d)"
  have safe: "safe_workspace_name (tc_name cfg)" using assms(2) by (simp add: setting_def)
  obtain v where v: "at_phase cfg d0 old (Prepared v) d" "pm_candidate v = c" "ordinary_dir new (wr_meta d)"
    "bound_tree cfg (pm_after v) new" using assms(1) by (auto simp: ready_def)
  have m: "marked cfg v d" and before: "bound_tree cfg (pm_before v) old" using v(1) by (auto simp: at_phase_def)
  have scratch: "scratch_name (tc_name cfg) c" using markedD(2)[OF m] v(2) by simp
  note c = scratch_name_own[OF scratch safe]
  note own = own_marker_name(1,2)[OF safe]
  have around: "around cfg d0 (put_node c old d)" by (rule around_scratch(1)[OF at_phase_around[OF v(1)] scratch safe])
  have lock: "lock_name \<noteq> tc_name cfg" using safe_workspace_hd[OF safe] by (auto simp: lock_name_def)
  have "\<not> is_marker_name (tc_name cfg)" using safe_workspace_hd[OF safe] by (auto simp: is_marker_name_def starts_with_iff)
  then have "around cfg d0 ?d"
    using around lock_fine_frame[of ?d "put_node c old d"] lock by (auto simp: around_def)
  moreover have "marked cfg v ?d" using m marked_frame[of ?d cfg d v] own(2) c(3) by simp
  moreover have par: "wr_meta d = wr_meta d0" using v(1) by (simp add: at_phase_def around_def)
  moreover have "leftover ?d c (pm_before v)"
    using before assms(3) c(1) par by (auto simp: leftover_def bound_tree_def bound_to_def identity_def)
  ultimately show ?thesis using v by (auto simp: at_phase_def intro!: exI[of _ v])
qed

lemma yields_exchange_ready:
  assumes "ready cfg d0 old c new (sh_disk st)" and "setting cfg (wr_meta d0)" and "ordinary_dir old (wr_meta d0)"
  shows "yields (\<lambda>_ d. \<exists>v. at_phase cfg d0 old (Committed v new) d \<and> pm_candidate v = c)
    (\<lambda>_ d. ready cfg d0 old c new d \<or> (\<exists>v. at_phase cfg d0 old (Committed v new) d \<and> pm_candidate v = c))
    (exchange cfg (tc_name cfg) c st)"
proof (rule yields_exchange)
  fix m1 e1 m2 e2
  assume a: "dget (wr_nodes (sh_disk st)) (tc_name cfg) = Some (WDir m1 e1)" "dget (wr_nodes (sh_disk st)) c = Some (WDir m2 e2)"
  have "WDir m1 e1 = old" "WDir m2 e2 = new"
    using a assms(1) by (auto simp: ready_def at_phase_def node_at_def)
  then show "let d = put_node (tc_name cfg) (WDir m2 e2) (put_node c (WDir m1 e1) (sh_disk st))
      in (\<exists>v. at_phase cfg d0 old (Committed v new) d \<and> pm_candidate v = c)
        \<and> (\<forall>e. ready cfg d0 old c new d \<or> (\<exists>v. at_phase cfg d0 old (Committed v new) d \<and> pm_candidate v = c))"
    using ready_exchange[OF assms] by (simp add: Let_def)
qed (use assms(1) in simp)

lemma yields_remove_marker:
  fixes st :: "'e workshop"
  assumes "at_phase cfg d0 old ph (sh_disk st)" and "safe_workspace_name (tc_name cfg)"
  shows "yields (\<lambda>_. at_phase cfg d0 old (unmarked ph)) (\<lambda>_. recoverable_as cfg d0 old (phase_tree old ph))
    (remove_recovery_marker cfg st)"
proof -
  let ?U = "at_phase cfg d0 old (unmarked ph)" and ?E = "recoverable_as cfg d0 old (phase_tree old ph)"
  have "yields (\<lambda>_. ?U) (\<lambda>_. ?E) (fsync cfg s)" if "?U (sh_disk s)" for s :: "'e workshop"
    using that recoverableI[OF that] by (intro yields_fsync) auto
  then show ?thesis
    unfolding remove_recovery_marker_def
    by (intro yields_bind[OF yields_recovery_marker[where J = "at_phase cfg d0 old ph", OF assms(2,1)]])
      (auto intro!: yields_bind[OF yields_unlink_marker] assms(2))
qed

lemma yields_verify:
  fixes st :: "'e workshop"
  assumes "J (sh_disk st)"
  shows "always J (verify_exchange cfg p st)"
  unfolding verify_exchange_def
  by (intro yields_on_capture_error[where E' = "\<lambda>_. J"] yields_on_os_error[where E' = "\<lambda>_. J"]
      always_bind always_reads[where J = J] assms)
    (auto intro!: yields_recovery always_bind always_reads[where J = J])

text \<open>A removal of the candidate that was committed or prepared, and of its marker.\<close>

lemma yields_finish:
  fixes st :: "'e workshop"
  assumes "at_phase cfg d0 old (Committed v new) (sh_disk st)" and "pm_candidate v = pp_candidate p"
    and "setting cfg (wr_meta d0)" and "accepted cfg old patch new"
  shows "ends cfg d0 old patch (finish_promotion cfg p entry st)"
proof -
  let ?C = "at_phase cfg d0 old (Committed v new)" and ?P = "at_phase cfg d0 old (Promoted new)"
  let ?E = "unsettled cfg d0 old patch"
  have safe: "safe_workspace_name (tc_name cfg)" using assms(3) by (simp add: setting_def)
  have scratch: "scratch_name (tc_name cfg) (pp_candidate p)"
    using markedD(2)[of cfg v "sh_disk st"] assms(1,2) by (simp add: at_phase_def)
  have C: "?C d \<Longrightarrow> ?E d" for d using assms(4) by (intro unsettled_phase) auto
  have new: "recoverable_as cfg d0 old new d \<Longrightarrow> ?E d" for d using assms(4) by (auto simp: unsettled_def)
  have verify: "yields (\<lambda>_. ?C) (\<lambda>_. ?E) (verify_exchange cfg p st)"
    by (rule yields_weaken[OF yields_verify[where J = ?C, OF assms(1)]]) (simp_all add: C)
  have clean: "yields (\<lambda>_. ?C) (\<lambda>_. ?E) (on_os_error (bind_op (rmtree cfg (pp_candidate p) s) (\<lambda>_ st. fsync cfg st)) cleanup_failed)"
    if "?C (sh_disk s)" for s :: "'e workshop"
    by (rule yields_on_os_error[where E' = "\<lambda>_. ?C"],
        rule always_bind[OF yields_rmtree_phase[OF that scratch safe]])
      (auto intro!: ends_recovery intro: always_reads(4)[where J = ?C] C simp: cleanup_failed_def)
  have unmark: "yields (\<lambda>_. ?P) (\<lambda>_. ?E) (on_os_error (remove_recovery_marker cfg s) cleanup_failed)"
    if "?C (sh_disk s)" for s :: "'e workshop"
    using yields_remove_marker[OF that safe]
    by (intro yields_on_os_error[where E' = "\<lambda>_. recoverable_as cfg d0 old new"])
      (auto simp: cleanup_failed_def intro!: ends_recovery intro: new)
  show ?thesis
    unfolding finish_promotion_def Let_def
    by (rule yields_bind[OF verify], rule yields_bind[OF clean], simp, rule yields_bind[OF unmark], assumption)
      (use assms(4) in \<open>auto simp: settled_def\<close>)
qed

text \<open>A committed layout is never classified as prepared.\<close>

lemma yields_read_marked:
  assumes "marked cfg v (sh_disk st)" and "J (sh_disk st)"
  shows "yields (\<lambda>x d. J d \<and> x = v) (\<lambda>_. J) (read_promotion_marker cfg (own_marker cfg) st)"
proof -
  obtain m data where own: "node_at (sh_disk st) (own_marker cfg) = Some (WFile m data)"
    and content: "marker_content cfg (own_marker cfg) data = Some v" using assms(1) by (auto simp: marked_def)
  have read: "yields (\<lambda>node d. J d \<and> node = WFile m data) (\<lambda>_. J)
      (on_os_error (lstat cfg (own_marker cfg) st) recovery_required)"
    using own by (intro yields_on_os_error[where E' = "\<lambda>_. J"] yields_lstat)
      (auto simp: node_at_def assms(2) intro!: yields_recovery)
  show ?thesis
    unfolding read_promotion_marker_def Let_def
    by (rule yields_bind[OF read])
      (auto simp: content intro!: yields_recovery yields_bind[OF yields_on_os_error[OF always_reads(1)[where J = J]]])
qed

lemma yields_classify_committed:
  assumes "at_phase cfg d0 old (Committed v new) (sh_disk st)"
  shows "yields (\<lambda>l d. at_phase cfg d0 old (Committed v new) d \<and> pl_committed l)
    (\<lambda>_. at_phase cfg d0 old (Committed v new)) (classify_promotion_marker cfg (own_marker cfg) st)"
proof -
  let ?C = "at_phase cfg d0 old (Committed v new)"
  have m: "marked cfg v (sh_disk st)" using assms by (simp add: at_phase_def)
  have other: "\<not> bound_to (pm_before v) (node_meta new) digest" for digest
    using markedD(3)[OF m] assms by (auto simp: at_phase_def bound_tree_def bound_to_def)
  have root: "yields (\<lambda>node d. ?C d \<and> node = new) (\<lambda>_. ?C)
      (on_os_error (lstat cfg (pm_workspace v) s) recovery_required)" if "?C (sh_disk s)" for s
    using that markedD(1)[OF m]
    by (intro yields_on_os_error[where E' = "\<lambda>_. ?C"] yields_lstat)
      (auto simp: node_at_def at_phase_def intro!: yields_recovery)
  show ?thesis
    unfolding classify_promotion_marker_def Let_def
    by (rule yields_bind[OF yields_read_marked[where J = ?C, OF m assms]], simp only:, rule yields_bind[OF root], simp)
      (auto simp: other intro!: yields_recovery yields_bind[OF yields_on_capture_error[OF always_reads(3)[where J = ?C]]]
        yields_bind[OF always_candidate])
qed

subsection \<open>The promotion\<close>

definition sound :: "'e tools_config \<Rightarrow> work_root \<Rightarrow> wnode \<Rightarrow> string \<Rightarrow> wnode \<Rightarrow> proposal \<Rightarrow> bool" where
  "sound cfg d0 old patch new p \<longleftrightarrow> setting cfg (wr_meta d0) \<and> ordinary_dir old (wr_meta d0)
     \<and> ordinary_dir new (wr_meta d0) \<and> as_captured cfg old new p \<and> scratch_name (tc_name cfg) (pp_candidate p)
     \<and> accepted cfg old patch new"

lemma ends_undo_exchange:
  fixes st :: "'e workshop"
  assumes "sound cfg d0 old patch new p"
    and "ready cfg d0 old (pp_candidate p) new (sh_disk st)
      \<or> (\<exists>v. at_phase cfg d0 old (Committed v new) (sh_disk st) \<and> pm_candidate v = pp_candidate p)"
  shows "ends cfg d0 old patch (undo_exchange cfg p st)"
proof -
  have safe: "safe_workspace_name (tc_name cfg)" and scratch: "scratch_name (tc_name cfg) (pp_candidate p)"
    and acc: "accepted cfg old patch new" using assms(1) by (simp_all add: sound_def setting_def)
  let ?E = "unsettled cfg d0 old patch"
  consider v where "at_phase cfg d0 old (Prepared v) (sh_disk st)" | v where "at_phase cfg d0 old (Committed v new) (sh_disk st)"
    using assms(2) by (auto simp: ready_def)
  then show ?thesis
  proof cases
    case 1
    let ?P = "at_phase cfg d0 old (Prepared v)" and ?O = "at_phase cfg d0 old Original"
    have P: "?P d \<Longrightarrow> ?E d" for d by (rule unsettled_phase[where ph = "Prepared v"]) simp_all
    have classify: "yields (\<lambda>l d. ?P d) (\<lambda>_. ?E) (classify_promotion_marker cfg (own_marker cfg) s)"
      if "?P (sh_disk s)" for s :: "'e workshop"
      by (rule yields_weaken[OF yields_classify[where J = ?P, OF that]]) (auto intro: P)
    have clean: "yields (\<lambda>_. ?O) (\<lambda>_. ?E) (on_os_error (bind_op (rmtree cfg (pp_candidate p) s) (\<lambda>_ st.
        bind_op (fsync cfg st) (\<lambda>_ st. remove_recovery_marker cfg st))) recovery_required)" if "?P (sh_disk s)" for s :: "'e workshop"
    proof (rule yields_on_os_error[where E' = "\<lambda>_. ?E"])
      have fs: "yields (\<lambda>_. ?P) (\<lambda>_. ?E) (fsync cfg u)" if "?P (sh_disk u)" for u :: "'e workshop"
        using that P by (intro yields_fsync) auto
      have unmark: "yields (\<lambda>_. ?O) (\<lambda>_. ?E) (remove_recovery_marker cfg u)" if "?P (sh_disk u)" for u :: "'e workshop"
        by (rule yields_weaken[OF yields_remove_marker[OF that safe]]) (auto intro: unsettled_old)
      have "yields (\<lambda>_. ?P) (\<lambda>_. ?E) (rmtree cfg (pp_candidate p) s)"
        by (rule yields_weaken[OF yields_rmtree_phase[OF that scratch safe]]) (auto intro: P)
      then show "yields (\<lambda>_. ?O) (\<lambda>_. ?E) (bind_op (rmtree cfg (pp_candidate p) s) (\<lambda>_ st.
          bind_op (fsync cfg st) (\<lambda>_ st. remove_recovery_marker cfg st)))"
        by (intro yields_bind yields_bind[OF fs] unmark)
    qed (auto intro: ends_recovery)
    show ?thesis
      unfolding undo_exchange_def reject_known_def
      by (rule yields_bind[OF yields_recovery_marker[where J = ?P, OF safe 1]], simp only:, rule yields_bind)
        (rule classify, auto intro!: ends_recovery P yields_bind[OF clean] ends_reject)
  next
    case 2
    let ?C = "at_phase cfg d0 old (Committed v new)"
    have C: "?C d \<Longrightarrow> ?E d" for d using acc by (intro unsettled_phase) auto
    have classify: "yields (\<lambda>l d. ?C d \<and> pl_committed l) (\<lambda>_. ?E) (classify_promotion_marker cfg (own_marker cfg) s)"
      if "?C (sh_disk s)" for s :: "'e workshop"
      by (rule yields_weaken[OF yields_classify_committed[OF that]]) (auto intro: C)
    show ?thesis
      unfolding undo_exchange_def
      by (rule yields_bind[OF yields_recovery_marker[where J = ?C, OF safe 2]], simp only:, rule yields_bind)
        (rule classify, auto intro!: ends_recovery C)
  qed
qed

lemma ends_undo_marker:
  fixes st :: "'e workshop"
  assumes "recoverable_as cfg d0 old old (sh_disk st)" and "setting cfg (wr_meta d0)"
  shows "ends cfg d0 old patch (undo_marker cfg p st)"
proof -
  let ?J = "recoverable_as cfg d0 old old" and ?E = "unsettled cfg d0 old patch" and ?O = "at_phase cfg d0 old Original"
  have safe: "safe_workspace_name (tc_name cfg)" using assms(2) by (simp add: setting_def)
  have reject: "ends cfg d0 old patch (bind_op (cleanup_patch_remnants_locked cfg (Some (tc_name cfg)) s) (\<lambda>_ st.
             reject_known cfg p ''recovery_marker_failed'' (st\<lparr>ws_candidate_safe := True\<rparr>)))" if "?O (sh_disk s)" for s :: "'e workshop"
  proof -
    have "yields (\<lambda>_. ?O) (\<lambda>_. ?E) (cleanup_patch_remnants_locked cfg (Some (tc_name cfg)) s)"
      by (rule yields_weaken[OF yields_cleanup[OF that safe]]) (simp_all add: original_unsettled)
    then show ?thesis unfolding reject_known_def by (rule yields_bind) (simp add: ends_reject)
  qed
  have gone: "ends cfg d0 old patch (case lstat cfg (own_marker cfg) s of
         (Inl NotFound, st) \<Rightarrow>
           bind_op (cleanup_patch_remnants_locked cfg (Some (tc_name cfg)) st) (\<lambda>_ st.
             reject_known cfg p ''recovery_marker_failed'' (st\<lparr>ws_candidate_safe := True\<rparr>))
       | (Inl Crashed, st) \<Rightarrow> (Inl Crashed, st)
       | (_, st) \<Rightarrow> recovery_required st)" if "?J (sh_disk s)" for s :: "'e workshop"
  proof -
    obtain a u where l: "lstat cfg (own_marker cfg) s = (a, u)" by (cases "lstat cfg (own_marker cfg) s")
    have "yields (\<lambda>_. ?J) (\<lambda>e d. ?J d \<and> (e = NotFound \<longrightarrow> ?O d)) (lstat cfg (own_marker cfg) s)"
      using that unmarked_original[OF that] by (intro yields_lstat) (auto simp: node_at_def)
    then have J: "?J (sh_disk u)" and nf: "a = Inl NotFound \<Longrightarrow> ?O (sh_disk u)" by (cases a; simp add: l)+
    show ?thesis
    proof (cases a)
      case (Inl e)
      then show ?thesis using reject nf unsettled_old[OF J] by (cases e) (simp_all add: l ends_recovery)
    qed (simp add: l ends_recovery unsettled_old[OF J])
  qed
  show ?thesis
    unfolding undo_marker_def
    by (rule yields_bind[OF yields_recovery_marker[where J = ?J, OF safe assms(1)]], simp only:) (rule gone, simp)
qed

lemma ends_promote:
  fixes st :: "'e workshop"
  assumes "sound cfg d0 old patch new p" and "holding cfg d0 old (pp_candidate p) new (sh_disk st)"
  shows "ends cfg d0 old patch (promote_candidate cfg p st)"
proof -
  let ?entry = "journal_entry (length (ws_journal st)) (ws_source_digest (pp_before p))
            (ws_source_digest (pp_after p)) (pp_actual p) (pp_delta p) ''promoted'' (pp_result p) None"
  let ?E = "unsettled cfg d0 old patch"
  note s = assms(1)[unfolded sound_def]
  have E: "holding cfg d0 old (pp_candidate p) new d \<Longrightarrow> ?E d" for d by (rule unsettled_old[OF holding_recoverable])
  define mk where "mk = create_recovery_marker cfg (marker_value cfg (pp_candidate p) (pp_before_meta p)
            (ws_source_digest (pp_before p)) (pp_candidate_meta p) (ws_source_digest (pp_after p)) (pp_delta p)
            (journal_entry_digest cfg ?entry)) (st\<lparr>ws_candidate_safe := False\<rparr>)"
  have mk: "yields (\<lambda>_. ready cfg d0 old (pp_candidate p) new) (\<lambda>_. recoverable_as cfg d0 old old) mk"
    unfolding mk_def using s assms(2) by (intro yields_create_marker) auto
  obtain a u where au: "mk = (a, u)" by (cases mk)
  have swap: "ends cfg d0 old patch (case exchange cfg (tc_name cfg) (pp_candidate p) u of
                (Inr _, st) \<Rightarrow> finish_promotion cfg p ?entry st
              | (Inl Crashed, st) \<Rightarrow> (Inl Crashed, st)
              | (Inl _, st) \<Rightarrow> undo_exchange cfg p st)" if r: "ready cfg d0 old (pp_candidate p) new (sh_disk u)"
  proof -
    obtain b t where bt: "exchange cfg (tc_name cfg) (pp_candidate p) u = (b, t)" by (cases "exchange cfg (tc_name cfg) (pp_candidate p) u")
    note x = yields_exchange_ready[OF r, unfolded bt]
    show ?thesis
    proof (cases b)
      case (Inl e)
      then have either: "ready cfg d0 old (pp_candidate p) new (sh_disk t)
          \<or> (\<exists>v. at_phase cfg d0 old (Committed v new) (sh_disk t) \<and> pm_candidate v = pp_candidate p)"
        using x s by simp
      then have "?E (sh_disk t)"
        using ready_recoverable unsettled_old unsettled_phase s by (metis phase_tree.simps(3))
      then show ?thesis using ends_undo_exchange[OF assms(1) either] by (cases e) (simp_all add: bt Inl)
    next
      case (Inr y)
      then show ?thesis using x s by (auto simp: bt intro: yields_finish)
    qed
  qed
  have marker: "ends cfg d0 old patch (case mk of
           (Inr _, st) \<Rightarrow>
             (case exchange cfg (tc_name cfg) (pp_candidate p) st of
                (Inr _, st) \<Rightarrow> finish_promotion cfg p ?entry st
              | (Inl Crashed, st) \<Rightarrow> (Inl Crashed, st)
              | (Inl _, st) \<Rightarrow> undo_exchange cfg p st)
         | (Inl Crashed, st) \<Rightarrow> (Inl Crashed, st)
         | (Inl (CaptureError e), st) \<Rightarrow> (Inl (CaptureError e), st)
         | (Inl ShopValueError, st) \<Rightarrow> (Inl ShopValueError, st)
         | (Inl SandboxError, st) \<Rightarrow> (Inl SandboxError, st)
         | (Inl _, st) \<Rightarrow> undo_marker cfg p st)"
  proof (cases a)
    case (Inl e)
    then have r: "recoverable_as cfg d0 old old (sh_disk u)" using mk by (simp add: au)
    then show ?thesis using ends_undo_marker[OF r] unsettled_old[OF r] s by (cases e) (simp_all add: au Inl)
  next
    case (Inr y)
    then show ?thesis using mk swap by (simp add: au)
  qed
  then show ?thesis
    unfolding promote_candidate_def Let_def mk_def[symmetric]
    using E[OF assms(2)] by (cases "journal_capacity_error cfg ?entry st") simp_all
qed

text \<open>The candidate is checked before and after the hook.\<close>

lemma ends_recheck:
  fixes st :: "'e workshop"
  assumes "at_phase cfg d0 old Original (sh_disk st)" and "J (sh_disk st)"
    and "\<And>d. J d \<Longrightarrow> at_phase cfg d0 old Original d" and "\<And>s :: 'e workshop. J (sh_disk s) \<Longrightarrow> ends cfg d0 old patch (go_on s)"
  shows "ends cfg d0 old patch (recheck_both cfg p go_on st)"
proof -
  have root: "yields (\<lambda>_. J) (\<lambda>_. unsettled cfg d0 old patch) (recheck_root cfg n digest m s)" if "J (sh_disk s)"
    for n digest m and s :: "'e workshop"
  proof (rule yields_weaken[where Q = "\<lambda>_. J" and E = "\<lambda>_. J"])
    show "always J (recheck_root cfg n digest m s)"
      unfolding recheck_root_def
      by (intro yields_on_capture_error[where E' = "\<lambda>_. J"] yields_on_os_error[where E' = "\<lambda>_. J"] always_bind
          always_reads[where J = J] that) (auto intro: always_reads[where J = J] always_bind)
  qed (auto intro: original_unsettled assms(3))
  show ?thesis
    unfolding recheck_both_def reject_known_def reject_unknown_def
    by (rule yields_bind[OF root[OF assms(2)]])
      (auto split: option.split intro!: ends_reject yields_bind[OF root] assms(3,4))
qed

lemma ends_confirm:
  fixes st :: "'e workshop"
  assumes "sound cfg d0 old patch new p" and "holding cfg d0 old (pp_candidate p) new (sh_disk st)"
  shows "ends cfg d0 old patch (confirm_proposal cfg p st)"
proof -
  let ?H = "holding cfg d0 old (pp_candidate p) new"
  have hook: "tc_hook cfg c d = d" for c d using assms(1) by (simp add: sound_def setting_def)
  have H: "?H d \<Longrightarrow> at_phase cfg d0 old Original d" for d by (simp add: holding_def)
  have inner: "ends cfg d0 old patch (recheck_both cfg p (promote_candidate cfg p) s)" if "?H (sh_disk s)" for s :: "'e workshop"
    by (rule ends_recheck[where J = ?H, OF H[OF that] that H]) (auto intro: ends_promote[OF assms(1)])
  show ?thesis
    unfolding confirm_proposal_def
    by (rule ends_recheck[where J = ?H, OF H[OF assms(2)] assms(2) H]) (auto simp: hook intro: inner)
qed

subsection \<open>The staging\<close>

text \<open>The candidate directory of the process is there, with any content.\<close>

definition placed :: "'e tools_config \<Rightarrow> work_root \<Rightarrow> wnode \<Rightarrow> string \<Rightarrow> meta \<Rightarrow> work_root \<Rightarrow> bool" where
  "placed cfg d0 old c m d \<longleftrightarrow> at_phase cfg d0 old Original d \<and> (\<exists>es. node_at d c = Some (WDir m es))"

lemma placed_unsettled: "placed cfg d0 old c m d \<Longrightarrow> unsettled cfg d0 old patch d"
  by (simp add: placed_def original_unsettled)

text \<open>What the beginning of \<open>_apply_patch\<close> knows.\<close>

definition begun :: "'e tools_config \<Rightarrow> work_root \<Rightarrow> wnode \<Rightarrow> workspace_snapshot \<Rightarrow> meta \<Rightarrow> bool" where
  "begun cfg d0 old before before_meta \<longleftrightarrow> setting cfg (wr_meta d0) \<and> ordinary_dir old (wr_meta d0)
     \<and> node_meta old = before_meta \<and> snapshot_of (dc_sha cfg) (Some old) = Inr before"

lemma ends_judge:
  fixes st :: "'e workshop"
  assumes "begun cfg d0 old before before_meta" and "placed cfg d0 old c m (sh_disk st)"
    and "ordinary_dir (WDir m []) (wr_meta d0)" and "scratch_name (tc_name cfg) c"
    and "declared_patch_paths patch = Some declared"
  shows "ends cfg d0 old patch (judge_candidate cfg before before_meta c m declared result st)"
proof -
  obtain es where es: "node_at (sh_disk st) c = Some (WDir m es)" and orig: "at_phase cfg d0 old Original (sh_disk st)"
    using assms(2) by (auto simp: placed_def)
  let ?new = "WDir m es"
  let ?H = "holding cfg d0 old c ?new"
  have H: "?H (sh_disk st)" using es orig by (simp add: holding_def)
  have out: "?H d \<Longrightarrow> unsettled cfg d0 old patch d" for d by (simp add: holding_def original_unsettled)
  have look: "yields (\<lambda>node d. ?H d \<and> node = ?new) (\<lambda>_. ?H) (lstat cfg c st)"
    using H by (intro yields_lstat) (auto simp: holding_def node_at_def)
  have snap: "yields (\<lambda>s d. ?H d \<and> snapshot_of (dc_sha cfg) (Some ?new) = Inr s) (\<lambda>_. ?H) (take_snapshot cfg c u)"
    if "?H (sh_disk u)" for u :: "'e workshop"
    using that by (intro yields_snapshot) (auto simp: holding_def node_at_def)
  have delta: "yields (\<lambda>_. ?H) (\<lambda>_. ?H) (delta_of cfg before after paths u)" if "?H (sh_disk u)"
    for after paths and u :: "'e workshop" by (rule yields_delta[where J = ?H, OF that])
  have ord: "ordinary_dir ?new (wr_meta d0)" using assms(3) by (simp add: ordinary_dir_def)
  have sound: "sound cfg d0 old patch ?new \<lparr>pp_before = before, pp_before_meta = before_meta, pp_candidate = c,
      pp_candidate_meta = m, pp_after = after, pp_actual = workspace_changed_paths (dc_sha cfg) before after,
      pp_delta = dl, pp_result = result\<rparr>"
    if "snapshot_of (dc_sha cfg) (Some ?new) = Inr after" "set (workspace_changed_paths (dc_sha cfg) before after) \<subseteq> set declared"
    for after dl
    using assms(1,4,5) ord that by (auto simp: sound_def begun_def as_captured_def accepted_def)
  have rej: "ends cfg d0 old patch (reject_patch cfg b code r k u)" if "?H (sh_disk u)" for b code r k and u :: "'e workshop"
    using that by (intro ends_reject) (simp add: holding_def)
  have rest: "ends cfg d0 old patch (unless_caught is_capture_error (delta_of cfg before after (workspace_changed_paths (dc_sha cfg) before after) u)
       (reject_patch cfg before ''candidate_invalid'' result None) (\<lambda>delta st.
     let p = \<lparr>pp_before = before, pp_before_meta = before_meta, pp_candidate = c, pp_candidate_meta = m,
          pp_after = after, pp_actual = workspace_changed_paths (dc_sha cfg) before after, pp_delta = delta, pp_result = result\<rparr>
     in if \<not> set (workspace_changed_paths (dc_sha cfg) before after) \<subseteq> set declared then reject_known cfg p ''undeclared_patch_delta'' st
        else confirm_proposal cfg p st))"
    if "?H (sh_disk u)" "snapshot_of (dc_sha cfg) (Some ?new) = Inr after" for after and u :: "'e workshop"
    by (rule yields_unless_caught[OF delta[OF that(1)]])
      (auto simp: Let_def reject_known_def intro: out rej ends_confirm[OF sound[OF that(2)]])
  show ?thesis
    unfolding judge_candidate_def
    by (rule yields_unless_caught[OF look], rule out, assumption, rule rej, assumption)
      (auto simp: Let_def[of "workspace_changed_paths _ _ _"] identity_def intro: rej intro!: yields_unless_caught[OF snap] out rest)
qed

lemma ends_staged:
  fixes st :: "'e workshop"
  assumes "begun cfg d0 old before before_meta" and "placed cfg d0 old c m (sh_disk st)"
    and "ordinary_dir (WDir m []) (wr_meta d0)" and "scratch_name (tc_name cfg) c" and "scratch_name (tc_name cfg) pfile"
    and "pfile \<noteq> c" and "declared_patch_paths patch = Some declared"
  shows "ends cfg d0 old patch (staged_patch cfg before before_meta c m pfile declared result st)"
proof -
  let ?P = "placed cfg d0 old c m" and ?E = "unsettled cfg d0 old patch"
  let ?st = "record_observation cfg ''apply_patch'' patch_command result st"
  have disk: "sh_disk ?st = sh_disk st" by (simp add: record_observation_def Let_def)
  have P: "?P (sh_disk ?st)" using assms(2) disk by simp
  have safe: "safe_workspace_name (tc_name cfg)" using assms(1) by (simp add: begun_def setting_def)
  have rej: "ends cfg d0 old patch (reject_patch cfg b code r k u)" if "?P (sh_disk u)" for b code r k and u :: "'e workshop"
    using that by (intro ends_reject) (simp add: placed_def)
  have bad: "settled cfg d0 old patch r d \<Longrightarrow> ?E d" for r d
    using unsettled_phase[of cfg d0 old "Promoted _" d patch] original_unsettled
    by (auto simp: settled_def split: if_splits)
  have rm: "yields (\<lambda>_. ?P) (\<lambda>_. ?P) (unlink cfg pfile ?st)"
    using P at_phase_drop[OF _ assms(5) safe] assms(6) by (intro yields_unlink) (auto simp: placed_def)
  show ?thesis
  proof (cases "lifecycle_failed cfg ?st")
    case True
    have "ends cfg d0 old patch (bind_op (reject_patch cfg before ''sandbox_lifecycle_failed'' result None ?st) (\<lambda>_. recovery_required))"
      by (rule yields_bind[OF rej[OF P]]) (auto intro!: ends_recovery bad)
    then show ?thesis by (simp add: staged_patch_def True)
  next
    case False
    show ?thesis
      unfolding staged_patch_def Let_def if_not_P[OF False]
      by (rule yields_unless_caught[OF rm])
        (simp_all add: placed_unsettled rej ends_judge[OF assms(1) _ assms(3,4,7)])
  qed
qed

lemma yields_stage:
  fixes st :: "'e workshop"
  assumes "setting cfg (wr_meta d0)" and "placed cfg d0 old c m (sh_disk st)" and "scratch_name (tc_name cfg) c"
  shows "always (placed cfg d0 old c m) (stage cfg pfile c st)"
proof (cases "tc_sandbox cfg")
  case None
  then show ?thesis using assms(2) by (simp add: stage_def)
next
  case (Some box)
  have safe: "safe_workspace_name (tc_name cfg)" using assms(1) by (simp add: setting_def)
  note c = scratch_name_own[OF assms(3) safe]
  have kept: "placed cfg d0 old c m d'" if "sb_stage box i pfile c (ws_env st, sh_disk st) = (r, e', d')" for i r e' d'
  proof -
    obtain es where orig: "at_phase cfg d0 old Original (sh_disk st)" and es: "node_at (sh_disk st) c = Some (WDir m es)"
      using assms(2) by (auto simp: placed_def)
    have "sandbox_confined cfg" using assms(1) by (simp add: setting_def)
    then have f: "wr_meta d' = wr_meta (sh_disk st)" "dict_ok (wr_nodes (sh_disk st)) \<longrightarrow> dict_ok (wr_nodes d')"
      "\<And>n. n \<noteq> c \<Longrightarrow> node_at d' n = node_at (sh_disk st) n" "\<exists>es'. node_at d' c = Some (WDir m es')"
      using that Some es unfolding sandbox_confined_def by blast+
    have "lock_fine d' = lock_fine (sh_disk st)" using f(1,3) c(2) by (intro lock_fine_frame) auto
    moreover note a = at_phase_around[OF orig, unfolded around_def]
    moreover have "node_at d' n = None" if "is_marker_name n" "n \<noteq> own_marker cfg" for n
      using a f(3)[of n] c(5) that by (cases "n = c") auto
    moreover have "node_at d' n = node_at d0 n" if "n \<noteq> tc_name cfg" "\<not> own_name (tc_name cfg) n" for n
      using a f(3)[of n] c(4) that by (cases "n = c") auto
    ultimately have "around cfg d0 d'" using f(1,2) by (simp add: around_def)
    then show ?thesis using orig f(3,4) c(1,3) by (auto simp: placed_def at_phase_def)
  qed
  show ?thesis
    unfolding stage_def Some option.case Let_def using kept
    by (auto split: fault.split prod.splits option.splits)
qed

lemma yields_write_placed:
  fixes st :: "'e workshop"
  assumes "placed cfg d0 old c m (sh_disk st)" and "scratch_name (tc_name cfg) n" and "safe_workspace_name (tc_name cfg)" and "n \<noteq> c"
  shows "always (placed cfg d0 old c m) (write_file cfg n data st)"
  using assms(1,4) original_put[OF _ assms(2,3)] by (intro yields_write) (auto simp: placed_def)

lemma ends_stage_patch:
  fixes st :: "'e workshop"
  assumes "begun cfg d0 old before before_meta" and "placed cfg d0 old c m (sh_disk st)"
    and "ordinary_dir (WDir m []) (wr_meta d0)" and "scratch_name (tc_name cfg) c" and "scratch_name (tc_name cfg) pfile"
    and "pfile \<noteq> c" and "declared_patch_paths patch = Some declared"
  shows "ends cfg d0 old patch (stage_patch cfg before before_meta c pfile patch declared st)"
proof -
  let ?P = "placed cfg d0 old c m"
  have set: "setting cfg (wr_meta d0)" and safe: "safe_workspace_name (tc_name cfg)"
    using assms(1) by (simp_all add: begun_def setting_def)
  have rej: "ends cfg d0 old patch (reject_patch cfg b code r k u)" if "?P (sh_disk u)" for b code r k and u :: "'e workshop"
    using that by (intro ends_reject) (simp add: placed_def)
  have node: "yields (\<lambda>x d. ?P d \<and> node_meta x = m) (\<lambda>_. ?P) (lstat cfg c u)" if "?P (sh_disk u)" for u :: "'e workshop"
    using that by (intro yields_lstat) (auto simp: placed_def node_at_def)
  have store: "always ?P (bind_op (write_file cfg pfile data (u\<lparr>ws_descriptor_open := False\<rparr>)) (\<lambda>_ st. fsync cfg st))"
    if "?P (sh_disk u)" for data and u :: "'e workshop"
    using that by (intro always_bind yields_write_placed assms(5,6) safe always_reads(4)[where J = ?P]) auto
  have staged: "ends cfg d0 old patch (bind_op (stage cfg pfile c u) (\<lambda>result st.
        staged_patch cfg before before_meta c m pfile declared result st))" if "?P (sh_disk u)" for u :: "'e workshop"
  proof -
    have "yields (\<lambda>_. ?P) (\<lambda>_. unsettled cfg d0 old patch) (stage cfg pfile c u)"
      by (rule yields_weaken[OF yields_stage[OF set that assms(4)]]) (auto intro: placed_unsettled)
    then show ?thesis by (rule yields_bind) (rule ends_staged[OF assms(1) _ assms(3-7)])
  qed
  show ?thesis
    unfolding stage_patch_def Let_def
    by (rule yields_unless_caught[OF always_reads(1)[where J = ?P, OF assms(2)]], rule placed_unsettled, assumption, rule rej, assumption,
        rule yields_unless_caught[OF store], assumption, rule placed_unsettled, assumption, rule rej, assumption,
        rule yields_unless_caught[OF node], assumption, rule placed_unsettled, assumption, rule rej, assumption)
      (simp add: staged)
qed

text \<open>The \<open>finally\<close> keeps what the removal of the temporary files keeps.\<close>

lemma always_cleaning:
  assumes "always J r" and "\<And>b s. J (sh_disk s) \<Longrightarrow> always J (go b s)"
  shows "always J (cleaning r b go)"
  unfolding cleaning_def using assms(2) by (intro yields_unless_caught[OF assms(1)]) auto

lemma always_stage_cleanup:
  fixes st :: "'e workshop"
  assumes "J (sh_disk st)" and "\<And>s :: 'e workshop. J (sh_disk s) \<Longrightarrow> always J (unlink cfg pfile s)"
    and "\<And>s :: 'e workshop. J (sh_disk s) \<Longrightarrow> always J (rmtree cfg c s)"
  shows "always J (stage_cleanup cfg c pfile st)"
  unfolding stage_cleanup_def
  by (intro always_cleaning always_bind always_unlink_if_there)
    (auto simp: assms(1) intro: assms(2,3) always_reads(1)[where J = J] intro!: yields_recovery)

lemma keeps_phases:
  assumes "\<And>ph. at_phase cfg d0 old ph d \<Longrightarrow> yields (\<lambda>_. at_phase cfg d0 old ph) (\<lambda>_. at_phase cfg d0 old ph) r"
  shows "settled cfg d0 old patch reply d \<Longrightarrow> always (settled cfg d0 old patch reply) r"
    "unsettled cfg d0 old patch d \<Longrightarrow> always (unsettled cfg d0 old patch) r"
proof -
  show "always (settled cfg d0 old patch reply) r" if s: "settled cfg d0 old patch reply d"
  proof (cases "pr_promoted reply")
    case True
    then obtain new where "accepted cfg old patch new" "at_phase cfg d0 old (Promoted new) d"
      using s by (auto simp: settled_def)
    then show ?thesis
      by (intro yields_weaken[OF assms[of "Promoted new"]]) (use True in \<open>auto simp: settled_def\<close>)
  next
    case False
    then show ?thesis
      by (intro yields_weaken[OF assms[of Original]]) (use s False in \<open>simp_all add: settled_def\<close>)
  qed
  show "always (unsettled cfg d0 old patch) r" if u: "unsettled cfg d0 old patch d"
  proof -
    obtain ph where ph: "at_phase cfg d0 old ph d" "phase_tree old ph = old \<or> accepted cfg old patch (phase_tree old ph)"
      using u by (auto simp: unsettled_def recoverable_as_def)
    show ?thesis by (rule yields_weaken[OF assms[OF ph(1)]]) (rule unsettled_phase[OF _ ph(2)], assumption)+
  qed
qed

lemma yields_allocate:
  fixes st :: "'e workshop"
  assumes "at_phase cfg d0 old Original (sh_disk st)" and "setting cfg (wr_meta d0)"
  shows "yields (\<lambda>(c, pfile) d. \<exists>m. placed cfg d0 old c m d \<and> ordinary_dir (WDir m []) (wr_meta d0)
      \<and> scratch_name (tc_name cfg) c \<and> scratch_name (tc_name cfg) pfile \<and> pfile \<noteq> c)
    (\<lambda>_. at_phase cfg d0 old Original) (allocate_staging cfg st)"
proof -
  let ?O = "at_phase cfg d0 old Original"
  let ?c = "''.'' @ tc_name cfg @ ''-candidate-'' @ dc_suffix cfg (sh_step st)"
  let ?pf = "\<lambda>s. ''.'' @ tc_name cfg @ ''-patch-'' @ dc_suffix cfg (sh_step s) @ ''.diff''"
  let ?C = "\<lambda>d. \<exists>m. placed cfg d0 old ?c m d \<and> ordinary_dir (WDir m []) (wr_meta d0)"
  have safe: "safe_workspace_name (tc_name cfg)" using assms(2) by (simp add: setting_def)
  have c: "scratch_name (tc_name cfg) ?c" and pf: "\<And>s. scratch_name (tc_name cfg) (?pf s)"
    using assms(2) by (auto intro!: scratch_names simp: setting_def simp del: append.simps)
  have dir: "yields (\<lambda>_. ?C) (\<lambda>_. ?O) (create_node cfg ?c (\<lambda>m. WDir m []) 0x1C0 st)"
  proof (rule yields_create)
    have "wr_meta (sh_disk st) = wr_meta d0" using assms(1) by (simp add: at_phase_def around_def)
    then have "ordinary_dir (WDir (new_meta cfg (sh_step st) 0x1C0 (sh_disk st)) []) (wr_meta d0)"
      using assms(2) by (simp add: ordinary_dir_def new_meta_def same_owner_def setting_def)
    then show "let d = put_node ?c (WDir (new_meta cfg (sh_step st) 0x1C0 (sh_disk st)) []) (sh_disk st) in ?C d \<and> (\<forall>e. ?O d)"
      using original_put[OF assms(1) c safe] by (auto simp: Let_def placed_def)
  qed (rule assms(1))
  have pfile: "yields (\<lambda>_ d. ?C d \<and> ?pf s \<noteq> ?c) (\<lambda>_. ?O) (create_node cfg (?pf s) (\<lambda>m. WFile m []) 0x180 s)"
    if s: "?C (sh_disk s)" for s :: "'e workshop"
  proof (rule yields_create)
    obtain m es where m: "?O (sh_disk s)" "node_at (sh_disk s) ?c = Some (WDir m es)" "ordinary_dir (WDir m []) (wr_meta d0)"
      using s by (auto simp: placed_def)
    assume "dget (wr_nodes (sh_disk s)) (?pf s) = None"
    then have "?pf s \<noteq> ?c" using m(2) by (metis node_at_def option.distinct(1))
    then show "let d = put_node (?pf s) (WFile (new_meta cfg (sh_step s) 0x180 (sh_disk s)) []) (sh_disk s)
        in (?C d \<and> ?pf s \<noteq> ?c) \<and> (\<forall>e. ?O d)"
      using original_put[OF m(1) pf safe] m(2,3) by (auto simp: Let_def placed_def simp del: append.simps)
  qed (use s in \<open>auto simp: placed_def\<close>)
  show ?thesis
    unfolding allocate_staging_def Let_def
    by (rule yields_bind[OF dir], rule yields_bind[OF pfile], assumption) (use c pf in \<open>auto simp del: append.simps\<close>)
qed

lemma ends_try:
  fixes st :: "'e workshop"
  assumes "begun cfg d0 old before before_meta" and "at_phase cfg d0 old Original (sh_disk st)"
    and "declared_patch_paths patch = Some declared"
  shows "ends cfg d0 old patch (try_patch cfg before before_meta patch declared st)"
proof -
  let ?O = "at_phase cfg d0 old Original" and ?E = "unsettled cfg d0 old patch"
  have set: "setting cfg (wr_meta d0)" and safe: "safe_workspace_name (tc_name cfg)"
    using assms(1) by (simp_all add: begun_def setting_def)
  have swept: "ends cfg d0 old patch (bind_op (cleanup_patch_remnants_locked cfg (Some (tc_name cfg)) s) (\<lambda>_ st.
          reject_patch cfg before ''patch_staging_failed'' (plain_result []) None st))" if "?O (sh_disk s)" for s :: "'e workshop"
  proof -
    have "yields (\<lambda>_. ?O) (\<lambda>_. ?E) (cleanup_patch_remnants_locked cfg (Some (tc_name cfg)) s)"
      by (rule yields_weaken[OF yields_cleanup[OF that safe]]) (simp_all add: original_unsettled)
    then show ?thesis by (rule yields_bind) (simp add: ends_reject)
  qed
  have staged: "ends cfg d0 old patch (finally_op (stage_patch cfg before before_meta c pfile patch declared s)
      (stage_cleanup cfg c pfile))"
    if s: "placed cfg d0 old c m (sh_disk s)" "ordinary_dir (WDir m []) (wr_meta d0)" "scratch_name (tc_name cfg) c"
      "scratch_name (tc_name cfg) pfile" "pfile \<noteq> c" for c pfile m and s :: "'e workshop"
  proof (rule yields_finally[OF ends_stage_patch[OF assms(1) s assms(3)] refl])
    fix reply d u
    show bad: "settled cfg d0 old patch reply d \<Longrightarrow> ?E d" for reply d
      using unsettled_phase[of cfg d0 old "Promoted _" d patch] original_unsettled
      by (auto simp: settled_def split: if_splits)
    show "yields (\<lambda>_. settled cfg d0 old patch reply) (\<lambda>_. ?E) (stage_cleanup cfg c pfile u)"
      if "settled cfg d0 old patch reply (sh_disk u)" for reply and u :: "'e workshop"
    proof (rule yields_weaken)
      show "always (settled cfg d0 old patch reply) (stage_cleanup cfg c pfile u)"
        by (rule always_stage_cleanup[where J = "settled cfg d0 old patch reply", OF that])
          (auto intro: keeps_phases(1) yields_unlink_phase yields_rmtree_phase s(3,4) safe)
    qed (auto intro: bad)
    show "always ?E (stage_cleanup cfg c pfile u)" if "?E (sh_disk u)" for u :: "'e workshop"
      by (rule always_stage_cleanup[where J = ?E, OF that])
        (auto intro: keeps_phases(2) yields_unlink_phase yields_rmtree_phase s(3,4) safe)
  qed
  show ?thesis
    unfolding try_patch_def
    by (rule yields_unless_caught[OF yields_allocate[OF assms(2) set]])
      (auto intro: swept staged original_unsettled)
qed

lemma yields_if: "(c \<Longrightarrow> yields Q E x) \<Longrightarrow> (\<not> c \<Longrightarrow> yields Q E y) \<Longrightarrow> yields Q E (if c then x else y)"
  by simp

text \<open>The whole operation, from a work root without a marker.\<close>

lemma ends_apply:
  fixes st :: "'e workshop"
  assumes "setting cfg (wr_meta d0)" and "ordinary_dir old (wr_meta d0)" and "at_phase cfg d0 old Original (sh_disk st)"
  shows "ends cfg d0 old patch (apply_patch cfg patch st)"
proof -
  let ?O = "at_phase cfg d0 old Original" and ?E = "unsettled cfg d0 old patch"
  have safe: "safe_workspace_name (tc_name cfg)" using assms(1) by (simp add: setting_def)
  have out: "?O d \<Longrightarrow> ?E d" for d by (rule original_unsettled)
  have lock: "yields (\<lambda>_. ?O) (\<lambda>_. ?E) (work_root_lock cfg st)"
    by (rule yields_weaken[OF yields_lock[OF assms(3,1)]]) (auto simp: out same_process_def)
  have sweep: "yields (\<lambda>_. ?O) (\<lambda>_. ?E) (cleanup_patch_remnants_locked cfg (Some (tc_name cfg)) s)"
    if "?O (sh_disk s)" for s :: "'e workshop"
    by (rule yields_weaken[OF yields_cleanup[OF that safe]]) (simp_all add: out)
  have root: "yields (\<lambda>node d. ?O d \<and> node = old) (\<lambda>_. ?E) (lstat cfg (tc_name cfg) s)" if "?O (sh_disk s)" for s :: "'e workshop"
    using that by (intro yields_lstat) (auto simp: at_phase_def node_at_def out)
  have snap: "yields (\<lambda>b d. ?O d \<and> snapshot_of (dc_sha cfg) (Some old) = Inr b) (\<lambda>_. ?E) (take_snapshot cfg (tc_name cfg) s)"
    if "?O (sh_disk s)" for s :: "'e workshop"
    using that by (intro yields_snapshot) (auto simp: at_phase_def node_at_def out)
  have rest: "ends cfg d0 old patch (let reject = (\<lambda>code result. reject_patch cfg before code result None) in
     if ws_journal_closed s
     then (Inr \<lparr>pr_result = plain_result ''edit_journal_capacity'', pr_promoted = False,
            pr_rejection_code = Some ''edit_journal_capacity''\<rparr>, s)
     else if patch = [] \<or> tc_max_patch_bytes cfg < int (length (utf8 patch))
     then reject ''invalid_patch'' (plain_result []) s
     else case declared_patch_paths patch of
       None \<Rightarrow> reject ''invalid_patch_declaration'' (plain_result []) s
     | Some declared \<Rightarrow>
       case tc_sandbox cfg of None \<Rightarrow> reject ''sandbox_unavailable'' (plain_result []) s
       | Some box \<Rightarrow>
         case admit_observation cfg s of
         (False, st) \<Rightarrow>
           (case observation_capacity_result cfg ''apply_patch'' patch_command st of
              (result, st) \<Rightarrow> reject ''observation_capacity'' result st)
       | (True, st) \<Rightarrow>
           if \<not> journal_can_fit_declared cfg before declared st then close_journal cfg before st
           else try_patch cfg before (node_meta old) patch declared st)"
    if s: "?O (sh_disk s)" and b: "snapshot_of (dc_sha cfg) (Some old) = Inr before" for s :: "'e workshop" and before
  proof -
    have begun: "begun cfg d0 old before (node_meta old)" using assms(1,2) b by (simp add: begun_def)
    have disk: "sh_disk (snd (admit_observation cfg s)) = sh_disk s" by (simp add: admit_observation_def Let_def)
    have disk': "sh_disk (snd (observation_capacity_result cfg o1 c1 u)) = sh_disk u" for o1 c1 and u :: "'e workshop"
      by (simp add: observation_capacity_result_def record_observation_def Let_def)
    obtain b u where au: "admit_observation cfg s = (b, u)" by (cases "admit_observation cfg s")
    obtain r t where rt: "observation_capacity_result cfg ''apply_patch'' patch_command u = (r, t)"
      by (cases "observation_capacity_result cfg ''apply_patch'' patch_command u")
    have "?O (sh_disk u)" "?O (sh_disk t)" using s disk disk'[of "''apply_patch''" patch_command u] by (simp_all add: au rt)
    then show ?thesis
      using s begun by (cases b) (auto simp: au rt Let_def settled_def split: option.split
          intro: ends_reject ends_close_journal ends_try)
  qed
  show ?thesis
    unfolding apply_patch_def
    by (rule yields_bind[OF lock], rule yields_if, rule ends_recovery, rule out, assumption,
        rule yields_bind[OF sweep], assumption, rule yields_bind[OF root], assumption, rule yields_bind[OF snap], simp)
      (elim conjE, hypsubst, rule rest, assumption+)
qed

end
