(* ===== verification/PromotionProps.thy ===== *)
theory PromotionProps
  imports PromotionSafety
begin

section \<open>Properties of the promotion of patches\<close>

text \<open>
  The properties of the patch tool: what a reply means for the workspace, and the recovery from any
  failure or crash, also of the recovery itself. The sample work root at the end is what the
  witnesses evaluate.
\<close>

text \<open>Where a patch starts: the workspace belongs to the owner of the work root, on the same device, the
  lock file is as the process makes it, and no promotion is pending.\<close>

definition clean_start :: "'e tools_config \<Rightarrow> wnode \<Rightarrow> work_root \<Rightarrow> bool" where
  "clean_start cfg old d \<longleftrightarrow> setting cfg (wr_meta d) \<and> ordinary_dir old (wr_meta d) \<and> dict_ok (wr_nodes d)
     \<and> lock_fine d \<and> node_at d (tc_name cfg) = Some old \<and> (\<forall>n. is_marker_name n \<longrightarrow> node_at d n = None)"

lemma clean_start_original: "clean_start cfg old d \<Longrightarrow> at_phase cfg d old Original d"
  using own_marker_name(1)[of cfg] by (simp add: clean_start_def at_phase_def around_def setting_def)

text \<open>Processes that start one after the other on a work root and reconcile it, each under its faults.\<close>

definition restart :: "unit disk_config_scheme \<times> nat \<Rightarrow> work_root \<Rightarrow> work_root" where
  "restart process d = sh_disk (snd (reconcile_promotion_markers (fst process) \<lparr>sh_disk = d, sh_step = snd process\<rparr>))"

lemma always_disk: "always J r \<Longrightarrow> J (sh_disk (snd r))"
  by (cases r; cases "fst r") auto

lemma restarts_recoverable:
  assumes "recoverable_as cfg d0 old tree d" and "setting cfg (wr_meta d0)" and "\<forall>(other, k) \<in> set processes. same_process cfg other"
  shows "recoverable_as cfg d0 old tree (fold restart processes d)"
  using assms(1,3)
proof (induction processes arbitrary: d)
  case (Cons p processes)
  obtain other k where p: "p = (other, k)" by (cases p)
  let ?st = "\<lparr>sh_disk = d, sh_step = k\<rparr>"
  have "always (recoverable_as cfg d0 old tree) (reconcile_promotion_markers other ?st)"
    using Cons.prems by (intro yields_reconcile assms(2)) (auto simp: p)
  then have "recoverable_as cfg d0 old tree (restart p d)"
    unfolding restart_def p fst_conv snd_conv by (rule always_disk)
  then show ?case using Cons by simp
qed simp

lemma applied_unsettled:
  fixes st :: "'e workshop"
  assumes "clean_start cfg old (sh_disk st)"
  shows "unsettled cfg (sh_disk st) old patch (sh_disk (snd (apply_patch cfg patch st)))"
proof -
  let ?d = "sh_disk st"
  have "ends cfg ?d old patch (apply_patch cfg patch st)"
    using assms clean_start_original[OF assms] by (intro ends_apply) (simp_all add: clean_start_def)
  moreover have "settled cfg ?d old patch r d \<Longrightarrow> unsettled cfg ?d old patch d" for r d
    using unsettled_phase[of cfg ?d old "Promoted _" d patch] original_unsettled
    by (auto simp: settled_def split: if_splits)
  ultimately have "always (unsettled cfg ?d old patch) (apply_patch cfg patch st)" by (rule yields_weaken)
  then show ?thesis by (rule always_disk)
qed

text \<open>C11. A patch is atomic under failures and crashes. Whatever fails and wherever the process dies
  while a patch is applied, and however many recoveries are interrupted after that, the next
  reconciliation that is not interrupted succeeds. It leaves no marker, and the workspace is then
  exactly what the interrupted patch left: the original tree, or a tree that differs from it only in
  the paths that the patch declares. Nothing but the workspace, its temporary files and the lock
  file is touched.\<close>

theorem interrupted_patch_is_recovered:
  fixes st :: "'e workshop" and patch :: string
  assumes "clean_start cfg old (sh_disk st)" and "\<forall>(other, k) \<in> set processes. same_process cfg other"
    and "same_process cfg final" and "calm final"
  defines "left \<equiv> sh_disk (snd (apply_patch cfg patch st))"
  shows "\<exists>states s tree. reconcile_promotion_markers final \<lparr>sh_disk = fold restart processes left, sh_step = k\<rparr> = (Inr states, s)
    \<and> (tree = old \<or> accepted cfg old patch tree)
    \<and> node_at left (tc_name cfg) = Some tree \<and> node_at (sh_disk s) (tc_name cfg) = Some tree
    \<and> (\<forall>n. is_marker_name n \<longrightarrow> node_at (sh_disk s) n = None)
    \<and> (\<forall>n. n \<noteq> tc_name cfg \<longrightarrow> \<not> own_name (tc_name cfg) n \<longrightarrow> node_at (sh_disk s) n = node_at (sh_disk st) n)"
proof -
  let ?d0 = "sh_disk st" and ?st = "\<lparr>sh_disk = fold restart processes left, sh_step = k\<rparr>"
  have set: "setting cfg (wr_meta ?d0)" and ord: "ordinary_dir old (wr_meta ?d0)" using assms(1) by (simp_all add: clean_start_def)
  obtain tree where tree: "recoverable_as cfg ?d0 old tree left" "tree = old \<or> accepted cfg old patch tree"
    using applied_unsettled[OF assms(1), of patch] by (auto simp: unsettled_def left_def)
  then obtain ph where ph: "at_phase cfg ?d0 old ph (sh_disk ?st)" "phase_tree old ph = tree"
    using restarts_recoverable[OF tree(1) set assms(2)] by (auto simp: recoverable_as_def)
  obtain states s where s: "reconcile_promotion_markers final ?st = (Inr states, s)" "at_phase cfg ?d0 old (unmarked ph) (sh_disk s)"
    using calm_reconcile[OF ph(1) set ord assms(3,4)] by blast
  have "node_at left (tc_name cfg) = Some tree" using tree(1) by (auto simp: recoverable_as_def at_phase_def)
  moreover have "node_at (sh_disk s) (tc_name cfg) = Some tree" using s(2) ph(2) by (simp add: at_phase_def)
  moreover have "node_at (sh_disk s) (own_marker cfg) = None" using s(2) by (cases ph) (simp_all add: at_phase_def)
  ultimately show ?thesis using s tree(2) at_phase_around[OF s(2)] by (fastforce simp: around_def)
qed

text \<open>C12. The reply tells the truth: when it says promoted, the workspace is a new tree that differs from
  the original one only in declared paths, and otherwise the workspace is the original tree, the
  very same directory. Either way no marker is left and nothing else in the work root has changed.\<close>

theorem patch_reply_is_truthful:
  fixes st :: "'e workshop"
  assumes "clean_start cfg old (sh_disk st)" and "apply_patch cfg patch st = (Inr reply, s)"
  shows "(if pr_promoted reply then \<exists>new. accepted cfg old patch new \<and> node_at (sh_disk s) (tc_name cfg) = Some new
      else node_at (sh_disk s) (tc_name cfg) = Some old)
    \<and> (\<forall>n. is_marker_name n \<longrightarrow> node_at (sh_disk s) n = None)
    \<and> (\<forall>n. n \<noteq> tc_name cfg \<longrightarrow> \<not> own_name (tc_name cfg) n \<longrightarrow> node_at (sh_disk s) n = node_at (sh_disk st) n)"
proof -
  let ?d0 = "sh_disk st"
  have "ends cfg ?d0 old patch (apply_patch cfg patch st)"
    using assms(1) clean_start_original[OF assms(1)] by (intro ends_apply) (simp_all add: clean_start_def)
  then have "settled cfg ?d0 old patch reply (sh_disk s)" by (simp add: assms(2))
  then obtain ph where ph: "at_phase cfg ?d0 old ph (sh_disk s)" "node_at (sh_disk s) (own_marker cfg) = None"
    and tree: "if pr_promoted reply then \<exists>new. accepted cfg old patch new \<and> phase_tree old ph = new else phase_tree old ph = old"
    by (auto simp: settled_def at_phase_def split: if_splits intro: that[of Original] that[of "Promoted _"])
  then show ?thesis using at_phase_around[OF ph(1)] by (fastforce simp: around_def at_phase_def split: if_splits)
qed

subsection \<open>The final capture\<close>

lemma lock_keeps_journal:
  "work_root_lock cfg st = (r, s) \<Longrightarrow> ws_journal s = ws_journal st"
  by (auto simp: work_root_lock_def open_lock_def Let_def alter_def lstat_def look_def on_os_error_def bind_op_def
      recovery_required_def tick_def split: prod.splits sum.splits fault.splits option.splits wnode.splits
      shop_failure.splits if_splits)

lemma names_in_Inr: "names_in cfg st = (Inr names, s) \<Longrightarrow> names = dkeys (wr_nodes (sh_disk s)) \<and> sh_disk s = sh_disk st"
  by (auto simp: names_in_def look_def split: fault.splits)

lemma on_os_error_recovery: "on_os_error r recovery_required = (Inr x, s) \<Longrightarrow> r = (Inr x, s)"
  by (auto simp: on_os_error_def recovery_required_def split: prod.splits sum.splits shop_failure.splits)

lemma capture_expected_Inr:
  assumes "capture_expected cfg base staging expected st = (Inr r, s)"
  shows "sh_disk s = sh_disk st \<and> ws_source_digest (fst r) = expected
    \<and> (let tree = map_option node_fs (node_at (sh_disk s) (tc_name cfg))
       in capture_workspace (dc_sha cfg) default_capture_limits base staging tree tree = Inr r)"
  using assms
  by (auto simp: capture_expected_def unless_caught_def look_def recovery_required_def Let_def node_at_def
      split: prod.splits sum.splits fault.splits if_splits)

text \<open>C30. The final proposal is what the journal says: when \<open>capture_final_snapshot\<close> returns, the entries
  of the journal lead from the digest of the baseline to the digest of the snapshot, the snapshot is
  a capture of the workspace as it is, and neither a promotion marker nor a temporary file is left in
  the work root.\<close>

theorem final_capture_follows_the_journal:
  assumes "capture_final_snapshot cfg baseline base staging st = (Inr (snapshot, staged), s)"
  shows "follow_journal 0 (ws_source_digest baseline) (ws_journal st) = Some (ws_source_digest snapshot)
    \<and> (let tree = map_option node_fs (node_at (sh_disk s) (tc_name cfg))
       in capture_workspace (dc_sha cfg) default_capture_limits base (Some staging) tree tree = Inr (snapshot, staged))
    \<and> (\<forall>n. remnant_of n \<noteq> None \<or> is_marker_name n \<longrightarrow> node_at (sh_disk s) n = None)"
proof -
  obtain s1 expected s2 s3 where lock: "work_root_lock cfg st = (Inr (), s1)"
    and e: "expected_proposal_digest cfg baseline s1 = (Inr expected, s2)"
    and swept: "sweep_and_capture cfg base staging expected s3 = (Inr (snapshot, staged), s)"
    using assms unfolding capture_final_snapshot_def
    by (auto dest!: bind_op_Inr simp: recovery_required_def split: if_splits)
  have chain: "follow_journal 0 (ws_source_digest baseline) (ws_journal st) = Some expected"
    using e lock_keeps_journal[OF lock]
    by (auto simp: expected_proposal_digest_def recovery_required_def
        split: sum.splits evidence_error.splits if_splits option.splits)
  obtain names v v2 r w where n: "names_in cfg v = (Inr names, v2)"
    and clean: "\<not> list_ex (\<lambda>n. remnant_of n \<noteq> None \<or> is_marker_name n) names"
    and one: "capture_expected cfg base None expected v2 = (Inr r, w)"
    and two: "capture_expected cfg base (Some staging) expected w = (Inr (snapshot, staged), s)"
    using swept unfolding sweep_and_capture_def
    by (auto dest!: bind_op_Inr on_os_error_recovery simp: recovery_required_def simp del: not_None_eq split: if_splits)
  note d = capture_expected_Inr[OF two]
  have "names = dkeys (wr_nodes (sh_disk s))"
    using names_in_Inr[OF n] capture_expected_Inr[OF one] d by simp
  then have "\<forall>n. remnant_of n \<noteq> None \<or> is_marker_name n \<longrightarrow> node_at (sh_disk s) n = None"
    using clean unfolding node_at_def list_ex_iff by (metis in_dkeys_iff)
  then show ?thesis using chain d by (auto simp: Let_def)
qed

subsection \<open>A sample work root\<close>

definition sample_sha :: "string \<Rightarrow> string" where
  "sample_sha s = replicate 64 (''0123456789abcdef'' ! (length s mod 16))"

definition sample_meta :: "int \<Rightarrow> meta" where
  "sample_meta inode = \<lparr>md_dev = 1, md_ino = inode, md_uid = 1000, md_gid = 1000, md_nlink = 1, md_mode = 0x1C0\<rparr>"

definition sample_old :: wnode where
  "sample_old = WDir (sample_meta 7) [(''a.txt'', FsFile 1 ''old'')]"

definition sample_new :: "(string \<times> fs) list" where
  "sample_new = [(''a.txt'', FsFile 1 ''new tree'')]"

definition sample_stage :: "nat option \<Rightarrow> string \<Rightarrow> string \<Rightarrow> unit \<times> work_root \<Rightarrow> command_result option \<times> unit \<times> work_root" where
  "sample_stage interrupted patch candidate state =
     (Some \<lparr>cr_exit_code = Some 0, cr_stdout = [], cr_stderr = [], cr_timed_out = False, cr_truncated = False\<rparr>, (),
      case dget (wr_nodes (snd state)) candidate of
        Some (WDir m es) \<Rightarrow> put_node candidate (WDir m sample_new) (snd state) | _ \<Rightarrow> snd state)"

definition sample_sandbox :: "unit sandbox" where
  "sample_sandbox = \<lparr>sb_lifecycle_failed = (\<lambda>_. False), sb_output_limit = 10, sb_stage = sample_stage,
     sb_run = (\<lambda>command timeout e. (Inl ToolFailed, e))\<rparr>"

text \<open>The process dies in the step \<open>n\<close>, after its effect.\<close>

definition sample_config :: "nat option \<Rightarrow> unit tools_config" where
  "sample_config n = \<lparr>dc_fault = (\<lambda>k. if n = Some k then Crashes 1 else Works), dc_remains = (\<lambda>n es. None),
     dc_sha = sample_sha, dc_fr = (\<lambda>q. []), dc_float = (\<lambda>s. PNone), dc_uid = 1000, dc_gid = 1000,
     dc_inode = (\<lambda>k. int k + 100), dc_suffix = (\<lambda>k. ''abcdef12''), tc_name = ''job'',
     tc_sandbox = Some sample_sandbox, tc_hook = (\<lambda>c d. d), tc_max_read_bytes = 65536,
     tc_max_patch_bytes = 1000000, tc_max_observations = 128, tc_max_observed_output_bytes = 20\<rparr>"

definition sample_patch :: string where
  "sample_patch = ''--- a/a.txt'' @ [CHR 0x0A] @ ''+++ b/a.txt'' @ [CHR 0x0A] @ ''@@ -1 +1 @@'' @ [CHR 0x0A]
     @ ''-old'' @ [CHR 0x0A] @ ''+new tree'' @ [CHR 0x0A]"

definition sample_shop :: "unit workshop" where
  "sample_shop = the (tools_init (sample_config None) ()
     \<lparr>wr_meta = sample_meta 1, wr_nodes = [(''job'', sample_old)]\<rparr> 0)"

definition sample_process :: "nat option \<Rightarrow> disk_config" where
  "sample_process n = disk_config.truncate (sample_config n)"

lemma sample_shop_disk: "sh_disk sample_shop = \<lparr>wr_meta = sample_meta 1, wr_nodes = [(''job'', sample_old)]\<rparr>"
  by (simp add: sample_shop_def tools_init_def sample_old_def sample_config_def)

lemma sample_confined: "sandbox_confined (sample_config n)"
  by (auto simp: sandbox_confined_def sample_config_def sample_sandbox_def sample_stage_def node_at_def
      split: option.splits wnode.splits)

lemma sample_clean: "clean_start (sample_config n) sample_old (sh_disk sample_shop)"
proof -
  have "safe_workspace_name ''job''" "random_suffix ''abcdef12''" by code_simp+
  moreover have "\<not> is_marker_name ''job''" by code_simp
  ultimately show ?thesis
    using sample_confined[of n]
    by (auto simp: clean_start_def setting_def sample_shop_disk sample_config_def sample_old_def sample_meta_def
        ordinary_dir_def same_owner_def dict_ok_def lock_fine_def node_at_def lock_name_def)
qed

lemma sample_same_process: "same_process (sample_config n) (sample_process k)"
  by (simp add: same_process_def sample_process_def sample_config_def disk_config.truncate_def)

lemma sample_calm: "calm (sample_process None)"
  by (simp add: calm_def sample_process_def sample_config_def disk_config.truncate_def)

text \<open>The process dies right after the exchange, and the first recovery dies, too.\<close>

theorem interrupted_patch_is_recovered_witness:
  "(case apply_patch (sample_config (Some 29)) sample_patch sample_shop of
      (Inl Crashed, s) \<Rightarrow> dget (wr_nodes (sh_disk s)) ''.job-promotion-v1.json'' \<noteq> None | _ \<Rightarrow> False)
   \<and> (\<exists>states s tree. reconcile_promotion_markers (sample_process None)
        \<lparr>sh_disk = fold restart [(sample_process (Some 6), 0)]
           (sh_disk (snd (apply_patch (sample_config (Some 29)) sample_patch sample_shop))), sh_step = 0\<rparr> = (Inr states, s)
      \<and> (tree = sample_old \<or> accepted (sample_config (Some 29)) sample_old sample_patch tree)
      \<and> node_at (sh_disk s) ''job'' = Some tree \<and> node_at (sh_disk s) ''.job-promotion-v1.json'' = None)"
proof
  show "case apply_patch (sample_config (Some 29)) sample_patch sample_shop of
      (Inl Crashed, s) \<Rightarrow> dget (wr_nodes (sh_disk s)) ''.job-promotion-v1.json'' \<noteq> None | _ \<Rightarrow> False" by code_simp
  have "is_marker_name ''.job-promotion-v1.json''" by code_simp
  moreover have "tc_name (sample_config (Some 29)) = ''job''" by (simp add: sample_config_def)
  ultimately show "\<exists>states s tree. reconcile_promotion_markers (sample_process None)
        \<lparr>sh_disk = fold restart [(sample_process (Some 6), 0)]
           (sh_disk (snd (apply_patch (sample_config (Some 29)) sample_patch sample_shop))), sh_step = 0\<rparr> = (Inr states, s)
      \<and> (tree = sample_old \<or> accepted (sample_config (Some 29)) sample_old sample_patch tree)
      \<and> node_at (sh_disk s) ''job'' = Some tree \<and> node_at (sh_disk s) ''.job-promotion-v1.json'' = None"
    using interrupted_patch_is_recovered[OF sample_clean[of "Some 29"], of "[(sample_process (Some 6), 0)]" "sample_process None"
        sample_patch 0] sample_same_process sample_calm
    by (auto simp del: fold_simps)
qed

theorem patch_reply_is_truthful_witness:
  "\<exists>reply s. apply_patch (sample_config None) sample_patch sample_shop = (Inr reply, s) \<and> pr_promoted reply
     \<and> (\<exists>new. accepted (sample_config None) sample_old sample_patch new \<and> node_at (sh_disk s) ''job'' = Some new)"
proof -
  have "case apply_patch (sample_config None) sample_patch sample_shop of (Inr r, s) \<Rightarrow> pr_promoted r | _ \<Rightarrow> False"
    by code_simp
  then obtain reply s where r: "apply_patch (sample_config None) sample_patch sample_shop = (Inr reply, s)" "pr_promoted reply"
    by (auto split: prod.splits sum.splits)
  have "tc_name (sample_config None) = ''job''" by (simp add: sample_config_def)
  then show ?thesis using patch_reply_is_truthful[OF sample_clean r(1)] r by auto
qed

text \<open>The final capture after the promotion of the sample patch.\<close>

definition sample_baseline :: workspace_snapshot where
  "sample_baseline = (case snapshot_of sample_sha (Some sample_old) of Inr s \<Rightarrow> s
     | Inl e \<Rightarrow> \<lparr>ws_files = [], ws_source_digest = []\<rparr>)"

definition sample_applied :: "unit workshop" where
  "sample_applied = snd (apply_patch (sample_config None) sample_patch sample_shop)"

theorem final_capture_follows_the_journal_witness:
  "\<exists>snapshot staged s. capture_final_snapshot (sample_config None) sample_baseline [''job''] ([''stage''], False) sample_applied
       = (Inr (snapshot, staged), s)
     \<and> ws_journal sample_applied \<noteq> []
     \<and> follow_journal 0 (ws_source_digest sample_baseline) (ws_journal sample_applied) = Some (ws_source_digest snapshot)"
proof -
  have "case capture_final_snapshot (sample_config None) sample_baseline [''job''] ([''stage''], False) sample_applied of
      (Inr r, s) \<Rightarrow> ws_journal sample_applied \<noteq> [] | _ \<Rightarrow> False" by code_simp
  then obtain snapshot staged s where r: "capture_final_snapshot (sample_config None) sample_baseline [''job''] ([''stage''], False)
      sample_applied = (Inr (snapshot, staged), s)" "ws_journal sample_applied \<noteq> []"
    by (auto split: prod.splits sum.splits)
  then show ?thesis using final_capture_follows_the_journal[OF r(1)] by blast
qed

end
