(* ===== verification/TextDecoding.thy ===== *)
theory TextDecoding
  imports EvidenceBundle
begin

section \<open>Lenient decoding\<close>

text \<open>
  Decoding UTF-8 with \<open>errors="replace"\<close>, as \<open>read_file\<close> of \<open>core/lil_tweak/openai_agent.py\<close> and
  \<open>urllib.parse.unquote\<close> for \<open>core/lil_tweak/signing.py\<close> do.
\<close>

text \<open>\<open>bytes.decode("utf-8", "replace")\<close>: the bytes of the result. \<open>bad_width\<close> is the length of the
  invalid sequence at the head, which one replacement character stands for.\<close>

definition second_byte_ok :: "char \<Rightarrow> char \<Rightarrow> bool" where
  "second_byte_ok a b \<longleftrightarrow> continuation b \<and> (a = CHR 0xE0 \<longrightarrow> CHR 0xA0 \<le> b) \<and> (a = CHR 0xED \<longrightarrow> b \<le> CHR 0x9F)
     \<and> (a = CHR 0xF0 \<longrightarrow> CHR 0x90 \<le> b) \<and> (a = CHR 0xF4 \<longrightarrow> b \<le> CHR 0x8F)"

definition bad_width :: "string \<Rightarrow> nat" where
  "bad_width s =
     (case s of a # b # r \<Rightarrow>
        if CHR 0xE0 \<le> a \<and> a \<le> CHR 0xF4 \<and> second_byte_ok a b
        then (case r of c # _ \<Rightarrow> if CHR 0xF0 \<le> a \<and> continuation c then 3 else 2 | [] \<Rightarrow> 2)
        else 1
      | _ \<Rightarrow> 1)"

function decode_replace :: "string \<Rightarrow> string" where
  "decode_replace s =
     (if s = [] then []
      else if utf8_width s \<noteq> 0 then take (utf8_width s) s @ decode_replace (drop (utf8_width s) s)
      else [CHR 0xEF, CHR 0xBF, CHR 0xBD] @ decode_replace (drop (max 1 (bad_width s)) s))"
  by pat_completeness auto
termination by (relation "measure length") auto

declare decode_replace.simps [simp del]

end
