(* ===== verification/Signing.thy ===== *)
theory Signing
  imports TextDecoding PyJson JobStore
begin

section \<open>Signed requests\<close>

text \<open>
  \<open>core/lil_tweak/signing.py\<close> and \<open>_authenticate\<close> of \<open>core/lil_tweak/api.py\<close>. What a header carries is
  a string of code points below 256; what goes into the signed message is UTF-8 bytes, because that
  is what \<open>sign_request\<close> signs. The names and values of a query, which may be any Unicode text once
  their escapes are decoded, are UTF-8 bytes as well: comparing the bytes of two texts compares the
  texts. The parts of \<open>urllib.parse\<close> that the code uses are written out. SHA-256 and HMAC are
  parameters.
\<close>

subsection \<open>The target of a request\<close>

text \<open>\<open>urllib.parse.unquote_to_bytes\<close>, on ASCII text.\<close>

definition hex_digit_value :: "char \<Rightarrow> nat option" where
  "hex_digit_value c =
     (if is_digit c then Some (of_char c - 48)
      else if CHR ''a'' \<le> c \<and> c \<le> CHR ''f'' then Some (of_char c - 87)
      else if CHR ''A'' \<le> c \<and> c \<le> CHR ''F'' then Some (of_char c - 55) else None)"

fun unquote_bytes :: "string \<Rightarrow> string" where
  "unquote_bytes [] = []"
| "unquote_bytes (c # s) =
     (case s of x # y # r \<Rightarrow>
        if c = CHR ''%'' \<and> hex_digit_value x \<noteq> None \<and> hex_digit_value y \<noteq> None
        then char_of (16 * the (hex_digit_value x) + the (hex_digit_value y)) # unquote_bytes r
        else c # unquote_bytes s
      | _ \<Rightarrow> c # unquote_bytes s)"

text \<open>\<open>urllib.parse.unquote\<close>: the runs of ASCII characters are decoded one by one.\<close>

function unquote :: "string \<Rightarrow> string" where
  "unquote s =
     (if s = [] then []
      else if is_ascii (hd s)
      then decode_replace (unquote_bytes (takeWhile is_ascii s)) @ unquote (dropWhile is_ascii s)
      else utf8 [hd s] @ unquote (tl s))"
  by pat_completeness auto
termination
proof (relation "measure length")
  fix s :: string
  assume "s \<noteq> []" "is_ascii (hd s)"
  then show "(dropWhile is_ascii s, s) \<in> measure length"
    by (cases s) (simp_all add: length_dropWhile_le less_Suc_eq_le)
qed auto

declare unquote.simps [simp del]

text \<open>\<open>parse_qsl\<close> with blank values kept, and \<open>quote\<close> with the unreserved characters.\<close>

definition unquote_plus :: "string \<Rightarrow> string" where
  "unquote_plus s = unquote (map (\<lambda>c. if c = CHR ''+'' then CHR '' '' else c) s)"

definition query_pair :: "string \<Rightarrow> string \<times> string" where
  "query_pair item =
     (let name = takeWhile (\<lambda>c. c \<noteq> CHR ''='') item
      in (unquote_plus name, unquote_plus (drop (length name + 1) item)))"

definition parse_qsl :: "string \<Rightarrow> (string \<times> string) list" where
  "parse_qsl query = map query_pair (filter (\<lambda>item. item \<noteq> []) (split_on (CHR ''&'') query))"

definition upper_hex :: "nat \<Rightarrow> char" where
  "upper_hex n = (if n < 10 then char_of (48 + n) else char_of (55 + n))"

definition quote_byte :: "char \<Rightarrow> string" where
  "quote_byte c =
     (if is_alnum c \<or> c \<in> {CHR ''_'', CHR ''.'', CHR ''-'', CHR ''~''} then [c]
      else [CHR ''%'', upper_hex (of_char c div 16), upper_hex (of_char c mod 16)])"

definition quote :: "string \<Rightarrow> string" where
  "quote s = concat (map quote_byte s)"

text \<open>\<open>urlsplit\<close> of a text that starts with a slash: there is no scheme, and a network location that
  is not empty is an error whether or not \<open>urlsplit\<close> raises one itself. What is left is the path,
  the query and the fragment.\<close>

definition has_netloc :: "string \<Rightarrow> bool" where
  "has_netloc s \<longleftrightarrow> starts_with ''//'' s
     \<and> takeWhile (\<lambda>c. c \<notin> {CHR ''/'', CHR ''?'', CHR ''#''}) (drop 2 s) \<noteq> []"

definition split_target :: "string \<Rightarrow> string \<times> string \<times> string" where
  "split_target s =
     (let rest = (if starts_with ''//'' s then drop 2 s else s);
          before_fragment = takeWhile (\<lambda>c. c \<noteq> CHR ''#'') rest;
          path = takeWhile (\<lambda>c. c \<noteq> CHR ''?'') before_fragment
      in (path, drop (length path + 1) before_fragment, drop (length before_fragment + 1) rest))"

datatype signing_error = SigningValueError | SigningKeyError

definition canonical_target :: "string \<Rightarrow> signing_error + string" where
  "canonical_target target =
     (if \<not> starts_with ''/'' target \<or> CHR 0x0A \<in> set target \<or> CHR 0x0D \<in> set target
      then Inl SigningValueError
      else
        let url = filter (\<lambda>c. c \<noteq> CHR 0x09) target
        in if has_netloc url then Inl SigningValueError
        else (case split_target url of (path, query, fragment) \<Rightarrow>
          if fragment \<noteq> [] then Inl SigningValueError
          else
            let pairs = sort (parse_qsl query);
                query = join ''&'' (map (\<lambda>(k, v). quote k @ ''='' @ quote v) pairs);
                path = (if path = [] then ''/'' else path)
            in Inr ((if starts_with ''//'' path then ''//'' else []) @ utf8 path
                 @ (if query = [] then [] else ''?'' @ query))))"

subsection \<open>The signed message\<close>

record signed_fields =
  sf_method :: string
  sf_target :: string
  sf_timestamp :: string
  sf_nonce :: string
  sf_body_sha256 :: string
  sf_request_id :: string
  sf_idempotency_key :: string
  sf_owner_id :: string

definition one_line :: "string \<Rightarrow> bool" where
  "one_line s \<longleftrightarrow> CHR 0x0A \<notin> set s \<and> CHR 0x0D \<notin> set s"

definition required_field :: "string \<Rightarrow> bool" where
  "required_field s \<longleftrightarrow> s \<noteq> [] \<and> one_line s"

text \<open>\<open>str.upper\<close> below code point 256, as UTF-8: three characters have an upper case above that, or
  of two letters.\<close>

definition upper_char :: "char \<Rightarrow> string" where
  "upper_char c =
     (if c = CHR 0xDF then ''SS''
      else if c = CHR 0xB5 then [CHR 0xCE, CHR 0x9C]
      else if c = CHR 0xFF then [CHR 0xC5, CHR 0xB8]
      else if is_lower c \<or> (CHR 0xE0 \<le> c \<and> c \<noteq> CHR 0xF7) then utf8 [char_of ((of_char c :: nat) - 32)]
      else utf8 [c])"

definition utf8_upper :: "string \<Rightarrow> string" where
  "utf8_upper s = concat (map upper_char s)"

definition canonical_request :: "string \<Rightarrow> signed_fields \<Rightarrow> signing_error + string" where
  "canonical_request key_id f =
     (if \<not> required_field key_id \<or> \<not> required_field (sf_method f) \<or> \<not> required_field (sf_timestamp f)
         \<or> \<not> required_field (sf_nonce f) \<or> \<not> required_field (sf_body_sha256 f)
         \<or> \<not> required_field (sf_request_id f) \<or> \<not> one_line (sf_idempotency_key f)
         \<or> \<not> required_field (sf_owner_id f)
      then Inl SigningValueError
      else if \<not> hex_of_length 64 (lower (sf_body_sha256 f)) then Inl SigningValueError
      else case canonical_target (sf_target f) of Inl e \<Rightarrow> Inl e
      | Inr target \<Rightarrow> Inr (join [CHR 0x0A]
          [''v2'', utf8 key_id, utf8_upper (sf_method f), target, utf8 (sf_timestamp f), utf8 (sf_nonce f),
           lower (sf_body_sha256 f), utf8 (sf_request_id f), utf8 (sf_idempotency_key f), utf8 (sf_owner_id f)]))"

datatype secret = SecretBytes string | SecretText string

fun secret_bytes :: "secret \<Rightarrow> string" where
  "secret_bytes (SecretBytes b) = b"
| "secret_bytes (SecretText s) = utf8 s"

definition sign_request :: "(string \<Rightarrow> string \<Rightarrow> string) \<Rightarrow> secret \<Rightarrow> string \<Rightarrow> signed_fields \<Rightarrow> signing_error + string" where
  "sign_request hmac secret key_id f =
     (if secret_bytes secret = [] then Inl SigningValueError
      else case canonical_request key_id f of Inl e \<Rightarrow> Inl e
      | Inr message \<Rightarrow> Inr (hmac (secret_bytes secret) message))"

subsection \<open>Verification\<close>

text \<open>\<open>int(s)\<close>: surrounding white space, a sign, and digits with single underscores between them, at
  most 4300 of them. Below code point 256 the decimal digits are the ASCII ones.\<close>

definition int_of_digits :: "string \<Rightarrow> int option" where
  "int_of_digits s =
     (let parts = split_on (CHR ''_'') s
      in if list_all (\<lambda>p. p \<noteq> [] \<and> list_all is_digit p) parts \<and> length (concat parts) \<le> 4300
         then Some (int (read_nat (concat parts))) else None)"

definition int_of_str :: "string \<Rightarrow> int option" where
  "int_of_str s =
     (case strip s of [] \<Rightarrow> None
      | c # r \<Rightarrow> if c = CHR ''-'' then map_option uminus (int_of_digits r)
          else int_of_digits (if c = CHR ''+'' then r else c # r))"

text \<open>\<open>int(x)\<close> of a float truncates.\<close>

definition truncate_time :: "time \<Rightarrow> int" where
  "truncate_time q = (if 0 \<le> q then \<lfloor>q\<rfloor> else \<lceil>q\<rceil>)"

datatype request_error = AuthenticationError | ReplayError

definition request_valid :: "(string \<Rightarrow> string) \<Rightarrow> (string \<Rightarrow> string \<Rightarrow> string) \<Rightarrow> (string, secret) dict \<Rightarrow> time \<Rightarrow> int
    \<Rightarrow> string \<Rightarrow> string \<Rightarrow> string \<Rightarrow> signed_fields \<Rightarrow> bool" where
  "request_valid sha hmac keys now skew key_id signature body f =
     (case (int_of_str (sf_timestamp f), dget keys key_id) of
        (Some timestamp, Some secret) \<Rightarrow>
          (case sign_request hmac secret key_id f of Inl e \<Rightarrow> False
           | Inr expected \<Rightarrow>
               0 \<le> skew \<and> \<bar>truncate_time now - timestamp\<bar> \<le> skew
               \<and> hmac_digest_equal (sha body) (lower (sf_body_sha256 f)) = Inr True
               \<and> hmac_digest_equal expected (lower signature) = Inr True)
      | _ \<Rightarrow> False)"

text \<open>\<open>verify_request\<close> with the store's \<open>consume_nonce\<close>, whose two clock readings are \<open>clk\<close>; \<open>now\<close> is the
  reading of the caller. Every \<open>KeyError\<close>, \<open>TypeError\<close> and \<open>ValueError\<close> is an authentication error.\<close>

definition verify_request :: "(string \<Rightarrow> string) \<Rightarrow> (string \<Rightarrow> string \<Rightarrow> string) \<Rightarrow> (string, secret) dict \<Rightarrow> int
    \<Rightarrow> time \<Rightarrow> (nat \<Rightarrow> time) \<Rightarrow> string \<Rightarrow> string \<Rightarrow> string \<Rightarrow> signed_fields \<Rightarrow> job_store
    \<Rightarrow> (request_error, unit, job_store) outcome" where
  "verify_request sha hmac keys skew now clk key_id signature body f s =
     (if \<not> request_valid sha hmac keys now skew key_id signature body f then (Inl AuthenticationError, s)
      else case consume_nonce clk s key_id (sf_nonce f) of
        (True, s) \<Rightarrow> (Inr (), s) | (False, s) \<Rightarrow> (Inl ReplayError, s))"

subsection \<open>Authentication of a call\<close>

record api_config =
  api_keys :: "(string, secret) dict"
  api_owner :: string
  api_sha :: "string \<Rightarrow> string"
  api_hmac :: "string \<Rightarrow> string \<Rightarrow> string"

datatype api_problem = ApiProblem nat string

definition header :: "(string, string) dict \<Rightarrow> string \<Rightarrow> string" where
  "header headers name = (case dget headers name of Some v \<Rightarrow> v | None \<Rightarrow> [])"

definition signed_owner :: "api_config \<Rightarrow> (string, string) dict \<Rightarrow> string" where
  "signed_owner api headers =
     (if header headers ''x-lil-tweak-owner'' = [] then api_owner api else header headers ''x-lil-tweak-owner'')"

definition fields_of :: "api_config \<Rightarrow> string \<Rightarrow> string \<Rightarrow> (string, string) dict \<Rightarrow> signed_fields" where
  "fields_of api http_method target headers =
     \<lparr>sf_method = http_method, sf_target = target,
      sf_timestamp = header headers ''x-lil-tweak-timestamp'', sf_nonce = header headers ''x-lil-tweak-nonce'',
      sf_body_sha256 = header headers ''x-lil-tweak-body-sha256'',
      sf_request_id = header headers ''x-lil-tweak-request-id'',
      sf_idempotency_key = header headers ''idempotency-key'', sf_owner_id = signed_owner api headers\<rparr>"

definition max_clock_skew :: int where
  "max_clock_skew = 300"

definition authenticate :: "api_config \<Rightarrow> time \<Rightarrow> (nat \<Rightarrow> time) \<Rightarrow> string \<Rightarrow> string \<Rightarrow> string \<Rightarrow> (string, string) dict
    \<Rightarrow> bool \<Rightarrow> job_store \<Rightarrow> (api_problem, string \<times> string, job_store) outcome" where
  "authenticate api now clk http_method target body headers mutation s =
     (let idempotency_key = header headers ''idempotency-key''
      in case verify_request (api_sha api) (api_hmac api) (api_keys api) max_clock_skew now clk
           (header headers ''x-lil-tweak-key-id'') (header headers ''x-lil-tweak-signature'') body
           (fields_of api http_method target headers) s of
        (Inl AuthenticationError, s) \<Rightarrow> (Inl (ApiProblem 401 ''authentication_failed''), s)
      | (Inl ReplayError, s) \<Rightarrow> (Inl (ApiProblem 409 ''request_replayed''), s)
      | (Inr (), s) \<Rightarrow>
          if dget headers ''x-lil-tweak-owner'' \<notin> {None, Some (api_owner api)}
          then (Inl (ApiProblem 403 ''owner_forbidden''), s)
          else if mutation \<and> (idempotency_key = [] \<or> 200 < utf8_len idempotency_key)
          then (Inl (ApiProblem 400 ''invalid_idempotency_key''), s)
          else (Inr (api_owner api, idempotency_key), s))"

end
