(* ===== verification/SigningProps.thy ===== *)
theory SigningProps
  imports Signing EvidenceProps JobStoreProps
begin

section \<open>What a signature binds, and when it can be used again\<close>

text \<open>
  The signed message determines the request, so that an authenticated call is the one that was
  signed; and how long the store of nonces keeps a request from being accepted twice.
\<close>

subsection \<open>The message determines the request\<close>

lemma ascii_newline: "is_ascii (CHR 0x0A)"
  by (simp add: is_ascii_def less_char_def)

lemma utf8_newline: "CHR 0x0A \<in> set (utf8 s) \<longleftrightarrow> CHR 0x0A \<in> set s"
proof -
  have "CHR 0x0A \<in> set (utf8_char c) \<longleftrightarrow> c = CHR 0x0A" for c
  proof (cases "is_ascii c")
    case False
    have "of_char (CHR 0x0A) = (10 :: nat)" by simp
    moreover have "(of_char c :: nat) div 64 < 4" "(of_char c :: nat) mod 64 < 64"
      by (rule less_mult_imp_div_less, simp) simp
    ultimately have "CHR 0x0A \<noteq> char_of (192 + of_char c div (64 :: nat))"
      "CHR 0x0A \<noteq> char_of (128 + of_char c mod (64 :: nat))"
      by (auto dest: arg_cong[where f = "of_char :: char \<Rightarrow> nat"])
    then show ?thesis using False ascii_newline by (auto simp: utf8_char_def)
  qed (auto simp: utf8_char_def)
  then show ?thesis by (induction s) (auto simp: utf8_Cons)
qed

lemma hex_newline: "list_all is_hex s \<Longrightarrow> CHR 0x0A \<notin> set s"
  by (auto simp: list_all_iff is_hex_def is_digit_def less_eq_char_def)

lemma raised_newline:
  assumes "32 < (of_char c :: nat)" "(of_char c :: nat) \<noteq> 42"
  shows "char_of ((of_char c :: nat) - 32) \<noteq> CHR 0x0A"
proof
  assume "char_of ((of_char c :: nat) - 32) = CHR 0x0A"
  then have "((of_char c :: nat) - 32) mod 256 = 10"
    by (auto dest!: arg_cong[where f = "of_char :: char \<Rightarrow> nat"])
  then show False using assms of_char_bound[of c] by simp
qed

lemma upper_char_newline:
  assumes "c \<noteq> CHR 0x0A"
  shows "CHR 0x0A \<notin> set (upper_char c)"
proof (cases "is_lower c \<or> CHR 0xE0 \<le> c")
  case True
  then have "32 < (of_char c :: nat)" "(of_char c :: nat) \<noteq> 42"
    by (auto simp: is_lower_def less_eq_char_def)
  then have "CHR 0x0A \<noteq> char_of ((of_char c :: nat) - 32)" using raised_newline[of c] by metis
  then show ?thesis using assms by (simp add: upper_char_def utf8_newline)
next
  case False
  then show ?thesis using assms by (simp add: upper_char_def utf8_newline)
qed

lemma concat_map_avoids: "x \<notin> set s \<Longrightarrow> (\<And>c. c \<noteq> x \<Longrightarrow> x \<notin> set (f c)) \<Longrightarrow> x \<notin> set (concat (map f s))"
  by (induction s) auto

lemma utf8_upper_newline: "CHR 0x0A \<notin> set s \<Longrightarrow> CHR 0x0A \<notin> set (utf8_upper s)"
  unfolding utf8_upper_def by (rule concat_map_avoids[OF _ upper_char_newline])

lemma quote_newline: "CHR 0x0A \<notin> set (quote s)"
proof -
  have digit: "char_of (48 + n) \<noteq> CHR 0x0A" if "n < 10" for n :: nat
    using that by (auto dest!: arg_cong[where f = "of_char :: char \<Rightarrow> nat"])
  have letter: "char_of (55 + n) \<noteq> CHR 0x0A" if "n < 16" for n :: nat
    using that by (auto dest!: arg_cong[where f = "of_char :: char \<Rightarrow> nat"])
  have hex: "CHR 0x0A \<noteq> upper_hex n" if "n < 16" for n
    using that digit[of n, symmetric] letter[of n, symmetric] unfolding upper_hex_def by presburger
  have "CHR 0x0A \<notin> set (quote_byte c)" for c
  proof -
    have "(of_char c :: nat) div 16 < 16" "(of_char c :: nat) mod 16 < 16"
      using of_char_bound[of c] by (simp_all add: less_mult_imp_div_less)
    then have "CHR 0x0A \<notin> set [CHR ''%'', upper_hex (of_char c div 16), upper_hex (of_char c mod 16)]"
      using hex by simp
    moreover have "c \<noteq> CHR 0x0A" if "is_alnum c \<or> c \<in> {CHR ''_'', CHR ''.'', CHR ''-'', CHR ''~''}"
      using that by (auto simp: is_alnum_def is_digit_def is_lower_def is_upper_def less_eq_char_def)
    ultimately show ?thesis unfolding quote_byte_def by auto
  qed
  then show ?thesis by (auto simp: quote_def)
qed

lemma join_newline:
  "CHR 0x0A \<notin> set sep \<Longrightarrow> \<forall>x \<in> set xs. CHR 0x0A \<notin> set x \<Longrightarrow> CHR 0x0A \<notin> set (join sep xs)"
  by (induction sep xs rule: join.induct) auto

lemma canonical_target_newline:
  assumes "canonical_target target = Inr t"
  shows "CHR 0x0A \<notin> set t"
proof -
  define url where "url = filter (\<lambda>c. c \<noteq> CHR 0x09) target"
  obtain path query fragment where split: "split_target url = (path, query, fragment)"
    by (cases "split_target url")
  have "CHR 0x0A \<notin> set url" using assms by (auto simp: canonical_target_def url_def split: if_splits)
  moreover have "set path \<subseteq> set url"
    using split by (auto simp: split_target_def Let_def dest!: set_takeWhileD in_set_dropD split: if_splits)
  ultimately have "CHR 0x0A \<notin> set (utf8 path)" by (auto simp: utf8_newline)
  moreover have "CHR 0x0A \<notin> set (join ''&'' (map (\<lambda>(k, v). quote k @ ''='' @ quote v) (sort (parse_qsl query))))"
    by (rule join_newline) (auto simp: quote_newline)
  ultimately show ?thesis
    using assms split by (auto simp: canonical_target_def Let_def url_def[symmetric] utf8_newline split: if_splits)
qed

lemma split_join_newline:
  "xs \<noteq> [] \<Longrightarrow> \<forall>x \<in> set xs. CHR 0x0A \<notin> set x \<Longrightarrow> split_on (CHR 0x0A) (join [CHR 0x0A] xs) = xs"
  by (induction "[CHR 0x0A]" xs rule: join.induct) (simp_all add: split_on_single split_on_append)

text \<open>Two requests that the service cannot tell apart: the method up to case, the target up to the order
  and the escapes of its query, the digest up to case, and everything else as it is.\<close>

definition signed_alike :: "signed_fields \<Rightarrow> signed_fields \<Rightarrow> bool" where
  "signed_alike f g \<longleftrightarrow> utf8_upper (sf_method f) = utf8_upper (sf_method g)
     \<and> canonical_target (sf_target f) = canonical_target (sf_target g) \<and> sf_timestamp f = sf_timestamp g
     \<and> sf_nonce f = sf_nonce g \<and> lower (sf_body_sha256 f) = lower (sf_body_sha256 g)
     \<and> sf_request_id f = sf_request_id g \<and> sf_idempotency_key f = sf_idempotency_key g
     \<and> sf_owner_id f = sf_owner_id g"

definition message_lines :: "string \<Rightarrow> signed_fields \<Rightarrow> string \<Rightarrow> string list" where
  "message_lines key_id f target =
     [''v2'', utf8 key_id, utf8_upper (sf_method f), target, utf8 (sf_timestamp f), utf8 (sf_nonce f),
      lower (sf_body_sha256 f), utf8 (sf_request_id f), utf8 (sf_idempotency_key f), utf8 (sf_owner_id f)]"

lemma canonical_request_lines:
  assumes "canonical_request key_id f = Inr m"
  obtains target where "canonical_target (sf_target f) = Inr target"
    and "split_on (CHR 0x0A) m = message_lines key_id f target"
proof -
  from assms obtain target where target: "canonical_target (sf_target f) = Inr target"
    and m: "m = join [CHR 0x0A] (message_lines key_id f target)"
    and fields: "one_line key_id" "one_line (sf_method f)" "one_line (sf_timestamp f)" "one_line (sf_nonce f)"
      "one_line (sf_request_id f)" "one_line (sf_idempotency_key f)" "one_line (sf_owner_id f)"
      "list_all is_hex (lower (sf_body_sha256 f))"
    unfolding canonical_request_def message_lines_def required_field_def hex_of_length_def
    by (auto split: if_splits sum.splits)
  have "split_on (CHR 0x0A) m = message_lines key_id f target"
    unfolding m
  proof (rule split_join_newline)
    show "\<forall>x \<in> set (message_lines key_id f target). CHR 0x0A \<notin> set x"
      using fields canonical_target_newline[OF target] hex_newline[OF fields(8)]
      by (simp add: message_lines_def one_line_def utf8_newline utf8_upper_newline)
  qed (simp add: message_lines_def)
  then show thesis using that target by blast
qed

lemma canonical_request_unique:
  assumes "canonical_request key_id f = Inr m" and "canonical_request key_id' f' = Inr m"
  shows "key_id = key_id' \<and> signed_alike f f'"
proof -
  obtain t where t: "canonical_target (sf_target f) = Inr t" "split_on (CHR 0x0A) m = message_lines key_id f t"
    using canonical_request_lines[OF assms(1)] .
  obtain t' where t': "canonical_target (sf_target f') = Inr t'" "split_on (CHR 0x0A) m = message_lines key_id' f' t'"
    using canonical_request_lines[OF assms(2)] .
  have "message_lines key_id f t = message_lines key_id' f' t'" using t(2) t'(2) by simp
  then show ?thesis using t(1) t'(1) by (auto simp: message_lines_def signed_alike_def dest: utf8_inj)
qed

subsection \<open>An accepted call\<close>

lemma verify_request_Inr:
  assumes "verify_request sha hmac keys skew now clk key_id signature body f s = (Inr (), t)"
  shows "request_valid sha hmac keys now skew key_id signature body f"
    and "consume_nonce clk s key_id (sf_nonce f) = (True, t)"
  using assms by (auto simp: verify_request_def split: if_splits prod.splits bool.splits)

lemma request_validD:
  assumes "request_valid sha hmac keys now skew key_id signature body f"
  obtains ts secret m where "int_of_str (sf_timestamp f) = Some ts" "dget keys key_id = Some secret"
    "secret_bytes secret \<noteq> []" "canonical_request key_id f = Inr m"
    "\<bar>truncate_time now - ts\<bar> \<le> skew" "sha body = lower (sf_body_sha256 f)"
    "hmac (secret_bytes secret) m = lower signature"
  using assms by (auto simp: request_valid_def sign_request_def hmac_digest_equal_def
      split: option.splits sum.splits if_splits)

lemma authenticate_Inr:
  assumes "authenticate api now clk http_method target body headers mutation s = (Inr (owner, key), t)"
  shows "verify_request (api_sha api) (api_hmac api) (api_keys api) max_clock_skew now clk
      (header headers ''x-lil-tweak-key-id'') (header headers ''x-lil-tweak-signature'') body
      (fields_of api http_method target headers) s = (Inr (), t)" (is "?v = _")
    and "owner = api_owner api" and "key = header headers ''idempotency-key''"
    and "signed_owner api headers = owner" and "mutation \<Longrightarrow> key \<noteq> [] \<and> utf8_len key \<le> 200"
proof -
  obtain r u where v: "?v = (r, u)" by (cases ?v)
  have r: "r = Inr ()"
    using assms unfolding authenticate_def Let_def v by (cases r) (simp_all split: request_error.splits)
  have checks: "dget headers ''x-lil-tweak-owner'' \<in> {None, Some (api_owner api)} \<and> t = u \<and> owner = api_owner api
      \<and> key = header headers ''idempotency-key'' \<and> (mutation \<longrightarrow> key \<noteq> [] \<and> utf8_len key \<le> 200)"
    using assms unfolding authenticate_def Let_def v r
    by (simp only: prod.case sum.case unit.case split: if_splits) (auto simp: not_less)
  show "?v = (Inr (), t)" using v r checks by simp
  show "owner = api_owner api" "key = header headers ''idempotency-key''" using checks by simp_all
  show "mutation \<Longrightarrow> key \<noteq> [] \<and> utf8_len key \<le> 200" using checks by blast
  show "signed_owner api headers = owner"
    using checks by (cases "dget headers ''x-lil-tweak-owner''") (simp_all add: signed_owner_def header_def)
qed

text \<open>C13. An authenticated call is the call that was signed. When the message of one request is the
  only one whose HMAC under the key is the signature of the call, then a call that
  \<open>_authenticate\<close> lets pass is that request: it has its method, target, nonce, timestamp, request id,
  idempotency key and owner, the body has the digest that was signed, the clock is within the skew,
  the owner is the canonical one, and nothing in the store has changed but the nonces.\<close>

theorem authenticated_call_is_what_was_signed:
  assumes "authenticate api now clk http_method target body headers mutation s = (Inr (owner, key), t)"
    and "dget (api_keys api) (header headers ''x-lil-tweak-key-id'') = Some secret"
    and "\<And>m. api_hmac api (secret_bytes secret) m = lower (header headers ''x-lil-tweak-signature'')
      \<Longrightarrow> canonical_request key_id request = Inr m"
  shows "header headers ''x-lil-tweak-key-id'' = key_id
    \<and> signed_alike (fields_of api http_method target headers) request
    \<and> api_sha api body = lower (sf_body_sha256 request)
    \<and> owner = api_owner api \<and> owner = sf_owner_id request \<and> key = sf_idempotency_key request
    \<and> (\<exists>ts. int_of_str (sf_timestamp request) = Some ts \<and> \<bar>truncate_time now - ts\<bar> \<le> 300)
    \<and> (mutation \<longrightarrow> key \<noteq> [] \<and> utf8_len key \<le> 200)
    \<and> (\<exists>ns. t = s\<lparr>nonces := ns\<rparr> \<and> dget ns (key_id, sf_nonce request) = Some (clk 1))"
proof -
  let ?f = "fields_of api http_method target headers" and ?k = "header headers ''x-lil-tweak-key-id''"
  note a = authenticate_Inr[OF assms(1)]
  note v = verify_request_Inr[OF a(1)]
  obtain ts m where ts: "int_of_str (sf_timestamp ?f) = Some ts" "\<bar>truncate_time now - ts\<bar> \<le> max_clock_skew"
    and m: "canonical_request ?k ?f = Inr m" "api_sha api body = lower (sf_body_sha256 ?f)"
      "api_hmac api (secret_bytes secret) m = lower (header headers ''x-lil-tweak-signature'')"
    using v(1) assms(2) by (auto elim!: request_validD)
  have same: "?k = key_id" "signed_alike ?f request"
    using canonical_request_unique[OF m(1) assms(3)[OF m(3)]] by simp_all
  have "\<exists>ns. t = s\<lparr>nonces := ns\<rparr> \<and> dget ns (?k, sf_nonce ?f) = Some (clk 1)"
    using v(2) by (auto simp: consume_nonce_def Let_def split: if_splits)
  then show ?thesis
    using same a ts m(2) by (auto simp: signed_alike_def max_clock_skew_def fields_of_def)
qed

definition letter :: "string \<Rightarrow> signed_fields" where
  "letter timestamp =
     \<lparr>sf_method = ''POST'', sf_target = ''/v1/jobs?a=1&b=%32'', sf_timestamp = timestamp, sf_nonce = ''n1'',
      sf_body_sha256 = replicate 64 (CHR ''a''), sf_request_id = ''r1'', sf_idempotency_key = ''once'',
      sf_owner_id = ''ann''\<rparr>"

definition letter_api :: api_config where
  "letter_api = \<lparr>api_keys = [(''k1'', SecretText ''s'')], api_owner = ''ann'', api_sha = (\<lambda>_. replicate 64 (CHR ''a'')),
     api_hmac = (\<lambda>key message. if Inr message = canonical_request ''k1'' (letter ''100'') then ''0a'' else ''0b'')\<rparr>"

definition letter_headers :: "(string, string) dict" where
  "letter_headers = [(''x-lil-tweak-key-id'', ''k1''), (''x-lil-tweak-signature'', ''0A''),
     (''x-lil-tweak-timestamp'', ''100''), (''x-lil-tweak-nonce'', ''n1''),
     (''x-lil-tweak-body-sha256'', replicate 64 (CHR ''A'')), (''x-lil-tweak-request-id'', ''r1''),
     (''idempotency-key'', ''once'')]"

theorem authenticated_call_is_what_was_signed_witness:
  "\<exists>t. authenticate letter_api 90 (\<lambda>_. 90) ''post'' ''/v1/jobs?b=2&a=1'' ''body'' letter_headers True empty_store
      = (Inr (''ann'', ''once''), t)
    \<and> signed_alike (fields_of letter_api ''post'' ''/v1/jobs?b=2&a=1'' letter_headers) (letter ''100'')
    \<and> (\<exists>ns. t = empty_store\<lparr>nonces := ns\<rparr> \<and> dget ns (''k1'', ''n1'') = Some 90)"
proof -
  have "fst (authenticate letter_api 90 (\<lambda>_. 90) ''post'' ''/v1/jobs?b=2&a=1'' ''body'' letter_headers True empty_store)
    = Inr (''ann'', ''once'')" by code_simp
  then obtain t where t: "authenticate letter_api 90 (\<lambda>_. 90) ''post'' ''/v1/jobs?b=2&a=1'' ''body'' letter_headers True
      empty_store = (Inr (''ann'', ''once''), t)" by (metis prod.collapse)
  have key: "dget (api_keys letter_api) (header letter_headers ''x-lil-tweak-key-id'') = Some (SecretText ''s'')"
    and sig: "lower (header letter_headers ''x-lil-tweak-signature'') = ''0a''" by code_simp+
  have only: "canonical_request ''k1'' (letter ''100'') = Inr m"
    if "api_hmac letter_api (secret_bytes (SecretText ''s'')) m = lower (header letter_headers ''x-lil-tweak-signature'')" for m
    using that unfolding sig by (auto simp: letter_api_def split: if_splits)
  have "sf_nonce (letter ''100'') = ''n1''" by (simp add: letter_def)
  then show ?thesis using t authenticated_call_is_what_was_signed[OF t key only] by auto
qed

subsection \<open>Using a request again\<close>

lemma truncate_time_bound: "truncate_time q \<le> n \<Longrightarrow> q < of_int n + 1"
  by (auto simp: truncate_time_def floor_le_iff ceiling_le_iff split: if_splits)

text \<open>C14. A request is accepted once. Unless its timestamp was 299 seconds or more ahead of the clock
  when the store consumed its nonce, no later call with the same key, nonce and timestamp is
  accepted, whenever it comes and whatever happens to the store in between. (\<open>d\<close> bounds the time
  from the reading of the clock in \<open>verify_request\<close> to the one in \<open>consume_nonce\<close>, and \<open>now\<close> is the
  latest time at which the store was used.)\<close>

theorem accepted_request_is_not_replayed:
  assumes "verify_request sha hmac keys 300 now clk key_id signature body f s = (Inr (), t)"
    and "dict_ok (nonces s)" and "int_of_str (sf_timestamp f) = Some ts"
    and "of_int ts - 299 + d \<le> clk 1"
    and "sf_nonce g = sf_nonce f" and "sf_timestamp g = sf_timestamp f"
    and "clk2 0 < latest" and "latest \<le> now2 + d" and "list_all (nonce_before latest) ops"
  shows "fst (verify_request sha hmac keys 300 now2 clk2 key_id signature2 body2 g (store_run sha2 fr t ops)) \<noteq> Inr ()"
proof
  let ?u = "store_run sha2 fr t ops"
  assume "fst (verify_request sha hmac keys 300 now2 clk2 key_id signature2 body2 g ?u) = Inr ()"
  then obtain u where u: "verify_request sha hmac keys 300 now2 clk2 key_id signature2 body2 g ?u = (Inr (), u)"
    by (metis prod.collapse)
  note v = verify_request_Inr[OF u]
  have "truncate_time now2 \<le> ts + 300" using v(1) assms(3,6) by (auto elim!: request_validD)
  from truncate_time_bound[OF this] have late: "latest < clk 1 + 600" using assms(4,8) by simp
  have early: "list_all (nonce_before (clk 1 + 600)) ops"
    using assms(9)
  proof (rule list.pred_mono_strong)
    show "nonce_before latest x \<Longrightarrow> nonce_before (clk 1 + 600) x" for x using late by (cases x) auto
  qed
  have "fst (consume_nonce clk2 ?u key_id (sf_nonce f)) = False"
    by (rule nonce_accepted_once[OF assms(2) verify_request_Inr(2)[OF assms(1)] early])
      (use late assms(7) in simp)
  then show False using v(2) assms(5) by simp
qed

theorem accepted_request_is_not_replayed_witness:
  "fst (verify_request (\<lambda>_. replicate 64 (CHR ''a'')) (\<lambda>_ _. ''0a'') [(''k1'', SecretText ''s'')] 300 50 (\<lambda>_. 50) ''k1'' ''0a''
      ''body'' (letter ''100'') (store_run demo_sha demo_fr
        (snd (verify_request (\<lambda>_. replicate 64 (CHR ''a'')) (\<lambda>_ _. ''0a'') [(''k1'', SecretText ''s'')] 300 0 (\<lambda>_. 0) ''k1'' ''0a''
          ''body'' (letter ''100'') empty_store))
        [ConsumeNonce (\<lambda>_. 20) ''k1'' ''n2''])) \<noteq> Inr ()"
proof (rule accepted_request_is_not_replayed[where f = "letter ''100''" and clk = "\<lambda>_. 0" and d = 1 and latest = 51 and ts = 100])
  show "verify_request (\<lambda>_. replicate 64 (CHR ''a'')) (\<lambda>_ _. ''0a'') [(''k1'', SecretText ''s'')] 300 0 (\<lambda>_. 0) ''k1'' ''0a''
      ''body'' (letter ''100'') empty_store
    = (Inr (), snd (verify_request (\<lambda>_. replicate 64 (CHR ''a'')) (\<lambda>_ _. ''0a'') [(''k1'', SecretText ''s'')] 300 0 (\<lambda>_. 0)
        ''k1'' ''0a'' ''body'' (letter ''100'') empty_store))"
    by (rule prod_eqI) (code_simp, simp)
  show "int_of_str (sf_timestamp (letter ''100'')) = Some 100" by code_simp
qed (simp_all add: empty_store_def)

lemma filter_forgets:
  "dict_ok d \<Longrightarrow> dget d k = Some v \<Longrightarrow> \<not> P (k, v) \<Longrightarrow> dget (filter P d) k = None"
  by (induction d) (auto simp: dict_ok_def dget_def map_of_eq_None_iff split: if_splits)

text \<open>C32. The bound is sharp, and a replay is possible beyond it. The store forgets a nonce after 600
  seconds, but a timestamp is acceptable for almost 601: a request that was accepted when its
  timestamp was 300 seconds ahead is accepted a second time, in the last second in which its
  timestamp is acceptable.\<close>

theorem request_from_ahead_is_replayed:
  assumes "verify_request sha hmac keys 300 now clk key_id signature body f s = (Inr (), t)"
    and "int_of_str (sf_timestamp f) = Some ts" and "dict_ok (nonces s)"
    and "clk 1 \<le> of_int ts - 300 + d" and "0 \<le> d" and "d < 1" and "0 \<le> ts"
    and "clk2 0 = of_int ts + 300 + d" and "now2 = of_int ts + 300 + d"
  shows "fst (verify_request sha hmac keys 300 now2 clk2 key_id signature body f t) = Inr ()"
proof -
  note v = verify_request_Inr[OF assms(1)]
  have "\<lfloor>of_int ts + 300 + d\<rfloor> = ts + 300" using assms(5,6) by linarith
  then have "truncate_time now2 = ts + 300" using assms(5,7,9) by (simp add: truncate_time_def)
  then have valid: "request_valid sha hmac keys now2 300 key_id signature body f"
    using v(1) assms(2) by (auto simp: request_valid_def split: option.splits sum.splits)
  have "\<not> clk2 0 - 600 < clk 1" using assms(4,8) by simp
  moreover have "dict_ok (nonces t) \<and> dget (nonces t) (key_id, sf_nonce f) = Some (clk 1)"
    using v(2) assms(3) by (auto simp: consume_nonce_def Let_def split: if_splits)
  ultimately have "dget (filter (\<lambda>(item, consumed_at). clk2 0 - 600 < consumed_at) (nonces t)) (key_id, sf_nonce f) = None"
    using filter_forgets[where P = "\<lambda>(item, consumed_at). clk2 0 - 600 < consumed_at"] by auto
  then show ?thesis
    using v(2) valid by (auto simp: verify_request_def consume_nonce_def Let_def split: if_splits)
qed

theorem request_from_ahead_is_replayed_witness:
  "fst (verify_request (\<lambda>_. replicate 64 (CHR ''a'')) (\<lambda>_ _. ''0a'') [(''k1'', SecretText ''s'')] 300 600 (\<lambda>_. 600) ''k1'' ''0a''
      ''body'' (letter ''300'') (snd (verify_request (\<lambda>_. replicate 64 (CHR ''a'')) (\<lambda>_ _. ''0a'') [(''k1'', SecretText ''s'')]
        300 0 (\<lambda>_. 0) ''k1'' ''0a'' ''body'' (letter ''300'') empty_store))) = Inr ()"
proof (rule request_from_ahead_is_replayed[where now = 0 and clk = "\<lambda>_. 0" and s = empty_store and d = 0 and ts = 300])
  show "verify_request (\<lambda>_. replicate 64 (CHR ''a'')) (\<lambda>_ _. ''0a'') [(''k1'', SecretText ''s'')] 300 0 (\<lambda>_. 0) ''k1'' ''0a''
      ''body'' (letter ''300'') empty_store
    = (Inr (), snd (verify_request (\<lambda>_. replicate 64 (CHR ''a'')) (\<lambda>_ _. ''0a'') [(''k1'', SecretText ''s'')] 300 0 (\<lambda>_. 0)
        ''k1'' ''0a'' ''body'' (letter ''300'') empty_store))"
    by (rule prod_eqI) (code_simp, simp)
  show "int_of_str (sf_timestamp (letter ''300'')) = Some 300" by code_simp
qed (simp_all add: empty_store_def)

end
