(* ===== verification/RecoveryBridge.thy ===== *)
theory RecoveryBridge
  imports RecoveryController Orchestrator
begin

section \<open>The recovery bridge\<close>

text \<open>
  \<open>core/lil_tweak/failure_recovery/orchestrator_bridge.py\<close>: a wrapper of the engineering orchestrator
  that records a recovery decision after a run has failed. \<open>_FailureObservingAgent\<close> adds a cell for
  the last exception of the agent to the environment of the run. Of an exception the controller
  sees what \<open>exception_view\<close> has; for one that comes from a collaborator the view is a function of
  the environment.
\<close>

subsection \<open>Observing the agent\<close>

fun store_error_view :: "store_error \<Rightarrow> exception_view" where
  "store_error_view IdempotencyConflict = \<lparr>xv_code = Some ''idempotency_conflict'', xv_type_name = ''IdempotencyConflict'', xv_is_timeout = False\<rparr>"
| "store_error_view StaleRevision = \<lparr>xv_code = Some ''stale_revision'', xv_type_name = ''StaleRevision'', xv_is_timeout = False\<rparr>"
| "store_error_view StaleLease = \<lparr>xv_code = Some ''stale_lease'', xv_type_name = ''StaleLease'', xv_is_timeout = False\<rparr>"
| "store_error_view ApprovalError = \<lparr>xv_code = Some ''invalid_approval'', xv_type_name = ''ApprovalError'', xv_is_timeout = False\<rparr>"
| "store_error_view JobNotFound = \<lparr>xv_code = Some ''job_not_found'', xv_type_name = ''JobNotFound'', xv_is_timeout = False\<rparr>"
| "store_error_view (PolicyError InvalidTransition) = \<lparr>xv_code = Some ''invalid_transition'', xv_type_name = ''InvalidTransition'', xv_is_timeout = False\<rparr>"
| "store_error_view (PolicyError ApprovalRequired) = \<lparr>xv_code = Some ''approval_required'', xv_type_name = ''ApprovalRequired'', xv_is_timeout = False\<rparr>"
| "store_error_view (PolicyError PolicyTypeError) = \<lparr>xv_code = None, xv_type_name = ''TypeError'', xv_is_timeout = False\<rparr>"
| "store_error_view (ValueError message) = \<lparr>xv_code = None, xv_type_name = ''ValueError'', xv_is_timeout = False\<rparr>"
| "store_error_view KeyError = \<lparr>xv_code = None, xv_type_name = ''KeyError'', xv_is_timeout = False\<rparr>"

fun evidence_error_view :: "evidence_error \<Rightarrow> exception_view" where
  "evidence_error_view (WorkspaceEvidenceError code) = \<lparr>xv_code = Some ''workspace_evidence_failed'', xv_type_name = ''WorkspaceEvidenceError'', xv_is_timeout = False\<rparr>"
| "evidence_error_view EvidenceConflict = \<lparr>xv_code = Some ''evidence_conflict'', xv_type_name = ''EvidenceConflict'', xv_is_timeout = False\<rparr>"
| "evidence_error_view EvidenceTooLarge = \<lparr>xv_code = Some ''evidence_too_large'', xv_type_name = ''EvidenceTooLarge'', xv_is_timeout = False\<rparr>"
| "evidence_error_view (EvidenceValueError message) = \<lparr>xv_code = None, xv_type_name = ''ValueError'', xv_is_timeout = False\<rparr>"
| "evidence_error_view EvidenceTypeError = \<lparr>xv_code = None, xv_type_name = ''TypeError'', xv_is_timeout = False\<rparr>"
| "evidence_error_view EvidenceOSError = \<lparr>xv_code = None, xv_type_name = ''OSError'', xv_is_timeout = False\<rparr>"

fun failure_view :: "('e \<Rightarrow> exception_view) \<Rightarrow> 'e \<Rightarrow> run_failure \<Rightarrow> exception_view" where
  "failure_view external e (RunStore error) = store_error_view error"
| "failure_view external e (RunEvidence error) = evidence_error_view error"
| "failure_view external e (RecoveryRequired message) =
     \<lparr>xv_code = Some ''patch_reconciliation_required'', xv_type_name = ''PromotionRecoveryRequired'', xv_is_timeout = False\<rparr>"
| "failure_view external e AgentDeadline =
     \<lparr>xv_code = Some ''agent_deadline_exceeded'', xv_type_name = ''AgentDeadlineError'', xv_is_timeout = False\<rparr>"
| "failure_view external e (RunValueError message) = \<lparr>xv_code = None, xv_type_name = ''ValueError'', xv_is_timeout = False\<rparr>"
| "failure_view external e RunExternal = external e"

text \<open>The collaborators in an environment with a second component, which only the observed agent
  writes. The wrapper does not hand a runner verifier to the orchestrator, nor the identity of a
  verified source to its run.\<close>

definition beside :: "('a, 'e) effectful \<Rightarrow> ('a, 'e \<times> 'x) effectful" where
  "beside f = (\<lambda>((e, x), s). case f (e, s) of (r, (e, s)) \<Rightarrow> (r, ((e, x), s)))"

definition tools_beside :: "'e agent_tools \<Rightarrow> ('e \<times> 'x) agent_tools" where
  "tools_beside t =
     \<lparr>capture_final_snapshot = map_option (\<lambda>f baseline stage. beside (f baseline stage)) (capture_final_snapshot t),
      recovery_context_exists = map_option beside (recovery_context_exists t),
      command_observations = command_observations t \<circ> fst, edit_journal = edit_journal t \<circ> fst\<rparr>"

definition observed_run :: "('e \<Rightarrow> exception_view) \<Rightarrow> ('a, 'e) effectful \<Rightarrow> ('a, 'e \<times> exception_view option) effectful" where
  "observed_run external f =
     (\<lambda>((e, x), s). case f (e, s) of
        (Inl error, (e, s)) \<Rightarrow> (Inl error, ((e, Some (failure_view external e error)), s))
      | (Inr result, (e, s)) \<Rightarrow> (Inr result, ((e, x), s)))"

definition observing :: "('e \<Rightarrow> exception_view) \<Rightarrow> 'e run_env \<Rightarrow> ('e \<times> exception_view option) run_env" where
  "observing external env =
     \<lparr>others = (\<lambda>((e, x), s). case others env (e, s) of (e, s) \<Rightarrow> ((e, x), s)),
      clock_of = clock_of env \<circ> fst, monotonic_of = monotonic_of env \<circ> fst,
      tools_of = map_option tools_beside (tools_of env),
      agent_run = (\<lambda>request. observed_run external (agent_run env request)),
      galor_fetch = map_option (\<lambda>f project. beside (f project)) (galor_fetch env),
      verify_run = None,
      put_evidence = (\<lambda>key data digest. beside (put_evidence env key data digest)),
      remove_tree = (\<lambda>path (e, x). case remove_tree env path e of (r, e) \<Rightarrow> (r, (e, x))),
      trees_seen = trees_seen env \<circ> fst, staging_occupied = (\<lambda>path. staging_occupied env path \<circ> fst),
      stage_files = (\<lambda>files (e, x). (stage_files env files e, x)), disk_files = disk_files env \<circ> fst\<rparr>"

subsection \<open>Recording a decision\<close>

record 'h bridge =
  br_history :: 'h
  br_last :: "recovery_decision option"
  br_unavailable :: bool

record ('h, 'e) bridge_config =
  bc_sha :: "string \<Rightarrow> string"
  bc_fr :: "rat \<Rightarrow> string"
  bc_ops :: "'h history_ops"
  bc_budgets :: recovery_budgets
  bc_lease :: "job_lease option"
  bc_external :: "'e \<Rightarrow> exception_view"

definition bridge_context :: "job_lease option \<Rightarrow> job \<Rightarrow> string + recovery_context" where
  "bridge_context lease job = recovery_context_init
     \<lparr>rc_owner_id = job_owner_id job, rc_task_id = job_id job, rc_dag_run_id = ''job:'' @ job_id job,
      rc_node_id = ''executing'',
      rc_source_revision =
        (if job_source_digest job \<noteq> None \<and> valid_revision (job_source_digest job) then job_source_digest job
         else case job_git_source job of
             Some git \<Rightarrow> if valid_revision (Some (git_commit git)) then Some (git_commit git) else None
           | None \<Rightarrow> None),
      rc_attempt = (case lease of Some l \<Rightarrow> lease_generation l | None \<Rightarrow> 1),
      rc_plan_digest = job_proposal_digest job, rc_candidate_digest = None, rc_contract_digest = None,
      rc_execution_id = Some (job_id job),
      rc_lease_id = map_option (\<lambda>l. lease_worker_id l @ '':'' @ show_int (lease_generation l)) lease,
      rc_resource_id = Some ''current-runner'', rc_approval_present = job_approval_consumed job,
      rc_new_authority_required = False\<rparr>"

definition record_signal :: "('h, 'e) bridge_config \<Rightarrow> failure_signal \<Rightarrow> job \<Rightarrow> 'h bridge \<Rightarrow> 'h bridge" where
  "record_signal bc signal job br =
     (case bridge_context (bc_lease bc) job of
        Inl code \<Rightarrow> br\<lparr>br_last := None, br_unavailable := True\<rparr>
      | Inr c \<Rightarrow>
          (case controller_decide (bc_sha bc) (bc_fr bc) (bc_ops bc) (bc_budgets bc) (br_history br) signal c None of
             (Inl code, h) \<Rightarrow> br\<lparr>br_history := h, br_last := None, br_unavailable := True\<rparr>
           | (Inr d, h) \<Rightarrow> br\<lparr>br_history := h, br_last := Some d\<rparr>))"

definition record_error :: "('h, 'e) bridge_config \<Rightarrow> exception_view \<Rightarrow> job \<Rightarrow> 'h bridge \<Rightarrow> 'h bridge" where
  "record_error bc view job br =
     (case signal_from_exception view of
        Inl code \<Rightarrow> br\<lparr>br_last := None, br_unavailable := True\<rparr>
      | Inr signal \<Rightarrow> record_signal bc signal job br)"

definition timeout_signal :: "string + failure_signal" where
  "timeout_signal = failure_signal_init (\<lambda>es. es) (failure_code_value TIMEOUT) ''ObservedCommandTimeout'' []
     [''command_timeout''] [] True False False False []"

definition terminal_signal :: "string + failure_signal" where
  "terminal_signal = failure_signal_init (\<lambda>es. es) (failure_code_value UNKNOWN_FAILURE) ''OrchestratorTerminalFailure'' []
     [] [] False False False False []"

text \<open>What is recorded for a job that the run has returned; the signal is built outside of the \<open>try\<close>,
  so an error of it would be raised.\<close>

definition record_result :: "('h, 'e) bridge_config \<Rightarrow> exception_view option \<Rightarrow> job \<Rightarrow> 'h bridge
    \<Rightarrow> (run_failure, job, 'h bridge) outcome" where
  "record_result bc observed job br =
     (if job_state job = TIMED_OUT \<or> job_state job = FAILED
      then (case observed of
          Some view \<Rightarrow> (Inr job, record_error bc view job br)
        | None \<Rightarrow>
            (case (if job_state job = TIMED_OUT then timeout_signal else terminal_signal) of
               Inl code \<Rightarrow> (Inl (RunValueError code), br)
             | Inr signal \<Rightarrow> (Inr job, record_signal bc signal job br)))
      else (Inr job, br))"

definition unsourced :: "run_arguments \<Rightarrow> run_arguments" where
  "unsourced a = a\<lparr>ra_source_commit := None, ra_source_tree := None\<rparr>"

definition bridge_run_job :: "run_config \<Rightarrow> 'e run_env \<Rightarrow> ('h, 'e) bridge_config \<Rightarrow> run_arguments \<Rightarrow> 'e \<times> job_store
    \<Rightarrow> 'h bridge \<Rightarrow> (run_failure + job) \<times> ('e \<times> job_store) \<times> 'h bridge" where
  "bridge_run_job cfg env bc a = (\<lambda>(e, s) br.
     let watched = observing (bc_external bc) env;
         look = (\<lambda>st. look_up watched (ra_job_id a) (ra_owner_id a) st);
         world = (\<lambda>st :: ('e \<times> exception_view option) engine. (fst (en_env st), en_store st))
     in case look (engine_of (e, None) s (bc_lease bc)) of
       (Inl error, st) \<Rightarrow> (Inl error, world st, br)
     | (Inr None, st) \<Rightarrow> (Inl (RunStore JobNotFound), world st, br)
     | (Inr (Some initial), st) \<Rightarrow>
         let br = br\<lparr>br_last := None, br_unavailable := False\<rparr>
         in case run_job cfg watched (unsourced a) st of
           (Inl error, st) \<Rightarrow>
             (case look st of
                (Inl other, st) \<Rightarrow> (Inl other, world st, br)
              | (Inr latest, st) \<Rightarrow> (Inl error, world st,
                  record_error bc (failure_view (bc_external bc) (fst (en_env st)) error)
                    (case latest of Some j \<Rightarrow> j | None \<Rightarrow> initial) br))
         | (Inr job, st) \<Rightarrow>
             (case record_result bc (snd (en_env st)) job br of (r, br) \<Rightarrow> (r, world st, br)))"

end
