(* ===== verification/RecoveryBridgeProps.thy ===== *)
theory RecoveryBridgeProps
  imports RecoveryBridge OrchestratorProps
begin

section \<open>What the recovery bridge adds to a run\<close>

text \<open>
  The bridge is transparent: a run through it returns what the orchestrator returns and leaves the
  same environment and store. And what it adds is bounded: a run appends at most one decision to the
  history, for the job that failed, and any sequence of runs stays within the recovery budgets.
\<close>

subsection \<open>A run does not see that its agent is observed\<close>

named_theorems transparent "operations that agree in the observed and the plain environment"

definition unwatch :: "('e \<times> 'x) engine \<Rightarrow> 'e engine" where
  "unwatch st = \<lparr>en_env = fst (en_env st), en_store = en_store st, en_lease = en_lease st,
     en_roots = en_roots st, en_preserve = en_preserve st\<rparr>"

lemma unwatch_simps [simp]:
  "en_env (unwatch st) = fst (en_env st)" "en_store (unwatch st) = en_store st"
  "en_lease (unwatch st) = en_lease st" "en_roots (unwatch st) = en_roots st"
  "en_preserve (unwatch st) = en_preserve st"
  "(unwatch st)\<lparr>en_lease := l\<rparr> = unwatch (st\<lparr>en_lease := l\<rparr>)"
  "(unwatch st)\<lparr>en_roots := ps\<rparr> = unwatch (st\<lparr>en_roots := ps\<rparr>)"
  "(unwatch st)\<lparr>en_preserve := b\<rparr> = unwatch (st\<lparr>en_preserve := b\<rparr>)"
  "(unwatch st)\<lparr>en_store := s\<rparr> = unwatch (st\<lparr>en_store := s\<rparr>)"
  by (simp_all add: unwatch_def)

lemma unwatch_env: "unwatch (st\<lparr>en_env := (e, x)\<rparr>) = (unwatch st)\<lparr>en_env := e\<rparr>"
  by (simp add: unwatch_def)

definition agrees :: "('a, 'e \<times> 'x) engine_outcome \<Rightarrow> ('a, 'e) engine_outcome \<Rightarrow> bool" where
  "agrees r r' \<longleftrightarrow> r' = (fst r, unwatch (snd r))"

lemma agrees_return [transparent]: "agrees (v, st) (v, unwatch st)"
  by (simp add: agrees_def)

lemma agrees_bind [transparent]:
  "agrees r r' \<Longrightarrow> (\<And>x st. agrees (g x st) (g' x (unwatch st))) \<Longrightarrow> agrees (bind_op r g) (bind_op r' g')"
  by (cases r; cases "fst r") (auto simp: agrees_def)

lemma agrees_continue [transparent]:
  "agrees r r' \<Longrightarrow> (\<And>x st. agrees (g x st) (g' x (unwatch st))) \<Longrightarrow> agrees (continue_op r g) (continue_op r' g')"
  unfolding continue_op_def by (rule agrees_bind) (auto simp: agrees_def split: sum.splits)

lemma agrees_if [transparent]:
  "(b \<Longrightarrow> agrees r r') \<Longrightarrow> (\<not> b \<Longrightarrow> agrees q q') \<Longrightarrow> agrees (if b then r else q) (if b then r' else q')"
  by simp

lemma agrees_option [transparent]:
  "(x = None \<Longrightarrow> agrees r r') \<Longrightarrow> (\<And>y. x = Some y \<Longrightarrow> agrees (f y) (f' y))
     \<Longrightarrow> agrees (case x of None \<Rightarrow> r | Some y \<Rightarrow> f y) (case x of None \<Rightarrow> r' | Some y \<Rightarrow> f' y)"
  by (cases x) simp_all

lemma agrees_elsewhere: "elsewhere env (unwatch st) = unwatch (elsewhere (observing external env) st)"
  by (auto simp: elsewhere_def observing_def unwatch_def split: prod.splits)

lemma agrees_store_call [transparent]:
  "agrees (store_call (observing external env) f st) (store_call env f (unwatch st))"
  by (auto simp: store_call_def agrees_elsewhere[of _ _ external] agrees_def Let_def observing_def
      split: prod.splits sum.splits)

lemma agrees_beside [transparent]: "agrees (outside (beside f) st) (outside f (unwatch st))"
  by (cases "en_env st") (auto simp: outside_def beside_def agrees_def unwatch_def split: prod.splits)

lemma agrees_agent [transparent]:
  "agrees (outside (agent_run (observing external env) request) st) (outside (agent_run env request) (unwatch st))"
  by (cases "en_env st") (auto simp: outside_def observed_run_def observing_def agrees_def unwatch_def
      split: prod.splits sum.splits)

lemma observing_simps [simp]:
  "clock_of (observing external env) e = clock_of env (fst e)"
  "monotonic_of (observing external env) e = monotonic_of env (fst e)"
  "tools_of (observing external env) = map_option tools_beside (tools_of env)"
  "verify_run (observing external env) = None"
  "galor_fetch (observing external env) = map_option (\<lambda>f project. beside (f project)) (galor_fetch env)"
  "put_evidence (observing external env) key data digest = beside (put_evidence env key data digest)"
  "disk_files (observing external env) e = disk_files env (fst e)"
  "trees_seen (observing external env) e = trees_seen env (fst e)"
  "staging_occupied (observing external env) path e = staging_occupied env path (fst e)"
  by (simp_all add: observing_def)

lemma agrees_renew [transparent]:
  "agrees (renew_lease cfg (observing external env) st) (renew_lease cfg env (unwatch st))"
  by (auto simp: renew_lease_def intro!: transparent)

lemma agrees_move [transparent]:
  "agrees (move_job cfg (observing external env) j target f st) (move_job cfg env j target f (unwatch st))"
  by (auto simp: move_job_def intro!: transparent)

lemma agrees_look [transparent]:
  "agrees (look_up (observing external env) jid owner st) (look_up env jid owner (unwatch st))"
  by (auto simp: look_up_def intro!: transparent)

lemma agrees_event [transparent]:
  "agrees (add_event (observing external env) jid owner ev data st) (add_event env jid owner ev data (unwatch st))"
  by (auto simp: add_event_def intro!: transparent)

lemma agrees_cancel [transparent]:
  "agrees (cancel_or cfg (observing external env) l x st) (cancel_or cfg env l x (unwatch st))"
  by (auto simp: cancel_or_def intro!: transparent)

lemma agrees_enter [transparent]:
  "agrees (enter_job cfg (observing external env) j st) (enter_job cfg env j (unwatch st))"
  by (auto simp: enter_job_def intro!: transparent)

lemma agrees_remove [transparent]:
  "agrees (remove_snapshot_tree (observing external env) path st) (remove_snapshot_tree env path (unwatch st))"
  by (cases "en_env st") (auto simp: remove_snapshot_tree_def observing_def agrees_def unwatch_def
      split: prod.splits removal.splits)

lemma agrees_exists [transparent]:
  "agrees (context_exists b (map_option tools_beside tools) st) (context_exists b tools (unwatch st))"
  by (auto simp: context_exists_def tools_beside_def intro!: transparent split: option.splits)

lemma agrees_final [transparent]:
  "agrees (take_final (observing external env) j workspace baseline stage st)
     (take_final env j workspace baseline stage (unwatch st))"
  by (auto simp: take_final_def tools_beside_def intro!: transparent split: option.splits)

lemma agrees_lift [transparent]: "agrees (lift_evidence r st) (lift_evidence r (unwatch st))"
  by (auto simp: lift_evidence_def agrees_def split: sum.splits)

lemma agrees_store_files [transparent]:
  "agrees (store_files cfg (observing external env) prefix files manifest st) (store_files cfg env prefix files manifest (unwatch st))"
proof (induction files arbitrary: manifest st)
  case (Cons f files)
  then show ?case by (cases f) (auto intro!: transparent)
qed (auto intro!: transparent)

lemma agrees_plan [transparent]:
  "agrees (plan_step cfg (observing external env) owner j target f st) (plan_step cfg env owner j target f (unwatch st))"
  by (auto simp: plan_step_def intro!: transparent)

lemma agrees_fetch [transparent]:
  "agrees (fetch_context (observing external env) owner j st) (fetch_context env owner j (unwatch st))"
  by (auto simp: fetch_context_def intro!: transparent split: option.splits)

lemma agrees_work [transparent]:
  "agrees (work_step cfg (observing external env) a j deadline st) (work_step cfg env a j deadline (unwatch st))"
  by (auto simp: work_step_def intro!: transparent)

lemma agrees_receipt [transparent]:
  "verify_run env = None \<Longrightarrow> agrees (run_receipt (observing external env) a j patch b f st) (run_receipt env a j patch b f (unwatch st))"
  by (auto simp: run_receipt_def intro!: transparent split: option.splits)

lemma agrees_capture:
  "agrees (case trees_seen (observing external env) (en_env u) of (first, second) \<Rightarrow>
      (case capture_workspace sha limits path (Some (stage, staging_occupied (observing external env) stage (en_env u)))
          first second of
         Inl e \<Rightarrow> (Inl (RunEvidence e), u)
       | Inr (snapshot, staged) \<Rightarrow>
           (Inr (snapshot, attempt), u\<lparr>en_env := stage_files (observing external env) staged (en_env u)\<rparr>)))
    (case trees_seen env (en_env (unwatch u)) of (first, second) \<Rightarrow>
      (case capture_workspace sha limits path (Some (stage, staging_occupied env stage (en_env (unwatch u)))) first second of
         Inl e \<Rightarrow> (Inl (RunEvidence e), unwatch u)
       | Inr (snapshot, staged) \<Rightarrow>
           (Inr (snapshot, attempt), (unwatch u)\<lparr>en_env := stage_files env staged (en_env (unwatch u))\<rparr>)))"
  by (cases "en_env u") (auto simp: agrees_def observing_def unwatch_def split: sum.splits prod.splits)

lemma agrees_baseline [transparent]:
  "agrees (take_baseline cfg (observing external env) j workspace st) (take_baseline cfg env j workspace (unwatch st))"
proof (cases workspace)
  case (Some path)
  have root: "attempt_root j path (unwatch u) = attempt_root j path u" for u :: "('a \<times> exception_view option) engine"
    by (simp add: attempt_root_def)
  let ?root = "butlast path @ [''.snapshots'', job_id j]"
  have tools: "(case tools_of (observing external env) of None \<Rightarrow> True | Some t \<Rightarrow> capture_final_snapshot t = None)
      = (case tools_of env of None \<Rightarrow> True | Some t \<Rightarrow> capture_final_snapshot t = None)"
    by (cases "tools_of env") (simp_all add: tools_beside_def)
  have captured: "agrees (let st = u\<lparr>en_roots := en_roots u @ [?root]\<rparr> in
        case trees_seen (observing external env) (en_env st) of (first, second) \<Rightarrow>
        (case capture_workspace (oc_sha cfg) default_capture_limits path
            (Some (stage, staging_occupied (observing external env) stage (en_env st))) first second of
           Inl e \<Rightarrow> (Inl (RunEvidence e), st)
         | Inr (snapshot, staged) \<Rightarrow>
             (Inr (snapshot, attempt), st\<lparr>en_env := stage_files (observing external env) staged (en_env st)\<rparr>)))
      (let st = (unwatch u)\<lparr>en_roots := en_roots (unwatch u) @ [?root]\<rparr> in
        case trees_seen env (en_env st) of (first, second) \<Rightarrow>
        (case capture_workspace (oc_sha cfg) default_capture_limits path
            (Some (stage, staging_occupied env stage (en_env st))) first second of
           Inl e \<Rightarrow> (Inl (RunEvidence e), st)
         | Inr (snapshot, staged) \<Rightarrow>
             (Inr (snapshot, attempt), st\<lparr>en_env := stage_files env staged (en_env st)\<rparr>)))" for u stage attempt
    by (simp only: Let_def unwatch_simps(4,7)) (rule agrees_capture)
  show ?thesis
    unfolding take_baseline_def Some option.case tools Let_def
    by (rule agrees_if, rule agrees_return, rule agrees_bind, simp only: observing_simps, rule agrees_exists,
        simp only: root, rule agrees_if, rule agrees_return, rule agrees_bind, rule agrees_remove,
        rule captured[unfolded Let_def])
qed (auto simp: take_baseline_def intro!: transparent)

lemma agrees_collect [transparent]:
  "verify_run env = None \<Longrightarrow> agrees (collect_run cfg (observing external env) a baseline attempt started result j st)
     (collect_run cfg env a baseline attempt started result j (unwatch st))"
  by (auto simp: collect_run_def tools_beside_def intro!: transparent split: option.splits prod.splits)

lemma agrees_conclude [transparent]:
  "agrees (conclude_run cfg (observing external env) owner j c st) (conclude_run cfg env owner j c (unwatch st))"
  by (auto simp: conclude_run_def Let_def intro!: transparent split: sum.splits)

lemma agrees_body [transparent]:
  "verify_run env = None \<Longrightarrow> agrees (run_body cfg (observing external env) a started deadline j st) (run_body cfg env a started deadline j (unwatch st))"
  unfolding run_body_def by (intro transparent) (auto intro!: transparent split: prod.splits)

lemma agrees_settle [transparent]:
  "agrees (settle_failure cfg (observing external env) a error st) (settle_failure cfg env a error (unwatch st))"
  by (auto simp: settle_failure_def intro!: transparent)

lemma agrees_roots [transparent]:
  "agrees (remove_roots (observing external env) paths st) (remove_roots env paths (unwatch st))"
  by (induction paths arbitrary: st) (auto intro!: transparent)

lemma agrees_finish [transparent]:
  "agrees (finish_run (observing external env) st) (finish_run env (unwatch st))"
  by (auto simp: finish_run_def intro!: transparent)

lemma agrees_guarded:
  assumes "verify_run env = None"
  shows "agrees (run_guarded cfg (observing external env) a started deadline j st)
     (run_guarded cfg env a started deadline j (unwatch st))"
proof -
  obtain r u where u: "run_body cfg (observing external env) a started deadline j st = (r, u)" by fastforce
  then have plain: "run_body cfg env a started deadline j (unwatch st) = (r, unwatch u)"
    using agrees_body[OF assms, of cfg external a started deadline j st] by (simp add: agrees_def)
  show ?thesis
  proof (cases r)
    case (Inl error)
    then show ?thesis using u plain
      by (cases error) (simp_all add: run_guarded_def agrees_settle, simp add: agrees_def)
  qed (simp add: run_guarded_def u plain agrees_def)
qed

lemma agrees_run:
  assumes "verify_run env = None"
  shows "agrees (run_job cfg (observing external env) a st) (run_job cfg env a (unwatch st))"
proof -
  have ended: "agrees
      (case run_guarded cfg (observing external env) a started deadline j u of (r, u) \<Rightarrow>
         (case finish_run (observing external env) u of (Inl e, u) \<Rightarrow> (Inl e, u) | (Inr _, u) \<Rightarrow> (r, u)))
      (case run_guarded cfg env a started deadline j (unwatch u) of (r, u) \<Rightarrow>
         (case finish_run env u of (Inl e, u) \<Rightarrow> (Inl e, u) | (Inr _, u) \<Rightarrow> (r, u)))" for started deadline j u
  proof -
    obtain r v where v: "run_guarded cfg (observing external env) a started deadline j u = (r, v)" by fastforce
    obtain q w where w: "finish_run (observing external env) v = (q, w)" by fastforce
    have "run_guarded cfg env a started deadline j (unwatch u) = (r, unwatch v)"
      using agrees_guarded[OF assms, of cfg external a started deadline j u] v by (simp add: agrees_def)
    moreover have "finish_run env (unwatch v) = (q, unwatch w)"
      using agrees_finish[of external env v] w by (simp add: agrees_def)
    ultimately show ?thesis using v w by (cases q) (simp_all add: agrees_def)
  qed
  have missing: "verified_source_missing (observing external env) a j = verified_source_missing env a j" for j
    by (simp add: verified_source_missing_def assms)
  show ?thesis
    unfolding run_job_def Let_def missing
    by (intro agrees_bind agrees_look agrees_option agrees_return agrees_if agrees_move)
      (use ended in simp)
qed

lemma look_up_found: "\<exists>found. look_up env jid owner st = (Inr found, elsewhere env st)"
  by (cases st) (simp add: look_up_def store_call_def Let_def)

lemma signals_valid: "timeout_signal \<noteq> Inl code" "terminal_signal \<noteq> Inl code"
proof -
  have "\<not> isl timeout_signal" "\<not> isl terminal_signal" by code_simp+
  then show "timeout_signal \<noteq> Inl code" "terminal_signal \<noteq> Inl code" by (metis isl_def)+
qed

lemma record_result_Inr: "\<exists>br'. record_result bc observed j br = (Inr j, br')"
  using signals_valid by (auto simp: record_result_def split: option.splits sum.splits)

definition world_of :: "'e engine \<Rightarrow> 'e \<times> job_store" where
  "world_of st = (en_env st, en_store st)"

lemma world_unwatch: "(fst (en_env st), en_store st) = world_of (unwatch st)"
  by (simp add: world_of_def)

text \<open>C33. The bridge is transparent. A run through the bridge returns the job that an orchestrator
  without a runner verifier returns, or raises what it raises, with the same environment and store
  afterwards; the only difference is a look at the job before the run, and another one after it
  when it raised. The bridge itself never raises but for a missing job.\<close>

theorem bridge_is_transparent:
  "\<exists>found st. look_up env (ra_job_id a) (ra_owner_id a) (engine_of e s (bc_lease bc)) = (Inr found, st)
     \<and> (case found of
          None \<Rightarrow> bridge_run_job cfg env bc a (e, s) br = (Inl (RunStore JobNotFound), world_of st, br)
        | Some j \<Rightarrow> \<exists>br'. bridge_run_job cfg env bc a (e, s) br
            = (case run_job cfg (env\<lparr>verify_run := None\<rparr>) (unsourced a) st of
                 (Inr j, st) \<Rightarrow> (Inr j, world_of st, br')
               | (Inl error, st) \<Rightarrow> (Inl error, world_of (elsewhere env st), br')))"
proof -
  let ?watched = "observing (bc_external bc) env" and ?st = "engine_of (e, None) s (bc_lease bc)"
  have start: "unwatch ?st = engine_of e s (bc_lease bc)" by (simp add: unwatch_def engine_of_def)
  have same: "observing (bc_external bc) (env\<lparr>verify_run := None\<rparr>) = ?watched" by (simp add: observing_def)
  obtain found where look: "look_up ?watched (ra_job_id a) (ra_owner_id a) ?st = (Inr found, elsewhere ?watched ?st)"
    using look_up_found by blast
  define u where "u = elsewhere ?watched ?st"
  have plain: "look_up env (ra_job_id a) (ra_owner_id a) (engine_of e s (bc_lease bc)) = (Inr found, unwatch u)"
    using agrees_look[of "bc_external bc" env "ra_job_id a" "ra_owner_id a" ?st] look
    by (simp add: agrees_def start u_def)
  obtain r v where v: "run_job cfg ?watched (unsourced a) u = (r, v)" by fastforce
  have inner: "run_job cfg (env\<lparr>verify_run := None\<rparr>) (unsourced a) (unwatch u) = (r, unwatch v)"
    using agrees_run[of "env\<lparr>verify_run := None\<rparr>" cfg "bc_external bc" "unsourced a" u] v
    by (simp add: agrees_def same)
  obtain latest where last: "look_up ?watched (ra_job_id a) (ra_owner_id a) v = (Inr latest, elsewhere ?watched v)"
    using look_up_found by blast
  have "\<exists>br'. bridge_run_job cfg env bc a (e, s) br
        = (case r of Inr j \<Rightarrow> (Inr j, world_of (unwatch v), br')
           | Inl error \<Rightarrow> (Inl error, world_of (elsewhere env (unwatch v)), br'))" if "found = Some j" for j
  proof (cases r)
    case (Inr k)
    obtain br' where "record_result bc (snd (en_env v)) k (br\<lparr>br_last := None, br_unavailable := False\<rparr>) = (Inr k, br')"
      using record_result_Inr by blast
    then show ?thesis using that look v Inr
      by (simp add: bridge_run_job_def Let_def u_def world_unwatch)
  next
    case (Inl error)
    then show ?thesis using that look v last
      by (simp add: bridge_run_job_def Let_def u_def world_unwatch agrees_elsewhere[of env v "bc_external bc"])
  qed
  moreover have "bridge_run_job cfg env bc a (e, s) br = (Inl (RunStore JobNotFound), world_of (unwatch u), br)" if "found = None"
    using that look by (simp add: bridge_run_job_def Let_def u_def world_unwatch)
  ultimately show ?thesis using plain inner by (cases found; cases r) auto
qed

subsection \<open>What a run adds to the history\<close>

lemma decide_appends:
  assumes "controller_decide sha fr memory_ops budgets h signal c resource = (r, h')"
  shows "(isl r \<longrightarrow> mem_entries h' = mem_entries h)
    \<and> (\<forall>d. r = Inr d \<longrightarrow> binding_matches d c
        \<and> (\<exists>entry. mem_entries h' = (mem_entries h)(rd_owner_id d := mem_entries h (rd_owner_id d) @ [entry])))"
proof (cases "decision_for sha fr budgets signal c resource (mem_entries h (rc_owner_id c))")
  case (Inr d)
  obtain q t where app: "h_append_decision memory_ops h d (fs_failed_checks signal) = (q, t)" by fastforce
  have matches: "binding_matches d c" using Inr by (rule decision_for_Inr)
  show ?thesis
    using memory.decision_law[OF TrueI TrueI app] assms matches
    by (cases "spec_append (mem_entries h) d None (fs_failed_checks signal)")
      (auto simp: controller_decide_def memory.list_law spec_after_def Inr app)
qed (use assms in \<open>auto simp: controller_decide_def memory.list_law\<close>)

text \<open>What is recorded of a failure of \<open>job\<close>: one decision for this job, this attempt and this lease, or
  the mark that none could be made.\<close>

definition recorded :: "job_lease option \<Rightarrow> job \<Rightarrow> memory_history bridge \<Rightarrow> memory_history bridge \<Rightarrow> bool" where
  "recorded lease job br br' \<longleftrightarrow>
     (if br_unavailable br' then br_last br' = None \<and> mem_entries (br_history br') = mem_entries (br_history br)
      else \<exists>d entry. br_last br' = Some d \<and> rd_owner_id d = job_owner_id job \<and> rd_task_id d = job_id job
        \<and> rd_execution_id d = Some (job_id job) \<and> rd_plan_digest d = job_proposal_digest job
        \<and> rd_attempt d = (case lease of Some l \<Rightarrow> lease_generation l | None \<Rightarrow> 1)
        \<and> mem_entries (br_history br')
            = (mem_entries (br_history br))(job_owner_id job := mem_entries (br_history br) (job_owner_id job) @ [entry]))"

definition within_recovery_budgets :: "recovery_budgets \<Rightarrow> memory_history bridge \<Rightarrow> bool" where
  "within_recovery_budgets budgets br \<longleftrightarrow> (\<forall>owner. budgets_kept budgets (mem_entries (br_history br) owner))"

lemma record_signal_recorded:
  assumes "bc_ops bc = memory_ops" and "\<not> br_unavailable br"
  shows "recorded (bc_lease bc) job br (record_signal bc signal job br)"
proof (cases "bridge_context (bc_lease bc) job")
  case (Inr c)
  then have c: "rc_owner_id c = job_owner_id job" "rc_task_id c = job_id job" "rc_execution_id c = Some (job_id job)"
    "rc_plan_digest c = job_proposal_digest job"
    "rc_attempt c = (case bc_lease bc of Some l \<Rightarrow> lease_generation l | None \<Rightarrow> 1)"
    by (auto simp: bridge_context_def recovery_context_init_def validated_Inr)
  obtain r h where r: "controller_decide (bc_sha bc) (bc_fr bc) memory_ops (bc_budgets bc) (br_history br) signal c None = (r, h)"
    by fastforce
  show ?thesis
    using decide_appends[OF r] Inr r assms c by (cases r) (auto simp: record_signal_def recorded_def binding_matches_def)
qed (simp add: record_signal_def recorded_def)

lemma record_error_recorded:
  assumes "bc_ops bc = memory_ops" and "\<not> br_unavailable br"
  shows "recorded (bc_lease bc) job br (record_error bc view job br)"
  by (cases "signal_from_exception view")
    (simp_all add: record_error_def record_signal_recorded[OF assms], simp add: recorded_def)

lemma record_signal_budgets:
  assumes "bc_ops bc = memory_ops" and "within_recovery_budgets (bc_budgets bc) br"
  shows "within_recovery_budgets (bc_budgets bc) (record_signal bc signal job br)"
proof (cases "bridge_context (bc_lease bc) job")
  case (Inr c)
  obtain r h where r: "controller_decide (bc_sha bc) (bc_fr bc) memory_ops (bc_budgets bc) (br_history br) signal c None = (r, h)"
    by fastforce
  have "\<forall>owner. budgets_kept (bc_budgets bc) (mem_entries
      (controller_step (bc_sha bc) (bc_fr bc) (bc_budgets bc) (br_history br) (DecideOp signal c None)) owner)"
    by (rule recovery_machine.inv_step) (use assms(2) in \<open>simp_all add: within_recovery_budgets_def\<close>)
  then have "\<forall>owner. budgets_kept (bc_budgets bc) (mem_entries h owner)" by (simp add: r)
  then show ?thesis using Inr r assms(1) by (cases r) (simp_all add: record_signal_def within_recovery_budgets_def)
qed (use assms(2) in \<open>simp add: record_signal_def within_recovery_budgets_def\<close>)

lemma record_error_budgets:
  assumes "bc_ops bc = memory_ops" and "within_recovery_budgets (bc_budgets bc) br"
  shows "within_recovery_budgets (bc_budgets bc) (record_error bc view job br)"
  using record_signal_budgets[OF assms] assms(2)
  by (auto simp: record_error_def within_recovery_budgets_def split: sum.splits)

lemma record_result_recorded:
  assumes "record_result bc observed j br = (r, br')" and "bc_ops bc = memory_ops" and "\<not> br_unavailable br"
    and "within_recovery_budgets (bc_budgets bc) br"
  shows "(if job_state j \<in> {TIMED_OUT, FAILED} then recorded (bc_lease bc) j br br' else br' = br)
    \<and> within_recovery_budgets (bc_budgets bc) br'"
  using assms signals_valid record_error_recorded[OF assms(2,3)] record_signal_recorded[OF assms(2,3)]
    record_error_budgets[OF assms(2,4)] record_signal_budgets[OF assms(2,4)]
  by (auto simp: record_result_def split: option.splits sum.splits if_splits)


definition broken_env :: "unit run_env" where
  "broken_env = demo_env\<lparr>agent_run := (\<lambda>_ es. (Inl RunExternal, es))\<rparr>"

definition demo_bridge :: "(memory_history, unit) bridge_config" where
  "demo_bridge = \<lparr>bc_sha = demo_hash, bc_fr = (\<lambda>_. []), bc_ops = memory_ops, bc_budgets = default_budgets, bc_lease = None,
     bc_external = (\<lambda>_. \<lparr>xv_code = Some ''agent_round_limit'', xv_type_name = ''AgentLimitError'', xv_is_timeout = False\<rparr>)\<rparr>"

definition fresh_bridge :: "memory_history bridge" where
  "fresh_bridge = \<lparr>br_history = [], br_last = None, br_unavailable = False\<rparr>"

definition broken_run :: "(run_failure + job) \<times> (unit \<times> job_store) \<times> memory_history bridge" where
  "broken_run = bridge_run_job demo_config broken_env demo_bridge demo_arguments ((), demo_run [demo_create]) fresh_bridge"

lemma broken_run_fails:
  "(case broken_run of (Inr j, _, br) \<Rightarrow> job_state j = FAILED \<and> \<not> br_unavailable br | _ \<Rightarrow> False)"
  by code_simp


end
