(* ===== verification/WorkspaceTools.thy ===== *)
theory WorkspaceTools
  imports TextDecoding PatchTools AgentLoop
begin

section \<open>The tools of the agent\<close>

text \<open>
  \<open>WorkspaceTools.execute\<close> of \<open>core/lil_tweak/openai_agent.py\<close> and what it dispatches to besides
  \<open>_apply_patch\<close>: listing and reading files of the workspace, and running a command. The sandboxes
  of the repository have no file tools of their own, so the files are read from the workspace.
  What a symbolic link resolves to is a parameter. A \<open>ValueError\<close> and a \<open>TypeError\<close> are both
  \<open>ShopValueError\<close>, because \<open>CodeEngineer.run\<close> answers them in the same way.
\<close>

subsection \<open>Paths\<close>

fun tree_at :: "fs \<Rightarrow> string list \<Rightarrow> fs option" where
  "tree_at t [] = Some t"
| "tree_at (FsDir es) (c # p) = (case map_of es c of None \<Rightarrow> None | Some t \<Rightarrow> tree_at t p)"
| "tree_at _ (c # p) = None"

text \<open>\<open>links path rest\<close> is what the operating system resolves \<open>rest\<close> to behind the symbolic link at \<open>path\<close>:
  a path of the workspace without links, a path elsewhere, or an error.\<close>

datatype link_end = Within "string list" | Elsewhere | LinkError

type_synonym links = "string list \<Rightarrow> string list \<Rightarrow> link_end"

fun resolve_from :: "links \<Rightarrow> bool \<Rightarrow> fs \<Rightarrow> string list \<Rightarrow> string list \<Rightarrow> shop_failure + link_end" where
  "resolve_from links strict tree cur [] = Inr (Within cur)"
| "resolve_from links strict tree cur (c # cs) =
     (case tree_at tree (cur @ [c]) of
        None \<Rightarrow> if strict then Inl NotFound else Inr (Within (cur @ c # cs))
      | Some FsSymlink \<Rightarrow>
          (case links (cur @ [c]) cs of
             Within p \<Rightarrow> if strict \<and> tree_at tree p = None then Inl NotFound else Inr (Within p)
           | Elsewhere \<Rightarrow> Inr Elsewhere
           | LinkError \<Rightarrow> Inl SystemError)
      | Some _ \<Rightarrow> resolve_from links strict tree (cur @ [c]) cs)"

definition tool_path_parts :: "string \<Rightarrow> string list option" where
  "tool_path_parts raw =
     (if raw = [] \<or> CHR 0x00 \<in> set raw \<or> CHR 0x5C \<in> set raw \<or> starts_with ''/'' raw then None
      else
        let parts = posix_parts raw
        in if ''..'' \<in> set parts \<or> list_ex sensitive_workspace_component parts then None else Some parts)"

definition workspace_tree :: "'e tools_config \<Rightarrow> work_root \<Rightarrow> shop_failure + fs" where
  "workspace_tree cfg d = (case dget (wr_nodes d) (tc_name cfg) of None \<Rightarrow> Inl NotFound | Some n \<Rightarrow> Inr (node_fs n))"

definition tool_path :: "'e tools_config \<Rightarrow> links \<Rightarrow> bool \<Rightarrow> string \<Rightarrow> 'e workshop \<Rightarrow> (string list, 'e) tool_outcome" where
  "tool_path cfg links strict raw st =
     (case tool_path_parts raw of
        None \<Rightarrow> (Inl ShopValueError, st)
      | Some parts \<Rightarrow>
          bind_op (look cfg (\<lambda>d. case workspace_tree cfg d of Inl e \<Rightarrow> Inl e
              | Inr tree \<Rightarrow> resolve_from links strict tree [] parts) st) (\<lambda>r st.
            case r of Within p \<Rightarrow> (Inr p, st) | _ \<Rightarrow> (Inl ShopValueError, st)))"

subsection \<open>Listing and reading\<close>

function entries_below :: "string list \<Rightarrow> (string \<times> fs) list \<Rightarrow> (string list \<times> fs) list" where
  "entries_below p [] = []"
| "entries_below p ((n, t) # es) =
     (p @ [n], t) # (case t of FsDir sub \<Rightarrow> entries_below (p @ [n]) sub | _ \<Rightarrow> []) @ entries_below p es"
  by pat_completeness auto
termination by (relation "measure (\<lambda>(p, es). size (FsDir es))") auto

text \<open>The loop over the sorted entries, which stops at the limit.\<close>

fun collect_paths :: "int \<Rightarrow> string list \<Rightarrow> (string list \<times> fs) list \<Rightarrow> string list" where
  "collect_paths limit paths [] = paths"
| "collect_paths limit paths ((p, t) # rest) =
     (if list_ex sensitive_workspace_component p then collect_paths limit paths rest
      else case t of
        FsFile links data \<Rightarrow>
          let paths = paths @ [join ''/'' p]
          in if limit \<le> int (length paths) then paths else collect_paths limit paths rest
      | _ \<Rightarrow> collect_paths limit paths rest)"

datatype tool_result = Listing "string list" bool | Content string bool | Ran command_result | Patched patch_reply

definition entry_limit :: "pydict \<Rightarrow> int option" where
  "entry_limit d =
     (case dget d ''max_entries'' of
        None \<Rightarrow> Some 1000
      | Some (PInt n) \<Rightarrow> Some n
      | Some (PBool b) \<Rightarrow> Some (of_bool b)
      | Some _ \<Rightarrow> None)"

definition list_files :: "'e tools_config \<Rightarrow> links \<Rightarrow> pydict \<Rightarrow> 'e workshop \<Rightarrow> (tool_result, 'e) tool_outcome" where
  "list_files cfg links d st =
     (let raw = (case dget d ''path'' of Some (PStr s) \<Rightarrow> if s = [] then ''.'' else s | _ \<Rightarrow> ''.'')
      in bind_op (if raw \<noteq> ''.'' then bind_op (tool_path cfg links False raw st) (\<lambda>_ st. (Inr (), st)) else (Inr (), st))
        (\<lambda>_ st.
        case entry_limit d of
          None \<Rightarrow> (Inl ShopValueError, st)
        | Some limit \<Rightarrow>
            bind_op (if raw \<noteq> ''.'' then tool_path cfg links True raw st else (Inr [], st)) (\<lambda>base st.
              look cfg (\<lambda>disk. case workspace_tree cfg disk of
                  Inr tree \<Rightarrow>
                    (case tree_at tree base of
                       Some (FsDir es) \<Rightarrow>
                         let paths = collect_paths limit [] (sort_key fst (entries_below base es))
                         in Inr (Listing paths (int (length paths) = limit))
                     | _ \<Rightarrow> Inl ShopValueError)
                | Inl e \<Rightarrow> Inl ShopValueError) st)))"

definition read_file :: "'e tools_config \<Rightarrow> links \<Rightarrow> string \<Rightarrow> 'e workshop \<Rightarrow> (tool_result, 'e) tool_outcome" where
  "read_file cfg links raw st =
     bind_op (tool_path cfg links True raw st) (\<lambda>p st.
       look cfg (\<lambda>disk. case workspace_tree cfg disk of
           Inr tree \<Rightarrow>
             (case tree_at tree p of
                Some (FsFile n data) \<Rightarrow>
                  let bytes = take (nat (tc_max_read_bytes cfg)) data
                  in Inr (Content (decode_replace bytes) (tc_max_read_bytes cfg < int (length data)))
              | _ \<Rightarrow> Inl ShopValueError)
         | Inl e \<Rightarrow> Inl ShopValueError) st)"

subsection \<open>Commands and the dispatch\<close>

definition strings_of :: "pyval option \<Rightarrow> string list" where
  "strings_of v = (case v of Some (PList vs) \<Rightarrow> map (\<lambda>v. case v of PStr s \<Rightarrow> s | _ \<Rightarrow> []) vs | _ \<Rightarrow> [])"

fun sandbox_failure :: "tool_failure \<Rightarrow> shop_failure" where
  "sandbox_failure InvalidArguments = ShopValueError"
| "sandbox_failure ToolFailed = SandboxError"
| "sandbox_failure (ToolRecovery code) = RecoveryNeeded code"

definition run_command :: "'e tools_config \<Rightarrow> pydict \<Rightarrow> 'e workshop \<Rightarrow> (tool_result, 'e) tool_outcome" where
  "run_command cfg d st =
     (case tc_sandbox cfg of None \<Rightarrow> (Inl ShopValueError, st)
      | Some box \<Rightarrow>
        let command = strings_of (dget d ''command'') in
        case admit_observation cfg st of
          (False, st) \<Rightarrow>
            (case observation_capacity_result cfg ''run_command'' command st of (result, st) \<Rightarrow> (Inr (Ran result), st))
        | (True, st) \<Rightarrow>
            (case sb_run box command (case dget d ''timeout'' of Some v \<Rightarrow> v | None \<Rightarrow> PNone) (ws_env st) of
               (Inl e, env) \<Rightarrow> (Inl (sandbox_failure e), st\<lparr>ws_env := env\<rparr>)
             | (Inr result, env) \<Rightarrow>
                 (Inr (Ran result), record_observation cfg ''run_command'' command result (st\<lparr>ws_env := env\<rparr>))))"

definition execute :: "'e tools_config \<Rightarrow> links \<Rightarrow> string \<Rightarrow> pydict \<Rightarrow> 'e workshop \<Rightarrow> (tool_result, 'e) tool_outcome" where
  "execute cfg links tool d st =
     (let text = (\<lambda>k. case dget d k of Some (PStr s) \<Rightarrow> s | _ \<Rightarrow> [])
      in if tool = ''list_files'' then list_files cfg links d st
      else if tool = ''read_file'' then read_file cfg links (text ''path'') st
      else if tool = ''run_command'' then run_command cfg d st
      else if tool = ''apply_patch''
      then bind_op (apply_patch cfg (text ''patch'') st) (\<lambda>reply st. (Inr (Patched reply), st))
      else (Inl ShopValueError, st))"

end
