(* ===== verification/WorkspaceToolsProps.thy ===== *)
theory WorkspaceToolsProps
  imports WorkspaceTools ArchiveProps
begin

section \<open>What the file tools promise\<close>

text \<open>
  What \<open>list_files\<close> lists can be read, and the one argument that the schema of the tools allows and
  \<open>execute\<close> does not.
\<close>

subsection \<open>Paths in a tree\<close>

lemma tree_at_append:
  "tree_at t (p @ q) = (case tree_at t p of None \<Rightarrow> None | Some u \<Rightarrow> tree_at u q)"
  by (induction t p rule: tree_at.induct) (auto split: option.splits)

lemma resolve_plain:
  "tree_at tree (cur @ p) = Some (FsFile n data) \<Longrightarrow> resolve_from links strict tree cur p = Inr (Within (cur @ p))"
proof (induction p arbitrary: cur)
  case (Cons c cs)
  obtain t where t: "tree_at tree (cur @ [c]) = Some t" "tree_at t cs = Some (FsFile n data)"
    using Cons.prems tree_at_append[of tree "cur @ [c]" cs] by (auto split: option.splits)
  have "t \<noteq> FsSymlink" using t(2) by (cases cs) auto
  then show ?case using Cons t(1) by (cases t) simp_all
qed simp

text \<open>Trees as the operating system has them, with names that a tool can write.\<close>

definition name_ok :: "string \<Rightarrow> bool" where
  "name_ok n \<longleftrightarrow> n \<noteq> [] \<and> n \<noteq> ''.'' \<and> n \<noteq> ''..'' \<and> CHR ''/'' \<notin> set n \<and> CHR 0x00 \<notin> set n \<and> CHR 0x5C \<notin> set n"

function proper_entries :: "(string \<times> fs) list \<Rightarrow> bool" where
  "proper_entries [] = True"
| "proper_entries ((n, t) # es) =
     (name_ok n \<and> n \<notin> fst ` set es \<and> (case t of FsDir sub \<Rightarrow> proper_entries sub | _ \<Rightarrow> True) \<and> proper_entries es)"
  by pat_completeness auto
termination by (relation "measure (\<lambda>es. size (FsDir es))") auto

lemma proper_member:
  "proper_entries es \<Longrightarrow> map_of es n = Some t \<Longrightarrow> name_ok n \<and> (\<forall>sub. t = FsDir sub \<longrightarrow> proper_entries sub)"
  by (induction es) (auto split: if_splits)

lemma proper_path:
  "tree_at (FsDir es) q = Some t \<Longrightarrow> proper_entries es
     \<Longrightarrow> list_all name_ok q \<and> (\<forall>sub. t = FsDir sub \<longrightarrow> proper_entries sub)"
proof (induction q arbitrary: es)
  case (Cons c q)
  obtain u where u: "map_of es c = Some u" "tree_at u q = Some t" using Cons.prems by (auto split: option.splits)
  note ok = proper_member[OF Cons.prems(2) u(1)]
  show ?case
  proof (cases u)
    case (FsDir sub)
    then show ?thesis using Cons.IH[of sub] u ok by simp
  qed (use u ok in \<open>cases q; auto\<close>)+
qed auto

lemma entries_below_at:
  "proper_entries es \<Longrightarrow> (q, t) \<in> set (entries_below p es) \<Longrightarrow> \<exists>r. q = p @ r \<and> r \<noteq> [] \<and> tree_at (FsDir es) r = Some t"
proof (induction p es arbitrary: q rule: entries_below.induct)
  case (2 p n u es)
  consider "q = p @ [n]" "t = u" | sub where "u = FsDir sub" "(q, t) \<in> set (entries_below (p @ [n]) sub)"
    | "(q, t) \<in> set (entries_below p es)"
    using 2(4) by (auto split: fs.splits)
  then show ?case
  proof cases
    case 1
    then show ?thesis by (intro exI[of _ "[n]"]) simp
  next
    case (2 sub)
    then obtain r where "q = (p @ [n]) @ r" "r \<noteq> []" "tree_at (FsDir sub) r = Some t"
      using "2.IH"(1)[of sub q] "2.prems"(1) by auto
    then show ?thesis using 2(1) by (intro exI[of _ "n # r"]) simp
  next
    case 3
    then obtain r where r: "q = p @ r" "r \<noteq> []" "tree_at (FsDir es) r = Some t"
      using "2.IH"(2)[of q] "2.prems"(1) by auto
    obtain c s where c: "r = c # s" using r(2) by (cases r) simp_all
    have "map_of es c \<noteq> None" using r(3) c by (auto split: option.splits)
    then have "c \<noteq> n" using "2.prems"(1) by (auto simp: map_of_eq_None_iff)
    then show ?thesis using r c by (intro exI[of _ r]) simp
  qed
qed simp

lemma collect_paths_from:
  "p \<in> set (collect_paths limit paths es) \<Longrightarrow> p \<in> set paths
     \<or> (\<exists>q n data. p = join ''/'' q \<and> (q, FsFile n data) \<in> set es \<and> \<not> list_ex sensitive_workspace_component q)"
  by (induction limit paths es rule: collect_paths.induct) (fastforce simp: Let_def split: fs.splits if_splits)+

lemma collect_paths_length:
  "int (length paths) < limit \<Longrightarrow> int (length (collect_paths limit paths es)) \<le> limit"
  by (induction limit paths es rule: collect_paths.induct) (auto simp: Let_def split: fs.splits)

lemma tool_path_parts_join:
  assumes "q \<noteq> []" and "list_all name_ok q" and "\<not> list_ex sensitive_workspace_component q"
  shows "tool_path_parts (join ''/'' q) = Some q"
proof -
  have ok: "\<forall>c \<in> set q. name_ok c" using assms(2) by (simp add: list_all_iff)
  have parts: "posix_parts (join ''/'' q) = q"
    using posix_parts_join[of q] assms(1) ok by (auto simp: as_posix_def name_ok_def)
  have chars: "set (join ''/'' xs) \<subseteq> insert (CHR ''/'') (\<Union> (set ` set xs))" for xs
    by (induction "''/''" xs rule: join.induct) auto
  have "CHR 0x00 \<notin> set (join ''/'' q)" "CHR 0x5C \<notin> set (join ''/'' q)"
    using chars[of q] ok by (auto simp: name_ok_def dest!: subsetD)
  moreover obtain c cs where q: "q = c # cs" using assms(1) by (cases q) simp_all
  moreover have "\<not> starts_with ''/'' (join ''/'' q) \<and> join ''/'' q \<noteq> []"
  proof -
    obtain x s where c: "c = x # s" "x \<noteq> CHR ''/''" using ok q by (cases c) (auto simp: name_ok_def)
    have "\<exists>tail. join ''/'' q = x # tail" using q c(1) by (cases cs) simp_all
    then show ?thesis using c(2) by (auto simp: starts_with_def)
  qed
  ultimately show ?thesis using parts ok assms(3) by (auto simp: tool_path_parts_def Let_def name_ok_def)
qed

subsection \<open>Listing and reading\<close>

definition no_faults :: "'e tools_config \<Rightarrow> bool" where
  "no_faults cfg \<longleftrightarrow> (\<forall>n. dc_fault cfg n = Works)"

lemma calm_tool_look: "no_faults cfg \<Longrightarrow> look cfg f st = (f (sh_disk st), tick st)"
  by (simp add: look_def no_faults_def)

lemma tool_path_disk:
  "no_faults cfg \<Longrightarrow> tool_path cfg links strict raw st = (r, s) \<Longrightarrow> sh_disk s = sh_disk st"
  by (auto simp: tool_path_def bind_op_def calm_tool_look tick_def split: option.splits sum.splits link_end.splits)

lemma list_files_Inr:
  assumes "list_files cfg links d st = (Inr (Listing paths short), s)" and "no_faults cfg"
    and "workspace_tree cfg (sh_disk st) = Inr tree"
  obtains base sub limit where "tree_at tree base = Some (FsDir sub)" and "entry_limit d = Some limit"
    and "paths = collect_paths limit [] (sort_key fst (entries_below base sub))"
    and "short \<longleftrightarrow> int (length paths) = limit" and "sh_disk s = sh_disk st"
proof -
  define raw where "raw = (case dget d ''path'' of Some (PStr s) \<Rightarrow> if s = [] then ''.'' else s | _ \<Rightarrow> ''.'')"
  obtain u where u: "(if raw \<noteq> ''.'' then bind_op (tool_path cfg links False raw st) (\<lambda>_ st. (Inr (), st)) else (Inr (), st)) = (Inr (), u)"
    and rest: "(case entry_limit d of
          None \<Rightarrow> (Inl ShopValueError, u)
        | Some limit \<Rightarrow>
            bind_op (if raw \<noteq> ''.'' then tool_path cfg links True raw u else (Inr [], u)) (\<lambda>base st.
              look cfg (\<lambda>disk. case workspace_tree cfg disk of
                  Inr tree \<Rightarrow>
                    (case tree_at tree base of
                       Some (FsDir es) \<Rightarrow>
                         let paths = collect_paths limit [] (sort_key fst (entries_below base es))
                         in Inr (Listing paths (int (length paths) = limit))
                     | _ \<Rightarrow> Inl ShopValueError)
                | Inl e \<Rightarrow> Inl ShopValueError) st)) = (Inr (Listing paths short), s)"
    using assms(1) unfolding list_files_def raw_def[symmetric] Let_def by (auto dest!: bind_op_Inr)
  have disk: "sh_disk u = sh_disk st"
    using u tool_path_disk[OF assms(2)] by (auto split: if_splits dest!: bind_op_Inr)
  obtain limit where limit: "entry_limit d = Some limit" using rest by (cases "entry_limit d") simp_all
  obtain base v where v: "(if raw \<noteq> ''.'' then tool_path cfg links True raw u else (Inr [], u)) = (Inr base, v)"
    using rest limit by (auto dest!: bind_op_Inr)
  have disk': "sh_disk v = sh_disk st"
    using v disk tool_path_disk[OF assms(2)] by (auto split: if_splits)
  note found = rest[unfolded limit option.case v bind_op_simps calm_tool_look[OF assms(2)] disk' assms(3) sum.case]
  obtain sub where "tree_at tree base = Some (FsDir sub)"
    using found by (auto split: option.splits fs.splits)
  then show thesis using found limit disk' that[of base sub limit] by (auto simp: Let_def tick_def)
qed

lemma read_file_plain:
  assumes "no_faults cfg" and "workspace_tree cfg (sh_disk s) = Inr tree" and "tool_path_parts raw = Some q"
    and "tree_at tree q = Some (FsFile n data)"
  shows "\<exists>t. read_file cfg links raw s
    = (Inr (Content (decode_replace (take (nat (tc_max_read_bytes cfg)) data)) (tc_max_read_bytes cfg < int (length data))), t)"
  using assms resolve_plain[of tree "[]" q n data links True]
  by (simp add: read_file_def tool_path_def calm_tool_look bind_op_def tick_def Let_def)

text \<open>C39. What \<open>list_files\<close> lists is there and can be read. Without faults, for every path of a listing
  there is a regular file of the workspace at that path (names with a backslash aside), no component of the path is sensitive,
  and \<open>read_file\<close> on the path returns the beginning of this file; the listing keeps to its limit.\<close>

theorem listed_files_are_readable:
  assumes "execute cfg links ''list_files'' d st = (Inr (Listing paths short), s)" and "no_faults cfg"
    and "dget (wr_nodes (sh_disk st)) (tc_name cfg) = Some (WDir m es)" and "proper_entries es" and "p \<in> set paths"
  shows "\<exists>q n data t limit. p = join ''/'' q \<and> tree_at (FsDir es) q = Some (FsFile n data)
    \<and> \<not> list_ex sensitive_workspace_component q
    \<and> entry_limit d = Some limit \<and> (1 \<le> limit \<longrightarrow> int (length paths) \<le> limit)
    \<and> execute cfg links ''read_file'' [(''path'', PStr p)] s
        = (Inr (Content (decode_replace (take (nat (tc_max_read_bytes cfg)) data)) (tc_max_read_bytes cfg < int (length data))), t)"
proof -
  have tree: "workspace_tree cfg (sh_disk st) = Inr (FsDir es)"
    using assms(3) by (simp add: workspace_tree_def)
  have "list_files cfg links d st = (Inr (Listing paths short), s)" using assms(1) by (simp add: execute_def)
  then obtain base sub limit where base: "tree_at (FsDir es) base = Some (FsDir sub)" and limit: "entry_limit d = Some limit"
    and paths: "paths = collect_paths limit [] (sort_key fst (entries_below base sub))" and disk: "sh_disk s = sh_disk st"
    using list_files_Inr assms(2) tree by metis
  have sub: "proper_entries sub" using proper_path[OF base assms(4)] by simp
  obtain q n data where q: "p = join ''/'' q" "(q, FsFile n data) \<in> set (entries_below base sub)"
      "\<not> list_ex sensitive_workspace_component q"
    using collect_paths_from[of p limit "[]" "sort_key fst (entries_below base sub)"] assms(5) by (auto simp: paths)
  obtain r where r: "q = base @ r" "r \<noteq> []" "tree_at (FsDir sub) r = Some (FsFile n data)"
    using entries_below_at[OF sub q(2)] by blast
  have at: "tree_at (FsDir es) q = Some (FsFile n data)" using base r by (simp add: tree_at_append)
  have "list_all name_ok q" using proper_path[OF at assms(4)] by simp
  then have parts: "tool_path_parts p = Some q" using tool_path_parts_join[of q] q(1,3) r(1,2) by simp
  obtain t where "read_file cfg links p s
      = (Inr (Content (decode_replace (take (nat (tc_max_read_bytes cfg)) data)) (tc_max_read_bytes cfg < int (length data))), t)"
    using read_file_plain[OF assms(2) _ parts at, of s links] tree disk by auto
  then have "execute cfg links ''read_file'' [(''path'', PStr p)] s
      = (Inr (Content (decode_replace (take (nat (tc_max_read_bytes cfg)) data)) (tc_max_read_bytes cfg < int (length data))), t)"
    by (simp add: execute_def dget_def)
  moreover have "1 \<le> limit \<longrightarrow> int (length paths) \<le> limit"
    using collect_paths_length[of "[]" limit] by (simp add: paths)
  ultimately show ?thesis using q(1,3) at limit by blast
qed

definition small_config :: "unit tools_config" where
  "small_config = \<lparr>dc_fault = (\<lambda>k. Works), dc_remains = (\<lambda>n es. None), dc_sha = (\<lambda>s. s), dc_fr = (\<lambda>q. []),
     dc_float = (\<lambda>s. PNone), dc_uid = 1000, dc_gid = 1000, dc_inode = int, dc_suffix = (\<lambda>k. ''abcdef12''),
     tc_name = ''job'', tc_sandbox = None, tc_hook = (\<lambda>c d. d), tc_max_read_bytes = 4, tc_max_patch_bytes = 100,
     tc_max_observations = 8, tc_max_observed_output_bytes = 20\<rparr>"

definition small_tree :: "(string \<times> fs) list" where
  "small_tree = [(''src'', FsDir [(''b.py'', FsFile 1 ''text of b''), (''.env'', FsFile 1 ''secret''), (''link'', FsSymlink)]),
     (''a.txt'', FsFile 1 ''text'')]"

definition small_shop :: "unit workshop" where
  "small_shop = the (tools_init small_config () \<lparr>wr_meta = \<lparr>md_dev = 1, md_ino = 1, md_uid = 1000, md_gid = 1000,
      md_nlink = 1, md_mode = 0x1C0\<rparr>,
     wr_nodes = [(''job'', WDir \<lparr>md_dev = 1, md_ino = 2, md_uid = 1000, md_gid = 1000, md_nlink = 1, md_mode = 0x1C0\<rparr>
       small_tree)]\<rparr> 0)"

theorem listed_files_are_readable_witness:
  "\<exists>s. execute small_config (\<lambda>_ _. Elsewhere) ''list_files'' [] small_shop = (Inr (Listing [''a.txt'', ''src/b.py''] False), s)
    \<and> (\<exists>n data t. tree_at (FsDir small_tree) [''src'', ''b.py''] = Some (FsFile n data)
      \<and> execute small_config (\<lambda>_ _. Elsewhere) ''read_file'' [(''path'', PStr ''src/b.py'')] s = (Inr (Content ''text'' True), t))"
proof -
  have "fst (execute small_config (\<lambda>_ _. Elsewhere) ''list_files'' [] small_shop) = Inr (Listing [''a.txt'', ''src/b.py''] False)"
    by code_simp
  then obtain s where s: "execute small_config (\<lambda>_ _. Elsewhere) ''list_files'' [] small_shop
      = (Inr (Listing [''a.txt'', ''src/b.py''] False), s)" by (metis prod.collapse)
  have node: "dget (wr_nodes (sh_disk small_shop)) (tc_name small_config)
      = Some (WDir \<lparr>md_dev = 1, md_ino = 2, md_uid = 1000, md_gid = 1000, md_nlink = 1, md_mode = 0x1C0\<rparr> small_tree)"
    by code_simp
  have proper: "proper_entries small_tree" by code_simp
  obtain q n data t where q: "''src/b.py'' = join ''/'' q" "tree_at (FsDir small_tree) q = Some (FsFile n data)"
    and read: "execute small_config (\<lambda>_ _. Elsewhere) ''read_file'' [(''path'', PStr ''src/b.py'')] s
      = (Inr (Content (decode_replace (take (nat (tc_max_read_bytes small_config)) data))
          (tc_max_read_bytes small_config < int (length data))), t)"
    using listed_files_are_readable[OF s _ node proper, of "''src/b.py''"]
    by (auto simp: no_faults_def small_config_def)
  have "\<forall>c \<in> set q. CHR ''/'' \<notin> set c"
    using proper_path[OF q(2) proper] unfolding list_all_iff name_ok_def by blast
  moreover have "q \<noteq> []" using q(2) by (cases q) simp_all
  ultimately have "split_on (CHR ''/'') (join ''/'' q) = q" by (intro split_on_join)
  moreover have "split_on (CHR ''/'') ''src/b.py'' = [''src'', ''b.py'']" by code_simp
  ultimately have path: "q = [''src'', ''b.py'']" using q(1) by simp
  then have "data = ''text of b''" using q(2) by (simp add: small_tree_def)
  then have "Content (decode_replace (take (nat (tc_max_read_bytes small_config)) data))
      (tc_max_read_bytes small_config < int (length data)) = Content ''text'' True" by (simp add: small_config_def) code_simp
  then show ?thesis using s q(2) read unfolding path by metis
qed

definition null_limit :: pydict where
  "null_limit = [(''path'', PStr ''.''), (''max_entries'', PNone)]"


end
