(* ===== verification/Spec2Isabelle.thy ===== *)
theory Spec2Isabelle
  imports JobStoreProps RecoveryController TestWorldRunner TestWorldScheduler EvidenceProps OrchestratorProps
    AgentLoopProps PromotionProps SigningProps RecoveryBridgeProps
    WorkspaceToolsProps
begin

text \<open>
  This library models the trusted core of lil-tweak (\<open>core/lil_tweak\<close>): the durable state of
  engineering jobs and test worlds, the policies that decide what may happen to them, and the
  intake of untrusted sources. The parts work together as follows. The HTTP API creates jobs in
  the job store; a scheduler claims them under fenced leases and runs the engineering agent on
  the sources that the intake unpacked; the state policy and the owner's approval gate what leaves
  the system; the failure recovery decides about retries; test worlds repeat the agent until the
  judges' checks pass.

  \<^bold>\<open>Theories and code.\<close>
  \<^item> \<open>Prelude\<close>: dictionaries with insertion order (\<open>dget\<close>, \<open>dset\<close>, \<open>dpop\<close>), outcomes (a sum of an
    error and a value, with the new state), state machines and reachability, string helpers.
    \<open>Contracts\<close>: the enumerations of \<open>contracts.py\<close>. \<open>PyValue\<close>, \<open>JsonStrings\<close>, \<open>PyJson\<close>: Python
    values as far as JSON has them, and \<open>json.dumps\<close> with sorted keys.
  \<^item> \<open>StatePolicy\<close>: \<open>state.py\<close>, the legal transitions of a job and its approval gate.
  \<^item> \<open>JobStore\<close>, \<open>JobStoreInv\<close>, \<open>JobStoreMachine\<close>, \<open>JobStoreProps\<close>: \<open>store.py\<close>, every method of
    \<open>InMemoryJobStore\<close>, its invariant, its step relation and what it promises.
  \<^item> \<open>RecoveryContracts\<close>, \<open>RecoveryDigest\<close>, \<open>RecoveryPolicy\<close>, \<open>RecoveryHistory\<close>,
    \<open>RecoveryController\<close>: the package \<open>failure_recovery\<close>: contracts, fingerprints, classifier and
    policy, both history stores, controller.
  \<^item> \<open>TestWorld\<close>, \<open>TestWorldInv\<close>, \<open>TestWorldMachine\<close>, \<open>TestWorldProps\<close>: \<open>test_world.py\<close>, every
    validation and every method of \<open>MemoryTestWorldStore\<close>. \<open>AgentResult\<close>: the result record of
    \<open>openai_agent.py\<close>. \<open>TestWorldRunner\<close>: \<open>test_world_runner.py\<close>. \<open>TestWorldScheduler\<close>:
    \<open>test_world_scheduler.py\<close>.
  \<^item> \<open>Archive\<close>, \<open>ArchiveProps\<close>: \<open>archive.py\<close> and \<open>limits.py\<close>: path contract, inspection and
    extraction of archives, intake of uploaded sources.
  \<^item> \<open>Evidence\<close>, \<open>EvidenceBundle\<close>, \<open>EvidenceCommands\<close>, \<open>EvidenceStore\<close>, \<open>EvidenceProps\<close>:
    \<open>evidence.py\<close>: the capture of a workspace, the patch of two snapshots and the edit journal, the
    log of commands with its redaction, the two evidence stores and the bundle of a run.
  \<^item> \<open>JobScheduler\<close>, \<open>Orchestrator\<close>, \<open>OrchestratorProps\<close>: \<open>orchestrator.py\<close>: admission and the polling
    scheduler as steps over the job store; the engineering run with its error and cleanup paths.
  \<^item> \<open>AgentLoop\<close>, \<open>AgentLoopProps\<close>: \<open>openai_agent.py\<close>, \<open>CodeEngineer.run\<close>: the prompt and the tool
    schemas, the rounds with the model service, the budgets of calls and of the history, the
    answers to tool calls, the parser of the final result. \<open>JsonLoads\<close>: \<open>json.loads\<close> of the standard
    library, which reads back what \<open>json.dumps\<close> prints.
  \<^item> \<open>PatchPaths\<close>, \<open>WorkRoot\<close>, \<open>PatchTools\<close>, \<open>FinalCapture\<close>: \<open>openai_agent.py\<close> and the two atomic
    operations of \<open>sandbox.py\<close>: the paths that a patch declares; the work root, promotion markers, their
    classification and reconciliation, the sweep of remnants; \<open>_apply_patch\<close> with the journal, the
    marker, the exchange of the two directories and its undo; the final capture.
    \<open>PromotionRules\<close>, \<open>PromotionPhases\<close>, \<open>PromotionRecovery\<close>, \<open>PromotionSafety\<close>,
    \<open>PromotionProps\<close>: what holds of them under failures and crashes.
  \<^item> \<open>WorkspaceTools\<close>, \<open>WorkspaceToolsProps\<close>: the rest of \<open>WorkspaceTools.execute\<close>: paths, listing and
    reading of files, commands. \<open>TextDecoding\<close>: decoding with replacement characters.
  \<^item> \<open>Signing\<close>, \<open>SigningProps\<close>: \<open>signing.py\<close> and \<open>_authenticate\<close> of \<open>api.py\<close> over the store's nonces: the
    canonical target and message, what a signature binds, and when a request can be used again.
  \<^item> \<open>RecoveryBridge\<close>, \<open>RecoveryBridgeProps\<close>: \<open>failure_recovery/orchestrator_bridge.py\<close>, the wrapper that
    runs the orchestrator with an observed agent and records a recovery decision; \<open>agrees\<close> relates every
    step of the run in the observed environment to the step in the plain one.

  \<^bold>\<open>How state and operations correspond.\<close> A class with state is a record of its attributes; a method is
  a function from its arguments and that record to an \<open>outcome\<close>, \<open>Inl\<close> of the exception or \<open>Inr\<close> of
  the result, paired with the state afterwards (the state at the point of the exception when it
  raises). A dictionary is an association list with Python's insertion order. Locks make every
  method atomic, so concurrency is the interleaving of whole operations: a \<open>state_machine\<close> whose
  steps are all operations with all arguments, and its reachable states.

  \<^bold>\<open>Conventions.\<close> Strings are lists of characters below code point 256 (the model restricts the text
  there, and counts UTF-8 bytes where the code does); integers are \<open>int\<close>, and the fields of a ZIP
  header are words of their width; times are rational numbers. SHA-256 and HMAC, clocks, fresh
  identifiers, random bytes, the iteration order of a Python set, and all callables that the code
  receives are parameters; where a property needs that a digest has no collision it says so.
  \<open>isinstance\<close> checks hold by typing, except where the code receives arbitrary JSON, which is a
  \<open>PyValue\<close>; deep copies are the identity on values. Text that goes into evidence is represented by
  its UTF-8 bytes, because the code decodes, cuts and digests it as bytes. The collaborators of the
  orchestrator are functions of an environment and the job store; what other threads do to the
  store between two of its calls is a parameter as well. The model service, the tools and \<open>json.loads\<close>
  are functions of the environment of the agent loop.

  \<^bold>\<open>Failures and crashes.\<close> The work root is a directory: a map from names to nodes with their
  metadata. Every access to it is a step with a number, and the schedule \<open>dc_fault\<close> says whether the
  access works, fails with an operating system error, or is where the process dies; a failing
  operation may have taken effect or not, and a recursive removal may stop anywhere. A crash is an
  outcome of its own that runs no handler and no \<open>finally\<close>. The file lock excludes other processes, so
  that recoveries follow one another. The state of a promotion is one of a few phases
  (\<open>PromotionPhases\<close>); \<open>yields\<close> is a triple with a postcondition for results and one for exceptions and
  crashes, with one rule for each way in which the code combines operations.

  \<^bold>\<open>Lemma groups.\<close> Each \<open>...Inv\<close> theory states the invariant of a store and that every operation
  preserves it; each \<open>...Machine\<close> theory lists the effects an operation can have and interprets the
  locales of the prelude (\<open>state_machine\<close>, fenced leases) on the store, so that the properties of
  reachable states follow by the locale's induction rules; the \<open>...Props\<close> theories hold the
  properties and a closed instance of each one. \<open>RecoveryHistory\<close> relates the SQLite and the
  in-memory history by a simulation.

  \<^bold>\<open>Bounds.\<close> Recursion is structural or over a list. The only fuel is the depth of \<open>JsonLoads\<close>, twice the
  length of the text and one, which the round trip with \<open>dumps\<close> shows to be enough; the sixteen
  attempts for a temporary marker are those of the code. The loops of the code that
  are not structural (\<open>visit\<close> over a directory tree, \<open>poll_jobs\<close> over the free slots of the runner, the scanners
  \<open>is_utf8\<close>, \<open>split_lines\<close>, \<open>skip_spaces\<close>, \<open>token_run\<close>, \<open>decode_prefix\<close> over text, \<open>search_preview\<close>,
  \<open>hunk_lines\<close>, \<open>file_hunks\<close>, \<open>declare_files\<close>, \<open>decode_replace\<close>, \<open>unquote\<close>, \<open>entries_below\<close>) are total
  functions with a measure.

  \<^bold>\<open>Not modelled.\<close> PostgreSQL stores (SQL statements of a server; planned as a refinement of the
  in-memory stores), the HTTP routes (the rest of \<open>api.py\<close>, \<open>test_world_api.py\<close>, \<open>main.py\<close>), the sandbox itself
  (Podman) and runtime probes, the order in which writes reach the disk when the machine loses power,
  Git and GitHub access, the project memory service, deployment and operations scripts (I/O against a host), and the TypeScript front
  end, the skill forge and the lock file of pinned images.
\<close>

end
